(* ===== verification/NM_Prelude.thy ===== *)
theory NM_Prelude
  imports Main "HOL-Library.Word"
begin

text \<open>
  Shared vocabulary of the NeuMan development: machine integers, the byte view of Rust
  strings, fallible computations (\<open>Result\<close> as a sum, \<open>?\<close> as \<open>bindE\<close>), the JSON values
  that cross component boundaries, and the interface locales of the library.

  A Rust \<open>String\<close> is UTF-8, and the code only ever asks for its length in bytes and for
  single bytes, so it is modelled as a list of 8-bit characters.
\<close>

unbundle bit_operations_syntax

type_synonym u8 = "8 word"
type_synonym u16 = "16 word"
type_synonym u32 = "32 word"
type_synonym u64 = "64 word"

named_theorems result_simps \<open>inversion of fallible computations\<close>

section \<open>Fallible computations\<close>

definition bindE :: "'e + 'a \<Rightarrow> ('a \<Rightarrow> 'e + 'b) \<Rightarrow> 'e + 'b" where
  "bindE m f = (case m of Inl e \<Rightarrow> Inl e | Inr x \<Rightarrow> f x)"

definition mapE :: "('e \<Rightarrow> 'f) \<Rightarrow> 'e + 'a \<Rightarrow> 'f + 'a" where
  "mapE g m = (case m of Inl e \<Rightarrow> Inl (g e) | Inr x \<Rightarrow> Inr x)"

definition guardE :: "bool \<Rightarrow> 'e \<Rightarrow> 'e + unit" where
  "guardE ok e = (if ok then Inr () else Inl e)"

definition ok_or :: "'a option \<Rightarrow> 'e \<Rightarrow> 'e + 'a" where
  "ok_or x e = (case x of None \<Rightarrow> Inl e | Some y \<Rightarrow> Inr y)"

primrec is_ok :: "'e + 'a \<Rightarrow> bool" where
  "is_ok (Inl e) = False"
| "is_ok (Inr x) = True"

primrec traverseE :: "('a \<Rightarrow> 'e + unit) \<Rightarrow> 'a list \<Rightarrow> 'e + unit" where
  "traverseE f [] = Inr ()"
| "traverseE f (x # xs) = bindE (f x) (\<lambda>_. traverseE f xs)"

text \<open>\<open>collect\<close> into a \<open>Result\<close> of a vector: the first error wins.\<close>

primrec collectE :: "('a \<Rightarrow> 'e + 'b) \<Rightarrow> 'a list \<Rightarrow> 'e + 'b list" where
  "collectE f [] = Inr []"
| "collectE f (x # xs) = bindE (f x) (\<lambda>y. bindE (collectE f xs) (\<lambda>ys. Inr (y # ys)))"

lemma bindE_simps [simp]:
  "bindE (Inl e) f = Inl e"
  "bindE (Inr x) f = f x"
  by (simp_all add: bindE_def)

lemma mapE_simps [simp]:
  "mapE g (Inl e) = Inl (g e)"
  "mapE g (Inr x) = Inr x"
  by (simp_all add: mapE_def)

lemma guardE_simps [simp]:
  "guardE True e = Inr ()"
  "guardE False e = Inl e"
  by (simp_all add: guardE_def)

lemma ok_or_simps [simp]:
  "ok_or None e = Inl e"
  "ok_or (Some x) e = Inr x"
  by (simp_all add: ok_or_def)

lemma bindE_eq_Inr [result_simps]:
  "bindE m f = Inr y \<longleftrightarrow> (\<exists>x. m = Inr x \<and> f x = Inr y)"
  by (cases m) simp_all

lemma mapE_eq_Inr [result_simps]: "mapE g m = Inr y \<longleftrightarrow> m = Inr y"
  by (cases m) simp_all

lemma guardE_eq_Inr [result_simps]: "guardE b e = Inr u \<longleftrightarrow> b"
  by (simp add: guardE_def)

lemma ok_or_eq_Inr [result_simps]: "ok_or x e = Inr y \<longleftrightarrow> x = Some y"
  by (cases x) simp_all

lemma traverseE_eq_Inr [result_simps]:
  "traverseE f xs = Inr u \<longleftrightarrow> (\<forall>x \<in> set xs. f x = Inr ())"
  by (induction xs) (simp_all add: result_simps)

lemma is_ok_iff: "is_ok m \<longleftrightarrow> (\<exists>x. m = Inr x)"
  by (cases m) simp_all

section \<open>Bytes of a string\<close>

definition byte_val :: "char \<Rightarrow> nat" where
  "byte_val c = of_char c"

definition is_digit :: "char \<Rightarrow> bool" where
  "is_digit c \<longleftrightarrow> 48 \<le> byte_val c \<and> byte_val c \<le> 57"

definition is_lower :: "char \<Rightarrow> bool" where
  "is_lower c \<longleftrightarrow> 97 \<le> byte_val c \<and> byte_val c \<le> 122"

definition is_upper :: "char \<Rightarrow> bool" where
  "is_upper c \<longleftrightarrow> 65 \<le> byte_val c \<and> byte_val c \<le> 90"

definition is_hexdigit :: "char \<Rightarrow> bool" where
  "is_hexdigit c \<longleftrightarrow> is_digit c \<or> 97 \<le> byte_val c \<and> byte_val c \<le> 102
     \<or> 65 \<le> byte_val c \<and> byte_val c \<le> 70"

definition is_alphanumeric :: "char \<Rightarrow> bool" where
  "is_alphanumeric c \<longleftrightarrow> is_digit c \<or> is_lower c \<or> is_upper c"

definition is_graphic :: "char \<Rightarrow> bool" where
  "is_graphic c \<longleftrightarrow> 33 \<le> byte_val c \<and> byte_val c \<le> 126"

definition as_bytes :: "string \<Rightarrow> u8 list" where
  "as_bytes s = map of_char s"

lemma length_as_bytes [simp]: "length (as_bytes s) = length s"
  by (simp add: as_bytes_def)

lemma u8_of_nat_eq: "(of_nat m :: u8) = of_nat n \<longleftrightarrow> m mod 256 = n mod 256"
  using word_unat_eq_iff [of "of_nat m :: u8" "of_nat n"] by (simp add: unat_of_nat)

lemma as_bytes_inj: "as_bytes s = as_bytes t \<Longrightarrow> s = t"
proof -
  have "c = d" if "(of_char c :: u8) = of_char d" for c d :: char
  proof -
    have "(of_nat (of_char c) :: u8) = of_nat (of_char d)"
      using that by (simp only: of_nat_of_char)
    then have "(of_char c :: nat) mod 256 = of_char d mod 256" by (simp only: u8_of_nat_eq)
    moreover have "(of_char x :: nat) mod 256 = of_char x" for x :: char by simp
    ultimately have "(of_char c :: nat) = of_char d" by simp
    then show ?thesis by simp
  qed
  then have "inj (of_char :: char \<Rightarrow> u8)" by (rule injI)
  moreover assume "as_bytes s = as_bytes t"
  ultimately show "s = t" unfolding as_bytes_def by (simp add: inj_map_eq_map)
qed

lemmas ascii_class_defs =
  byte_val_def is_digit_def is_lower_def is_upper_def is_hexdigit_def is_alphanumeric_def
  is_graphic_def

definition starts_with :: "string \<Rightarrow> string \<Rightarrow> bool" where
  "starts_with prefix s \<longleftrightarrow> take (length prefix) s = prefix"

definition strip_prefix :: "string \<Rightarrow> string \<Rightarrow> string option" where
  "strip_prefix prefix s =
     (if starts_with prefix s then Some (drop (length prefix) s) else None)"

lemma starts_with_append [simp]: "starts_with p (p @ s)"
  by (simp add: starts_with_def)

lemma starts_with_iff: "starts_with p s \<longleftrightarrow> (\<exists>r. s = p @ r)"
  unfolding starts_with_def by (metis append_eq_conv_conj append_take_drop_id)

lemma starts_with_simps [simp]:
  "starts_with [] s"
  "\<not> starts_with (c # p) []"
  "starts_with (c # p) (d # s) \<longleftrightarrow> c = d \<and> starts_with p s"
  by (auto simp: starts_with_def)

lemma strip_prefix_simps [simp]:
  "strip_prefix [] s = Some s"
  "strip_prefix (c # p) [] = None"
  "strip_prefix (c # p) (d # s) = (if c = d then strip_prefix p s else None)"
  by (auto simp: strip_prefix_def)

lemma strip_prefix_append [simp]: "strip_prefix p (p @ s) = Some s"
  by (simp add: strip_prefix_def)

lemma strip_prefix_eq_Some: "strip_prefix p s = Some r \<longleftrightarrow> s = p @ r"
  by (auto simp: strip_prefix_def starts_with_iff)

lemma strip_prefix_eq_None: "strip_prefix p s = None \<longleftrightarrow> \<not> starts_with p s"
  by (simp add: strip_prefix_def)

section \<open>Decimal numbers\<close>

definition digit_char :: "nat \<Rightarrow> char" where
  "digit_char d = char_of (48 + d)"

text \<open>\<open>to_string\<close> of an unsigned integer.\<close>

fun decimal :: "nat \<Rightarrow> string" where
  "decimal n = (if n < 10 then [digit_char n] else decimal (n div 10) @ [digit_char (n mod 10)])"

declare decimal.simps [simp del]

text \<open>The number a digit string denotes, most significant digit first.\<close>

definition decimal_value :: "string \<Rightarrow> nat" where
  "decimal_value s = foldl (\<lambda>n c. 10 * n + (byte_val c - 48)) 0 s"

text \<open>\<open>u64::from_str\<close>: an optional plus sign, then digits, below \<open>2 ^ 64\<close>.\<close>

definition parse_u64 :: "string \<Rightarrow> nat option" where
  "parse_u64 s =
     (let digits = (case strip_prefix ''+'' s of Some r \<Rightarrow> r | None \<Rightarrow> s)
      in if digits \<noteq> [] \<and> list_all is_digit digits \<and> decimal_value digits < 2 ^ 64
         then Some (decimal_value digits) else None)"

text \<open>\<open>str::split_once\<close>.\<close>

fun split_once :: "char \<Rightarrow> string \<Rightarrow> (string \<times> string) option" where
  "split_once c [] = None"
| "split_once c (x # xs) =
     (if x = c then Some ([], xs)
      else map_option (\<lambda>(a, b). (x # a, b)) (split_once c xs))"

section \<open>JSON values\<close>

datatype json =
    JNull
  | JBool bool
  | JNum int
  | JStr string
  | JArr "json list"
  | JObj "(string \<times> json) list"

fun json_get :: "json \<Rightarrow> string \<Rightarrow> json option" where
  "json_get (JObj fields) k = map_of fields k"
| "json_get _ k = None"

fun json_str :: "json \<Rightarrow> string option" where
  "json_str (JStr s) = Some s"
| "json_str _ = None"

fun json_u64 :: "json \<Rightarrow> nat option" where
  "json_u64 (JNum i) = (if 0 \<le> i \<and> i < 2 ^ 64 then Some (nat i) else None)"
| "json_u64 _ = None"

fun json_arr :: "json \<Rightarrow> json list option" where
  "json_arr (JArr xs) = Some xs"
| "json_arr _ = None"

definition json_get_str :: "json \<Rightarrow> string \<Rightarrow> string option" where
  "json_get_str v k = Option.bind (json_get v k) json_str"

definition json_get_u64 :: "json \<Rightarrow> string \<Rightarrow> nat option" where
  "json_get_u64 v k = Option.bind (json_get v k) json_u64"

section \<open>Interfaces\<close>

text \<open>
  A validated text type: what is printed parses back, and a text that parses is the one
  that would be printed. Every durable identifier of \<open>domain.rs\<close> promises this.
\<close>

locale canonical_text =
  fixes render :: "'a \<Rightarrow> string"
    and parse :: "string \<Rightarrow> 'e + 'a"
    and valid :: "'a \<Rightarrow> bool"
  assumes parse_render: "valid x \<Longrightarrow> parse (render x) = Inr x"
    and parse_sound: "parse s = Inr x \<Longrightarrow> valid x \<and> render x = s"
begin

lemma render_inj:
  assumes "valid x" and "valid y" and "render x = render y"
  shows "x = y"
proof -
  have "Inr x = parse (render x)" using assms(1) by (rule parse_render [symmetric])
  also have "\<dots> = Inr y" unfolding assms(3) using assms(2) by (rule parse_render)
  finally show ?thesis by (rule sum.inject(2) [THEN iffD1])
qed

lemma parse_inj:
  assumes "parse s = Inr x" and "parse t = Inr x"
  shows "s = t"
proof -
  have s: "render x = s" using parse_sound [OF assms(1)] by (rule conjunct2)
  have t: "render x = t" using parse_sound [OF assms(2)] by (rule conjunct2)
  show ?thesis unfolding s [symmetric] by (rule t)
qed

lemma parse_iff: "parse s = Inr x \<longleftrightarrow> valid x \<and> s = render x"
proof
  assume "parse s = Inr x"
  from parse_sound [OF this] show "valid x \<and> s = render x" by simp
next
  assume "valid x \<and> s = render x"
  then show "parse s = Inr x" by (simp only: parse_render)
qed

end

text \<open>
  A component whose operations keep an invariant, whatever sequence of them runs.
\<close>

locale invariant_steps =
  fixes step :: "'op \<Rightarrow> 's \<Rightarrow> 's"
    and inv :: "'s \<Rightarrow> bool"
  assumes step_inv: "inv s \<Longrightarrow> inv (step op s)"
begin

lemma run_inv: "inv s \<Longrightarrow> inv (fold step ops s)"
  by (induction ops arbitrary: s) (simp_all add: step_inv)

lemma run_inv_append: "inv s \<Longrightarrow> inv (fold step (ops @ ops') s)"
  by (rule run_inv)

end

text \<open>
  In addition, a quantity of the state that no operation decreases.
\<close>

locale monotone_steps = invariant_steps step inv
  for step :: "'op \<Rightarrow> 's \<Rightarrow> 's" and inv :: "'s \<Rightarrow> bool" +
  fixes level :: "'s \<Rightarrow> nat"
  assumes step_level: "inv s \<Longrightarrow> level s \<le> level (step op s)"
begin

lemma run_level: "inv s \<Longrightarrow> level s \<le> level (fold step ops s)"
proof (induction ops arbitrary: s)
  case Nil
  then show ?case by simp
next
  case (Cons op ops)
  have "level s \<le> level (step op s)" using Cons.prems by (rule step_level)
  also have "\<dots> \<le> level (fold step ops (step op s))"
    using Cons.IH Cons.prems by (simp add: step_inv)
  finally show ?case by simp
qed

end

text \<open>
  A component in which every use of something is paid from a budget that the operations
  considered never refill.
\<close>

primrec total_cost :: "('op \<Rightarrow> 's \<Rightarrow> 's) \<Rightarrow> ('op \<Rightarrow> 's \<Rightarrow> nat) \<Rightarrow> 'op list \<Rightarrow> 's \<Rightarrow> nat" where
  "total_cost step cost [] s = 0"
| "total_cost step cost (op # ops) s = cost op s + total_cost step cost ops (step op s)"

locale budgeted_steps =
  fixes step :: "'op \<Rightarrow> 's \<Rightarrow> 's"
    and allowed :: "'op \<Rightarrow> bool"
    and cost :: "'op \<Rightarrow> 's \<Rightarrow> nat"
    and budget :: "'s \<Rightarrow> nat"
  assumes step_budget: "allowed op \<Longrightarrow> cost op s + budget (step op s) \<le> budget s"
begin

lemma total_le_budget: "list_all allowed ops \<Longrightarrow> total_cost step cost ops s \<le> budget s"
proof (induction ops arbitrary: s)
  case Nil
  show ?case by simp
next
  case (Cons op ops)
  have "total_cost step cost ops (step op s) \<le> budget (step op s)" using Cons by simp
  moreover have "cost op s + budget (step op s) \<le> budget s"
    using Cons.prems by (intro step_budget) simp
  ultimately show ?case by simp
qed

end

end
