(* ===== verification/Base32.thy ===== *)
theory Base32
  imports NM_Prelude
begin

text \<open>
  The three base32 encoders of the program (\<open>encode_base32\<close> of \<open>domain.rs\<close> on a
  32-bit buffer that is never masked, \<open>base32_lower\<close> of \<open>bridge.rs\<close> on a masked
  16-bit accumulator, \<open>base32_lower\<close> of \<open>hub.rs\<close> on an unmasked 32-bit one) and the
  decoder of \<open>domain.rs\<close>. All of them are related to one reference: the list of the
  input's bits, most significant first, cut into groups of five.
\<close>

section \<open>The code\<close>

definition BASE32 :: string where
  "BASE32 = ''abcdefghijklmnopqrstuvwxyz234567''"

text \<open>The inner loop \<open>while bits >= 5\<close>; all three encoders have it.\<close>

fun b32_drain :: "'a::len word \<Rightarrow> nat \<Rightarrow> string \<Rightarrow> nat \<times> string" where
  "b32_drain buffer bits out =
     (if 5 \<le> bits
      then b32_drain buffer (bits - 5)
             (out @ [BASE32 ! unat (drop_bit (bits - 5) buffer AND 31)])
      else (bits, out))"

declare b32_drain.simps [simp del]

fun encode_base32_loop :: "u32 \<Rightarrow> nat \<Rightarrow> string \<Rightarrow> u8 list \<Rightarrow> u32 \<times> nat \<times> string" where
  "encode_base32_loop buffer bits out [] = (buffer, bits, out)"
| "encode_base32_loop buffer bits out (byte # bytes) =
     (let buffer' = push_bit 8 buffer OR ucast byte;
          (bits', out') = b32_drain buffer' (bits + 8) out
      in encode_base32_loop buffer' bits' out' bytes)"

definition encode_base32 :: "u8 list \<Rightarrow> string" where
  "encode_base32 bytes =
     (let (buffer, bits, out) = encode_base32_loop 0 0 [] bytes
      in if bits \<noteq> 0 then out @ [BASE32 ! unat (push_bit (5 - bits) buffer AND 31)] else out)"

text \<open>\<open>bridge.rs\<close>: 16 bits, the accumulator masked to the pending bits after each byte.\<close>

fun bridge_base32_loop :: "u16 \<Rightarrow> nat \<Rightarrow> string \<Rightarrow> u8 list \<Rightarrow> u16 \<times> nat \<times> string" where
  "bridge_base32_loop acc bits out [] = (acc, bits, out)"
| "bridge_base32_loop acc bits out (byte # bytes) =
     (let acc' = push_bit 8 acc OR ucast byte;
          (bits', out') = b32_drain acc' (bits + 8) out;
          acc'' = (if bits' = 0 then 0 else acc' AND (push_bit bits' 1 - 1))
      in bridge_base32_loop acc'' bits' out' bytes)"

definition bridge_base32_lower :: "u8 list \<Rightarrow> string" where
  "bridge_base32_lower bytes =
     (let (acc, bits, out) = bridge_base32_loop 0 0 [] bytes
      in if 0 < bits then out @ [BASE32 ! unat (push_bit (5 - bits) acc AND 31)] else out)"

fun hub_base32_loop :: "u32 \<Rightarrow> nat \<Rightarrow> string \<Rightarrow> u8 list \<Rightarrow> u32 \<times> nat \<times> string" where
  "hub_base32_loop acc bits out [] = (acc, bits, out)"
| "hub_base32_loop acc bits out (byte # bytes) =
     (let acc' = push_bit 8 acc OR ucast byte;
          (bits', out') = b32_drain acc' (bits + 8) out
      in hub_base32_loop acc' bits' out' bytes)"

definition hub_base32_lower :: "u8 list \<Rightarrow> string" where
  "hub_base32_lower bytes =
     (let (acc, bits, out) = hub_base32_loop 0 0 [] bytes
      in if 0 < bits then out @ [BASE32 ! unat (push_bit (5 - bits) acc AND 31)] else out)"

text \<open>The match on one character of the decoder.\<close>

definition b32_part :: "char \<Rightarrow> u32 option" where
  "b32_part ch =
     (if is_lower ch then Some (of_nat (byte_val ch - 97))
      else if 50 \<le> byte_val ch \<and> byte_val ch \<le> 55 then Some (of_nat (byte_val ch - 50 + 26))
      else None)"

fun decode_base32_loop :: "u32 \<Rightarrow> nat \<Rightarrow> u8 list \<Rightarrow> string \<Rightarrow> (u32 \<times> nat \<times> u8 list) option" where
  "decode_base32_loop buffer bits out [] = Some (buffer, bits, out)"
| "decode_base32_loop buffer bits out (ch # chs) =
     (case b32_part ch of
        None \<Rightarrow> None
      | Some part \<Rightarrow>
          (let buffer' = push_bit 5 buffer OR part; bits' = bits + 5
           in if 8 \<le> bits'
              then decode_base32_loop buffer' (bits' - 8)
                     (out @ [ucast (drop_bit (bits' - 8) buffer' AND 255)]) chs
              else decode_base32_loop buffer' bits' out chs))"

datatype b32_error = BadAlphabet | NonZeroPadding

definition decode_base32 :: "string \<Rightarrow> b32_error + u8 list" where
  "decode_base32 value =
     (case decode_base32_loop 0 0 [] value of
        None \<Rightarrow> Inl BadAlphabet
      | Some (buffer, bits, out) \<Rightarrow>
          if bits \<noteq> 0 \<and> buffer AND (push_bit bits 1 - 1) \<noteq> 0 then Inl NonZeroPadding
          else Inr out)"

section \<open>Bits of words, bytes and characters\<close>

definition lowbits :: "nat \<Rightarrow> 'a::len word \<Rightarrow> bool list" where
  "lowbits n w = map (bit w) (rev [0..<n])"

definition bits_of :: "u8 list \<Rightarrow> bool list" where
  "bits_of bytes = concat (map (lowbits 8) bytes)"

definition b32_valid :: "string \<Rightarrow> bool" where
  "b32_valid s \<longleftrightarrow> (\<forall>c \<in> set s. b32_part c \<noteq> None)"

definition char_bits :: "char \<Rightarrow> bool list" where
  "char_bits c = (case b32_part c of None \<Rightarrow> [] | Some p \<Rightarrow> lowbits 5 p)"

definition string_bits :: "string \<Rightarrow> bool list" where
  "string_bits s = concat (map char_bits s)"

lemma length_lowbits [simp]: "length (lowbits n w) = n"
  by (simp add: lowbits_def)

lemma lowbits_0 [simp]: "lowbits 0 w = []"
  by (simp add: lowbits_def)

lemma lowbits_nth: "i < n \<Longrightarrow> lowbits n w ! i = bit w (n - Suc i)"
  by (simp add: lowbits_def rev_nth)

lemma lowbits_eq_iff:
  "lowbits n v = lowbits n w \<longleftrightarrow> (\<forall>i<n. bit v i = bit w i)"
  by (auto simp: lowbits_def)

lemma lowbits_append: "lowbits (m + k) w = lowbits m (drop_bit k w) @ lowbits k w"
  by (rule nth_equalityI)
    (auto simp: lowbits_nth nth_append bit_drop_bit_eq intro!: arg_cong [where f = "bit w"])

lemma lowbits_zero: "lowbits n 0 = replicate n False"
  by (rule nth_equalityI) (simp_all add: lowbits_nth)

lemma lowbits_eq_replicate:
  "lowbits n w = replicate n False \<longleftrightarrow> (\<forall>i<n. \<not> bit w i)"
  using lowbits_eq_iff [of n w 0] by (simp add: lowbits_zero)

lemma bits_of_simps [simp]:
  "bits_of [] = []"
  "bits_of (b # bs) = lowbits 8 b @ bits_of bs"
  "bits_of (bs @ cs) = bits_of bs @ bits_of cs"
  by (simp_all add: bits_of_def)

lemma length_bits_of [simp]: "length (bits_of bs) = 8 * length bs"
  by (induction bs) simp_all

lemma string_bits_simps [simp]:
  "string_bits [] = []"
  "string_bits (c # s) = char_bits c @ string_bits s"
  "string_bits (s @ t) = string_bits s @ string_bits t"
  by (simp_all add: string_bits_def)

lemma b32_valid_simps [simp]:
  "b32_valid []"
  "b32_valid (c # s) \<longleftrightarrow> b32_part c \<noteq> None \<and> b32_valid s"
  "b32_valid (s @ t) \<longleftrightarrow> b32_valid s \<and> b32_valid t"
  by (auto simp: b32_valid_def)

lemma length_char_bits: "b32_part c \<noteq> None \<Longrightarrow> length (char_bits c) = 5"
  by (auto simp: char_bits_def)

lemma length_string_bits: "b32_valid s \<Longrightarrow> length (string_bits s) = 5 * length s"
  by (induction s) (auto simp: length_char_bits)

lemma lowbits_8_inj:
  fixes v w :: u8
  shows "lowbits 8 v = lowbits 8 w \<Longrightarrow> v = w"
  by (rule bit_word_eqI) (auto simp: lowbits_eq_iff)

lemma bits_of_inj: "bits_of xs = bits_of ys \<Longrightarrow> xs = ys"
proof (induction xs arbitrary: ys)
  case Nil
  then have "length (bits_of ys) = 0" by (metis bits_of_simps(1) list.size(3))
  then show ?case by simp
next
  case (Cons x xs)
  have "length (bits_of ys) = 8 * Suc (length xs)"
    unfolding Cons.prems [symmetric] by simp
  then obtain y ys' where ys: "ys = y # ys'" by (cases ys) auto
  with Cons.prems have "lowbits 8 x = lowbits 8 y" and "bits_of xs = bits_of ys'"
    by simp_all
  with Cons.IH ys show ?case by (simp add: lowbits_8_inj)
qed

section \<open>The alphabet\<close>

lemma b32_part_alphabet_all:
  "list_all (\<lambda>i. b32_part (BASE32 ! i) = Some (of_nat i)) [0..<32]"
  by (code_simp)

lemma b32_part_alphabet: "i < 32 \<Longrightarrow> b32_part (BASE32 ! i) = Some (of_nat i)"
  using b32_part_alphabet_all by (simp add: list_all_iff)

lemma b32_part_cases:
  assumes "b32_part c = Some p"
  obtains k where "k < 32" and "p = of_nat k"
    and "byte_val c = (if k < 26 then k + 97 else k + 24)"
proof (cases "is_lower c")
  case True
  with assms have "p = of_nat (byte_val c - 97)" by (simp only: b32_part_def if_True option.inject)
  with True show thesis by (intro that [of "byte_val c - 97"]) (auto simp: is_lower_def)
next
  case False
  with assms have c: "50 \<le> byte_val c \<and> byte_val c \<le> 55"
    by (auto simp: b32_part_def split: if_splits)
  with False assms have "p = of_nat (byte_val c - 50 + 26)"
    by (simp only: b32_part_def if_False if_True simp_thms option.inject)
  with c show thesis by (intro that [of "byte_val c - 50 + 26"]) auto
qed

lemma b32_part_bound:
  assumes "b32_part c = Some p"
  shows "unat p < 32"
proof -
  obtain k where "k < 32" and "p = of_nat k" using assms by (rule b32_part_cases)
  then show ?thesis by (simp add: unat_of_nat)
qed

lemma b32_part_inj:
  assumes "b32_part c = Some p" and "b32_part d = Some p"
  shows "c = d"
proof -
  obtain k where k: "k < 32" "p = of_nat k" "byte_val c = (if k < 26 then k + 97 else k + 24)"
    using assms(1) by (rule b32_part_cases)
  obtain l where l: "l < 32" "p = of_nat l" "byte_val d = (if l < 26 then l + 97 else l + 24)"
    using assms(2) by (rule b32_part_cases)
  have "unat (of_nat k :: u32) = unat (of_nat l :: u32)" using k(2) l(2) by simp
  then have "k = l" using k(1) l(1) by (simp add: unat_of_nat)
  with k l have "byte_val c = byte_val d" by simp
  then show ?thesis by (simp add: byte_val_def)
qed

lemma small_word_bits:
  fixes p :: "'a::len word"
  assumes "unat p < 2 ^ k" and "k \<le> i"
  shows "\<not> bit p i"
proof -
  have "unat p < 2 ^ i" using assms by (meson less_le_trans one_le_numeral power_increasing)
  then have "\<not> bit (unat p) i" by (simp add: bit_iff_odd)
  then show ?thesis by (simp add: bit_unsigned_iff)
qed

section \<open>Each emitted character carries five bits\<close>

lemma low5_bits:
  fixes w :: "'a::len word"
  assumes "5 \<le> LENGTH('a)"
  shows "lowbits 5 (of_nat (unat (w AND 31)) :: u32) = lowbits 5 w"
proof -
  have mask: "w AND 31 = take_bit 5 w"
    by (simp add: take_bit_eq_mask mask_eq_exp_minus_1)
  have "of_nat (unat (w AND 31)) = (ucast (w AND 31) :: u32)" by simp
  then show ?thesis
    using assms by (auto simp: lowbits_eq_iff mask bit_simps)
qed

lemma emit_bits:
  fixes w :: "'a::len word"
  assumes "5 \<le> LENGTH('a)"
  shows "b32_part (BASE32 ! unat (w AND 31)) \<noteq> None
    \<and> char_bits (BASE32 ! unat (w AND 31)) = lowbits 5 w"
proof -
  have "w AND 31 = take_bit 5 w"
    by (simp add: take_bit_eq_mask mask_eq_exp_minus_1)
  then have "unat (w AND 31) < 2 ^ 5" by (simp add: unsigned_take_bit_eq del: power_numeral)
  then have "b32_part (BASE32 ! unat (w AND 31)) = Some (of_nat (unat (w AND 31)))"
    by (intro b32_part_alphabet) simp
  then show ?thesis using low5_bits [OF assms] by (simp only: char_bits_def option.case) simp
qed

lemma b32_drain_spec:
  fixes buffer :: "'a::len word"
  assumes "5 \<le> LENGTH('a)"
  shows "\<exists>s. b32_drain buffer bits out = (bits mod 5, out @ s) \<and> b32_valid s
    \<and> string_bits s @ lowbits (bits mod 5) buffer = lowbits bits buffer"
proof (induction buffer bits out rule: b32_drain.induct)
  case (1 buffer bits out)
  show ?case
  proof (cases "5 \<le> bits")
    case True
    let ?c = "BASE32 ! unat (drop_bit (bits - 5) buffer AND 31)"
    obtain s where s: "b32_drain buffer (bits - 5) (out @ [?c]) = ((bits - 5) mod 5, (out @ [?c]) @ s)"
      "b32_valid s" "string_bits s @ lowbits ((bits - 5) mod 5) buffer = lowbits (bits - 5) buffer"
      using "1.IH" True by blast
    have c: "b32_part ?c \<noteq> None" "char_bits ?c = lowbits 5 (drop_bit (bits - 5) buffer)"
      using emit_bits [OF assms, of "drop_bit (bits - 5) buffer"] by auto
    have "lowbits bits buffer = lowbits 5 (drop_bit (bits - 5) buffer) @ lowbits (bits - 5) buffer"
      using lowbits_append [of 5 "bits - 5" buffer] True by simp
    moreover have "(bits - 5) mod 5 = bits mod 5" using True by (simp add: le_mod_geq)
    ultimately show ?thesis
      using s c True by (intro exI [of _ "?c # s"]) (simp add: b32_drain.simps [of buffer bits])
  next
    case False
    then show ?thesis by (intro exI [of _ "[]"]) (simp add: b32_drain.simps [of buffer bits])
  qed
qed

lemma push_byte_bits:
  fixes buffer :: "'a::len word" and byte :: u8
  assumes "n + 8 \<le> LENGTH('a)"
  shows "lowbits (n + 8) (push_bit 8 buffer OR ucast byte) = lowbits n buffer @ lowbits 8 byte"
proof -
  have byte: "bit byte i \<Longrightarrow> i < 8" for i using bit_imp_le_length [of byte i] by simp
  have "lowbits n (drop_bit 8 (push_bit 8 buffer OR ucast byte)) = lowbits n buffer"
    using assms by (auto simp: lowbits_eq_iff bit_simps dest: byte)
  moreover have "lowbits 8 (push_bit 8 buffer OR ucast byte :: 'a word) = lowbits 8 byte"
    using assms by (auto simp: lowbits_eq_iff bit_simps)
  ultimately show ?thesis by (simp only: lowbits_append)
qed

lemma final_bits:
  fixes buffer :: "'a::len word"
  assumes "bits < 5" and "5 \<le> LENGTH('a)"
  shows "lowbits 5 (push_bit (5 - bits) buffer) = lowbits bits buffer @ replicate (5 - bits) False"
proof -
  have "lowbits (bits + (5 - bits)) (push_bit (5 - bits) buffer)
      = lowbits bits (drop_bit (5 - bits) (push_bit (5 - bits) buffer))
        @ lowbits (5 - bits) (push_bit (5 - bits) buffer)"
    by (rule lowbits_append)
  moreover have "lowbits bits (drop_bit (5 - bits) (push_bit (5 - bits) buffer)) = lowbits bits buffer"
    using assms by (auto simp: lowbits_eq_iff bit_simps)
  moreover have "lowbits (5 - bits) (push_bit (5 - bits) buffer) = replicate (5 - bits) False"
    by (auto simp: lowbits_eq_replicate bit_simps)
  ultimately show ?thesis using assms by simp
qed

section \<open>The loops\<close>

text \<open>What every encoder produces: characters that spell the input's bits and a zero pad.\<close>

definition b32_spells :: "string \<Rightarrow> u8 list \<Rightarrow> bool" where
  "b32_spells s bytes \<longleftrightarrow> b32_valid s
     \<and> string_bits s = bits_of bytes @ replicate ((5 - 8 * length bytes mod 5) mod 5) False"

lemma loop_len:
  fixes a n :: nat
  shows "((a + 8) mod 5 + 8 * n) mod 5 = (a + 8 * Suc n) mod 5"
  by presburger

lemma encode_base32_loop_spec:
  assumes "bits < 5"
  shows "\<exists>buffer' s. encode_base32_loop buffer bits out bytes
      = (buffer', (bits + 8 * length bytes) mod 5, out @ s) \<and> b32_valid s
    \<and> string_bits s @ lowbits ((bits + 8 * length bytes) mod 5) buffer'
      = lowbits bits buffer @ bits_of bytes"
  using assms
proof (induction bytes arbitrary: buffer bits out)
  case Nil
  then show ?case by simp
next
  case (Cons byte bytes)
  let ?b = "push_bit 8 buffer OR ucast byte :: u32"
  obtain s where s: "b32_drain ?b (bits + 8) out = ((bits + 8) mod 5, out @ s)" "b32_valid s"
    "string_bits s @ lowbits ((bits + 8) mod 5) ?b = lowbits (bits + 8) ?b"
    using b32_drain_spec [of ?b "bits + 8" out] by auto
  obtain b t where t: "encode_base32_loop ?b ((bits + 8) mod 5) (out @ s) bytes
      = (b, ((bits + 8) mod 5 + 8 * length bytes) mod 5, (out @ s) @ t)" "b32_valid t"
    "string_bits t @ lowbits (((bits + 8) mod 5 + 8 * length bytes) mod 5) b
      = lowbits ((bits + 8) mod 5) ?b @ bits_of bytes"
    using Cons.IH [of "(bits + 8) mod 5" ?b "out @ s"] by auto
  have len: "((bits + 8) mod 5 + 8 * length bytes) mod 5
      = (bits + 8 * length (byte # bytes)) mod 5"
    by (simp only: list.size add_Suc_right add_0_right loop_len)
  have "lowbits (bits + 8) ?b = lowbits bits buffer @ lowbits 8 byte"
    using Cons.prems by (intro push_byte_bits) simp
  then have "string_bits (s @ t) @ lowbits ((bits + 8 * length (byte # bytes)) mod 5) b
      = lowbits bits buffer @ bits_of (byte # bytes)"
    using s(3) t(3) unfolding len by simp
  then show ?case using s t unfolding len by (auto simp: Let_def)
qed

lemma hub_loop_eq: "hub_base32_loop acc bits out bytes = encode_base32_loop acc bits out bytes"
  by (induction bytes arbitrary: acc bits out) (simp_all add: Let_def split: prod.split)

lemma mask_lowbits: "lowbits n (acc AND (push_bit n 1 - 1)) = lowbits n acc"
  by (auto simp: lowbits_eq_iff push_bit_eq_mult mask_eq_exp_minus_1 [symmetric] bit_simps
      dest: bit_imp_le_length)

lemma bridge_base32_loop_spec:
  assumes "bits < 5"
  shows "\<exists>acc' s. bridge_base32_loop acc bits out bytes
      = (acc', (bits + 8 * length bytes) mod 5, out @ s) \<and> b32_valid s
    \<and> string_bits s @ lowbits ((bits + 8 * length bytes) mod 5) acc'
      = lowbits bits acc @ bits_of bytes"
  using assms
proof (induction bytes arbitrary: acc bits out)
  case Nil
  then show ?case by simp
next
  case (Cons byte bytes)
  let ?a = "push_bit 8 acc OR ucast byte :: u16"
  let ?n = "(bits + 8) mod 5"
  let ?m = "if ?n = 0 then 0 else ?a AND (push_bit ?n 1 - 1)"
  obtain s where s: "b32_drain ?a (bits + 8) out = (?n, out @ s)" "b32_valid s"
    "string_bits s @ lowbits ?n ?a = lowbits (bits + 8) ?a"
    using b32_drain_spec [of ?a "bits + 8" out] by auto
  have masked: "lowbits ?n ?m = lowbits ?n ?a"
    by (cases "?n = 0") (simp_all only: if_True if_False lowbits_0 mask_lowbits)
  obtain b t where t: "bridge_base32_loop ?m ?n (out @ s) bytes
      = (b, (?n + 8 * length bytes) mod 5, (out @ s) @ t)" "b32_valid t"
    "string_bits t @ lowbits ((?n + 8 * length bytes) mod 5) b = lowbits ?n ?m @ bits_of bytes"
    using Cons.IH [of ?n ?m "out @ s"] by auto
  have len: "(?n + 8 * length bytes) mod 5 = (bits + 8 * length (byte # bytes)) mod 5"
    by (simp only: list.size add_Suc_right add_0_right loop_len)
  have "lowbits (bits + 8) ?a = lowbits bits acc @ lowbits 8 byte"
    using Cons.prems by (intro push_byte_bits) simp
  then have bits: "string_bits (s @ t) @ lowbits ((bits + 8 * length (byte # bytes)) mod 5) b
      = lowbits bits acc @ bits_of (byte # bytes)"
    using s(3) t(3) unfolding len masked by simp
  have "bridge_base32_loop acc bits out (byte # bytes) = bridge_base32_loop ?m ?n (out @ s) bytes"
    using s(1) by (simp only: bridge_base32_loop.simps Let_def prod.case)
  then show ?case using s(2) t(1,2) bits unfolding len by auto
qed

lemma encode_finish:
  fixes buffer :: "'a::len word"
  assumes "5 \<le> LENGTH('a)" and "bits = 8 * length bytes mod 5" and "b32_valid s"
    and "string_bits s @ lowbits bits buffer = bits_of bytes"
  shows "b32_spells (if 0 < bits then s @ [BASE32 ! unat (push_bit (5 - bits) buffer AND 31)] else s)
    bytes"
proof (cases "0 < bits")
  case True
  let ?c = "BASE32 ! unat (push_bit (5 - bits) buffer AND 31)"
  have "bits < 5" using assms(2) by simp
  then have "char_bits ?c = lowbits bits buffer @ replicate (5 - bits) False"
    using emit_bits [OF assms(1), of "push_bit (5 - bits) buffer"] final_bits [OF _ assms(1)] by simp
  moreover have "b32_part ?c \<noteq> None"
    using emit_bits [OF assms(1), of "push_bit (5 - bits) buffer"] by simp
  ultimately show ?thesis
    using True assms(2-4) \<open>bits < 5\<close> by (simp add: b32_spells_def flip: append.assoc)
next
  case False
  then show ?thesis using assms(2-4) by (simp add: b32_spells_def)
qed

lemma encode_base32_spells: "b32_spells (encode_base32 bytes) bytes"
proof -
  obtain b s where "encode_base32_loop 0 0 [] bytes = (b, 8 * length bytes mod 5, s)"
    "b32_valid s" "string_bits s @ lowbits (8 * length bytes mod 5) b = bits_of bytes"
    using encode_base32_loop_spec [of 0 0 "[]" bytes] by auto
  then show ?thesis
    using encode_finish [of "8 * length bytes mod 5" bytes s b] by (simp add: encode_base32_def)
qed

lemma hub_base32_lower_eq: "hub_base32_lower = encode_base32"
  by (rule ext) (simp add: hub_base32_lower_def encode_base32_def hub_loop_eq split: prod.split)

lemma bridge_base32_lower_spells: "b32_spells (bridge_base32_lower bytes) bytes"
proof -
  obtain b s where "bridge_base32_loop 0 0 [] bytes = (b, 8 * length bytes mod 5, s)"
    "b32_valid s" "string_bits s @ lowbits (8 * length bytes mod 5) b = bits_of bytes"
    using bridge_base32_loop_spec [of 0 0 "[]" bytes] by auto
  then show ?thesis
    using encode_finish [of "8 * length bytes mod 5" bytes s b] by (simp add: bridge_base32_lower_def)
qed

lemma char_bits_inj:
  assumes "b32_part c \<noteq> None" and "b32_part d \<noteq> None" and "char_bits c = char_bits d"
  shows "c = d"
proof -
  obtain p q where p: "b32_part c = Some p" and q: "b32_part d = Some q" using assms by auto
  have "bit p i = bit q i" for i
  proof (cases "i < 5")
    case True
    then show ?thesis using assms(3) p q by (simp add: char_bits_def lowbits_eq_iff)
  next
    case False
    then show ?thesis
      using small_word_bits [of p 5 i] small_word_bits [of q 5 i] b32_part_bound [OF p]
        b32_part_bound [OF q] by simp
  qed
  then have "p = q" by (simp add: bit_eq_iff)
  with p q show ?thesis by (simp add: b32_part_inj)
qed

lemma string_bits_inj:
  "b32_valid s \<Longrightarrow> b32_valid t \<Longrightarrow> string_bits s = string_bits t \<Longrightarrow> s = t"
proof (induction s arbitrary: t)
  case Nil
  then show ?case using length_string_bits [of t] by simp
next
  case (Cons c s)
  have "length (string_bits t) = 5 * Suc (length s)"
    using length_string_bits [OF Cons.prems(1)] by (simp only: Cons.prems(3)) simp
  then obtain d t' where t: "t = d # t'"
    using length_string_bits [of t] Cons.prems by (cases t) auto
  have "char_bits c = char_bits d \<and> string_bits s = string_bits t'"
    using Cons.prems t length_char_bits by simp
  with Cons t show ?case by (simp add: char_bits_inj)
qed

lemma b32_spells_unique: "b32_spells s bytes \<Longrightarrow> b32_spells t bytes \<Longrightarrow> s = t"
  by (simp add: b32_spells_def string_bits_inj)

section \<open>The decoder\<close>

lemma push_part_bits:
  fixes buffer part :: u32
  assumes "n < 8" and "unat part < 32"
  shows "lowbits (n + 5) (push_bit 5 buffer OR part) = lowbits n buffer @ lowbits 5 part"
proof -
  have part: "\<not> bit part (5 + i)" for i using assms(2) by (intro small_word_bits [where k = 5]) auto
  have "lowbits n (drop_bit 5 (push_bit 5 buffer OR part)) = lowbits n buffer"
    using assms part by (auto simp: lowbits_eq_iff bit_simps)
  moreover have "lowbits 5 (push_bit 5 buffer OR part) = lowbits 5 part"
    by (auto simp: lowbits_eq_iff bit_simps)
  ultimately show ?thesis by (simp only: lowbits_append)
qed

lemma out_byte_bits:
  fixes w :: u32
  shows "lowbits 8 (ucast (w AND 255) :: u8) = lowbits 8 w"
proof -
  have "w AND 255 = take_bit 8 w" by (simp add: take_bit_eq_mask mask_eq_exp_minus_1)
  then show ?thesis by (auto simp: lowbits_eq_iff bit_simps)
qed

lemma decode_base32_loop_spec:
  assumes "bits < 8" and "b32_valid s"
  shows "\<exists>buffer' bits' r. decode_base32_loop buffer bits out s = Some (buffer', bits', out @ r)
    \<and> bits' < 8 \<and> bits_of r @ lowbits bits' buffer' = lowbits bits buffer @ string_bits s"
  using assms
proof (induction s arbitrary: buffer bits out)
  case Nil
  then show ?case by simp
next
  case (Cons c s)
  obtain p where p: "b32_part c = Some p" using Cons.prems by auto
  let ?b = "push_bit 5 buffer OR p"
  have push: "lowbits (bits + 5) ?b = lowbits bits buffer @ char_bits c"
    using push_part_bits [of bits p buffer] Cons.prems b32_part_bound [OF p]
    by (simp add: char_bits_def p)
  show ?case
  proof (cases "8 \<le> bits + 5")
    case True
    let ?k = "bits + 5 - 8"
    have k: "?k < 8" "b32_valid s" using Cons.prems by auto
    let ?o = "ucast (drop_bit ?k ?b AND 255) :: u8"
    obtain b n r' where IH: "decode_base32_loop ?b ?k (out @ [?o]) s = Some (b, n, (out @ [?o]) @ r')"
      "n < 8" "bits_of r' @ lowbits n b = lowbits ?k ?b @ string_bits s"
      using Cons.IH [OF k, of ?b "out @ [?o]"] by blast
    have "lowbits (8 + ?k) ?b = lowbits 8 ?o @ lowbits ?k ?b"
      unfolding lowbits_append [of 8 ?k] by (simp only: out_byte_bits)
    moreover have "8 + ?k = bits + 5" using True by simp
    ultimately have "lowbits 8 ?o @ lowbits ?k ?b = lowbits bits buffer @ char_bits c"
      using push by (simp only:)
    then have "bits_of (?o # r') @ lowbits n b = lowbits bits buffer @ string_bits (c # s)"
      using IH(3) by simp
    then show ?thesis
      using IH(1,2) True by (intro exI [of _ b] exI [of _ n] exI [of _ "?o # r'"]) (simp add: p Let_def)
  next
    case False
    obtain b n r' where IH: "decode_base32_loop ?b (bits + 5) out s = Some (b, n, out @ r')"
      "n < 8" "bits_of r' @ lowbits n b = lowbits (bits + 5) ?b @ string_bits s"
      using Cons.IH [of "bits + 5" ?b out] Cons.prems False by auto
    then show ?thesis using False push by (simp add: p Let_def)
  qed
qed

lemma decode_base32_loop_None: "\<not> b32_valid s \<Longrightarrow> decode_base32_loop buffer bits out s = None"
  by (induction s arbitrary: buffer bits out) (auto simp: Let_def split: option.splits)

lemma masked_zero_iff:
  fixes buffer :: u32
  assumes "bits < 8"
  shows "buffer AND (push_bit bits 1 - 1) = 0 \<longleftrightarrow> lowbits bits buffer = replicate bits False"
proof -
  have "n < 32" if "n < bits" for n using assms that by simp
  then show ?thesis
    by (auto simp: lowbits_eq_replicate bit_eq_iff push_bit_eq_mult mask_eq_exp_minus_1 [symmetric]
        bit_simps)
qed

text \<open>The decoder, exactly: it accepts the spellings of whole bytes followed by zero bits.\<close>

lemma decode_base32_iff:
  "decode_base32 s = Inr bytes \<longleftrightarrow> b32_valid s
     \<and> (\<exists>k<8. string_bits s = bits_of bytes @ replicate k False)"
proof (cases "b32_valid s")
  case False
  then show ?thesis by (simp add: decode_base32_def decode_base32_loop_None)
next
  case True
  obtain b n out where d: "decode_base32_loop 0 0 [] s = Some (b, n, out)" "n < 8"
    "bits_of out @ lowbits n b = string_bits s"
    using decode_base32_loop_spec [OF _ True, of 0 0 "[]"] by auto
  have dec: "decode_base32 s
      = (if lowbits n b = replicate n False then Inr out else Inl NonZeroPadding)"
    using d(1,2) masked_zero_iff [OF d(2), of b] by (auto simp: decode_base32_def)
  show ?thesis
  proof
    assume "decode_base32 s = Inr bytes"
    then show "b32_valid s \<and> (\<exists>k<8. string_bits s = bits_of bytes @ replicate k False)"
      using True d(2,3) by (auto simp: dec split: if_splits)
  next
    assume "b32_valid s \<and> (\<exists>k<8. string_bits s = bits_of bytes @ replicate k False)"
    then obtain k where k: "k < 8" "bits_of bytes @ replicate k False = bits_of out @ lowbits n b"
      using d(3) by auto
    have "8 * length bytes + k = 8 * length out + n"
      using arg_cong [OF k(2), of length] by simp
    then have "k = n \<and> length bytes = length out" using k(1) d(2) by presburger
    with k(2) have "bytes = out" and "lowbits n b = replicate n False"
      by (simp_all add: bits_of_inj)
    then show "decode_base32 s = Inr bytes" by (simp add: dec)
  qed
qed

lemma decode_spelling:
  assumes "b32_spells s bytes"
  shows "decode_base32 s = Inr bytes"
proof -
  have "(5 - 8 * length bytes mod 5) mod 5 < 8"
    by (rule less_trans [OF mod_less_divisor]) simp_all
  with assms show ?thesis unfolding decode_base32_iff b32_spells_def by blast
qed

lemma pad_arith_aux:
  fixes l q r :: nat
  assumes "5 * l = 5 * q + r + (5 - r) mod 5" and "r < 5"
  shows "l = (5 * q + r + 4) div 5"
proof -
  consider "r = 0" | "r = 1" | "r = 2" | "r = 3" | "r = 4" using assms(2) by linarith
  then show ?thesis using assms(1) by cases auto
qed

lemma pad_arith:
  fixes l m :: nat
  assumes "5 * l = m + (5 - m mod 5) mod 5"
  shows "l = (m + 4) div 5"
  using pad_arith_aux [of l "m div 5" "m mod 5"] assms by (simp only: mult_div_mod_eq mod_less_divisor)

lemma length_spelling: "b32_spells s bytes \<Longrightarrow> length s = (8 * length bytes + 4) div 5"
proof -
  assume "b32_spells s bytes"
  then have "5 * length s = 8 * length bytes + (5 - 8 * length bytes mod 5) mod 5"
    using length_string_bits [of s] by (simp add: b32_spells_def)
  then show ?thesis by (rule pad_arith)
qed

text \<open>encoding any bytes and decoding the text gives the bytes back.\<close>

theorem base32_roundtrip: "decode_base32 (encode_base32 bytes) = Inr bytes"
  by (rule decode_spelling) (rule encode_base32_spells)

text \<open>C29: the three independently written encoders (32-bit unmasked, 16-bit masked, hub) agree
  on every input, so that hashes rendered by one component are accepted by the others.\<close>

theorem base32_encoders_agree:
  "bridge_base32_lower bytes = encode_base32 bytes \<and> hub_base32_lower bytes = encode_base32 bytes"
  using b32_spells_unique [OF bridge_base32_lower_spells encode_base32_spells]
  by (simp add: hub_base32_lower_eq)

end
