(* ===== verification/Identity.thy ===== *)
theory Identity
  imports Base32
begin

text \<open>
  The durable identifiers of \<open>domain.rs\<close>: prefixed UUIDs, content hashes, SHA-256 hashes,
  Roblox ids and git object ids, with their printers and validating parsers. The \<open>uuid\<close> and
  \<open>hex\<close> crates are parameters; what the parsers rely on of them is stated as named
  predicates (\<open>uuid_contract\<close>, \<open>hex_contract\<close>).
\<close>

section \<open>Errors\<close>

datatype domain_error =
    InvalidId string string
  | InvalidHash string
  | CanonicalJson string
  | IllegalTransition string string string

section \<open>Prefixed UUID identifiers\<close>

record 'u uuid_lib =
  parse_str :: "string \<Rightarrow> 'u option"
  hyphenated :: "'u \<Rightarrow> string"
  get_version :: "'u \<Rightarrow> nat option"

text \<open>The macro \<open>uuid_v7_id\<close>, over its prefix and label; version 7 is \<open>SortRand\<close>.\<close>

definition uuid_v7_display :: "'u uuid_lib \<Rightarrow> string \<Rightarrow> 'u \<Rightarrow> string" where
  "uuid_v7_display lib prefix u = prefix @ hyphenated lib u"

definition uuid_v7_from_str ::
  "'u uuid_lib \<Rightarrow> string \<Rightarrow> string \<Rightarrow> string \<Rightarrow> domain_error + 'u" where
  "uuid_v7_from_str lib prefix label value =
     (case strip_prefix prefix value of
        None \<Rightarrow> Inl (InvalidId label (''expected prefix '' @ prefix))
      | Some raw \<Rightarrow>
          (case parse_str lib raw of
             None \<Rightarrow> Inl (InvalidId label ''expected lowercase canonical UUID'')
           | Some u \<Rightarrow>
               if get_version lib u \<noteq> Some 7 \<or> value \<noteq> prefix @ hyphenated lib u
               then Inl (InvalidId label ''expected lowercase canonical UUIDv7'')
               else Inr u))"

definition cell_id_display :: "'u uuid_lib \<Rightarrow> 'u \<Rightarrow> string" where
  "cell_id_display lib u = ''cell_'' @ hyphenated lib u"

definition cell_id_from_str :: "'u uuid_lib \<Rightarrow> string \<Rightarrow> domain_error + 'u" where
  "cell_id_from_str lib value =
     (case strip_prefix ''cell_'' value of
        None \<Rightarrow> Inl (InvalidId ''cell ID'' ''expected prefix cell_'')
      | Some raw \<Rightarrow>
          (case parse_str lib raw of
             None \<Rightarrow> Inl (InvalidId ''cell ID'' ''expected UUID'')
           | Some u \<Rightarrow>
               if get_version lib u \<noteq> Some 4 \<or> value \<noteq> ''cell_'' @ hyphenated lib u
               then Inl (InvalidId ''cell ID'' ''expected lowercase canonical UUIDv4'')
               else Inr u))"

text \<open>The crate's documented behaviour: a hyphenated UUID parses back to itself.\<close>

definition uuid_contract :: "'u uuid_lib \<Rightarrow> bool" where
  "uuid_contract lib \<longleftrightarrow> (\<forall>u. parse_str lib (hyphenated lib u) = Some u)"

lemma uuid_v7_from_str_iff:
  assumes "uuid_contract lib"
  shows "uuid_v7_from_str lib prefix label value = Inr u
    \<longleftrightarrow> get_version lib u = Some 7 \<and> value = uuid_v7_display lib prefix u"
proof
  assume "uuid_v7_from_str lib prefix label value = Inr u"
  then show "get_version lib u = Some 7 \<and> value = uuid_v7_display lib prefix u"
    by (auto simp: uuid_v7_from_str_def uuid_v7_display_def split: option.splits if_splits)
next
  assume "get_version lib u = Some 7 \<and> value = uuid_v7_display lib prefix u"
  then show "uuid_v7_from_str lib prefix label value = Inr u"
    using assms by (simp add: uuid_v7_from_str_def uuid_v7_display_def uuid_contract_def)
qed

lemma cell_id_from_str_iff:
  assumes "uuid_contract lib"
  shows "cell_id_from_str lib value = Inr u
    \<longleftrightarrow> get_version lib u = Some 4 \<and> value = cell_id_display lib u"
proof
  assume "cell_id_from_str lib value = Inr u"
  then show "get_version lib u = Some 4 \<and> value = cell_id_display lib u"
    by (auto simp: cell_id_from_str_def cell_id_display_def split: option.splits if_splits)
next
  assume "get_version lib u = Some 4 \<and> value = cell_id_display lib u"
  then show "cell_id_from_str lib value = Inr u"
    using assms by (simp add: cell_id_from_str_def cell_id_display_def uuid_contract_def)
qed

section \<open>Content hashes\<close>

text \<open>A \<open>ContentHash\<close> is an array of 32 bytes.\<close>

type_synonym content_hash = "u8 list"

definition hash32 :: "content_hash \<Rightarrow> bool" where
  "hash32 h \<longleftrightarrow> length h = 32"

definition content_hash_display :: "content_hash \<Rightarrow> string" where
  "content_hash_display h = ''b3-256:'' @ encode_base32 h"

definition content_hash_from_str :: "string \<Rightarrow> domain_error + content_hash" where
  "content_hash_from_str value =
     bindE (ok_or (strip_prefix ''b3-256:'' value) (InvalidHash ''expected b3-256 prefix''))
       (\<lambda>raw. bindE
          (mapE (\<lambda>e. InvalidHash (case e of
                    BadAlphabet \<Rightarrow> ''base32 must be lowercase and unpadded''
                  | NonZeroPadding \<Rightarrow> ''non-zero base32 padding bits''))
                (decode_base32 raw))
          (\<lambda>bytes.
             if length bytes \<noteq> 32 then Inl (InvalidHash ''BLAKE3-256 digest must be 32 bytes'')
             else if value \<noteq> content_hash_display bytes
                  then Inl (InvalidHash ''hash is not canonical lowercase base32'')
                  else Inr bytes))"

lemma content_hash_parse_render:
  "hash32 h \<Longrightarrow> content_hash_from_str (content_hash_display h) = Inr h"
  by (simp add: content_hash_from_str_def content_hash_display_def hash32_def
      decode_spelling [OF encode_base32_spells])

lemma content_hash_parse_sound:
  "content_hash_from_str s = Inr h \<Longrightarrow> hash32 h \<and> content_hash_display h = s"
  by (auto simp: content_hash_from_str_def result_simps hash32_def split: if_splits)

interpretation content_hash: canonical_text content_hash_display content_hash_from_str hash32
  by unfold_locales (rule content_hash_parse_render content_hash_parse_sound; assumption)+

lemma content_hash_display_length: "hash32 h \<Longrightarrow> length (content_hash_display h) = 59"
  using length_spelling [OF encode_base32_spells [of h]]
  by (simp add: content_hash_display_def hash32_def)

section \<open>SHA-256 hashes\<close>

record hex_lib =
  hex_encode :: "u8 list \<Rightarrow> string"
  hex_decode :: "string \<Rightarrow> u8 list option"

definition lower_hex :: "char \<Rightarrow> bool" where
  "lower_hex c \<longleftrightarrow> is_hexdigit c \<and> \<not> is_upper c"

definition sha256_display :: "hex_lib \<Rightarrow> u8 list \<Rightarrow> string" where
  "sha256_display lib h = ''sha256:'' @ hex_encode lib h"

text \<open>
  \<open>copy_from_slice\<close> panics unless the lengths agree; the panic is the value \<open>None\<close> of
  \<open>copy32\<close>, which \<open>sha256_no_panic\<close> shows is never reached.
\<close>

definition copy32 :: "u8 list \<Rightarrow> u8 list option" where
  "copy32 bytes = (if length bytes = 32 then Some bytes else None)"

definition sha256_from_str :: "hex_lib \<Rightarrow> string \<Rightarrow> (domain_error + u8 list) option" where
  "sha256_from_str lib value =
     (case strip_prefix ''sha256:'' value of
        None \<Rightarrow> Some (Inl (InvalidHash ''expected sha256 prefix''))
      | Some raw \<Rightarrow>
          if length raw \<noteq> 64 \<or> \<not> list_all lower_hex raw
          then Some (Inl (InvalidHash ''SHA-256 must be 64 lowercase hexadecimal characters''))
          else (case hex_decode lib raw of
                  None \<Rightarrow> Some (Inl (InvalidHash ''invalid SHA-256 hexadecimal digest''))
                | Some decoded \<Rightarrow> map_option Inr (copy32 decoded)))"

text \<open>
  The \<open>hex\<close> crate as documented: encoding prints two lowercase digits per byte, decoding
  reads two digits per byte and inverts it on lowercase text.
\<close>

definition hex_contract :: "hex_lib \<Rightarrow> bool" where
  "hex_contract lib \<longleftrightarrow>
     (\<forall>h. length (hex_encode lib h) = 2 * length h \<and> list_all lower_hex (hex_encode lib h)
          \<and> hex_decode lib (hex_encode lib h) = Some h)
     \<and> (\<forall>s h. hex_decode lib s = Some h \<longrightarrow> length s = 2 * length h
              \<and> (list_all lower_hex s \<longrightarrow> hex_encode lib h = s))"

lemma sha256_no_panic:
  assumes "hex_contract lib"
  shows "sha256_from_str lib value \<noteq> None"
  using assms
  by (auto simp: sha256_from_str_def copy32_def hex_contract_def split: option.splits)

lemma sha256_from_str_iff:
  assumes "hex_contract lib"
  shows "sha256_from_str lib value = Some (Inr h) \<longleftrightarrow> hash32 h \<and> value = sha256_display lib h"
proof
  assume "sha256_from_str lib value = Some (Inr h)"
  then obtain raw where "strip_prefix ''sha256:'' value = Some raw" "list_all lower_hex raw"
    "hex_decode lib raw = Some h" "length h = 32"
    by (auto simp: sha256_from_str_def copy32_def split: option.splits if_splits)
  then show "hash32 h \<and> value = sha256_display lib h"
    using assms unfolding hex_contract_def strip_prefix_eq_Some hash32_def sha256_display_def
    by metis
next
  assume "hash32 h \<and> value = sha256_display lib h"
  then show "sha256_from_str lib value = Some (Inr h)"
    using assms
    by (auto simp: sha256_from_str_def sha256_display_def copy32_def hash32_def hex_contract_def)
qed

section \<open>Roblox ids and git object ids\<close>

text \<open>Both are validated strings, printed as they are.\<close>

definition roblox_id_from_str :: "string \<Rightarrow> domain_error + string" where
  "roblox_id_from_str value =
     (if value = [] \<or> \<not> list_all is_digit value
         \<or> (1 < length value \<and> starts_with ''0'' value)
      then Inl (InvalidId ''Roblox ID'' ''expected canonical unsigned decimal string'')
      else Inr value)"

definition roblox_id_as_str :: "string \<Rightarrow> string" where
  "roblox_id_as_str value = value"

datatype git_object_format = Sha1 | Sha256

definition git_oid_len :: "git_object_format \<Rightarrow> nat" where
  "git_oid_len format = (case format of Sha1 \<Rightarrow> 40 | Sha256 \<Rightarrow> 64)"

definition git_oid_parse_for :: "git_object_format \<Rightarrow> string \<Rightarrow> domain_error + string" where
  "git_oid_parse_for format value =
     (let expected = git_oid_len format
      in if length value \<noteq> expected \<or> \<not> list_all lower_hex value
         then Inl (InvalidId ''Git OID''
                (''expected '' @ (case format of Sha1 \<Rightarrow> ''40'' | Sha256 \<Rightarrow> ''64'')
                 @ '' lowercase hexadecimal characters''))
         else Inr value)"

definition canonical_decimal :: "string \<Rightarrow> bool" where
  "canonical_decimal s \<longleftrightarrow> s \<noteq> [] \<and> list_all is_digit s \<and> (hd s = CHR ''0'' \<longrightarrow> length s = 1)"

lemma roblox_id_from_str_iff:
  "roblox_id_from_str s = Inr t \<longleftrightarrow> canonical_decimal s \<and> t = s"
  by (cases s) (auto simp: roblox_id_from_str_def canonical_decimal_def starts_with_def)

interpretation roblox_id: canonical_text roblox_id_as_str roblox_id_from_str canonical_decimal
  by unfold_locales (auto simp: roblox_id_from_str_iff roblox_id_as_str_def)

definition oid_ok :: "git_object_format \<Rightarrow> string \<Rightarrow> bool" where
  "oid_ok format s \<longleftrightarrow> length s = git_oid_len format \<and> list_all lower_hex s"

lemma git_oid_parse_for_iff: "git_oid_parse_for f s = Inr t \<longleftrightarrow> oid_ok f s \<and> t = s"
  by (auto simp: git_oid_parse_for_def oid_ok_def Let_def)

interpretation git_oid: canonical_text id "git_oid_parse_for format" "oid_ok format"
  for format
  by unfold_locales (auto simp: git_oid_parse_for_iff)

lemma git_oid_format_disjoint:
  "git_oid_parse_for Sha1 s = Inr t \<Longrightarrow> git_oid_parse_for Sha256 s \<noteq> Inr t'"
  by (auto simp: git_oid_parse_for_iff oid_ok_def git_oid_len_def)

end
