(* ===== verification/ArtState.thy ===== *)
theory ArtState
  imports Identity
begin

text \<open>
  Art revisions of \<open>domain.rs\<close>: the complete cell state, its Merkle root
  (\<open>ArtRevision::compute_state_root\<close>) and the structural validation of a revision. BLAKE3 is
  the parameter \<open>blake3\<close>, applied to the concatenation of a hasher's updates; a \<open>BTreeMap\<close>
  is the list of its entries in key order, as the code iterates it.
\<close>

section \<open>Data\<close>

record 'u art_cell_state =
  cell_id :: 'u
  snapshot_hash :: content_hash
  slot_path :: string

datatype art_revision_status =
  Capturing | Proposed | Validating | ReviewRequired | Accepted | Rejected | Failed | Superseded

record 'u art_revision =
  art_revision_id :: 'u
  project_id :: 'u
  channel_id :: string
  parents :: "'u list"
  cells :: "('u \<times> 'u art_cell_state) list"
  state_root_hash :: content_hash
  author :: string
  message :: string
  created_at :: string
  art_status :: art_revision_status

type_synonym hash_fun = "u8 list \<Rightarrow> u8 list"

definition to_be_bytes :: "nat \<Rightarrow> u8 list" where
  "to_be_bytes n = [of_nat (n div 2 ^ 24), of_nat (n div 2 ^ 16), of_nat (n div 2 ^ 8), of_nat n]"

section \<open>The state root\<close>

definition leaf_message :: "string \<Rightarrow> string \<Rightarrow> u8 list" where
  "leaf_message key val =
     as_bytes ''neuman-art-leaf-v1'' @ [0] @ to_be_bytes (length key) @ as_bytes key
       @ to_be_bytes (length val) @ as_bytes val"

definition node_message :: "u8 list \<Rightarrow> u8 list \<Rightarrow> u8 list" where
  "node_message left right = as_bytes ''neuman-art-node-v1'' @ [0] @ left @ right"

definition art_leaf ::
  "hash_fun \<Rightarrow> 'u uuid_lib \<Rightarrow> 'u \<times> 'u art_cell_state \<Rightarrow> domain_error + u8 list" where
  "art_leaf blake3 lib entry =
     (let (cid, cell) = entry;
          key = ''cell/'' @ cell_id_display lib cid;
          val = content_hash_display (snapshot_hash cell)
      in if cid \<noteq> cell_id cell
         then Inl (InvalidId ''art cell state'' ''map key and embedded CellId differ'')
         else if 2 ^ 32 \<le> length key
         then Inl (InvalidId ''art resource key'' ''key exceeds U32 length'')
         else if 2 ^ 32 \<le> length val
         then Inl (InvalidId ''art resource hash'' ''hash exceeds U32 length'')
         else Inr (blake3 (leaf_message key val)))"

primrec art_leaves ::
  "hash_fun \<Rightarrow> 'u uuid_lib \<Rightarrow> ('u \<times> 'u art_cell_state) list \<Rightarrow> domain_error + u8 list list" where
  "art_leaves blake3 lib [] = Inr []"
| "art_leaves blake3 lib (e # es) =
     bindE (art_leaf blake3 lib e) (\<lambda>l.
       bindE (art_leaves blake3 lib es) (\<lambda>ls. Inr (l # ls)))"

text \<open>One pass of the \<open>while level.len() > 1\<close> loop: \<open>level.chunks(2)\<close>, an odd node promoted.\<close>

fun pair_level :: "('a \<Rightarrow> 'a \<Rightarrow> 'a) \<Rightarrow> 'a list \<Rightarrow> 'a list" where
  "pair_level node [] = []"
| "pair_level node [x] = [x]"
| "pair_level node (x # y # rest) = node x y # pair_level node rest"

lemma length_pair_level: "length (pair_level node level) = (length level + 1) div 2"
  by (induction node level rule: pair_level.induct) auto

function merkle_levels :: "('a \<Rightarrow> 'a \<Rightarrow> 'a) \<Rightarrow> 'a list \<Rightarrow> 'a list" where
  "merkle_levels node level =
     (if 1 < length level then merkle_levels node (pair_level node level) else level)"
  by pat_completeness auto
termination
  by (relation "measure (\<lambda>(node, level). length level)") (auto simp: length_pair_level)

declare merkle_levels.simps [simp del]

definition compute_state_root ::
  "hash_fun \<Rightarrow> 'u uuid_lib \<Rightarrow> ('u \<times> 'u art_cell_state) list \<Rightarrow> domain_error + content_hash" where
  "compute_state_root blake3 lib cs =
     (if cs = [] then Inr (blake3 (as_bytes ''neuman-art-empty-v1'' @ [0]))
      else bindE (art_leaves blake3 lib cs) (\<lambda>level.
             Inr (merkle_levels (\<lambda>l r. blake3 (node_message l r)) level ! 0)))"

definition art_validate ::
  "hash_fun \<Rightarrow> 'u uuid_lib \<Rightarrow> 'u art_revision \<Rightarrow> domain_error + unit" where
  "art_validate blake3 lib revision =
     (if 2 < length (parents revision)
      then Inl (InvalidId ''art parents'' ''at most two parents are allowed'')
      else if channel_id revision = [] \<or> 64 < length (channel_id revision)
      then Inl (InvalidId ''art channel'' ''must be 1..64 characters'')
      else bindE (compute_state_root blake3 lib (cells revision)) (\<lambda>root.
             if root \<noteq> state_root_hash revision
             then Inl (InvalidHash ''art state root does not match cells'')
             else Inr ()))"

section \<open>The reference: a binary tree of resources\<close>

text \<open>
  The root is the hash of a binary tree whose leaves, read from left to right, are the
  (key, value) pairs in key order.
\<close>

datatype 'l mtree = MLeaf 'l | MNode "'l mtree" "'l mtree"

primrec mleaves :: "'l mtree \<Rightarrow> 'l list" where
  "mleaves (MLeaf x) = [x]"
| "mleaves (MNode l r) = mleaves l @ mleaves r"

primrec mhash :: "hash_fun \<Rightarrow> (string \<times> string) mtree \<Rightarrow> u8 list" where
  "mhash blake3 (MLeaf kv) = blake3 (leaf_message (fst kv) (snd kv))"
| "mhash blake3 (MNode l r) = blake3 (node_message (mhash blake3 l) (mhash blake3 r))"

primrec mmessages :: "hash_fun \<Rightarrow> (string \<times> string) mtree \<Rightarrow> u8 list set" where
  "mmessages blake3 (MLeaf kv) = {leaf_message (fst kv) (snd kv)}"
| "mmessages blake3 (MNode l r) =
     insert (node_message (mhash blake3 l) (mhash blake3 r))
       (mmessages blake3 l \<union> mmessages blake3 r)"

definition state_tree :: "(string \<times> string) list \<Rightarrow> (string \<times> string) mtree" where
  "state_tree kvs = merkle_levels MNode (map MLeaf kvs) ! 0"

lemma map_pair_level:
  assumes "\<And>x y. h (f x y) = g (h x) (h y)"
  shows "map h (pair_level f xs) = pair_level g (map h xs)"
  using assms by (induction f xs rule: pair_level.induct) simp_all

lemma map_merkle_levels:
  assumes "\<And>x y. h (f x y) = g (h x) (h y)"
  shows "map h (merkle_levels f xs) = merkle_levels g (map h xs)"
  using assms
proof (induction f xs rule: merkle_levels.induct)
  case (1 f xs)
  have pairs: "map h (pair_level f xs) = pair_level g (map h xs)"
    by (rule map_pair_level [where h = h and f = f and g = g]) (rule "1.prems")
  show ?case
  proof (cases "1 < length xs")
    case True
    have "map h (merkle_levels f (pair_level f xs)) = merkle_levels g (pair_level g (map h xs))"
      unfolding pairs [symmetric] by (rule "1.IH") (rule True, rule "1.prems")
    with True show ?thesis
      by (simp only: merkle_levels.simps [of f xs] merkle_levels.simps [of g "map h xs"]
          length_map if_True)
  next
    case False
    then show ?thesis
      by (simp only: merkle_levels.simps [of f xs] merkle_levels.simps [of g "map h xs"]
          length_map if_False)
  qed
qed

lemma merkle_levels_singleton:
  "xs \<noteq> [] \<Longrightarrow> \<exists>x. merkle_levels f xs = [x]"
proof (induction f xs rule: merkle_levels.induct)
  case (1 f xs)
  show ?case
  proof (cases "1 < length xs")
    case True
    moreover have "pair_level f xs \<noteq> []"
      using True length_pair_level [of f xs] by (cases "pair_level f xs") auto
    ultimately show ?thesis using 1 by (simp add: merkle_levels.simps [of f xs])
  next
    case False
    with "1.prems" obtain x where "xs = [x]" by (cases xs) auto
    then show ?thesis by (simp add: merkle_levels.simps [of f "[x]"])
  qed
qed

lemma mleaves_pair_level:
  "concat (map mleaves (pair_level MNode ts)) = concat (map mleaves ts)"
  by (induction "MNode :: 'a mtree \<Rightarrow> _" ts rule: pair_level.induct) simp_all

lemma mleaves_merkle_levels:
  "concat (map mleaves (merkle_levels MNode ts)) = concat (map mleaves ts)"
proof (induction "MNode :: 'a mtree \<Rightarrow> _" ts rule: merkle_levels.induct)
  case (1 ts)
  then show ?case by (simp add: merkle_levels.simps [of MNode ts] mleaves_pair_level)
qed

lemma mleaves_state_tree: "kvs \<noteq> [] \<Longrightarrow> mleaves (state_tree kvs) = kvs"
proof -
  assume "kvs \<noteq> []"
  then obtain t where "merkle_levels MNode (map MLeaf kvs) = [t]"
    using merkle_levels_singleton [of "map MLeaf kvs" MNode] by auto
  moreover have "concat (map mleaves (map MLeaf kvs)) = kvs" by (induction kvs) simp_all
  ultimately show ?thesis
    using mleaves_merkle_levels [of "map MLeaf kvs"] by (simp add: state_tree_def)
qed

lemma mhash_state_tree:
  assumes "kvs \<noteq> []"
  shows "merkle_levels (\<lambda>l r. blake3 (node_message l r))
      (map (\<lambda>kv. blake3 (leaf_message (fst kv) (snd kv))) kvs) ! 0
    = mhash blake3 (state_tree kvs)"
proof -
  obtain t where t: "merkle_levels MNode (map MLeaf kvs) = [t]"
    using merkle_levels_singleton [of "map MLeaf kvs" MNode] assms by auto
  have "map (mhash blake3) (merkle_levels MNode (map MLeaf kvs))
      = merkle_levels (\<lambda>l r. blake3 (node_message l r)) (map (mhash blake3) (map MLeaf kvs))"
    by (rule map_merkle_levels) simp
  then have "merkle_levels (\<lambda>l r. blake3 (node_message l r))
      (map (\<lambda>kv. blake3 (leaf_message (fst kv) (snd kv))) kvs) = [mhash blake3 t]"
    by (simp add: t comp_def)
  then show ?thesis using t by (simp add: state_tree_def)
qed

section \<open>The messages are unambiguous\<close>


lemma length_to_be_bytes [simp]: "length (to_be_bytes n) = 4"
  by (simp add: to_be_bytes_def)

lemma same_byte:
  fixes a b :: nat
  shows "a div 256 = b div 256 \<Longrightarrow> a mod 256 = b mod 256 \<Longrightarrow> a = b"
  by (metis div_mult_mod_eq)

lemma to_be_bytes_inj:
  assumes "to_be_bytes m = to_be_bytes n" and "m < 2 ^ 32" and "n < 2 ^ 32"
  shows "m = n"
proof -
  have b: "m div 2 ^ 24 mod 256 = n div 2 ^ 24 mod 256" "m div 2 ^ 16 mod 256 = n div 2 ^ 16 mod 256"
    "m div 2 ^ 8 mod 256 = n div 2 ^ 8 mod 256" "m mod 256 = n mod 256"
    using assms(1) unfolding to_be_bytes_def list.inject u8_of_nat_eq by (simp_all only:)
  have "m div 2 ^ 24 < 256" and "n div 2 ^ 24 < 256"
    using assms(2,3) by (simp_all add: div_less_iff_less_mult)
  then have "m div 2 ^ 24 = n div 2 ^ 24" using b(1) by (simp only: mod_less)
  then have "m div 2 ^ 16 = n div 2 ^ 16"
    by (intro same_byte [OF _ b(2)]) (simp add: div_mult2_eq [symmetric])
  then have "m div 2 ^ 8 = n div 2 ^ 8"
    by (intro same_byte [OF _ b(3)]) (simp add: div_mult2_eq [symmetric])
  then show ?thesis by (intro same_byte [OF _ b(4)]) simp
qed

lemma leaf_message_inj:
  assumes "leaf_message k v = leaf_message k' v'"
    and "length k < 2 ^ 32" "length k' < 2 ^ 32" "length v < 2 ^ 32" "length v' < 2 ^ 32"
  shows "k = k' \<and> v = v'"
proof -
  from assms(1) have "to_be_bytes (length k) = to_be_bytes (length k')"
    and rest: "as_bytes k @ to_be_bytes (length v) @ as_bytes v
      = as_bytes k' @ to_be_bytes (length v') @ as_bytes v'"
    by (simp_all add: leaf_message_def)
  then have "length k = length k'" using assms(2,3) by (simp add: to_be_bytes_inj)
  with rest have "as_bytes k = as_bytes k'" and "as_bytes v = as_bytes v'" by simp_all
  then show ?thesis by (simp add: as_bytes_inj)
qed

lemma leaf_node_message_distinct: "leaf_message k v \<noteq> node_message l r"
  by (simp add: leaf_message_def node_message_def as_bytes_def)

lemma node_message_inj:
  "length l = 32 \<Longrightarrow> length l' = 32 \<Longrightarrow> node_message l r = node_message l' r' \<Longrightarrow> l = l' \<and> r = r'"
  by (simp add: node_message_def)

section \<open>What the root commits to\<close>

definition hash32_fun :: "hash_fun \<Rightarrow> bool" where
  "hash32_fun blake3 \<longleftrightarrow> (\<forall>m. length (blake3 m) = 32)"

text \<open>No two of the messages hashed collide.\<close>

definition collision_free_on :: "hash_fun \<Rightarrow> u8 list set \<Rightarrow> bool" where
  "collision_free_on blake3 M \<longleftrightarrow> (\<forall>m \<in> M. \<forall>n \<in> M. blake3 m = blake3 n \<longrightarrow> m = n)"

definition short_pair :: "string \<times> string \<Rightarrow> bool" where
  "short_pair kv \<longleftrightarrow> length (fst kv) < 2 ^ 32 \<and> length (snd kv) < 2 ^ 32"

lemma collision_free_onD:
  "collision_free_on blake3 M \<Longrightarrow> m \<in> M \<Longrightarrow> n \<in> M \<Longrightarrow> blake3 m = blake3 n \<Longrightarrow> m = n"
  by (simp add: collision_free_on_def)

lemma collision_free_on_mono: "collision_free_on blake3 M \<Longrightarrow> N \<subseteq> M \<Longrightarrow> collision_free_on blake3 N"
  by (auto simp: collision_free_on_def)

lemma length_mhash: "hash32_fun blake3 \<Longrightarrow> length (mhash blake3 t) = 32"
  by (cases t) (simp_all add: hash32_fun_def)

lemma mhash_inj:
  assumes "hash32_fun blake3"
    and "collision_free_on blake3 (mmessages blake3 s \<union> mmessages blake3 t)"
    and "\<forall>kv \<in> set (mleaves s) \<union> set (mleaves t). short_pair kv"
    and "mhash blake3 s = mhash blake3 t"
  shows "s = t"
  using assms(2-4)
proof (induction s arbitrary: t)
  case (MLeaf kv)
  show ?case
  proof (cases t)
    case t: (MLeaf kv')
    have "leaf_message (fst kv) (snd kv) = leaf_message (fst kv') (snd kv')"
      by (rule collision_free_onD [OF MLeaf.prems(1)]) (use MLeaf t in \<open>simp_all\<close>)
    from leaf_message_inj [OF this] MLeaf.prems(2) t show ?thesis
      by (simp add: short_pair_def prod_eq_iff)
  next
    case t: (MNode l r)
    have "leaf_message (fst kv) (snd kv) = node_message (mhash blake3 l) (mhash blake3 r)"
      by (rule collision_free_onD [OF MLeaf.prems(1)]) (use MLeaf t in \<open>simp_all\<close>)
    then show ?thesis by (simp add: leaf_node_message_distinct)
  qed
next
  case (MNode l r)
  show ?case
  proof (cases t)
    case t: (MLeaf kv)
    have "node_message (mhash blake3 l) (mhash blake3 r) = leaf_message (fst kv) (snd kv)"
      by (rule collision_free_onD [OF MNode.prems(1)]) (use MNode.prems t in \<open>simp_all\<close>)
    then show ?thesis by (metis leaf_node_message_distinct)
  next
    case t: (MNode l' r')
    have "node_message (mhash blake3 l) (mhash blake3 r) = node_message (mhash blake3 l') (mhash blake3 r')"
      by (rule collision_free_onD [OF MNode.prems(1)]) (use MNode.prems t in \<open>simp_all\<close>)
    then have h: "mhash blake3 l = mhash blake3 l'" "mhash blake3 r = mhash blake3 r'"
      using node_message_inj [OF length_mhash length_mhash] assms(1) by blast+
    have "l = l'"
      using MNode.prems(2) t
      by (intro MNode.IH(1) h(1) collision_free_on_mono [OF MNode.prems(1)]) auto
    moreover have "r = r'"
      using MNode.prems(2) t
      by (intro MNode.IH(2) h(2) collision_free_on_mono [OF MNode.prems(1)]) auto
    ultimately show ?thesis by (simp add: t)
  qed
qed

definition art_pairs :: "'u uuid_lib \<Rightarrow> ('u \<times> 'u art_cell_state) list \<Rightarrow> (string \<times> string) list" where
  "art_pairs lib cs =
     map (\<lambda>(cid, cell). (''cell/'' @ cell_id_display lib cid,
                         content_hash_display (snapshot_hash cell))) cs"

definition art_messages ::
  "hash_fun \<Rightarrow> 'u uuid_lib \<Rightarrow> ('u \<times> 'u art_cell_state) list \<Rightarrow> u8 list set" where
  "art_messages blake3 lib cs =
     (if cs = [] then {as_bytes ''neuman-art-empty-v1'' @ [0]}
      else mmessages blake3 (state_tree (art_pairs lib cs)))"

lemma art_leaf_ok:
  "art_leaf blake3 lib (cid, cell) = Inr l \<longleftrightarrow> cid = cell_id cell
     \<and> short_pair (''cell/'' @ cell_id_display lib cid, content_hash_display (snapshot_hash cell))
     \<and> l = blake3 (leaf_message (''cell/'' @ cell_id_display lib cid)
             (content_hash_display (snapshot_hash cell)))"
  by (auto simp: art_leaf_def Let_def short_pair_def)

lemma art_leaves_ok:
  assumes "art_leaves blake3 lib cs = Inr ls"
  shows "ls = map (\<lambda>kv. blake3 (leaf_message (fst kv) (snd kv))) (art_pairs lib cs)
    \<and> (\<forall>kv \<in> set (art_pairs lib cs). short_pair kv) \<and> (\<forall>(cid, cell) \<in> set cs. cid = cell_id cell)"
  using assms
proof (induction cs arbitrary: ls)
  case Nil
  then show ?case by (simp add: art_pairs_def)
next
  case (Cons c cs)
  obtain cid cell where c: "c = (cid, cell)" by fastforce
  show ?case using Cons.IH Cons.prems by (auto simp: result_simps c art_leaf_ok art_pairs_def)
qed

lemma compute_state_root_ok:
  assumes "compute_state_root blake3 lib cs = Inr root"
  shows "root = (if cs = [] then blake3 (as_bytes ''neuman-art-empty-v1'' @ [0])
                 else mhash blake3 (state_tree (art_pairs lib cs)))
    \<and> (\<forall>kv \<in> set (art_pairs lib cs). short_pair kv) \<and> (\<forall>(cid, cell) \<in> set cs. cid = cell_id cell)"
proof (cases "cs = []")
  case True
  then show ?thesis using assms by (simp add: compute_state_root_def art_pairs_def)
next
  case False
  then obtain ls where ls: "art_leaves blake3 lib cs = Inr ls"
    "root = merkle_levels (\<lambda>l r. blake3 (node_message l r)) ls ! 0"
    using assms by (auto simp: compute_state_root_def result_simps)
  have "art_pairs lib cs \<noteq> []" using False by (simp add: art_pairs_def)
  then show ?thesis
    using art_leaves_ok [OF ls(1)] mhash_state_tree [of "art_pairs lib cs" blake3] False ls(2)
    by simp
qed

text \<open>
  What a state root stands for: the ordered list of (cell id, snapshot hash) pairs, without
  the slot paths.
\<close>

definition art_content :: "('u \<times> 'u art_cell_state) list \<Rightarrow> ('u \<times> content_hash) list" where
  "art_content cs = map (\<lambda>(cid, cell). (cid, snapshot_hash cell)) cs"

definition snapshots_ok :: "('u \<times> 'u art_cell_state) list \<Rightarrow> bool" where
  "snapshots_ok cs \<longleftrightarrow> (\<forall>(cid, cell) \<in> set cs. hash32 (snapshot_hash cell))"

lemma hyphenated_inj: "uuid_contract lib \<Longrightarrow> hyphenated lib u = hyphenated lib v \<Longrightarrow> u = v"
  unfolding uuid_contract_def by (metis option.inject)

lemma art_pairs_inj:
  assumes "uuid_contract lib" and "snapshots_ok cs" and "snapshots_ok ds"
    and "art_pairs lib cs = art_pairs lib ds"
  shows "art_content cs = art_content ds"
  using assms(2-4)
proof (induction cs arbitrary: ds)
  case Nil
  then show ?case by (simp add: art_pairs_def art_content_def)
next
  case (Cons c cs)
  then obtain d ds' where ds: "ds = d # ds'" by (cases ds) (auto simp: art_pairs_def)
  obtain ci cc di dc where cd: "c = (ci, cc)" "d = (di, dc)" by (cases c, cases d) auto
  have "ci = di" using Cons.prems(3) assms(1)
    by (auto simp: ds cd art_pairs_def cell_id_display_def dest: hyphenated_inj)
  moreover have "snapshot_hash cc = snapshot_hash dc"
    using Cons.prems
    by (intro content_hash.render_inj) (simp_all add: ds cd art_pairs_def snapshots_ok_def)
  moreover have "art_content cs = art_content ds'"
    using Cons.prems by (intro Cons.IH) (simp_all add: ds cd art_pairs_def snapshots_ok_def)
  ultimately show ?case by (simp add: ds cd art_content_def)
qed

lemma empty_message_distinct:
  "as_bytes ''neuman-art-empty-v1'' @ [0] \<notin> mmessages blake3 t"
  by (induction t) (auto simp: leaf_message_def node_message_def as_bytes_def)

lemma root_in_messages: "\<exists>m \<in> mmessages blake3 t. mhash blake3 t = blake3 m"
  by (cases t) auto

lemma state_root_binding_nonempty:
  assumes "hash32_fun blake3"
    and "collision_free_on blake3 (art_messages blake3 lib cs \<union> art_messages blake3 lib ds)"
    and "compute_state_root blake3 lib cs = Inr root" and "compute_state_root blake3 lib ds = Inr root"
    and "cs \<noteq> []" and "ds \<noteq> []"
  shows "art_pairs lib cs = art_pairs lib ds"
proof -
  have ne: "art_pairs lib cs \<noteq> []" "art_pairs lib ds \<noteq> []"
    using assms(5,6) by (simp_all add: art_pairs_def)
  have "state_tree (art_pairs lib cs) = state_tree (art_pairs lib ds)"
    using assms(1,2,5,6) compute_state_root_ok [OF assms(3)] compute_state_root_ok [OF assms(4)] ne
    by (intro mhash_inj [OF assms(1)]) (auto simp: art_messages_def mleaves_state_tree)
  then show ?thesis using mleaves_state_tree ne by metis
qed

lemma state_root_binding_empty:
  assumes "collision_free_on blake3 (art_messages blake3 lib [] \<union> art_messages blake3 lib ds)"
    and "compute_state_root blake3 lib [] = Inr root" and "compute_state_root blake3 lib ds = Inr root"
  shows "ds = []"
proof (rule ccontr)
  assume ds: "ds \<noteq> []"
  let ?e = "as_bytes ''neuman-art-empty-v1'' @ [0] :: u8 list"
  let ?t = "state_tree (art_pairs lib ds)"
  obtain m where m: "m \<in> mmessages blake3 ?t" "mhash blake3 ?t = blake3 m"
    using root_in_messages by blast
  have e: "blake3 ?e = blake3 m"
    using compute_state_root_ok [OF assms(2)] compute_state_root_ok [OF assms(3)] ds m(2) by simp
  have "?e = m"
    by (rule collision_free_onD [OF assms(1)]) (use ds m(1) e in \<open>simp_all add: art_messages_def\<close>)
  with m(1) show False using empty_message_distinct by metis
qed

text \<open>C4: a state root commits to the whole ordered cell state: two states with the same root
  have the same cell ids and the same snapshots in the same order (no two cell states of any
  sizes share a root, the promotion of odd nodes included), as long as the messages the two
  computations hash do not collide.\<close>

theorem state_root_binding:
  assumes "hash32_fun blake3" and "uuid_contract lib"
    and "collision_free_on blake3 (art_messages blake3 lib cs \<union> art_messages blake3 lib ds)"
    and "snapshots_ok cs" and "snapshots_ok ds"
    and "compute_state_root blake3 lib cs = Inr root" and "compute_state_root blake3 lib ds = Inr root"
  shows "art_content cs = art_content ds"
proof (cases "cs = [] \<or> ds = []")
  case True
  then have "cs = [] \<and> ds = []"
    using state_root_binding_empty [of blake3 lib ds root] state_root_binding_empty [of blake3 lib cs root]
      assms(3,6,7) by (auto simp: Un_commute)
  then show ?thesis by simp
next
  case False
  then show ?thesis
    using state_root_binding_nonempty [OF assms(1,3,6,7)] art_pairs_inj [OF assms(2,4,5)] by simp
qed

definition wit_lib :: "nat uuid_lib" where
  "wit_lib = \<lparr>parse_str = (\<lambda>s. Some (length s)), hyphenated = (\<lambda>n. replicate n CHR ''a''),
     get_version = (\<lambda>n. Some 4)\<rparr>"

definition wit_cells :: "string \<Rightarrow> (nat \<times> nat art_cell_state) list" where
  "wit_cells path =
     [(3, \<lparr>cell_id = 3, snapshot_hash = replicate 32 7, slot_path = path\<rparr>)]"

lemma wit_root:
  "compute_state_root (\<lambda>m. replicate 32 9) wit_lib (wit_cells path) = Inr (replicate 32 9)"
  using content_hash_display_length [of "replicate 32 7"]
  by (simp add: compute_state_root_def wit_cells_def art_leaf_def Let_def cell_id_display_def
      wit_lib_def hash32_def merkle_levels.simps)

theorem state_root_binding_witness:
  "art_content (wit_cells ''/Workspace/A'') = art_content (wit_cells ''/Workspace/B'')
    \<and> wit_cells ''/Workspace/A'' \<noteq> wit_cells ''/Workspace/B''"
proof
  show "art_content (wit_cells ''/Workspace/A'') = art_content (wit_cells ''/Workspace/B'')"
    by (rule state_root_binding [of "\<lambda>m. replicate 32 9" wit_lib _ _ "replicate 32 9"])
      (simp_all add: hash32_fun_def uuid_contract_def wit_root, simp_all add: wit_lib_def
        collision_free_on_def art_messages_def wit_cells_def art_pairs_def state_tree_def
        merkle_levels.simps snapshots_ok_def hash32_def)
  show "wit_cells ''/Workspace/A'' \<noteq> wit_cells ''/Workspace/B''"
    by (simp add: wit_cells_def)
qed

text \<open>validation accepts a revision exactly when it has at most two parents, a channel key
  of 1 to 64 bytes and the state root of its own cells.\<close>

theorem art_validate_iff:
  "art_validate blake3 lib revision = Inr () \<longleftrightarrow> length (parents revision) \<le> 2
     \<and> 1 \<le> length (channel_id revision) \<and> length (channel_id revision) \<le> 64
     \<and> compute_state_root blake3 lib (cells revision) = Inr (state_root_hash revision)"
  by (cases "compute_state_root blake3 lib (cells revision)")
    (auto simp: art_validate_def Suc_le_eq)

lemma state_root_ignores_slot_path:
  "compute_state_root blake3 lib (map (\<lambda>(cid, cell). (cid, cell\<lparr>slot_path := p\<rparr>)) cs)
     = compute_state_root blake3 lib cs"
proof -
  have "art_leaves blake3 lib (map (\<lambda>(cid, cell). (cid, cell\<lparr>slot_path := p\<rparr>)) cs)
      = art_leaves blake3 lib cs"
    by (induction cs) (auto simp: art_leaf_def Let_def)
  then show ?thesis by (simp add: compute_state_root_def)
qed

text \<open>Each pass halves the level: rounding up, \<open>k\<close> passes finish a level of at most \<open>2 ^ k\<close> hashes.\<close>

lemma merkle_levels_passes:
  "length level \<le> 2 ^ k \<Longrightarrow> merkle_levels node level = (pair_level node ^^ k) level"
proof (induction k arbitrary: level)
  case 0
  then show ?case by (simp add: merkle_levels.simps [of node level])
next
  case (Suc k)
  show ?case
  proof (cases "1 < length level")
    case True
    have "length (pair_level node level) \<le> 2 ^ k" using Suc.prems by (simp add: length_pair_level)
    from Suc.IH [OF this] True show ?thesis
      by (simp add: merkle_levels.simps [of node level] funpow_swap1)
  next
    case False
    then have "pair_level node level = level" by (cases "(node, level)" rule: pair_level.cases) auto
    then have "(pair_level node ^^ n) level = level" for n by (induction n) simp_all
    with False show ?thesis by (simp add: merkle_levels.simps [of node level] del: funpow.simps)
  qed
qed

text \<open>C30: The loop that combines the hashes of an art state ends: a state of at most \<open>2 ^ k\<close> cells
  is down to one hash after \<open>k\<close> passes, and the root is that hash.\<close>

theorem state_root_loop_ends:
  assumes "level \<noteq> []" "length level \<le> 2 ^ k"
  shows "length ((pair_level node ^^ k) level) = 1
    \<and> merkle_levels node level = [merkle_levels node level ! 0]
    \<and> merkle_levels node level = (pair_level node ^^ k) level"
  using merkle_levels_singleton [OF assms(1), of node] merkle_levels_passes [OF assms(2), of node] by auto

lemma state_root_loop_ends_witness:
  "merkle_levels (\<lambda>a b. a + 10 * b) [1, 2, 3 :: nat] = [51]"
  using state_root_loop_ends [of "[1, 2, 3 :: nat]" 2 "\<lambda>a b. a + 10 * b"]
  by (simp add: numeral_2_eq_2)

end
