(* ===== verification/ReleaseLifecycle.thy ===== *)
theory ReleaseLifecycle
  imports Identity
begin

text \<open>
  The local release lifecycle: the state machine \<open>ReleaseStatus::transition\<close> of
  \<open>domain.rs\<close>, the preflight gates and the release table of the ledger in \<open>core.rs\<close>. A
  table is the list of its rows; canonical JSON hashing (\<open>hash_canonical\<close>, over the
  \<open>serde_jcs\<close> and \<open>blake3\<close> crates) is a parameter.
\<close>

section \<open>The state machine\<close>

datatype release_status =
    Draft | AwaitingApproval | Approved | Preflighting | Publishing | Published
  | PartiallyPublished | RollbackRequired | FailedNoChange | UnknownExternalState
  | RollingBack | RolledBack | RollbackFailed

fun status_debug :: "release_status \<Rightarrow> string" where
  "status_debug Draft = ''Draft''"
| "status_debug AwaitingApproval = ''AwaitingApproval''"
| "status_debug Approved = ''Approved''"
| "status_debug Preflighting = ''Preflighting''"
| "status_debug Publishing = ''Publishing''"
| "status_debug Published = ''Published''"
| "status_debug PartiallyPublished = ''PartiallyPublished''"
| "status_debug RollbackRequired = ''RollbackRequired''"
| "status_debug FailedNoChange = ''FailedNoChange''"
| "status_debug UnknownExternalState = ''UnknownExternalState''"
| "status_debug RollingBack = ''RollingBack''"
| "status_debug RolledBack = ''RolledBack''"
| "status_debug RollbackFailed = ''RollbackFailed''"

definition release_transition :: "release_status \<Rightarrow> release_status \<Rightarrow> domain_error + release_status" where
  "release_transition current next =
     (let allowed =
        (current = Draft \<and> next \<in> {AwaitingApproval, Approved})
        \<or> (current = AwaitingApproval \<and> next = Approved)
        \<or> (current = Approved \<and> next = Preflighting)
        \<or> (current \<in> {Preflighting, PartiallyPublished, UnknownExternalState} \<and> next = Publishing)
        \<or> (current \<in> {Preflighting, Publishing} \<and> next = FailedNoChange)
        \<or> (current = Publishing \<and> next \<in> {Published, PartiallyPublished, UnknownExternalState})
        \<or> (current = PartiallyPublished \<and> next = RollbackRequired)
        \<or> (current \<in> {RollbackRequired, Published} \<and> next = RollingBack)
        \<or> (current = RollingBack \<and> next \<in> {RolledBack, RollbackFailed})
      in if \<not> allowed
         then Inl (IllegalTransition ''release'' (status_debug current) (status_debug next))
         else Inr next)"

text \<open>A lifecycle: the statuses a release goes through, each by a legal transition.\<close>

fun lifecycle :: "release_status \<Rightarrow> release_status list \<Rightarrow> bool" where
  "lifecycle s [] = True"
| "lifecycle s (t # ts) = (release_transition s t = Inr t \<and> lifecycle t ts)"

definition pre_publish :: "release_status \<Rightarrow> bool" where
  "pre_publish s \<longleftrightarrow> s \<in> {Draft, AwaitingApproval, Approved, Preflighting}"

lemma transition_ok_target: "release_transition s t = Inr u \<Longrightarrow> u = t"
  by (auto simp: release_transition_def Let_def split: if_splits)

lemma transition_into_publishing_side:
  "release_transition s t = Inr t \<Longrightarrow> pre_publish s \<Longrightarrow> \<not> pre_publish t \<Longrightarrow> s = Preflighting"
  by (cases s; cases t) (simp_all add: release_transition_def pre_publish_def)

lemma transition_into_preflighting: "release_transition s Preflighting = Inr t \<Longrightarrow> s = Approved"
  by (cases s) (simp_all add: release_transition_def)

text \<open>no release publishes unapproved: every lifecycle from \<open>Draft\<close> that reaches a status
  beyond preflight (so every one that reaches \<open>Publishing\<close>, \<open>Published\<close> or a rollback status)
  has been through \<open>Approved\<close> and then \<open>Preflighting\<close>.\<close>

theorem lifecycle_needs_approval:
  assumes "lifecycle Draft ts" and "t \<in> set ts" and "\<not> pre_publish t"
  shows "\<exists>xs ys. ts = xs @ Approved # Preflighting # ys"
proof -
  have "s = Preflighting \<or> (s = Approved \<and> (\<exists>ys. ts = Preflighting # ys))
      \<or> (\<exists>xs ys. ts = xs @ Approved # Preflighting # ys)"
    if "lifecycle s ts" "pre_publish s" "t \<in> set ts" for s
    using that
  proof (induction ts arbitrary: s)
    case Nil
    then show ?case by simp
  next
    case (Cons u us)
    show ?case
    proof (cases "pre_publish u")
      case False
      have "release_transition s u = Inr u" using Cons.prems(1) by simp
      from transition_into_publishing_side [OF this Cons.prems(2) False] show ?thesis by simp
    next
      case True
      have "t \<in> set us" using Cons.prems(3) True assms(3) by auto
      with Cons True consider "u = Preflighting" | "u = Approved" "\<exists>ys. us = Preflighting # ys"
        | "\<exists>xs ys. us = xs @ Approved # Preflighting # ys" by auto
      then show ?thesis
      proof cases
        case 1
        then have "s = Approved" using Cons.prems(1) transition_into_preflighting by simp
        with 1 show ?thesis by simp
      next
        case 2
        then have "u # us = [] @ Approved # Preflighting # tl us" by auto
        then show ?thesis by blast
      next
        case 3
        then show ?thesis by (metis append_Cons)
      qed
    qed
  qed
  from this [OF assms(1) _ assms(2)] show ?thesis by (simp add: pre_publish_def)
qed

theorem lifecycle_needs_approval_witness:
  "lifecycle Draft [Approved, Preflighting, Publishing, Published]
   \<and> (\<exists>xs ys. [Approved, Preflighting, Publishing, Published] = xs @ Approved # Preflighting # ys)"
proof
  show "lifecycle Draft [Approved, Preflighting, Publishing, Published]"
    by (simp add: release_transition_def)
  then show "\<exists>xs ys. [Approved, Preflighting, Publishing, Published]
      = xs @ Approved # Preflighting # ys"
    by (rule lifecycle_needs_approval [where t = Published]) (simp_all add: pre_publish_def)
qed

definition terminal_status :: "release_status \<Rightarrow> bool" where
  "terminal_status s \<longleftrightarrow> s \<in> {FailedNoChange, RolledBack, RollbackFailed}"

text \<open>the terminal statuses are exactly \<open>FailedNoChange\<close>, \<open>RolledBack\<close> and
  \<open>RollbackFailed\<close>: no transition leaves them, and every other status has one.\<close>

theorem terminal_iff_stuck: "terminal_status s \<longleftrightarrow> (\<forall>t. release_transition s t \<noteq> Inr t)"
proof (cases "terminal_status s")
  case True
  then show ?thesis by (auto simp: terminal_status_def release_transition_def)
next
  case False
  have "release_transition Draft Approved = Inr Approved"
    "release_transition AwaitingApproval Approved = Inr Approved"
    "release_transition Approved Preflighting = Inr Preflighting"
    "release_transition Preflighting Publishing = Inr Publishing"
    "release_transition Publishing Published = Inr Published"
    "release_transition Published RollingBack = Inr RollingBack"
    "release_transition PartiallyPublished RollbackRequired = Inr RollbackRequired"
    "release_transition RollbackRequired RollingBack = Inr RollingBack"
    "release_transition UnknownExternalState Publishing = Inr Publishing"
    "release_transition RollingBack RolledBack = Inr RolledBack"
    by (simp_all add: release_transition_def)
  with False show ?thesis by (cases s) (auto simp: terminal_status_def)
qed

section \<open>Preflight\<close>

record core_error =
  ce_code :: string
  ce_retryable :: bool

definition core_error :: "string \<Rightarrow> core_error" where
  "core_error code = \<lparr>ce_code = code, ce_retryable = False\<rparr>"

record creator =
  creator_kind :: string
  creator_id :: string

record roblox_target =
  rt_universe_id :: string
  rt_place_id :: string
  rt_creator :: creator

record 'u release_record =
  rr_release_id :: 'u
  rr_project_id :: 'u
  rr_bundle_hash :: content_hash
  rr_environment :: string
  rr_place_key :: string
  rr_target :: roblox_target
  rr_status :: release_status
  rr_requested_by :: string
  rr_created_at :: string

record preflight_evidence =
  approved :: bool
  bundle_verified :: bool
  permission_verified :: bool
  predecessor_matches :: bool
  drift_status :: string
  lease_held :: bool
  staging_proof_valid :: bool

record 'u preflight_receipt =
  receipt_hash :: content_hash
  receipt_release_id :: 'u
  passed :: bool
  failed_gates :: "string list"
  receipt_evidence :: preflight_evidence
  observed_at :: string

text \<open>
  The gates in the code's order. \<open>hash_canonical\<close> gets the release, the evidence and the
  time, the values the code puts into the hashed JSON object.
\<close>

definition preflight_gates :: "preflight_evidence \<Rightarrow> string list" where
  "preflight_gates e =
     (if approved e then [] else [''approval''])
     @ (if bundle_verified e then [] else [''bundle-integrity''])
     @ (if permission_verified e then [] else [''target-permission''])
     @ (if predecessor_matches e then [] else [''predecessor''])
     @ (if drift_status e = ''clean'' then [] else [''drift''])
     @ (if lease_held e then [] else [''release-lease''])
     @ (if staging_proof_valid e then [] else [''staging-proof''])"

definition release_preflight ::
  "('u release_record \<Rightarrow> preflight_evidence \<Rightarrow> string \<Rightarrow> domain_error + content_hash)
   \<Rightarrow> 'u release_record \<Rightarrow> preflight_evidence \<Rightarrow> string \<Rightarrow> core_error + 'u preflight_receipt" where
  "release_preflight hash_canonical release evidence at =
     (if rr_status release \<noteq> Approved \<and> rr_status release \<noteq> Preflighting
      then Inl (core_error ''RELEASE_NOT_APPROVED'')
      else (let failed = preflight_gates evidence
            in bindE (mapE (\<lambda>_. core_error ''PREFLIGHT_HASH_FAILED'')
                        (hash_canonical release evidence at))
                 (\<lambda>h. Inr \<lparr>receipt_hash = h, receipt_release_id = rr_release_id release,
                          passed = (failed = []), failed_gates = failed,
                          receipt_evidence = evidence, observed_at = at\<rparr>)))"

text \<open>preflight fails closed: a passing receipt is only issued for an approved or
  preflighting release, for which every gate holds and the drift status is exactly \<open>clean\<close>
  (\<open>unknown\<close>, an empty text or any other text fail).\<close>

theorem preflight_passes_only_if:
  assumes "release_preflight hash_canonical release evidence at = Inr receipt" and "passed receipt"
  shows "rr_status release \<in> {Approved, Preflighting} \<and> approved evidence \<and> bundle_verified evidence
    \<and> permission_verified evidence \<and> predecessor_matches evidence
    \<and> drift_status evidence = ''clean'' \<and> lease_held evidence \<and> staging_proof_valid evidence
    \<and> receipt_evidence receipt = evidence \<and> receipt_release_id receipt = rr_release_id release"
  using assms
  by (auto simp: release_preflight_def preflight_gates_def Let_def result_simps split: if_splits)

definition wit_release :: "release_status \<Rightarrow> nat release_record" where
  "wit_release s =
     \<lparr>rr_release_id = 1, rr_project_id = 2, rr_bundle_hash = [], rr_environment = ''production'',
      rr_place_key = ''lobby'',
      rr_target = \<lparr>rt_universe_id = ''1'', rt_place_id = ''2'',
                   rt_creator = \<lparr>creator_kind = ''user'', creator_id = ''3''\<rparr>\<rparr>,
      rr_status = s, rr_requested_by = ''me'', rr_created_at = ''t0''\<rparr>"

definition wit_evidence :: preflight_evidence where
  "wit_evidence = \<lparr>approved = True, bundle_verified = True, permission_verified = True,
     predecessor_matches = True, drift_status = ''clean'', lease_held = True,
     staging_proof_valid = True\<rparr>"

theorem preflight_passes_only_if_witness:
  "\<exists>receipt. release_preflight (\<lambda>_ _ _. Inr []) (wit_release Approved) wit_evidence ''t1''
       = Inr receipt \<and> passed receipt \<and> drift_status wit_evidence = ''clean''"
proof -
  obtain receipt where r:
    "release_preflight (\<lambda>_ _ _. Inr []) (wit_release Approved) wit_evidence ''t1'' = Inr receipt"
    "passed receipt"
    by (auto simp: release_preflight_def wit_release_def wit_evidence_def preflight_gates_def Let_def)
  from preflight_passes_only_if [OF r] r show ?thesis by blast
qed

section \<open>The ledger's release table\<close>

fun status_text :: "release_status \<Rightarrow> string" where
  "status_text Draft = ''draft''"
| "status_text AwaitingApproval = ''awaiting-approval''"
| "status_text Approved = ''approved''"
| "status_text Preflighting = ''preflighting''"
| "status_text Publishing = ''publishing''"
| "status_text Published = ''published''"
| "status_text PartiallyPublished = ''partially-published''"
| "status_text RollbackRequired = ''rollback-required''"
| "status_text FailedNoChange = ''failed-no-change''"
| "status_text UnknownExternalState = ''unknown-external-state''"
| "status_text RollingBack = ''rolling-back''"
| "status_text RolledBack = ''rolled-back''"
| "status_text RollbackFailed = ''rollback-failed''"

lemma status_text_inj: "status_text s = status_text t \<longleftrightarrow> s = t"
  by (cases s; cases t) simp_all

record 'u release_row =
  row_id :: 'u
  row_bundle_hash :: content_hash
  row_environment :: string
  row_status :: string
  row_request :: "'u release_record"
  row_created_at :: string

type_synonym 'u ledger = "'u release_row list"

definition find_release :: "'u ledger \<Rightarrow> 'u \<Rightarrow> 'u release_row option" where
  "find_release db i = find (\<lambda>r. row_id r = i) db"

text \<open>\<open>put_release\<close>: an INSERT, refused when the primary key is taken.\<close>

definition put_release :: "'u ledger \<Rightarrow> 'u release_record \<Rightarrow> core_error + 'u ledger" where
  "put_release db release =
     (if find_release db (rr_release_id release) \<noteq> None
      then Inl (core_error ''RELEASE_LEDGER_WRITE_FAILED'')
      else Inr (db @ [\<lparr>row_id = rr_release_id release, row_bundle_hash = rr_bundle_hash release,
                       row_environment = rr_environment release,
                       row_status = status_text (rr_status release), row_request = release,
                       row_created_at = rr_created_at release\<rparr>]))"

definition release_by_id :: "'u ledger \<Rightarrow> 'u \<Rightarrow> 'u release_record option" where
  "release_by_id db i = map_option row_request (find_release db i)"

text \<open>
  \<open>transition_release\<close> reads the row in one statement and updates it in another, with no
  transaction around them: \<open>db_read\<close> is the table its SELECT sees and \<open>db_write\<close> the table its
  UPDATE finds. The number of updated rows is not looked at.
\<close>

definition release_update ::
  "'u ledger \<Rightarrow> 'u \<Rightarrow> release_status \<Rightarrow> release_status \<Rightarrow> 'u release_record \<Rightarrow> 'u ledger" where
  "release_update db i expected next release =
     map (\<lambda>r. if row_id r = i \<and> row_status r = status_text expected
              then r\<lparr>row_status := status_text next, row_request := release\<rparr> else r) db"

definition transition_release ::
  "'u ledger \<Rightarrow> 'u ledger \<Rightarrow> 'u \<Rightarrow> release_status \<Rightarrow> release_status \<Rightarrow> core_error + 'u ledger" where
  "transition_release db_read db_write i expected next =
     bindE (mapE (\<lambda>_. core_error ''RELEASE_STATE_INVALID'') (release_transition expected next)) (\<lambda>_.
     bindE (ok_or (release_by_id db_read i) (core_error ''RELEASE_NOT_FOUND'')) (\<lambda>release.
       if rr_status release \<noteq> expected then Inl (core_error ''RELEASE_CONFLICT'')
       else Inr (release_update db_write i expected next (release\<lparr>rr_status := next\<rparr>))))"

text \<open>Ids are unique and each row's columns repeat its stored record.\<close>

definition row_consistent :: "'u release_row \<Rightarrow> bool" where
  "row_consistent r \<longleftrightarrow> row_id r = rr_release_id (row_request r)
     \<and> row_status r = status_text (rr_status (row_request r))
     \<and> row_bundle_hash r = rr_bundle_hash (row_request r)"

definition ledger_ok :: "'u ledger \<Rightarrow> bool" where
  "ledger_ok db \<longleftrightarrow> distinct (map row_id db) \<and> list_all row_consistent db"

lemma find_release_Some: "find_release db i = Some r \<Longrightarrow> r \<in> set db \<and> row_id r = i"
  by (auto simp: find_release_def find_Some_iff)

lemma find_release_None: "find_release db i = None \<longleftrightarrow> i \<notin> row_id ` set db"
  by (auto simp: find_release_def find_None_iff)

lemma put_release_ok: "ledger_ok db \<Longrightarrow> put_release db release = Inr db' \<Longrightarrow> ledger_ok db'"
  by (auto simp: put_release_def ledger_ok_def row_consistent_def find_release_None split: if_splits)

lemma distinct_row_id: "ledger_ok db \<Longrightarrow> r \<in> set db \<Longrightarrow> r' \<in> set db \<Longrightarrow> row_id r = row_id r' \<Longrightarrow> r = r'"
  by (auto simp: ledger_ok_def distinct_map inj_on_def)

lemma find_release_update:
  "find_release (release_update db i e n rel) j = map_option
     (\<lambda>r. if row_id r = i \<and> row_status r = status_text e
          then r\<lparr>row_status := status_text n, row_request := rel\<rparr> else r) (find_release db j)"
  by (induction db) (auto simp: find_release_def release_update_def)

lemma release_update_ids: "map row_id (release_update db i e n rel) = map row_id db"
  by (simp add: release_update_def)

lemma transition_release_ok_iff:
  "transition_release db_read db_write i e n = Inr db' \<longleftrightarrow> release_transition e n = Inr n
     \<and> (\<exists>r. release_by_id db_read i = Some r \<and> rr_status r = e
          \<and> db' = release_update db_write i e n (r\<lparr>rr_status := n\<rparr>))"
  using transition_ok_target [of e n]
  by (cases "release_transition e n") (auto simp: transition_release_def result_simps split: if_splits)

lemma release_update_consistent:
  assumes "ledger_ok db" and "release_by_id db i = Some rel" and "rr_status rel = e"
  shows "ledger_ok (release_update db i e n (rel\<lparr>rr_status := n\<rparr>))"
proof -
  obtain r where r: "r \<in> set db" "row_id r = i" "row_request r = rel"
    using assms(2) find_release_Some by (fastforce simp: release_by_id_def)
  have "row_consistent (if row_id x = i \<and> row_status x = status_text e
      then x\<lparr>row_status := status_text n, row_request := rel\<lparr>rr_status := n\<rparr>\<rparr> else x)"
    if x: "x \<in> set db" for x
  proof (cases "row_id x = i")
    case True
    then have "x = r" using distinct_row_id [OF assms(1) x r(1)] r(2) by simp
    moreover have "row_consistent r" using assms(1) r(1) by (auto simp: ledger_ok_def list_all_iff)
    ultimately show ?thesis using r by (simp add: row_consistent_def)
  next
    case False
    then show ?thesis using assms(1) x by (auto simp: ledger_ok_def list_all_iff)
  qed
  then have "list_all row_consistent (release_update db i e n (rel\<lparr>rr_status := n\<rparr>))"
    unfolding release_update_def list_all_iff set_map ball_simps by blast
  then show ?thesis
    using assms(1) unfolding ledger_ok_def release_update_ids by simp
qed

text \<open>with no other writer between its two statements, \<open>transition_release\<close> succeeds only on a
  legal transition out of the expected status, then stores exactly that status for the
  release, touches no other release, and keeps the table's columns and records consistent.\<close>

theorem transition_release_isolated:
  assumes "ledger_ok db" and "transition_release db db i e n = Inr db'"
  shows "ledger_ok db' \<and> release_transition e n = Inr n
    \<and> (\<exists>r. release_by_id db i = Some r \<and> rr_status r = e
         \<and> release_by_id db' i = Some (r\<lparr>rr_status := n\<rparr>))
    \<and> (\<forall>j. j \<noteq> i \<longrightarrow> release_by_id db' j = release_by_id db j)"
proof -
  obtain rel where rel: "release_transition e n = Inr n" "release_by_id db i = Some rel"
    "rr_status rel = e" "db' = release_update db i e n (rel\<lparr>rr_status := n\<rparr>)"
    using assms(2) by (auto simp: transition_release_ok_iff)
  obtain r where r: "find_release db i = Some r" "row_request r = rel"
    using rel(2) by (auto simp: release_by_id_def)
  have "row_id r = i" and "row_status r = status_text e"
    using find_release_Some [OF r(1)] assms(1) r(2) rel(3)
    by (auto simp: ledger_ok_def list_all_iff row_consistent_def)
  then have "release_by_id db' i = Some (rel\<lparr>rr_status := n\<rparr>)"
    using r by (simp add: release_by_id_def rel(4) find_release_update)
  moreover have "release_by_id db' j = release_by_id db j" if "j \<noteq> i" for j
  proof (cases "find_release db j")
    case None
    then show ?thesis by (simp add: release_by_id_def rel(4) find_release_update)
  next
    case (Some x)
    then have "row_id x = j" using find_release_Some [OF Some] by simp
    with that have "row_id x \<noteq> i" by simp
    then show ?thesis using Some by (simp add: release_by_id_def rel(4) find_release_update)
  qed
  ultimately show ?thesis
    using rel release_update_consistent [OF assms(1) rel(2,3)] by blast
qed

definition wit_ledger :: "release_status \<Rightarrow> nat ledger" where
  "wit_ledger s =
     [\<lparr>row_id = 1, row_bundle_hash = [], row_environment = ''production'', row_status = status_text s,
       row_request = wit_release s, row_created_at = ''t0''\<rparr>]"

lemma wit_ledger_ok: "ledger_ok (wit_ledger s)"
  by (simp add: ledger_ok_def wit_ledger_def row_consistent_def wit_release_def)

lemma wit_transition:
  "transition_release (wit_ledger Approved) (wit_ledger s) 1 Approved Preflighting
     = Inr (release_update (wit_ledger s) 1 Approved Preflighting (wit_release Preflighting))"
  by (simp add: transition_release_ok_iff release_transition_def release_by_id_def find_release_def
      wit_ledger_def wit_release_def)

theorem transition_release_isolated_witness:
  "ledger_ok (release_update (wit_ledger Approved) 1 Approved Preflighting (wit_release Preflighting))"
  using transition_release_isolated [OF wit_ledger_ok wit_transition] by blast

text \<open>the compare-and-set is lost when another writer moves the release between the two
  statements: the UPDATE then matches no row, yet the call reports success and the table is
  left as the other writer made it.\<close>

theorem transition_release_lost_race:
  assumes "ledger_ok db_write" and "release_transition e n = Inr n"
    and "release_by_id db_read i = Some r" and "rr_status r = e"
    and "release_by_id db_write i = Some r'" and "rr_status r' \<noteq> e"
  shows "transition_release db_read db_write i e n = Inr db_write"
proof -
  have "\<not> (row_id x = i \<and> row_status x = status_text e)" if x: "x \<in> set db_write" for x
  proof (cases "row_id x = i")
    case True
    obtain y where y: "find_release db_write i = Some y" "row_request y = r'"
      using assms(5) by (auto simp: release_by_id_def)
    have "x = y" using distinct_row_id [OF assms(1) x] find_release_Some [OF y(1)] True by auto
    moreover have "row_consistent x" using assms(1) x by (auto simp: ledger_ok_def list_all_iff)
    ultimately show ?thesis using y(2) assms(6) by (simp add: row_consistent_def status_text_inj)
  qed simp
  then have "release_update db_write i e n (r\<lparr>rr_status := n\<rparr>) = db_write"
    unfolding release_update_def by (intro map_idI) auto
  then show ?thesis using assms(2-4) by (auto simp: transition_release_ok_iff)
qed

theorem transition_release_lost_race_witness:
  "transition_release (wit_ledger Approved) (wit_ledger Preflighting) 1 Approved Preflighting
     = Inr (wit_ledger Preflighting)"
  by (rule transition_release_lost_race [OF wit_ledger_ok, where r = "wit_release Approved"
        and r' = "wit_release Preflighting"])
    (simp_all add: release_transition_def release_by_id_def find_release_def wit_ledger_def,
     simp_all add: wit_release_def)

end
