(* ===== verification/BridgeWire.thy ===== *)
theory BridgeWire
  imports Identity
begin

text \<open>
  The wire level of the Studio bridge (\<open>bridge.rs\<close>): errors and their codes, identifier and
  hash validation, protocol negotiation, session context matching and the sequence guard of
  a session. BLAKE3 is the parameter \<open>blake3\<close>; \<open>u64\<close> counters are natural numbers.
\<close>

section \<open>Errors\<close>

datatype bridge_error =
    DiscoveryInvalid string
  | PairingRequired
  | PairingDenied string
  | AuthInvalid
  | ProtocolIncompatible
  | ContextStale
  | SequenceGap nat nat
  | ReplayDetected
  | MessageTooLarge
  | TransferRejected string
  | ChunkHashMismatch
  | ContentHashMismatch
  | CommandUnsupported string
  | OrchestrationFailed string
  | Io string
  | Json string

fun error_code :: "bridge_error \<Rightarrow> string" where
  "error_code (DiscoveryInvalid _) = ''LBP_DISCOVERY_INVALID''"
| "error_code PairingRequired = ''LBP_PAIRING_REQUIRED''"
| "error_code (PairingDenied _) = ''LBP_PAIRING_DENIED''"
| "error_code AuthInvalid = ''LBP_AUTH_INVALID''"
| "error_code ProtocolIncompatible = ''LBP_PROTOCOL_INCOMPATIBLE''"
| "error_code ContextStale = ''LBP_CONTEXT_STALE''"
| "error_code (SequenceGap _ _) = ''LBP_SEQUENCE_GAP''"
| "error_code ReplayDetected = ''LBP_REPLAY_DETECTED''"
| "error_code MessageTooLarge = ''LBP_MESSAGE_TOO_LARGE''"
| "error_code (TransferRejected _) = ''LBP_TRANSFER_REJECTED''"
| "error_code ChunkHashMismatch = ''LBP_CHUNK_HASH_MISMATCH''"
| "error_code ContentHashMismatch = ''LBP_CONTENT_HASH_MISMATCH''"
| "error_code (CommandUnsupported _) = ''LBP_COMMAND_UNSUPPORTED''"
| "error_code (OrchestrationFailed _) = ''LBP_ORCHESTRATION_FAILED''"
| "error_code (Io _) = ''LBP_INTERNAL''"
| "error_code (Json _) = ''LBP_INTERNAL''"

fun retryable :: "bridge_error \<Rightarrow> bool" where
  "retryable (SequenceGap _ _) = True"
| "retryable (Io _) = True"
| "retryable _ = False"

fun response_status :: "bridge_error \<Rightarrow> nat" where
  "response_status AuthInvalid = 401"
| "response_status PairingRequired = 401"
| "response_status (PairingDenied _) = 403"
| "response_status MessageTooLarge = 413"
| "response_status (Io _) = 500"
| "response_status (Json _) = 500"
| "response_status _ = 400"

section \<open>Limits, bindings, messages\<close>

record bridge_limits =
  max_control_message_bytes :: nat
  max_chunk_bytes :: nat
  max_transfer_bytes :: nat
  max_commands_in_flight :: nat

definition default_limits :: bridge_limits where
  "default_limits = \<lparr>max_control_message_bytes = 1024 * 1024, max_chunk_bytes = 256 * 1024,
     max_transfer_bytes = 96 * 1024 * 1024, max_commands_in_flight = 32\<rparr>"

record session_binding =
  sb_project_id :: string
  sb_workspace_id :: string
  sb_universe_id :: "string option"
  sb_place_id :: "string option"
  sb_channel :: string
  sb_config_hash :: string
  sb_ownership_hash :: string
  sb_policy_hash :: string
  sb_accepted_art_head :: "string option"
  sb_accepted_state_root :: "string option"
  sb_context_version :: nat

record hello_context =
  hc_universe_id :: "string option"
  hc_place_id :: "string option"
  hc_project_id :: "string option"
  hc_channel :: "string option"
  hc_studio_user_id :: "string option"
  hc_studio_version :: "string option"
  hc_capabilities :: "string set"

record envelope =
  protocol_version :: string
  kind :: string
  message_id :: string
  correlation_id :: "string option"
  sequence :: nat
  sent_at :: string
  env_session_id :: string
  payload :: json

definition PROTOCOL_VERSION :: string where
  "PROTOCOL_VERSION = ''1.0''"

section \<open>Validation\<close>

definition scoped_byte :: "char \<Rightarrow> bool" where
  "scoped_byte c \<longleftrightarrow> is_alphanumeric c \<or> c = CHR ''_'' \<or> c = CHR ''-''"

definition validate_scoped_id :: "string \<Rightarrow> string \<Rightarrow> bridge_error + unit" where
  "validate_scoped_id val prefix =
     (if length val < length prefix + 4 \<or> 128 < length val \<or> \<not> starts_with prefix val
         \<or> \<not> list_all scoped_byte val
      then Inl (TransferRejected (''invalid identifier for '' @ prefix))
      else Inr ())"

definition base32_byte :: "char \<Rightarrow> bool" where
  "base32_byte c \<longleftrightarrow> is_lower c \<or> 50 \<le> byte_val c \<and> byte_val c \<le> 55"

definition validate_blake3_hash :: "string \<Rightarrow> bridge_error + unit" where
  "validate_blake3_hash hash =
     (case strip_prefix ''b3-256:'' hash of
        None \<Rightarrow> Inl (TransferRejected ''unsupported content hash'')
      | Some base32 \<Rightarrow>
          if length base32 \<noteq> 52 \<or> \<not> list_all base32_byte base32
          then Inl (TransferRejected ''invalid content hash'')
          else Inr ())"

definition blake3_label :: "(u8 list \<Rightarrow> u8 list) \<Rightarrow> u8 list \<Rightarrow> string" where
  "blake3_label blake3 data = ''b3-256:'' @ bridge_base32_lower (blake3 data)"

definition digest_secret :: "(u8 list \<Rightarrow> u8 list) \<Rightarrow> string \<Rightarrow> u8 list" where
  "digest_secret blake3 secret = blake3 (as_bytes secret)"

lemma validate_scoped_id_iff:
  "validate_scoped_id val prefix = Inr u \<longleftrightarrow> length prefix + 4 \<le> length val \<and> length val \<le> 128
     \<and> starts_with prefix val \<and> list_all scoped_byte val"
  by (auto simp: validate_scoped_id_def not_less)

lemma b32_valid_bytes: "b32_valid s \<longleftrightarrow> list_all base32_byte s"
  by (auto simp: b32_valid_def list_all_iff base32_byte_def b32_part_def)

lemma blake3_label_valid:
  assumes "length (blake3 data) = 32"
  shows "validate_blake3_hash (blake3_label blake3 data) = Inr ()"
    and "blake3_label blake3 data = content_hash_display (blake3 data)"
proof -
  have s: "b32_spells (bridge_base32_lower (blake3 data)) (blake3 data)"
    by (rule bridge_base32_lower_spells)
  have "bridge_base32_lower (blake3 data) = encode_base32 (blake3 data)"
    using b32_spells_unique [OF s encode_base32_spells] .
  then show "blake3_label blake3 data = content_hash_display (blake3 data)"
    by (simp add: blake3_label_def content_hash_display_def)
  have "length (bridge_base32_lower (blake3 data)) = 52"
    using length_spelling [OF s] assms by simp
  moreover have "list_all base32_byte (bridge_base32_lower (blake3 data))"
    using s by (simp add: b32_spells_def b32_valid_bytes)
  ultimately show "validate_blake3_hash (blake3_label blake3 data) = Inr ()"
    by (simp add: validate_blake3_hash_def blake3_label_def)
qed

text \<open>what the bridge prints, everyone accepts: the label of any content is a valid content
  hash for the bridge's validator, and the domain parser reads back the digest.\<close>

theorem blake3_label_accepted:
  assumes "\<And>m. length (blake3 m) = 32"
  shows "validate_blake3_hash (blake3_label blake3 data) = Inr ()
    \<and> content_hash_from_str (blake3_label blake3 data) = Inr (blake3 data)"
  using blake3_label_valid [of blake3 data] assms by (simp add: content_hash_parse_render hash32_def)

theorem blake3_label_accepted_witness:
  "validate_blake3_hash (blake3_label (\<lambda>m. replicate 32 5) [1, 2]) = Inr ()
    \<and> content_hash_from_str (blake3_label (\<lambda>m. replicate 32 5) [1, 2]) = Inr (replicate 32 5)"
  by (rule blake3_label_accepted) simp

section \<open>Protocol negotiation\<close>

definition parse_version :: "string \<Rightarrow> (nat \<times> nat) option" where
  "parse_version version =
     (case split_once CHR ''.'' version of
        None \<Rightarrow> None
      | Some (major, minor) \<Rightarrow>
          (case parse_u64 major of
             None \<Rightarrow> None
           | Some ma \<Rightarrow> map_option (\<lambda>mi. (ma, mi)) (parse_u64 minor)))"

fun version_less :: "nat \<times> nat \<Rightarrow> nat \<times> nat \<Rightarrow> bool" where
  "version_less (a, b) (c, d) = (a < c \<or> a = c \<and> b < d)"

definition negotiate_protocol :: "string \<Rightarrow> string \<Rightarrow> bridge_error + string" where
  "negotiate_protocol minimum maximum =
     bindE (ok_or (parse_version minimum) ProtocolIncompatible) (\<lambda>mn.
     bindE (ok_or (parse_version maximum) ProtocolIncompatible) (\<lambda>mx.
       if fst mn \<noteq> 1 \<or> fst mx \<noteq> 1 \<or> version_less (1, 0) mn \<or> version_less mx (1, 0)
          \<or> version_less mx mn
       then Inl ProtocolIncompatible
       else Inr PROTOCOL_VERSION))"

text \<open>negotiation is major-safe: it succeeds, with version 1.0, exactly when the client's
  minimum is 1.0 and its maximum is any 1.x.\<close>

theorem negotiate_protocol_iff:
  "negotiate_protocol minimum maximum = Inr v \<longleftrightarrow> v = ''1.0''
     \<and> parse_version minimum = Some (1, 0) \<and> (\<exists>m. parse_version maximum = Some (1, m))"
  by (cases "parse_version minimum"; cases "parse_version maximum")
    (auto simp: negotiate_protocol_def PROTOCOL_VERSION_def)

section \<open>Session context\<close>

definition json_opt_str :: "json \<Rightarrow> string \<Rightarrow> string option" where
  "json_opt_str v k = json_get_str v k"

definition hello_capabilities :: "json \<Rightarrow> string set" where
  "hello_capabilities v =
     (case Option.bind (json_get v ''capabilities'') json_arr of
        None \<Rightarrow> {}
      | Some caps \<Rightarrow>
          set (filter (\<lambda>c. length c \<le> 64) (List.map_filter json_str (take 64 caps))))"

definition parse_hello :: "json \<Rightarrow> bridge_error + hello_context" where
  "parse_hello v =
     (let hello = \<lparr>hc_universe_id = json_opt_str v ''universeId'',
                   hc_place_id = json_opt_str v ''placeId'',
                   hc_project_id = json_opt_str v ''projectId'',
                   hc_channel = json_opt_str v ''channel'',
                   hc_studio_user_id = json_opt_str v ''studioUserId'',
                   hc_studio_version = json_opt_str v ''studioVersion'',
                   hc_capabilities = hello_capabilities v\<rparr>
      in if ''base64-chunks'' \<notin> hc_capabilities hello then Inl ProtocolIncompatible
         else Inr hello)"

fun optional_id_matches :: "string option \<Rightarrow> string option \<Rightarrow> bool" where
  "optional_id_matches (Some expected) (Some actual) = (expected = actual)"
| "optional_id_matches None _ = True"
| "optional_id_matches _ _ = False"

definition hello_matches_binding :: "hello_context \<Rightarrow> session_binding \<Rightarrow> bool" where
  "hello_matches_binding hello binding \<longleftrightarrow>
     hc_project_id hello = Some (sb_project_id binding)
     \<and> hc_channel hello = Some (sb_channel binding)
     \<and> optional_id_matches (sb_place_id binding) (hc_place_id hello)
     \<and> optional_id_matches (sb_universe_id binding) (hc_universe_id hello)"

text \<open>\<open>require_bound_context\<close>, over the bridge's current binding and the session's hello.\<close>

definition require_bound_context ::
  "session_binding option \<Rightarrow> hello_context option \<Rightarrow> json \<Rightarrow> bridge_error + session_binding" where
  "require_bound_context binding hello v =
     bindE (ok_or binding ContextStale) (\<lambda>b.
     bindE (ok_or hello ContextStale) (\<lambda>h.
       if \<not> hello_matches_binding h b then Inl ContextStale
       else bindE (ok_or (json_get_u64 v ''contextVersion'') ContextStale) (\<lambda>received.
              if received \<noteq> sb_context_version b then Inl ContextStale else Inr b)))"

definition required_string :: "json \<Rightarrow> string \<Rightarrow> bridge_error + string" where
  "required_string v key =
     (case json_get_str v key of
        Some s \<Rightarrow> if s \<noteq> [] \<and> length s \<le> 256 then Inr s
                  else Inl (TransferRejected (''missing or invalid '' @ key))
      | None \<Rightarrow> Inl (TransferRejected (''missing or invalid '' @ key)))"

lemma require_bound_context_iff:
  "require_bound_context binding hello v = Inr b \<longleftrightarrow> binding = Some b
     \<and> (\<exists>h. hello = Some h \<and> hello_matches_binding h b)
     \<and> json_get_u64 v ''contextVersion'' = Some (sb_context_version b)"
  by (auto simp: require_bound_context_def result_simps split: if_splits)

end
