(* ===== verification/BridgePairing.thy ===== *)
theory BridgePairing
  imports BridgeWire "HOL-Library.AList"
begin

text \<open>
  Pairing of Studio plug-ins with the bridge (\<open>PairingRegistry\<close> of \<open>bridge.rs\<close>): discovery
  challenges, the six-digit code, the user's approval, issued credentials and revocation.

  The challenges are a map, the credentials (which are searched) an association list. Clock readings, random bytes and identifiers are
  arguments of the operation that draws them; BLAKE3 is the parameter \<open>blake3\<close>. A mutex
  serialises the operations, so an interleaving of clients is a list of them.
\<close>

section \<open>State\<close>

record challenge_record =
  ch_pairing_code :: string
  ch_expires_at :: nat
  ch_attempts_by_plugin :: "(string \<times> nat) list"
  ch_approved_plugins :: "string set"
  ch_used :: bool

record credential_record =
  cr_plugin_installation_id :: string
  cr_digest :: "u8 list"
  cr_revoked :: bool
  cr_expires_at :: nat

record pairing_registry =
  challenges :: "string \<rightharpoonup> challenge_record"
  credentials :: "(string \<times> credential_record) list"

definition empty_registry :: pairing_registry where
  "empty_registry = \<lparr>challenges = Map.empty, credentials = []\<rparr>"

record pair_request =
  pr_challenge :: string
  pr_pairing_code :: string
  pr_plugin_installation_id :: string
  pr_plugin_version :: string
  pr_protocol_version :: string
  pr_user_id :: "string option"
  pr_studio_version :: "string option"
  pr_platform :: "string option"

datatype pairing_event =
    PairingChallengeIssued string string nat
  | PairingRequested string string "string option" "string option" "string option"
  | Paired string

section \<open>Operations\<close>

text \<open>\<open>format!("{code_number:06}")\<close> of a number below a million.\<close>

definition six_digits :: "nat \<Rightarrow> string" where
  "six_digits n = map (\<lambda>k. digit_char (n div 10 ^ k mod 10)) [5, 4, 3, 2, 1, 0]"

definition live_challenge :: "nat \<Rightarrow> challenge_record \<Rightarrow> bool" where
  "live_challenge now r \<longleftrightarrow> \<not> ch_used r \<and> now < ch_expires_at r"

definition retain_challenges ::
  "nat \<Rightarrow> (string \<rightharpoonup> challenge_record) \<Rightarrow> string \<rightharpoonup> challenge_record" where
  "retain_challenges now m = (\<lambda>ch. case m ch of None \<Rightarrow> None
     | Some r \<Rightarrow> if live_challenge now r then Some r else None)"

text \<open>The two clock readings are the one before and the one under the lock.\<close>

definition issue_challenge ::
  "nat \<Rightarrow> nat \<Rightarrow> nat \<Rightarrow> string \<Rightarrow> u32 \<Rightarrow> pairing_registry
   \<Rightarrow> pairing_registry \<times> pairing_event \<times> string \<times> nat" where
  "issue_challenge challenge_ttl now now' challenge code pairing =
     (let pairing_code = six_digits (unat (code mod 1000000));
          expires_at = now + challenge_ttl;
          rec = \<lparr>ch_pairing_code = pairing_code, ch_expires_at = expires_at,
                 ch_attempts_by_plugin = [], ch_approved_plugins = {}, ch_used = False\<rparr>;
          kept = retain_challenges now' (challenges pairing)
      in (pairing\<lparr>challenges := kept(challenge \<mapsto> rec)\<rparr>,
          PairingChallengeIssued challenge pairing_code expires_at, challenge, expires_at))"

definition approve_pairing ::
  "nat \<Rightarrow> string \<Rightarrow> string \<Rightarrow> pairing_registry \<Rightarrow> pairing_registry \<times> (bridge_error + unit)" where
  "approve_pairing now challenge plugin pairing =
     (case validate_scoped_id plugin ''plg_'' of
        Inl e \<Rightarrow> (pairing, Inl e)
      | Inr _ \<Rightarrow>
          (case challenges pairing challenge of
             None \<Rightarrow> (pairing, Inl (PairingDenied ''unknown challenge''))
           | Some r \<Rightarrow>
               if ch_used r \<or> ch_expires_at r \<le> now
               then (pairing, Inl (PairingDenied ''expired challenge''))
               else (pairing\<lparr>challenges := (challenges pairing)(challenge \<mapsto>
                       r\<lparr>ch_approved_plugins := insert plugin (ch_approved_plugins r)\<rparr>)\<rparr>, Inr ())))"

definition revoke_plugin :: "string \<Rightarrow> pairing_registry \<Rightarrow> pairing_registry" where
  "revoke_plugin plugin pairing =
     pairing\<lparr>credentials := map (\<lambda>(i, c).
       (i, if cr_plugin_installation_id c = plugin then c\<lparr>cr_revoked := True\<rparr> else c))
       (credentials pairing)\<rparr>"

record pair_env =
  pe_now :: nat
  pe_now' :: nat
  pe_credential :: string
  pe_credential_id :: string

definition attempts_of :: "challenge_record \<Rightarrow> string \<Rightarrow> nat" where
  "attempts_of r plugin = (case map_of (ch_attempts_by_plugin r) plugin of None \<Rightarrow> 0 | Some n \<Rightarrow> n)"

text \<open>The checks before the attempt counter is touched; the result is the challenge's record.\<close>

definition pair_checks ::
  "pair_env \<Rightarrow> pair_request \<Rightarrow> pairing_registry \<Rightarrow> bridge_error + challenge_record" where
  "pair_checks env request pairing =
     bindE (validate_scoped_id (pr_plugin_installation_id request) ''plg_'') (\<lambda>_.
     bindE (guardE (length (pr_plugin_version request) \<le> 64 \<and> length (pr_pairing_code request) = 6)
            (PairingDenied ''invalid pairing request'')) (\<lambda>_.
     bindE (negotiate_protocol (pr_protocol_version request) (pr_protocol_version request)) (\<lambda>_.
     bindE (ok_or (challenges pairing (pr_challenge request))
            (PairingDenied ''unknown challenge'')) (\<lambda>r.
     bindE (guardE (\<not> (ch_used r \<or> ch_expires_at r \<le> pe_now env))
            (PairingDenied ''expired challenge'')) (\<lambda>_. Inr r)))))"

text \<open>\<open>entry(plugin).or_default()\<close> inserts a zero before the limit is checked.\<close>

definition complete_pairing ::
  "(u8 list \<Rightarrow> u8 list) \<Rightarrow> pair_env \<Rightarrow> pair_request \<Rightarrow> pairing_registry
   \<Rightarrow> pairing_registry \<times> pairing_event list \<times> (bridge_error + string \<times> nat)" where
  "complete_pairing blake3 env request pairing =
     (let plugin = pr_plugin_installation_id request;
          challenge = pr_challenge request;
          store = (\<lambda>r. pairing\<lparr>challenges := (challenges pairing)(challenge \<mapsto> r)\<rparr>)
      in case pair_checks env request pairing of
           Inl e \<Rightarrow> (pairing, [], Inl e)
         | Inr r \<Rightarrow>
             (let n = attempts_of r plugin;
                  touched = r\<lparr>ch_attempts_by_plugin := AList.update plugin n (ch_attempts_by_plugin r)\<rparr>;
                  counted = r\<lparr>ch_attempts_by_plugin := AList.update plugin (n + 1) (ch_attempts_by_plugin r)\<rparr>
              in if 5 \<le> n then (store touched, [], Inl (PairingDenied ''attempt limit exceeded''))
                 else if ch_pairing_code r \<noteq> pr_pairing_code request
                 then (store counted, [], Inl (PairingDenied ''code mismatch''))
                 else if plugin \<notin> ch_approved_plugins r
                 then (store counted,
                       [PairingRequested challenge plugin (pr_user_id request)
                          (pr_studio_version request) (pr_platform request)],
                       Inl PairingRequired)
                 else (let expires_at = pe_now' env + 30 * 24 * 60 * 60;
                           credential = pe_credential env
                       in ((store (counted\<lparr>ch_used := True\<rparr>))\<lparr>credentials :=
                             AList.update (pe_credential_id env)
                               \<lparr>cr_plugin_installation_id = plugin,
                                cr_digest = digest_secret blake3 credential,
                                cr_revoked = False, cr_expires_at = expires_at\<rparr>
                               (credentials pairing)\<rparr>,
                           [Paired plugin], Inr (credential, expires_at)))))"

text \<open>The clock is read anew for each credential examined.\<close>

definition authenticate_credential ::
  "(u8 list \<Rightarrow> u8 list) \<Rightarrow> (string \<Rightarrow> nat) \<Rightarrow> string \<Rightarrow> string \<Rightarrow> pairing_registry
   \<Rightarrow> bridge_error + unit" where
  "authenticate_credential blake3 clock plugin credential pairing =
     (if validate_scoped_id plugin ''plg_'' \<noteq> Inr () then Inl AuthInvalid
      else if length credential < 32 \<or> 256 < length credential then Inl AuthInvalid
      else (let digest = digest_secret blake3 credential;
                valid = list_ex (\<lambda>(i, c). cr_plugin_installation_id c = plugin \<and> \<not> cr_revoked c
                          \<and> clock i < cr_expires_at c \<and> cr_digest c = digest) (credentials pairing)
            in if valid then Inr () else Inl AuthInvalid))"

section \<open>Runs\<close>

datatype pairing_op =
    Issue nat nat nat string u32
  | Approve nat string string
  | Pair pair_env pair_request
  | Revoke string

fun pairing_step :: "(u8 list \<Rightarrow> u8 list) \<Rightarrow> pairing_op \<Rightarrow> pairing_registry \<Rightarrow> pairing_registry" where
  "pairing_step blake3 (Issue ttl now now' ch code) s = fst (issue_challenge ttl now now' ch code s)"
| "pairing_step blake3 (Approve now ch p) s = fst (approve_pairing now ch p s)"
| "pairing_step blake3 (Pair env req) s = fst (complete_pairing blake3 env req s)"
| "pairing_step blake3 (Revoke p) s = revoke_plugin p s"

section \<open>What a pairing request does\<close>

lemma set_update_subset: "set (AList.update k v al) \<subseteq> insert (k, v) (set al)"
  by (induction al) auto

lemma attempts_of_update [simp]:
  "attempts_of (r\<lparr>ch_attempts_by_plugin := AList.update p n (ch_attempts_by_plugin r)\<rparr>) q
     = (if q = p then n else attempts_of r q)"
  by (simp add: attempts_of_def update_conv')

lemma attempts_of_used [simp]: "attempts_of (r\<lparr>ch_used := b\<rparr>) q = attempts_of r q"
  "attempts_of (r\<lparr>ch_approved_plugins := ps\<rparr>) q = attempts_of r q"
  by (simp_all add: attempts_of_def)

text \<open>The outcome of a request is one of four.\<close>

definition with_attempts :: "string \<Rightarrow> nat \<Rightarrow> challenge_record \<Rightarrow> challenge_record" where
  "with_attempts p n r = r\<lparr>ch_attempts_by_plugin := AList.update p n (ch_attempts_by_plugin r)\<rparr>"

lemma with_attempts_simps [simp]:
  "ch_pairing_code (with_attempts p n r) = ch_pairing_code r"
  "ch_expires_at (with_attempts p n r) = ch_expires_at r"
  "ch_approved_plugins (with_attempts p n r) = ch_approved_plugins r"
  "ch_used (with_attempts p n r) = ch_used r"
  "attempts_of (with_attempts p n r) q = (if q = p then n else attempts_of r q)"
  by (simp_all add: with_attempts_def)

lemma pair_checks_error:
  "pair_checks env req s = Inl e \<Longrightarrow> e \<noteq> PairingDenied ''code mismatch'' \<and> e \<noteq> PairingRequired"
  by (auto simp: pair_checks_def validate_scoped_id_def negotiate_protocol_def guardE_def ok_or_def
      bindE_def split: if_splits option.splits sum.splits)

lemma pair_checks_ok:
  "pair_checks env req s = Inr r \<longleftrightarrow> validate_scoped_id (pr_plugin_installation_id req) ''plg_'' = Inr ()
     \<and> length (pr_plugin_version req) \<le> 64 \<and> length (pr_pairing_code req) = 6
     \<and> (\<exists>v. negotiate_protocol (pr_protocol_version req) (pr_protocol_version req) = Inr v)
     \<and> challenges s (pr_challenge req) = Some r \<and> \<not> ch_used r \<and> pe_now env < ch_expires_at r"
  by (auto simp: pair_checks_def result_simps not_le)

lemma complete_pairing_cases:
  fixes blake3 env req s
  defines "res \<equiv> complete_pairing blake3 env req s"
    and "p \<equiv> pr_plugin_installation_id req" and "ch \<equiv> pr_challenge req"
  obtains
    (refused) e where "fst res = s" "snd (snd res) = Inl e" "e \<noteq> PairingDenied ''code mismatch''"
      "e \<noteq> PairingRequired"
  | (limited) r where "challenges s ch = Some r" "5 \<le> attempts_of r p"
      "fst res = s\<lparr>challenges := (challenges s)(ch \<mapsto> with_attempts p (attempts_of r p) r)\<rparr>"
      "snd (snd res) = Inl (PairingDenied ''attempt limit exceeded'')"
  | (counted) r e where "challenges s ch = Some r" "attempts_of r p < 5"
      "fst res = s\<lparr>challenges := (challenges s)(ch \<mapsto> with_attempts p (attempts_of r p + 1) r)\<rparr>"
      "snd (snd res) = Inl e"
  | (paired) r where "challenges s ch = Some r" "attempts_of r p < 5" "\<not> ch_used r"
      "pe_now env < ch_expires_at r" "ch_pairing_code r = pr_pairing_code req" "p \<in> ch_approved_plugins r"
      "fst res = s\<lparr>challenges := (challenges s)(ch \<mapsto> (with_attempts p (attempts_of r p + 1) r)\<lparr>ch_used := True\<rparr>),
         credentials := AList.update (pe_credential_id env)
           \<lparr>cr_plugin_installation_id = p, cr_digest = digest_secret blake3 (pe_credential env),
            cr_revoked = False, cr_expires_at = pe_now' env + 30 * 24 * 60 * 60\<rparr> (credentials s)\<rparr>"
      "snd (snd res) = Inr (pe_credential env, pe_now' env + 30 * 24 * 60 * 60)"
proof (cases "pair_checks env req s")
  case (Inl e)
  with pair_checks_error [OF Inl] show thesis
    by (intro refused [of e]) (simp_all add: complete_pairing_def Let_def res_def)
next
  case (Inr r)
  note ok = Inr [unfolded pair_checks_ok]
  have res: "res = (let n = attempts_of r p;
       store = (\<lambda>r. s\<lparr>challenges := (challenges s)(ch \<mapsto> r)\<rparr>)
     in if 5 \<le> n then (store (with_attempts p n r), [], Inl (PairingDenied ''attempt limit exceeded''))
        else if ch_pairing_code r \<noteq> pr_pairing_code req
        then (store (with_attempts p (n + 1) r), [], Inl (PairingDenied ''code mismatch''))
        else if p \<notin> ch_approved_plugins r
        then (store (with_attempts p (n + 1) r), [PairingRequested ch p (pr_user_id req)
                (pr_studio_version req) (pr_platform req)], Inl PairingRequired)
        else ((store ((with_attempts p (n + 1) r)\<lparr>ch_used := True\<rparr>))\<lparr>credentials :=
                AList.update (pe_credential_id env)
                \<lparr>cr_plugin_installation_id = p,
                 cr_digest = digest_secret blake3 (pe_credential env),
                 cr_revoked = False, cr_expires_at = pe_now' env + 30 * 24 * 60 * 60\<rparr> (credentials s)\<rparr>,
              [Paired p], Inr (pe_credential env, pe_now' env + 30 * 24 * 60 * 60)))"
    using Inr by (simp add: complete_pairing_def Let_def res_def ch_def p_def with_attempts_def)
  consider "5 \<le> attempts_of r p"
    | "attempts_of r p < 5" "ch_pairing_code r = pr_pairing_code req" "p \<in> ch_approved_plugins r"
    | "attempts_of r p < 5" "\<not> (ch_pairing_code r = pr_pairing_code req \<and> p \<in> ch_approved_plugins r)"
    by linarith
  then show thesis
  proof cases
    case 1
    then show thesis using ok by (intro limited [of r]) (simp_all add: res Let_def ch_def)
  next
    case 2
    then show thesis using ok by (intro paired [of r]) (simp_all add: res Let_def ch_def)
  next
    case 3
    then show thesis using ok
      by (intro counted [of r "if ch_pairing_code r \<noteq> pr_pairing_code req
            then PairingDenied ''code mismatch'' else PairingRequired"])
        (auto simp: res Let_def ch_def)
  qed
qed

section \<open>No access without approval\<close>

text \<open>The registry together with the operations that led to it.\<close>

definition traced_step ::
  "(u8 list \<Rightarrow> u8 list) \<Rightarrow> pairing_op \<Rightarrow> pairing_op list \<times> pairing_registry
   \<Rightarrow> pairing_op list \<times> pairing_registry" where
  "traced_step blake3 op s = (fst s @ [op], pairing_step blake3 op (snd s))"

definition approved_before :: "pairing_op list \<Rightarrow> string \<Rightarrow> string \<Rightarrow> bool" where
  "approved_before h ch p \<longleftrightarrow> (\<exists>now. Approve now ch p \<in> set h)"

text \<open>A live credential of \<open>p\<close> comes from a pairing that an approval precedes and no revocation
  follows.\<close>

definition granted :: "(u8 list \<Rightarrow> u8 list) \<Rightarrow> pairing_op list \<Rightarrow> credential_record \<Rightarrow> bool" where
  "granted blake3 h c \<longleftrightarrow> (\<exists>pre env req post. h = pre @ Pair env req # post
     \<and> pr_plugin_installation_id req = cr_plugin_installation_id c
     \<and> approved_before pre (pr_challenge req) (cr_plugin_installation_id c)
     \<and> cr_digest c = digest_secret blake3 (pe_credential env)
     \<and> Revoke (cr_plugin_installation_id c) \<notin> set post)"

definition approvals_ok :: "pairing_op list \<Rightarrow> pairing_registry \<Rightarrow> bool" where
  "approvals_ok h s \<longleftrightarrow>
     (\<forall>ch r p. challenges s ch = Some r \<longrightarrow> p \<in> ch_approved_plugins r \<longrightarrow> approved_before h ch p)"

definition credentials_ok :: "(u8 list \<Rightarrow> u8 list) \<Rightarrow> pairing_op list \<Rightarrow> pairing_registry \<Rightarrow> bool" where
  "credentials_ok blake3 h s \<longleftrightarrow>
     (\<forall>c \<in> snd ` set (credentials s). \<not> cr_revoked c \<longrightarrow> granted blake3 h c)"

definition traced_ok :: "(u8 list \<Rightarrow> u8 list) \<Rightarrow> pairing_op list \<times> pairing_registry \<Rightarrow> bool" where
  "traced_ok blake3 s \<longleftrightarrow> approvals_ok (fst s) (snd s) \<and> credentials_ok blake3 (fst s) (snd s)"

lemma approved_before_snoc: "approved_before h ch p \<Longrightarrow> approved_before (h @ [op]) ch p"
  by (auto simp: approved_before_def)

lemma granted_snoc:
  assumes "granted blake3 h c" and "op \<noteq> Revoke (cr_plugin_installation_id c)"
  shows "granted blake3 (h @ [op]) c"
proof -
  obtain pre env req post where "h = pre @ Pair env req # post"
    "pr_plugin_installation_id req = cr_plugin_installation_id c"
    "approved_before pre (pr_challenge req) (cr_plugin_installation_id c)"
    "cr_digest c = digest_secret blake3 (pe_credential env)"
    "Revoke (cr_plugin_installation_id c) \<notin> set post"
    using assms(1) unfolding granted_def by blast
  then show ?thesis
    unfolding granted_def using assms(2)
    by (intro exI [of _ pre] exI [of _ env] exI [of _ req] exI [of _ "post @ [op]"]) auto
qed


lemma approvals_ok_update:
  assumes "approvals_ok h s" and "\<And>p. p \<in> ch_approved_plugins r \<Longrightarrow> approved_before (h @ [op]) ch p"
    and "challenges s' = cs(ch \<mapsto> r)" and "cs \<subseteq>\<^sub>m challenges s"
  shows "approvals_ok (h @ [op]) s'"
  using assms approved_before_snoc [of h _ _ op]
  unfolding approvals_ok_def map_le_def by (auto simp: dom_def split: if_splits)

lemma approvals_ok_snoc:
  "approvals_ok h s \<Longrightarrow> challenges s' = challenges s \<Longrightarrow> approvals_ok (h @ [op]) s'"
  unfolding approvals_ok_def using approved_before_snoc [of h _ _ op] by fastforce

lemma credentials_ok_snoc:
  assumes "credentials_ok blake3 h s" and "\<And>p. op \<noteq> Revoke p" and "credentials s' = credentials s"
  shows "credentials_ok blake3 (h @ [op]) s'"
  using assms granted_snoc [of blake3 h _ op] unfolding credentials_ok_def by simp

lemma credentials_ok_insert:
  assumes "credentials_ok blake3 h s" and "\<And>p. op \<noteq> Revoke p" and "granted blake3 (h @ [op]) c"
    and "credentials s' = AList.update i c (credentials s)"
  shows "credentials_ok blake3 (h @ [op]) s'"
  using assms granted_snoc [of blake3 h _ op] set_update_subset [of i c "credentials s"]
  unfolding credentials_ok_def by fastforce

lemma granted_pair:
  assumes "approved_before h (pr_challenge req) (pr_plugin_installation_id req)"
  shows "granted blake3 (h @ [Pair env req]) \<lparr>cr_plugin_installation_id = pr_plugin_installation_id req,
    cr_digest = digest_secret blake3 (pe_credential env), cr_revoked = False, cr_expires_at = t\<rparr>"
  unfolding granted_def using assms
  by (intro exI [of _ h] exI [of _ env] exI [of _ req] exI [of _ "[]"]) simp

lemma approved_in:
  "approvals_ok h s \<Longrightarrow> challenges s ch = Some r \<Longrightarrow> p \<in> ch_approved_plugins r
     \<Longrightarrow> approved_before h ch p"
  by (auto simp: approvals_ok_def)

lemma traced_pair:
  assumes "approvals_ok h s" and "credentials_ok blake3 h s"
  shows "approvals_ok (h @ [Pair env req]) (fst (complete_pairing blake3 env req s))
    \<and> credentials_ok blake3 (h @ [Pair env req]) (fst (complete_pairing blake3 env req s))"
proof (cases rule: complete_pairing_cases [of blake3 env req s])
  case refused
  then show ?thesis
    using approvals_ok_snoc [OF assms(1)] credentials_ok_snoc [OF assms(2)] by simp
next
  case (limited r)
  then show ?thesis using assms approved_in [OF assms(1) limited(1)] approved_before_snoc
    by (intro conjI approvals_ok_update [OF assms(1)] credentials_ok_snoc [OF assms(2)]) auto
next
  case (counted r)
  then show ?thesis using assms approved_in [OF assms(1) counted(1)] approved_before_snoc
    by (intro conjI approvals_ok_update [OF assms(1)] credentials_ok_snoc [OF assms(2)]) auto
next
  case (paired r)
  have "granted blake3 (h @ [Pair env req]) \<lparr>cr_plugin_installation_id = pr_plugin_installation_id req,
      cr_digest = digest_secret blake3 (pe_credential env), cr_revoked = False,
      cr_expires_at = pe_now' env + 30 * 24 * 60 * 60\<rparr>"
    using approved_in [OF assms(1) paired(1,6)] by (rule granted_pair)
  then show ?thesis using paired(7) approved_in [OF assms(1) paired(1)] approved_before_snoc
    by (intro conjI approvals_ok_update [OF assms(1)] credentials_ok_insert [OF assms(2)]) auto
qed

lemma traced_issue:
  assumes "approvals_ok h s" and "credentials_ok blake3 h s"
  shows "approvals_ok (h @ [Issue ttl now now' ch code]) (fst (issue_challenge ttl now now' ch code s))
    \<and> credentials_ok blake3 (h @ [Issue ttl now now' ch code]) (fst (issue_challenge ttl now now' ch code s))"
proof
  show "approvals_ok (h @ [Issue ttl now now' ch code]) (fst (issue_challenge ttl now now' ch code s))"
    by (rule approvals_ok_update [OF assms(1), where ch = ch
          and cs = "retain_challenges now' (challenges s)"])
      (auto simp: issue_challenge_def Let_def map_le_def retain_challenges_def dom_def split: option.splits)
  show "credentials_ok blake3 (h @ [Issue ttl now now' ch code])
      (fst (issue_challenge ttl now now' ch code s))"
    by (rule credentials_ok_snoc [OF assms(2)]) (simp_all add: issue_challenge_def Let_def)
qed

lemma approve_pairing_cases:
  obtains "fst (approve_pairing now ch p s) = s"
  | r where "challenges s ch = Some r" "snd (approve_pairing now ch p s) = Inr ()"
      "\<not> ch_used r" "now < ch_expires_at r"
      "fst (approve_pairing now ch p s) = s\<lparr>challenges := (challenges s)(ch \<mapsto>
         r\<lparr>ch_approved_plugins := insert p (ch_approved_plugins r)\<rparr>)\<rparr>"
  by (cases "validate_scoped_id p ''plg_''"; cases "challenges s ch";
      cases "ch_used (the (challenges s ch)) \<or> ch_expires_at (the (challenges s ch)) \<le> now")
    (simp_all add: approve_pairing_def)

lemma traced_approve:
  assumes "approvals_ok h s" and "credentials_ok blake3 h s"
  shows "approvals_ok (h @ [Approve now ch p]) (fst (approve_pairing now ch p s))
    \<and> credentials_ok blake3 (h @ [Approve now ch p]) (fst (approve_pairing now ch p s))"
proof (cases rule: approve_pairing_cases [of now ch p s])
  case 1
  then show ?thesis
    using approvals_ok_snoc [OF assms(1)] credentials_ok_snoc [OF assms(2)] by simp
next
  case (2 r)
  have "approvals_ok (h @ [Approve now ch p]) (fst (approve_pairing now ch p s))"
  proof (rule approvals_ok_update [OF assms(1)])
    show "challenges (fst (approve_pairing now ch p s)) = (challenges s)(ch \<mapsto>
        r\<lparr>ch_approved_plugins := insert p (ch_approved_plugins r)\<rparr>)"
      by (simp add: 2(5))
    show "approved_before (h @ [Approve now ch p]) ch q"
      if "q \<in> ch_approved_plugins (r\<lparr>ch_approved_plugins := insert p (ch_approved_plugins r)\<rparr>)" for q
      using that approved_in [OF assms(1) 2(1)] approved_before_snoc [of h ch q "Approve now ch p"]
      by (auto simp: approved_before_def)
  qed simp
  moreover have "credentials_ok blake3 (h @ [Approve now ch p]) (fst (approve_pairing now ch p s))"
    by (rule credentials_ok_snoc [OF assms(2)]) (simp_all add: 2(5))
  ultimately show ?thesis by blast
qed

lemma traced_revoke:
  assumes "approvals_ok h s" and "credentials_ok blake3 h s"
  shows "approvals_ok (h @ [Revoke p]) (revoke_plugin p s)
    \<and> credentials_ok blake3 (h @ [Revoke p]) (revoke_plugin p s)"
proof
  show "approvals_ok (h @ [Revoke p]) (revoke_plugin p s)"
    by (rule approvals_ok_snoc [OF assms(1)]) (simp add: revoke_plugin_def)
  show "credentials_ok blake3 (h @ [Revoke p]) (revoke_plugin p s)"
    unfolding credentials_ok_def
  proof (intro ballI impI)
    fix c assume c: "c \<in> snd ` set (credentials (revoke_plugin p s))" "\<not> cr_revoked c"
    then have "c \<in> snd ` set (credentials s) \<and> cr_plugin_installation_id c \<noteq> p"
      by (force simp: revoke_plugin_def split: if_splits)
    then show "granted blake3 (h @ [Revoke p]) c"
      using c(2) assms(2) by (intro granted_snoc) (auto simp: credentials_ok_def)
  qed
qed

lemma traced_step_ok: "traced_ok blake3 s \<Longrightarrow> traced_ok blake3 (traced_step blake3 op s)"
  using traced_issue traced_approve traced_pair traced_revoke
  by (cases op) (auto simp: traced_ok_def traced_step_def)

interpretation pairing: invariant_steps "traced_step blake3" "traced_ok blake3"
  for blake3
  by unfold_locales (rule traced_step_ok)

lemma traced_run:
  "fold (traced_step blake3) ops (h, s) = (h @ ops, fold (pairing_step blake3) ops s)"
  by (induction ops arbitrary: h s) (simp_all add: traced_step_def)

text \<open>C1: no access without the user: in any interleaving of discoveries, approvals, pairing
  requests and revocations, whoever authenticates as a plug-in holds a secret with the digest of
  one issued to that plug-in, by a pairing on a challenge the user had approved for it before, and
  the plug-in was not revoked since.\<close>

theorem authentication_needs_approval:
  assumes "authenticate_credential blake3 clock p credential (fold (pairing_step blake3) ops empty_registry)
    = Inr ()"
  shows "\<exists>pre env req post now. ops = pre @ Pair env req # post \<and> pr_plugin_installation_id req = p
    \<and> Approve now (pr_challenge req) p \<in> set pre
    \<and> digest_secret blake3 (pe_credential env) = digest_secret blake3 credential
    \<and> Revoke p \<notin> set post"
proof -
  let ?s = "fold (pairing_step blake3) ops empty_registry"
  have "traced_ok blake3 ([], empty_registry)"
    by (simp add: traced_ok_def approvals_ok_def credentials_ok_def empty_registry_def)
  then have "traced_ok blake3 (ops, ?s)"
    using pairing.run_inv [of blake3 "([], empty_registry)" ops] by (simp add: traced_run)
  then have ok: "credentials_ok blake3 ops ?s" by (simp add: traced_ok_def)
  obtain i c where c: "(i, c) \<in> set (credentials ?s)" "cr_plugin_installation_id c = p"
    "\<not> cr_revoked c" "cr_digest c = digest_secret blake3 credential"
    using assms by (auto simp: authenticate_credential_def Let_def list_ex_iff split: if_splits)
  have "granted blake3 ops c" using ok c(1,3) by (force simp: credentials_ok_def)
  then show ?thesis using c(2,4) by (auto simp: granted_def approved_before_def) metis
qed

definition wit_request :: pair_request where
  "wit_request = \<lparr>pr_challenge = ''ch'', pr_pairing_code = ''123456'',
     pr_plugin_installation_id = ''plg_0001'', pr_plugin_version = ''0.1.0'',
     pr_protocol_version = ''1.0'', pr_user_id = None, pr_studio_version = None, pr_platform = None\<rparr>"

definition wit_pair_env :: pair_env where
  "wit_pair_env = \<lparr>pe_now = 102, pe_now' = 102, pe_credential = replicate 43 CHR ''s'',
     pe_credential_id = ''cred_1''\<rparr>"

lemma wit_pairing_facts:
  "six_digits 123456 = ''123456''"
  "validate_scoped_id ''plg_0001'' ''plg_'' = Inr ()"
  "negotiate_protocol ''1.0'' ''1.0'' = Inr ''1.0''"
proof -
  have "digit_char 1 = CHR ''1''" "digit_char 2 = CHR ''2''" "digit_char 3 = CHR ''3''"
    "digit_char 4 = CHR ''4''" "digit_char 5 = CHR ''5''" "digit_char 6 = CHR ''6''"
    by code_simp+
  then show "six_digits 123456 = ''123456''" by (simp add: six_digits_def)
  show "validate_scoped_id ''plg_0001'' ''plg_'' = Inr ()"
    by (simp add: validate_scoped_id_iff scoped_byte_def ascii_class_defs)
  show "negotiate_protocol ''1.0'' ''1.0'' = Inr ''1.0''"
    by (simp add: negotiate_protocol_def parse_version_def parse_u64_def strip_prefix_def
        ascii_class_defs decimal_value_def PROTOCOL_VERSION_def)
qed

lemmas pairing_eval =
  wit_pairing_facts authenticate_credential_def Let_def issue_challenge_def approve_pairing_def
  complete_pairing_def pair_checks_def wit_request_def wit_pair_env_def attempts_of_def
  empty_registry_def result_simps

lemma wit_authenticates:
  "authenticate_credential (\<lambda>m. m) (\<lambda>_. 200) ''plg_0001'' (replicate 43 CHR ''s'')
    (fold (pairing_step (\<lambda>m. m)) [Issue 30 100 100 ''ch'' 123456, Approve 101 ''ch'' ''plg_0001'',
      Pair wit_pair_env wit_request] empty_registry) = Inr ()"
  by (simp add: pairing_eval)

theorem authentication_needs_approval_witness:
  "\<exists>pre env req post now. [Issue 30 100 100 ''ch'' 123456, Approve 101 ''ch'' ''plg_0001'',
      Pair wit_pair_env wit_request] = pre @ Pair env req # post
    \<and> Approve now (pr_challenge req) ''plg_0001'' \<in> set pre"
  using authentication_needs_approval [OF wit_authenticates] by blast

section \<open>A challenge: one credential, five guesses\<close>

fun issues :: "string \<Rightarrow> pairing_op \<Rightarrow> bool" where
  "issues ch (Issue _ _ _ ch' _) = (ch' = ch)"
| "issues ch _ = False"

text \<open>The answer tells whether the code was right.\<close>

fun code_tested :: "bridge_error + string \<times> nat \<Rightarrow> bool" where
  "code_tested (Inl (PairingDenied e)) = (e = ''code mismatch'')"
| "code_tested (Inl PairingRequired) = True"
| "code_tested (Inl _) = False"
| "code_tested (Inr _) = True"

fun guess_of :: "(u8 list \<Rightarrow> u8 list) \<Rightarrow> string \<Rightarrow> string \<Rightarrow> pairing_op \<Rightarrow> pairing_registry \<Rightarrow> nat" where
  "guess_of blake3 ch p (Pair env req) s =
     (if pr_challenge req = ch \<and> pr_plugin_installation_id req = p
         \<and> code_tested (snd (snd (complete_pairing blake3 env req s))) then 1 else 0)"
| "guess_of blake3 ch p _ s = 0"

fun issued_of :: "(u8 list \<Rightarrow> u8 list) \<Rightarrow> string \<Rightarrow> pairing_op \<Rightarrow> pairing_registry \<Rightarrow> nat" where
  "issued_of blake3 ch (Pair env req) s =
     (if pr_challenge req = ch \<and> is_ok (snd (snd (complete_pairing blake3 env req s))) then 1 else 0)"
| "issued_of blake3 ch _ s = 0"

definition guesses_left :: "string \<Rightarrow> string \<Rightarrow> pairing_registry \<Rightarrow> nat" where
  "guesses_left ch p s = (case challenges s ch of None \<Rightarrow> 0 | Some r \<Rightarrow> 5 - attempts_of r p)"

definition uses_left :: "string \<Rightarrow> pairing_registry \<Rightarrow> nat" where
  "uses_left ch s = (case challenges s ch of None \<Rightarrow> 0 | Some r \<Rightarrow> if ch_used r then 0 else 1)"

lemma issue_other:
  assumes "ch' \<noteq> ch"
  shows "challenges (fst (issue_challenge ttl now now' ch' code s)) ch
    = retain_challenges now' (challenges s) ch"
  using assms by (simp add: issue_challenge_def Let_def)

lemma approve_challenges:
  "challenges (fst (approve_pairing now ch' p s)) ch = challenges s ch
     \<or> (\<exists>r. challenges s ch = Some r \<and> challenges (fst (approve_pairing now ch' p s)) ch
          = Some (r\<lparr>ch_approved_plugins := insert p (ch_approved_plugins r)\<rparr>))"
  by (cases rule: approve_pairing_cases [of now ch' p s]) auto

lemma code_tested_Inl [simp]:
  "code_tested (Inl e) \<longleftrightarrow> e = PairingDenied ''code mismatch'' \<or> e = PairingRequired"
  by (cases e) auto

lemma guesses_step:
  assumes "\<not> issues ch op"
  shows "guess_of blake3 ch p op s + guesses_left ch p (pairing_step blake3 op s) \<le> guesses_left ch p s"
proof (cases op)
  case (Issue ttl now now' ch' code)
  then show ?thesis using assms
    by (auto simp: guesses_left_def issue_other retain_challenges_def split: option.splits)
next
  case (Approve now ch' q)
  then show ?thesis using approve_challenges [of now ch' q s ch]
    by (auto simp: guesses_left_def split: option.split)
next
  case (Pair env req)
  then show ?thesis
    by (cases rule: complete_pairing_cases [of blake3 env req s])
      (auto simp: guesses_left_def split: option.split bridge_error.split)
next
  case (Revoke q)
  then show ?thesis by (simp add: guesses_left_def revoke_plugin_def)
qed

lemma uses_step:
  assumes "\<not> issues ch op"
  shows "issued_of blake3 ch op s + uses_left ch (pairing_step blake3 op s) \<le> uses_left ch s"
proof (cases op)
  case (Issue ttl now now' ch' code)
  then show ?thesis using assms
    by (auto simp: uses_left_def issue_other retain_challenges_def split: option.splits)
next
  case (Approve now ch' q)
  then show ?thesis using approve_challenges [of now ch' q s ch]
    by (auto simp: uses_left_def split: option.split)
next
  case (Pair env req)
  then show ?thesis
    by (cases rule: complete_pairing_cases [of blake3 env req s])
      (auto simp: uses_left_def split: option.split)
next
  case (Revoke q)
  then show ?thesis by (simp add: uses_left_def revoke_plugin_def)
qed

interpretation guesses: budgeted_steps "pairing_step blake3" "\<lambda>op. \<not> issues ch op"
    "guess_of blake3 ch p" "guesses_left ch p"
  for blake3 ch p
  by unfold_locales (rule guesses_step)

interpretation uses: budgeted_steps "pairing_step blake3" "\<lambda>op. \<not> issues ch op"
    "issued_of blake3 ch" "uses_left ch"
  for blake3 ch
  by unfold_locales (rule uses_step)

text \<open>C10: a challenge buys at most one credential and each plug-in at most five tests of its code,
  whatever the interleaving, until a challenge of the same name is issued again.\<close>

theorem challenge_budget:
  assumes "list_all (\<lambda>op. \<not> issues ch op) ops"
  shows "total_cost (pairing_step blake3) (guess_of blake3 ch p) ops s \<le> 5
    \<and> total_cost (pairing_step blake3) (issued_of blake3 ch) ops s \<le> 1"
proof -
  have "guesses_left ch p s \<le> 5" "uses_left ch s \<le> 1"
    by (auto simp: guesses_left_def uses_left_def split: option.split)
  then show ?thesis
    using guesses.total_le_budget [OF assms, of blake3 p s] uses.total_le_budget [OF assms, of blake3 s]
    by (meson le_trans)
qed

theorem challenge_budget_witness:
  "total_cost (pairing_step (\<lambda>m. m)) (guess_of (\<lambda>m. m) ''ch'' ''plg_0001'')
      [Pair wit_pair_env wit_request, Revoke ''plg_0001'']
      (fst (issue_challenge 30 100 100 ''ch'' 123456 empty_registry)) \<le> 5"
  using challenge_budget [of "''ch''" "[Pair wit_pair_env wit_request, Revoke ''plg_0001'']"] by simp

section \<open>What revocation and the attempt limit leave out\<close>

lemma revoke_plugin_keeps_challenges [simp]: "challenges (revoke_plugin p s) = challenges s"
  by (simp add: revoke_plugin_def)

text \<open>\<open>revoke_plugin\<close> does not touch the open challenges: a plug-in approved on a challenge
  can pair on it after its revocation and authenticate with the credential it gets.\<close>

theorem revoked_plugin_pairs_again:
  assumes "pair_checks env req s = Inr r" and "attempts_of r (pr_plugin_installation_id req) < 5"
    and "ch_pairing_code r = pr_pairing_code req"
    and "pr_plugin_installation_id req \<in> ch_approved_plugins r"
    and "32 \<le> length (pe_credential env)" and "length (pe_credential env) \<le> 256"
    and "\<forall>i. clock i < pe_now' env + 30 * 24 * 60 * 60"
  shows "\<exists>s' evs t. complete_pairing blake3 env req (revoke_plugin (pr_plugin_installation_id req) s)
      = (s', evs, Inr (pe_credential env, t))
    \<and> authenticate_credential blake3 clock (pr_plugin_installation_id req) (pe_credential env) s' = Inr ()"
proof -
  let ?p = "pr_plugin_installation_id req"
  let ?c = "\<lparr>cr_plugin_installation_id = ?p, cr_digest = digest_secret blake3 (pe_credential env),
    cr_revoked = False, cr_expires_at = pe_now' env + 30 * 24 * 60 * 60\<rparr>"
  obtain s' evs where s': "complete_pairing blake3 env req (revoke_plugin ?p s)
      = (s', evs, Inr (pe_credential env, pe_now' env + 30 * 24 * 60 * 60))"
    "credentials s' = AList.update (pe_credential_id env) ?c (credentials (revoke_plugin ?p s))"
  proof (cases "pair_checks env req (revoke_plugin ?p s)")
    case (Inl e)
    then show ?thesis using assms(1)
      by (metis Inl_Inr_False pair_checks_ok revoke_plugin_keeps_challenges)
  next
    case (Inr r')
    then have "r' = r" using assms(1) by (simp add: pair_checks_ok revoke_plugin_def)
    then show ?thesis using Inr assms(2-4) that by (simp add: complete_pairing_def Let_def)
  qed
  have "list_ex P (AList.update i c al)" if "P (i, c)" for P :: "string \<times> credential_record \<Rightarrow> bool" and i c al
    using that by (induction al) auto
  then have "authenticate_credential blake3 clock ?p (pe_credential env) s' = Inr ()"
    using assms(1,5-7) by (simp add: authenticate_credential_def Let_def s'(2) pair_checks_ok)
  then show ?thesis using s'(1) by blast
qed

theorem revoked_plugin_pairs_again_witness:
  "\<exists>s s' evs t. s = fold (pairing_step (\<lambda>m. m))
      [Issue 30 100 100 ''ch'' 123456, Approve 101 ''ch'' ''plg_0001'', Revoke ''plg_0001''] empty_registry
    \<and> complete_pairing (\<lambda>m. m) wit_pair_env wit_request s = (s', evs, Inr (replicate 43 CHR ''s'', t))"
proof -
  let ?s = "fold (pairing_step (\<lambda>m. m))
      [Issue 30 100 100 ''ch'' 123456, Approve 101 ''ch'' ''plg_0001''] empty_registry"
  let ?r = "\<lparr>ch_pairing_code = ''123456'', ch_expires_at = 130, ch_attempts_by_plugin = [],
    ch_approved_plugins = {''plg_0001''}, ch_used = False\<rparr>"
  have "pair_checks wit_pair_env wit_request ?s = Inr ?r" by (simp add: pairing_eval)
  from revoked_plugin_pairs_again [OF this, of "\<lambda>_. 200" "\<lambda>m. m"]
  obtain s' evs t where "complete_pairing (\<lambda>m. m) wit_pair_env wit_request
      (revoke_plugin ''plg_0001'' ?s) = (s', evs, Inr (replicate 43 CHR ''s'', t))"
    by (auto simp: attempts_of_def wit_request_def wit_pair_env_def)
  then show ?thesis by auto
qed

text \<open>the attempt counter counts every request that reaches the code, not only wrong codes:
  a plug-in that asks five times with the right code before the user approves it is refused
  after the approval.\<close>

theorem polling_exhausts_attempts:
  assumes "pair_checks env req s = Inr r" and "attempts_of r (pr_plugin_installation_id req) = 0"
    and "ch_pairing_code r = pr_pairing_code req"
    and "pr_plugin_installation_id req \<notin> ch_approved_plugins r"
  shows "snd (snd (complete_pairing blake3 env req s)) = Inl PairingRequired
    \<and> snd (snd (complete_pairing blake3 env req
        (pairing_step blake3 (Approve (pe_now env) (pr_challenge req) (pr_plugin_installation_id req))
          (((pairing_step blake3 (Pair env req)) ^^ 5) s))))
      = Inl (PairingDenied ''attempt limit exceeded'')"
proof -
  let ?p = "pr_plugin_installation_id req" and ?ch = "pr_challenge req"
  note ok = assms(1) [unfolded pair_checks_ok]
  define f where "f = pairing_step blake3 (Pair env req)"
  have f: "f t = fst (complete_pairing blake3 env req t)" for t by (simp add: f_def)
  have poll: "n \<le> 5 \<Longrightarrow> \<exists>r'. pair_checks env req ((f ^^ n) s) = Inr r'
      \<and> attempts_of r' ?p = n \<and> ch_pairing_code r' = pr_pairing_code req
      \<and> ?p \<notin> ch_approved_plugins r'" for n
  proof (induction n)
    case 0
    then show ?case using assms by simp
  next
    case (Suc n)
    let ?s = "(f ^^ n) s"
    from Suc.IH Suc.prems
    obtain r' where r': "pair_checks env req ?s = Inr r'" "attempts_of r' ?p = n"
      "ch_pairing_code r' = pr_pairing_code req" "?p \<notin> ch_approved_plugins r'"
      by (meson Suc_leD)
    then have "fst (complete_pairing blake3 env req ?s)
        = ?s\<lparr>challenges := (challenges ?s)(?ch \<mapsto> with_attempts ?p (n + 1) r')\<rparr>"
      using Suc.prems by (simp add: complete_pairing_def Let_def with_attempts_def)
    then show ?case
      using r' f [of ?s] by (intro exI [of _ "with_attempts ?p (n + 1) r'"]) (simp add: pair_checks_ok)
  qed
  let ?s5 = "(f ^^ 5) s"
  obtain r5 where r5: "pair_checks env req ?s5 = Inr r5" "attempts_of r5 ?p = 5"
    using poll [of 5] by auto
  then have "pairing_step blake3 (Approve (pe_now env) ?ch ?p) ?s5 = ?s5\<lparr>challenges := (challenges ?s5)(?ch \<mapsto>
      r5\<lparr>ch_approved_plugins := insert ?p (ch_approved_plugins r5)\<rparr>)\<rparr>"
    by (simp add: pair_checks_ok approve_pairing_def)
  then have "pair_checks env req (pairing_step blake3 (Approve (pe_now env) ?ch ?p) ?s5)
      = Inr (r5\<lparr>ch_approved_plugins := insert ?p (ch_approved_plugins r5)\<rparr>)"
    using r5(1) by (simp add: pair_checks_ok)
  then show ?thesis unfolding f_def [symmetric] using assms r5(2)
    by (simp add: complete_pairing_def Let_def)
qed

theorem polling_exhausts_attempts_witness:
  "\<exists>s. snd (snd (complete_pairing (\<lambda>m. m) wit_pair_env wit_request s)) = Inl PairingRequired"
proof -
  let ?s = "pairing_step (\<lambda>m. m) (Issue 30 100 100 ''ch'' 123456) empty_registry"
  let ?r = "\<lparr>ch_pairing_code = ''123456'', ch_expires_at = 130, ch_attempts_by_plugin = [],
    ch_approved_plugins = {}, ch_used = False\<rparr>"
  have "pair_checks wit_pair_env wit_request ?s = Inr ?r" by (simp add: pairing_eval)
  from polling_exhausts_attempts [OF this, of "\<lambda>m. m"] show ?thesis
    by (intro exI [of _ ?s]) (simp add: attempts_of_def wit_request_def)
qed

end
