(* ===== verification/BridgeTransfer.thy ===== *)
theory BridgeTransfer
  imports BridgeWire
begin

text \<open>
  The \<open>TransferManager\<close> of a bridge session: one chunked upload at a time into a quarantine
  directory, each chunk bounded and hash-checked, the whole file re-hashed on completion.

  The directory is a map from paths to file contents. Every file system call of the code may
  fail: \<open>fails\<close> says which calls do in an operation and \<open>torn\<close> how many bytes a failing write
  leaves behind. \<open>blake3\<close> and the base64url decoder are parameters.
\<close>

section \<open>State\<close>

type_synonym path = "string \<times> string"
type_synonym fs = "path \<rightharpoonup> u8 list"

datatype io_op =
    OpCreate | OpSetLen | OpOpenWrite | OpSeek | OpWrite | OpSync | OpOpenRead | OpRead | OpRename
  | OpRemove

record io_env =
  fails :: "io_op \<Rightarrow> bool"
  torn :: nat

record crypto =
  blake3_hash :: "u8 list \<Rightarrow> u8 list"
  b64_decode :: "string \<Rightarrow> u8 list option"

record transfer_offer =
  to_context_version :: nat
  to_transfer_id :: string
  to_direction :: string
  to_purpose :: string
  to_resource_id :: string
  to_content_hash :: string
  to_media_type :: string
  to_size_bytes :: nat
  to_chunk_size_bytes :: nat
  to_chunk_count :: nat
  to_encoding :: string
  to_compression :: string

record transfer_chunk =
  tc_context_version :: nat
  tc_transfer_id :: string
  tc_chunk_index :: nat
  tc_offset_bytes :: nat
  tc_raw_size_bytes :: nat
  tc_chunk_hash :: string
  tc_data :: string

record upload_state =
  us_offer :: transfer_offer
  us_binding :: session_binding
  us_path :: path
  us_received :: "bool list"
  us_received_hashes :: "string option list"

record verified_transfer =
  vt_transfer_id :: string
  vt_content_hash :: string
  vt_path :: path
  vt_size_bytes :: nat
  vt_resource_id :: string
  vt_binding :: session_binding

record transfer_manager =
  tm_directory :: string
  tm_limits :: bridge_limits
  tm_session_id :: string
  tm_upload :: "upload_state option"
  tm_verified :: "string \<rightharpoonup> verified_transfer"

definition transfer_new :: "string \<Rightarrow> bridge_limits \<Rightarrow> string \<Rightarrow> transfer_manager" where
  "transfer_new directory limits session_id =
     \<lparr>tm_directory = directory, tm_limits = limits, tm_session_id = session_id,
      tm_upload = None, tm_verified = Map.empty\<rparr>"

definition partial_path :: "transfer_manager \<Rightarrow> string \<Rightarrow> path" where
  "partial_path tm i = (tm_directory tm, tm_session_id tm @ ''-'' @ i @ ''.partial'')"

definition verified_path :: "transfer_manager \<Rightarrow> string \<Rightarrow> path" where
  "verified_path tm i = (tm_directory tm, tm_session_id tm @ ''-'' @ i @ ''.verified'')"

section \<open>Operations\<close>

text \<open>\<open>let _ = fs::remove_file(path)\<close>: a failure is ignored.\<close>

definition remove_file :: "io_env \<Rightarrow> fs \<Rightarrow> path \<Rightarrow> fs" where
  "remove_file io fs p = (if fails io OpRemove then fs else fs(p := None))"

definition div_ceil :: "nat \<Rightarrow> nat \<Rightarrow> nat" where
  "div_ceil a b = (a + b - 1) div b"

definition saturating_mul :: "nat \<Rightarrow> nat \<Rightarrow> nat" where
  "saturating_mul a b = min (a * b) (2 ^ 64 - 1)"

text \<open>The checks of \<open>offer\<close>, in order.\<close>

definition offer_checks ::
  "transfer_manager \<Rightarrow> transfer_offer \<Rightarrow> session_binding \<Rightarrow> bridge_error + unit" where
  "offer_checks tm offer binding =
     bindE (guardE (tm_upload tm = None) (TransferRejected ''one upload already active'')) (\<lambda>_.
     bindE (validate_scoped_id (to_transfer_id offer) ''op_'') (\<lambda>_.
     bindE (validate_scoped_id (to_resource_id offer) ''cell_'') (\<lambda>_.
     bindE (guardE (to_context_version offer = sb_context_version binding) ContextStale) (\<lambda>_.
     bindE (guardE (to_direction offer = ''upload'' \<and> to_purpose offer = ''art-cell''
              \<and> to_media_type offer = ''application/x-roblox-rbxm''
              \<and> to_encoding offer = ''base64url'' \<and> to_compression offer = ''none'')
            (TransferRejected ''unsupported transfer profile'')) (\<lambda>_.
     bindE (guardE (to_size_bytes offer \<noteq> 0
              \<and> to_size_bytes offer \<le> max_transfer_bytes (tm_limits tm))
            (TransferRejected ''content size outside limits'')) (\<lambda>_.
     bindE (guardE (to_chunk_size_bytes offer \<noteq> 0
              \<and> to_chunk_size_bytes offer \<le> max_chunk_bytes (tm_limits tm))
            (TransferRejected ''chunk size outside limits'')) (\<lambda>_.
     bindE (guardE (to_chunk_count offer = div_ceil (to_size_bytes offer) (to_chunk_size_bytes offer)
              \<and> to_chunk_count offer \<le> 4096)
            (TransferRejected ''invalid chunk count'')) (\<lambda>_.
     validate_blake3_hash (to_content_hash offer)))))))))"

definition transfer_offer_op ::
  "io_env \<Rightarrow> transfer_manager \<Rightarrow> fs \<Rightarrow> transfer_offer \<Rightarrow> session_binding
   \<Rightarrow> transfer_manager \<times> fs \<times> (bridge_error + json)" where
  "transfer_offer_op io tm fs offer binding =
     (case offer_checks tm offer binding of
        Inl e \<Rightarrow> (tm, fs, Inl e)
      | Inr _ \<Rightarrow>
          (let path = partial_path tm (to_transfer_id offer);
               count = to_chunk_count offer
           in if fails io OpCreate \<or> fs path \<noteq> None then (tm, fs, Inl (Io ''create''))
              else if fails io OpSetLen then (tm, fs(path \<mapsto> []), Inl (Io ''set_len''))
              else (tm\<lparr>tm_upload := Some
                       \<lparr>us_offer = offer, us_binding = binding, us_path = path,
                        us_received = replicate count False,
                        us_received_hashes = replicate count None\<rparr>\<rparr>,
                    fs(path \<mapsto> replicate (to_size_bytes offer) 0),
                    Inr (JObj [(''transferId'', JStr (to_transfer_id offer)),
                               (''windowSize'', JNum 4), (''received'', JArr [])]))))"

definition write_at :: "u8 list \<Rightarrow> nat \<Rightarrow> u8 list \<Rightarrow> u8 list" where
  "write_at file offset data =
     take offset (file @ replicate (offset - length file) 0) @ data
       @ drop (offset + length data) file"

definition chunk_ack :: "string \<Rightarrow> nat \<Rightarrow> bool list \<Rightarrow> json" where
  "chunk_ack i count received =
     (let highest = length (takeWhile (\<lambda>r. r) received);
          missing = take 64 (filter (\<lambda>k. \<not> received ! k) [0..<count])
      in JObj [(''transferId'', JStr i),
               (''highestContiguous'', if highest = 0 then JNull else JNum (int (highest - 1))),
               (''missing'', JArr (map (\<lambda>k. JNum (int k)) missing))])"

text \<open>The checks of \<open>chunk\<close> before any state changes; the result is the decoded bytes.\<close>

definition chunk_checks ::
  "crypto \<Rightarrow> transfer_manager \<Rightarrow> upload_state \<Rightarrow> transfer_chunk \<Rightarrow> bridge_error + u8 list" where
  "chunk_checks c tm upload chunk =
     bindE (guardE (tc_transfer_id chunk = to_transfer_id (us_offer upload)
              \<and> tc_context_version chunk = sb_context_version (us_binding upload)
              \<and> tc_chunk_index chunk < to_chunk_count (us_offer upload))
            (TransferRejected ''chunk does not belong to upload'')) (\<lambda>_.
     (let expected_offset = tc_chunk_index chunk * to_chunk_size_bytes (us_offer upload);
          expected_size = min (to_size_bytes (us_offer upload) - expected_offset)
                              (to_chunk_size_bytes (us_offer upload))
      in bindE (guardE (tc_offset_bytes chunk = expected_offset
                  \<and> tc_raw_size_bytes chunk = expected_size
                  \<and> length (tc_data chunk)
                      \<le> div_ceil (saturating_mul (max_chunk_bytes (tm_limits tm)) 4) 3 + 8)
                (TransferRejected ''invalid chunk geometry'')) (\<lambda>_.
         bindE (validate_blake3_hash (tc_chunk_hash chunk)) (\<lambda>_.
         bindE (ok_or (b64_decode c (tc_data chunk)) (TransferRejected ''invalid base64url'')) (\<lambda>decoded.
         bindE (guardE (length decoded = expected_size)
                (TransferRejected ''decoded chunk size mismatch'')) (\<lambda>_.
         bindE (guardE (blake3_label (blake3_hash c) decoded = tc_chunk_hash chunk)
                ChunkHashMismatch) (\<lambda>_. Inr decoded)))))))"

definition transfer_chunk_op ::
  "crypto \<Rightarrow> io_env \<Rightarrow> transfer_manager \<Rightarrow> fs \<Rightarrow> transfer_chunk
   \<Rightarrow> transfer_manager \<times> fs \<times> (bridge_error + json)" where
  "transfer_chunk_op c io tm fs chunk =
     (case tm_upload tm of
        None \<Rightarrow> (tm, fs, Inl (TransferRejected ''no active upload''))
      | Some upload \<Rightarrow>
          (case chunk_checks c tm upload chunk of
             Inl e \<Rightarrow> (tm, fs, Inl e)
           | Inr decoded \<Rightarrow>
               (let k = tc_chunk_index chunk;
                    offset = k * to_chunk_size_bytes (us_offer upload);
                    count = to_chunk_count (us_offer upload);
                    ack = (\<lambda>u. Inr (chunk_ack (tc_transfer_id chunk) count (us_received u)))
                in if us_received upload ! k
                   then if us_received_hashes upload ! k \<noteq> Some (tc_chunk_hash chunk)
                        then (tm, fs, Inl ReplayDetected)
                        else (tm, fs, ack upload)
                   else (case fs (us_path upload) of
                           None \<Rightarrow> (tm, fs, Inl (Io ''open''))
                         | Some file \<Rightarrow>
                             if fails io OpOpenWrite then (tm, fs, Inl (Io ''open''))
                             else if fails io OpSeek then (tm, fs, Inl (Io ''seek''))
                             else if fails io OpWrite
                             then (tm, fs(us_path upload \<mapsto> write_at file offset (take (torn io) decoded)),
                                   Inl (Io ''write''))
                             else if fails io OpSync
                             then (tm, fs(us_path upload \<mapsto> write_at file offset decoded),
                                   Inl (Io ''sync''))
                             else (let upload' = upload\<lparr>us_received := (us_received upload)[k := True],
                                         us_received_hashes :=
                                           (us_received_hashes upload)[k := Some (tc_chunk_hash chunk)]\<rparr>
                                   in (tm\<lparr>tm_upload := Some upload'\<rparr>,
                                       fs(us_path upload \<mapsto> write_at file offset decoded),
                                       ack upload'))))))"

text \<open>
  \<open>complete\<close> takes the upload out of the manager before it reads the file: the I/O failures
  after that lose it.
\<close>

definition transfer_complete_op ::
  "crypto \<Rightarrow> io_env \<Rightarrow> transfer_manager \<Rightarrow> fs \<Rightarrow> string
   \<Rightarrow> transfer_manager \<times> fs \<times> (bridge_error + verified_transfer)" where
  "transfer_complete_op c io tm fs i =
     (case tm_verified tm i of
        Some verified \<Rightarrow> (tm, fs, Inr verified)
      | None \<Rightarrow>
          (case tm_upload tm of
             None \<Rightarrow> (tm, fs, Inl (TransferRejected ''no active upload''))
           | Some upload \<Rightarrow>
               if i \<noteq> to_transfer_id (us_offer upload) \<or> \<not> list_all (\<lambda>r. r) (us_received upload)
               then (tm, fs, Inl (TransferRejected ''upload is incomplete''))
               else (let taken = tm\<lparr>tm_upload := None\<rparr>
                     in case fs (us_path upload) of
                          None \<Rightarrow> (taken, fs, Inl (Io ''open''))
                        | Some file \<Rightarrow>
                            if fails io OpOpenRead then (taken, fs, Inl (Io ''open''))
                            else if fails io OpRead then (taken, fs, Inl (Io ''read''))
                            else if blake3_label (blake3_hash c) file \<noteq> to_content_hash (us_offer upload)
                            then (taken, remove_file io fs (us_path upload), Inl ContentHashMismatch)
                            else if fails io OpRename then (taken, fs, Inl (Io ''rename''))
                            else (let verified =
                                    \<lparr>vt_transfer_id = i,
                                     vt_content_hash = blake3_label (blake3_hash c) file,
                                     vt_path = verified_path tm i,
                                     vt_size_bytes = to_size_bytes (us_offer upload),
                                     vt_resource_id = to_resource_id (us_offer upload),
                                     vt_binding = us_binding upload\<rparr>
                                  in (taken\<lparr>tm_verified := (tm_verified tm)(i \<mapsto> verified)\<rparr>,
                                      (fs(us_path upload := None))(verified_path tm i \<mapsto> file),
                                      Inr verified)))))"

definition transfer_require_context ::
  "transfer_manager \<Rightarrow> string \<Rightarrow> session_binding \<Rightarrow> bridge_error + unit" where
  "transfer_require_context tm i binding =
     (let from_upload = (case tm_upload tm of
                           None \<Rightarrow> None
                         | Some u \<Rightarrow> if to_transfer_id (us_offer u) = i then Some (us_binding u) else None);
          expected = (case from_upload of
                        Some b \<Rightarrow> Some b
                      | None \<Rightarrow> map_option vt_binding (tm_verified tm i))
      in bindE (ok_or expected (TransferRejected ''unknown transfer'')) (\<lambda>b.
           if b \<noteq> binding then Inl ContextStale else Inr ()))"

definition is_verified_for :: "transfer_manager \<Rightarrow> string \<Rightarrow> string \<Rightarrow> session_binding \<Rightarrow> bool" where
  "is_verified_for tm i resource binding =
     (case tm_verified tm i of
        None \<Rightarrow> False
      | Some v \<Rightarrow> vt_resource_id v = resource \<and> vt_binding v = binding)"

definition transfer_cancel_op :: "io_env \<Rightarrow> transfer_manager \<Rightarrow> fs \<Rightarrow> string \<Rightarrow> transfer_manager \<times> fs" where
  "transfer_cancel_op io tm fs i =
     (case tm_upload tm of
        None \<Rightarrow> (tm, fs)
      | Some u \<Rightarrow> if to_transfer_id (us_offer u) = i
                  then (tm\<lparr>tm_upload := None\<rparr>, remove_file io fs (us_path u)) else (tm, fs))"

definition transfer_cancel_all_op :: "io_env \<Rightarrow> transfer_manager \<Rightarrow> fs \<Rightarrow> transfer_manager \<times> fs" where
  "transfer_cancel_all_op io tm fs =
     (case tm_upload tm of
        None \<Rightarrow> (tm, fs)
      | Some u \<Rightarrow> (tm\<lparr>tm_upload := None\<rparr>, remove_file io fs (us_path u)))"

section \<open>Geometry of the chunks\<close>

definition chunk_offset :: "transfer_offer \<Rightarrow> nat \<Rightarrow> nat" where
  "chunk_offset offer k = k * to_chunk_size_bytes offer"

definition chunk_len :: "transfer_offer \<Rightarrow> nat \<Rightarrow> nat" where
  "chunk_len offer k = min (to_size_bytes offer - chunk_offset offer k) (to_chunk_size_bytes offer)"

definition chunk_slice :: "transfer_offer \<Rightarrow> u8 list \<Rightarrow> nat \<Rightarrow> u8 list" where
  "chunk_slice offer file k = take (chunk_len offer k) (drop (chunk_offset offer k) file)"

text \<open>What \<open>offer\<close> has checked of an accepted offer.\<close>

definition offer_ok :: "bridge_limits \<Rightarrow> transfer_offer \<Rightarrow> bool" where
  "offer_ok limits offer \<longleftrightarrow> 0 < to_size_bytes offer \<and> to_size_bytes offer \<le> max_transfer_bytes limits
     \<and> 0 < to_chunk_size_bytes offer \<and> to_chunk_size_bytes offer \<le> max_chunk_bytes limits
     \<and> to_chunk_count offer = div_ceil (to_size_bytes offer) (to_chunk_size_bytes offer)
     \<and> to_chunk_count offer \<le> 4096
     \<and> validate_scoped_id (to_transfer_id offer) ''op_'' = Inr ()
     \<and> validate_scoped_id (to_resource_id offer) ''cell_'' = Inr ()
     \<and> validate_blake3_hash (to_content_hash offer) = Inr ()"

lemma offer_checks_ok:
  assumes "offer_checks tm offer binding = Inr u"
  shows "tm_upload tm = None \<and> offer_ok (tm_limits tm) offer
    \<and> to_context_version offer = sb_context_version binding"
  using assms by (simp add: offer_checks_def result_simps offer_ok_def)

lemma div_ceil_less: "k < div_ceil a b \<Longrightarrow> 0 < b \<Longrightarrow> k * b < a"
proof -
  assume k: "k < div_ceil a b" and b: "0 < b"
  have "Suc k * b \<le> div_ceil a b * b" using k by (simp only: mult_le_mono1 Suc_leI)
  also have "\<dots> \<le> a + b - 1" by (simp add: div_ceil_def)
  finally show "k * b < a" using b by simp
qed

lemma div_ceil_covers: "0 < b \<Longrightarrow> a \<le> div_ceil a b * b"
proof -
  assume b: "0 < b"
  have "a + b - 1 < (a + b - 1) div b * b + b"
    using b by (metis add.commute div_mult_mod_eq mod_less_divisor nat_add_left_cancel_less mult.commute)
  then show ?thesis using b by (simp add: div_ceil_def)
qed

lemma chunk_in_bounds:
  assumes "offer_ok limits offer" and "k < to_chunk_count offer"
  shows "chunk_offset offer k < to_size_bytes offer
    \<and> chunk_offset offer k + chunk_len offer k \<le> to_size_bytes offer \<and> 0 < chunk_len offer k
    \<and> chunk_len offer k \<le> to_chunk_size_bytes offer"
  using assms div_ceil_less [of k "to_size_bytes offer" "to_chunk_size_bytes offer"]
  by (auto simp: offer_ok_def chunk_offset_def chunk_len_def)

lemma write_at_nth:
  assumes "off + length d \<le> length f" and "k < length f"
  shows "write_at f off d ! k = (if off \<le> k \<and> k < off + length d then d ! (k - off) else f ! k)"
  using assms by (auto simp: write_at_def nth_append)

lemma length_write_at: "off + length d \<le> length f \<Longrightarrow> length (write_at f off d) = length f"
  by (simp add: write_at_def)

lemma length_chunk_slice:
  "chunk_offset offer k + chunk_len offer k \<le> length f \<Longrightarrow> length (chunk_slice offer f k) = chunk_len offer k"
  by (simp add: chunk_slice_def)

lemma chunk_slice_write_same:
  assumes "length d = chunk_len offer k" and "chunk_offset offer k + chunk_len offer k \<le> length f"
  shows "chunk_slice offer (write_at f (chunk_offset offer k) d) k = d"
  using assms by (simp add: chunk_slice_def write_at_def)

lemma chunk_slice_write_other:
  assumes "length d \<le> chunk_len offer k" and "j \<noteq> k" and "length f = to_size_bytes offer"
    and "chunk_offset offer k + chunk_len offer k \<le> to_size_bytes offer"
    and "chunk_offset offer j + chunk_len offer j \<le> to_size_bytes offer"
  shows "chunk_slice offer (write_at f (chunk_offset offer k) d) j = chunk_slice offer f j"
proof (rule nth_equalityI)
  let ?w = "write_at f (chunk_offset offer k) d"
  have fits: "chunk_offset offer k + length d \<le> length f" using assms by simp
  have len: "length ?w = length f" using fits by (rule length_write_at)
  show "length (chunk_slice offer ?w j) = length (chunk_slice offer f j)"
    using len by (simp add: chunk_slice_def)
  fix i assume "i < length (chunk_slice offer ?w j)"
  then have i: "i < chunk_len offer j" "chunk_offset offer j + i < length f"
    using len assms(3,5) by (auto simp: chunk_slice_def)
  have "\<not> (chunk_offset offer k \<le> chunk_offset offer j + i
      \<and> chunk_offset offer j + i < chunk_offset offer k + length d)"
  proof (cases "j < k")
    case True
    then have "Suc j * to_chunk_size_bytes offer \<le> k * to_chunk_size_bytes offer"
      by (intro mult_le_mono1) simp
    then show ?thesis using i(1) by (simp add: chunk_offset_def chunk_len_def)
  next
    case False
    then have "Suc k * to_chunk_size_bytes offer \<le> j * to_chunk_size_bytes offer"
      using assms(2) by (intro mult_le_mono1) simp
    then show ?thesis using assms(1) by (simp add: chunk_offset_def chunk_len_def)
  qed
  then have "?w ! (chunk_offset offer j + i) = f ! (chunk_offset offer j + i)"
    using write_at_nth [OF fits i(2)] by (simp only: if_False)
  then show "chunk_slice offer ?w j ! i = chunk_slice offer f j ! i"
    using i len assms(3,5) by (simp add: chunk_slice_def)
qed

section \<open>The invariant\<close>

definition upload_ok :: "crypto \<Rightarrow> transfer_manager \<Rightarrow> fs \<Rightarrow> upload_state \<Rightarrow> bool" where
  "upload_ok c tm fs u \<longleftrightarrow> offer_ok (tm_limits tm) (us_offer u)
     \<and> to_context_version (us_offer u) = sb_context_version (us_binding u)
     \<and> us_path u = partial_path tm (to_transfer_id (us_offer u))
     \<and> length (us_received u) = to_chunk_count (us_offer u)
     \<and> length (us_received_hashes u) = to_chunk_count (us_offer u)
     \<and> (\<exists>file. fs (us_path u) = Some file \<and> length file = to_size_bytes (us_offer u)
          \<and> (\<forall>k < to_chunk_count (us_offer u). us_received u ! k \<longrightarrow>
               us_received_hashes u ! k
                 = Some (blake3_label (blake3_hash c) (chunk_slice (us_offer u) file k))))"

definition verified_ok :: "crypto \<Rightarrow> transfer_manager \<Rightarrow> fs \<Rightarrow> bool" where
  "verified_ok c tm fs \<longleftrightarrow> (\<forall>i v. tm_verified tm i = Some v \<longrightarrow>
     vt_transfer_id v = i \<and> vt_path v = verified_path tm i
     \<and> (\<exists>file. fs (vt_path v) = Some file \<and> length file = vt_size_bytes v
          \<and> blake3_label (blake3_hash c) file = vt_content_hash v)
     \<and> 0 < vt_size_bytes v \<and> vt_size_bytes v \<le> max_transfer_bytes (tm_limits tm))"

definition transfer_ok :: "crypto \<Rightarrow> transfer_manager \<times> fs \<Rightarrow> bool" where
  "transfer_ok c s \<longleftrightarrow> verified_ok c (fst s) (snd s)
     \<and> (\<forall>u. tm_upload (fst s) = Some u \<longrightarrow> upload_ok c (fst s) (snd s) u)"

lemma partial_neq_verified: "partial_path tm i \<noteq> verified_path tm j"
proof
  assume "partial_path tm i = verified_path tm j"
  then have "last (i @ ''.partial'') = last (j @ ''.verified'')"
    by (simp add: partial_path_def verified_path_def)
  then show False by simp
qed

lemma verified_path_inj: "verified_path tm i = verified_path tm j \<longleftrightarrow> i = j"
  by (simp add: verified_path_def)

lemma paths_cong:
  "tm_directory tm' = tm_directory tm \<Longrightarrow> tm_session_id tm' = tm_session_id tm
     \<Longrightarrow> partial_path tm' = partial_path tm \<and> verified_path tm' = verified_path tm"
  by (simp add: partial_path_def verified_path_def fun_eq_iff)

lemma paths_update [simp]:
  "partial_path (tm\<lparr>tm_upload := u\<rparr>) = partial_path tm"
  "verified_path (tm\<lparr>tm_upload := u\<rparr>) = verified_path tm"
  "partial_path (tm\<lparr>tm_verified := v\<rparr>) = partial_path tm"
  "verified_path (tm\<lparr>tm_verified := v\<rparr>) = verified_path tm"
  by (simp_all add: partial_path_def verified_path_def fun_eq_iff)

text \<open>Changes to the directory that leave every verified file alone keep \<open>verified_ok\<close>.\<close>

lemma verified_okD:
  assumes "verified_ok c tm fs" and "tm_verified tm i = Some v"
  shows "vt_transfer_id v = i \<and> vt_path v = verified_path tm i
    \<and> (\<exists>file. fs (vt_path v) = Some file \<and> length file = vt_size_bytes v
         \<and> blake3_label (blake3_hash c) file = vt_content_hash v)
    \<and> 0 < vt_size_bytes v \<and> vt_size_bytes v \<le> max_transfer_bytes (tm_limits tm)"
  using assms unfolding verified_ok_def by blast

lemma verified_ok_frame:
  assumes "verified_ok c tm fs" and "\<And>i. fs' (verified_path tm i) = fs (verified_path tm i)"
  shows "verified_ok c tm fs'"
proof (unfold verified_ok_def, intro allI impI)
  fix i v assume "tm_verified tm i = Some v"
  from verified_okD [OF assms(1) this] assms(2) [of i]
  show "vt_transfer_id v = i \<and> vt_path v = verified_path tm i
    \<and> (\<exists>file. fs' (vt_path v) = Some file \<and> length file = vt_size_bytes v
         \<and> blake3_label (blake3_hash c) file = vt_content_hash v)
    \<and> 0 < vt_size_bytes v \<and> vt_size_bytes v \<le> max_transfer_bytes (tm_limits tm)"
    by auto
qed

lemma verified_ok_upload [simp]: "verified_ok c (tm\<lparr>tm_upload := u\<rparr>) fs = verified_ok c tm fs"
  by (simp add: verified_ok_def)

lemma verified_ok_insert:
  assumes "verified_ok c tm fs" and "vt_transfer_id v = i" and "vt_path v = verified_path tm i"
    and "length file = vt_size_bytes v" and "blake3_label (blake3_hash c) file = vt_content_hash v"
    and "0 < vt_size_bytes v" and "vt_size_bytes v \<le> max_transfer_bytes (tm_limits tm)"
  shows "verified_ok c (tm\<lparr>tm_upload := u, tm_verified := (tm_verified tm)(i \<mapsto> v)\<rparr>)
    ((fs(partial_path tm j := None))(verified_path tm i \<mapsto> file))"
proof (unfold verified_ok_def, intro allI impI)
  fix k w
  assume w: "tm_verified (tm\<lparr>tm_upload := u, tm_verified := (tm_verified tm)(i \<mapsto> v)\<rparr>) k = Some w"
  show "vt_transfer_id w = k
    \<and> vt_path w = verified_path (tm\<lparr>tm_upload := u, tm_verified := (tm_verified tm)(i \<mapsto> v)\<rparr>) k
    \<and> (\<exists>f. ((fs(partial_path tm j := None))(verified_path tm i \<mapsto> file)) (vt_path w) = Some f
         \<and> length f = vt_size_bytes w \<and> blake3_label (blake3_hash c) f = vt_content_hash w)
    \<and> 0 < vt_size_bytes w
    \<and> vt_size_bytes w \<le> max_transfer_bytes
        (tm_limits (tm\<lparr>tm_upload := u, tm_verified := (tm_verified tm)(i \<mapsto> v)\<rparr>))"
  proof (cases "k = i")
    case True
    then show ?thesis using w assms by simp
  next
    case False
    then have "tm_verified tm k = Some w" using w by simp
    from verified_okD [OF assms(1) this] False show ?thesis
      using partial_neq_verified [of tm j k] by (auto simp: verified_path_inj)
  qed
qed

section \<open>Every operation keeps it\<close>

lemma offer_keeps:
  assumes "transfer_ok c (tm, fs)" and "transfer_offer_op io tm fs offer binding = (tm', fs', r)"
  shows "transfer_ok c (tm', fs')"
proof (cases "offer_checks tm offer binding")
  case (Inl e)
  then show ?thesis using assms by (simp add: transfer_offer_op_def)
next
  case (Inr u)
  let ?p = "partial_path tm (to_transfer_id offer)"
  have frame: "verified_ok c tm (fs(?p \<mapsto> x))" for x
    by (rule verified_ok_frame [of c tm fs])
      (use assms(1) partial_neq_verified [of tm "to_transfer_id offer"] in
        \<open>simp_all add: transfer_ok_def not_sym\<close>)
  consider "fails io OpCreate \<or> fs ?p \<noteq> None"
    | "\<not> (fails io OpCreate \<or> fs ?p \<noteq> None)" "fails io OpSetLen"
    | "\<not> (fails io OpCreate \<or> fs ?p \<noteq> None)" "\<not> fails io OpSetLen" by blast
  then show ?thesis
  proof cases
    case 1
    then show ?thesis using assms Inr by (simp add: transfer_offer_op_def Let_def)
  next
    case 2
    then have "tm' = tm" "fs' = fs(?p \<mapsto> [])"
      using assms(2) Inr by (auto simp: transfer_offer_op_def Let_def)
    then show ?thesis using frame offer_checks_ok [OF Inr] by (simp add: transfer_ok_def)
  next
    case 3
    then have "tm' = tm\<lparr>tm_upload := Some
         \<lparr>us_offer = offer, us_binding = binding, us_path = ?p,
          us_received = replicate (to_chunk_count offer) False,
          us_received_hashes = replicate (to_chunk_count offer) None\<rparr>\<rparr>"
      "fs' = fs(?p \<mapsto> replicate (to_size_bytes offer) 0)"
      using assms(2) Inr by (auto simp: transfer_offer_op_def Let_def)
    then show ?thesis
      using frame offer_checks_ok [OF Inr] by (simp add: transfer_ok_def upload_ok_def)
  qed
qed

lemma chunk_checks_ok:
  assumes "chunk_checks c tm u chunk = Inr d"
  shows "tc_chunk_index chunk < to_chunk_count (us_offer u)
    \<and> length d = chunk_len (us_offer u) (tc_chunk_index chunk)
    \<and> tc_chunk_hash chunk = blake3_label (blake3_hash c) d
    \<and> tc_transfer_id chunk = to_transfer_id (us_offer u)
    \<and> tc_context_version chunk = sb_context_version (us_binding u)
    \<and> tc_offset_bytes chunk = chunk_offset (us_offer u) (tc_chunk_index chunk)
    \<and> b64_decode c (tc_data chunk) = Some d"
  using assms
  by (auto simp: chunk_checks_def Let_def result_simps chunk_len_def chunk_offset_def)

text \<open>Writing (any prefix of) an unreceived chunk's bytes at its place keeps the upload sound.\<close>

lemma upload_ok_write:
  assumes "upload_ok c tm fs u" and "k < to_chunk_count (us_offer u)" and "\<not> us_received u ! k"
    and "fs (us_path u) = Some file" and "length d \<le> chunk_len (us_offer u) k"
  shows "upload_ok c tm (fs(us_path u \<mapsto> write_at file (chunk_offset (us_offer u) k) d)) u"
proof -
  let ?w = "write_at file (chunk_offset (us_offer u) k) d"
  have ok: "offer_ok (tm_limits tm) (us_offer u)" and len: "length file = to_size_bytes (us_offer u)"
    using assms(1,4) by (auto simp: upload_ok_def)
  have "length ?w = to_size_bytes (us_offer u)"
    using chunk_in_bounds [OF ok assms(2)] assms(5) len by (subst length_write_at) auto
  moreover have "chunk_slice (us_offer u) ?w j = chunk_slice (us_offer u) file j"
    if "j < to_chunk_count (us_offer u)" "us_received u ! j" for j
    using that assms(3,5) len chunk_in_bounds [OF ok assms(2)] chunk_in_bounds [OF ok that(1)]
    by (intro chunk_slice_write_other) auto
  ultimately show ?thesis using assms(1,4) by (auto simp: upload_ok_def)
qed

lemma upload_ok_receive:
  assumes "upload_ok c tm fs u" and "k < to_chunk_count (us_offer u)"
    and "fs (us_path u) = Some file" and "chunk_slice (us_offer u) file k = d"
  shows "upload_ok c tm fs (u\<lparr>us_received := (us_received u)[k := True],
    us_received_hashes := (us_received_hashes u)[k := Some (blake3_label (blake3_hash c) d)]\<rparr>)"
  using assms by (auto simp: upload_ok_def nth_list_update)

lemma upload_ok_upload [simp]: "upload_ok c (tm\<lparr>tm_upload := x\<rparr>) fs u = upload_ok c tm fs u"
  by (simp add: upload_ok_def)

lemma transfer_ok_write:
  assumes "transfer_ok c (tm, fs)" and "tm_upload tm = Some u"
    and "upload_ok c tm (fs(us_path u \<mapsto> file)) v"
  shows "transfer_ok c (tm\<lparr>tm_upload := Some v\<rparr>, fs(us_path u \<mapsto> file))"
proof -
  have p: "us_path u = partial_path tm (to_transfer_id (us_offer u))"
    using assms(1,2) by (simp add: transfer_ok_def upload_ok_def)
  have "verified_ok c tm (fs(us_path u \<mapsto> file))"
    by (rule verified_ok_frame [of c tm fs])
      (use assms(1) partial_neq_verified p in \<open>simp_all add: transfer_ok_def not_sym\<close>)
  then show ?thesis using assms(3) by (simp add: transfer_ok_def)
qed

lemma transfer_ok_drop:
  assumes "transfer_ok c (tm, fs)" and "tm_upload tm = Some u"
  shows "transfer_ok c (tm\<lparr>tm_upload := None\<rparr>, remove_file io fs (us_path u))"
proof -
  have p: "us_path u = partial_path tm (to_transfer_id (us_offer u))"
    using assms by (simp add: transfer_ok_def upload_ok_def)
  have "verified_ok c tm (remove_file io fs (us_path u))"
    by (rule verified_ok_frame [of c tm fs])
      (use assms(1) partial_neq_verified p in
        \<open>simp_all add: transfer_ok_def not_sym remove_file_def\<close>)
  then show ?thesis by (simp add: transfer_ok_def)
qed

lemma chunk_keeps:
  assumes "transfer_ok c (tm, fs)" and "transfer_chunk_op c io tm fs chunk = (tm', fs', r)"
  shows "transfer_ok c (tm', fs')"
proof (cases "tm_upload tm")
  case None
  then show ?thesis using assms by (simp add: transfer_chunk_op_def)
next
  case u: (Some u)
  show ?thesis
  proof (cases "chunk_checks c tm u chunk")
    case (Inl e)
    then show ?thesis using assms u by (simp add: transfer_chunk_op_def)
  next
    case d: (Inr d)
    let ?k = "tc_chunk_index chunk"
    let ?off = "chunk_offset (us_offer u) ?k"
    have ok: "upload_ok c tm fs u" using assms(1) u by (simp add: transfer_ok_def)
    then obtain f where f: "fs (us_path u) = Some f" by (auto simp: upload_ok_def)
    note ch = chunk_checks_ok [OF d]
    have self: "tm\<lparr>tm_upload := Some u\<rparr> = tm" using u by simp
    show ?thesis
    proof (cases "us_received u ! ?k")
      case True
      then have "tm' = tm \<and> fs' = fs"
        using assms(2) u d by (simp add: transfer_chunk_op_def Let_def split: if_splits)
      then show ?thesis using assms(1) by simp
    next
      case False
      have torn_ok: "transfer_ok c (tm, fs(us_path u \<mapsto> write_at f ?off p))"
        if "length p \<le> chunk_len (us_offer u) ?k" for p
        using transfer_ok_write [OF assms(1) u upload_ok_write [OF ok _ False f that]] ch self
        by simp
      have offer: "offer_ok (tm_limits tm) (us_offer u)" and flen: "length f = to_size_bytes (us_offer u)"
        using ok f by (auto simp: upload_ok_def)
      have received_ok: "transfer_ok c (tm\<lparr>tm_upload := Some (u\<lparr>us_received := (us_received u)[?k := True],
          us_received_hashes := (us_received_hashes u)[?k := Some (blake3_label (blake3_hash c) d)]\<rparr>)\<rparr>,
          fs(us_path u \<mapsto> write_at f ?off d))"
      proof (rule transfer_ok_write [OF assms(1) u], rule upload_ok_receive)
        show "upload_ok c tm (fs(us_path u \<mapsto> write_at f ?off d)) u"
          using upload_ok_write [OF ok _ False f] ch by simp
        show "(fs(us_path u \<mapsto> write_at f ?off d)) (us_path u) = Some (write_at f ?off d)" by simp
        show "chunk_slice (us_offer u) (write_at f ?off d) ?k = d"
          using chunk_slice_write_same ch chunk_in_bounds [OF offer] flen by simp
      qed (use ch in simp)
      consider "tm' = tm \<and> fs' = fs"
        | p where "tm' = tm" "fs' = fs(us_path u \<mapsto> write_at f ?off p)"
            "length p \<le> chunk_len (us_offer u) ?k"
        | "tm' = tm\<lparr>tm_upload := Some (u\<lparr>us_received := (us_received u)[?k := True],
             us_received_hashes := (us_received_hashes u)[?k := Some (tc_chunk_hash chunk)]\<rparr>)\<rparr>"
          "fs' = fs(us_path u \<mapsto> write_at f ?off d)"
        using assms(2) u d False f ch
        by (simp add: transfer_chunk_op_def Let_def chunk_offset_def split: if_splits) force+
      then show ?thesis using assms(1) torn_ok received_ok ch by cases simp_all
    qed
  qed
qed

lemma complete_keeps:
  assumes "transfer_ok c (tm, fs)" and "transfer_complete_op c io tm fs i = (tm', fs', r)"
  shows "transfer_ok c (tm', fs')
    \<and> (\<forall>v. r = Inr v \<longrightarrow> tm_verified tm' i = Some v)"
proof (cases "tm_verified tm i")
  case (Some v)
  then show ?thesis using assms by (auto simp: transfer_complete_op_def)
next
  case None
  show ?thesis
  proof (cases "tm_upload tm")
    case (None)
    then show ?thesis using assms \<open>tm_verified tm i = None\<close> by (auto simp: transfer_complete_op_def)
  next
    case u: (Some u)
    have ok: "upload_ok c tm fs u" using assms(1) u by (simp add: transfer_ok_def)
    then obtain f where f: "fs (us_path u) = Some f" "length f = to_size_bytes (us_offer u)"
      by (auto simp: upload_ok_def)
    have drop: "transfer_ok c (tm\<lparr>tm_upload := None\<rparr>, fs)"
      using assms(1) by (simp add: transfer_ok_def)
    let ?v = "\<lparr>vt_transfer_id = i, vt_content_hash = blake3_label (blake3_hash c) f,
       vt_path = verified_path tm i, vt_size_bytes = to_size_bytes (us_offer u),
       vt_resource_id = to_resource_id (us_offer u), vt_binding = us_binding u\<rparr>"
    have fin: "transfer_ok c (tm\<lparr>tm_upload := None, tm_verified := (tm_verified tm)(i \<mapsto> ?v)\<rparr>,
        (fs(us_path u := None))(verified_path tm i \<mapsto> f))"
      using verified_ok_insert [of c tm fs ?v i f None "to_transfer_id (us_offer u)"]
        assms(1) ok f(2) by (simp add: transfer_ok_def upload_ok_def offer_ok_def)
    show ?thesis
      using assms u f(1) None transfer_ok_drop [OF assms(1) u, of io] drop fin
      by (simp add: transfer_complete_op_def Let_def split: if_splits) auto
  qed
qed

lemma cancel_keeps:
  assumes "transfer_ok c (tm, fs)"
  shows "transfer_ok c (transfer_cancel_op io tm fs i)"
    and "transfer_ok c (transfer_cancel_all_op io tm fs)"
  using assms transfer_ok_drop [OF assms]
  by (auto simp: transfer_cancel_op_def transfer_cancel_all_op_def split: option.split)

section \<open>Any run of a session\<close>

datatype transfer_op =
    DoOffer io_env transfer_offer session_binding
  | DoChunk io_env transfer_chunk
  | DoComplete io_env string
  | DoCancel io_env string
  | DoCancelAll io_env

fun transfer_step :: "crypto \<Rightarrow> transfer_op \<Rightarrow> transfer_manager \<times> fs \<Rightarrow> transfer_manager \<times> fs" where
  "transfer_step c (DoOffer io offer binding) (tm, fs) =
     (case transfer_offer_op io tm fs offer binding of (tm', fs', _) \<Rightarrow> (tm', fs'))"
| "transfer_step c (DoChunk io chunk) (tm, fs) =
     (case transfer_chunk_op c io tm fs chunk of (tm', fs', _) \<Rightarrow> (tm', fs'))"
| "transfer_step c (DoComplete io i) (tm, fs) =
     (case transfer_complete_op c io tm fs i of (tm', fs', _) \<Rightarrow> (tm', fs'))"
| "transfer_step c (DoCancel io i) (tm, fs) = transfer_cancel_op io tm fs i"
| "transfer_step c (DoCancelAll io) (tm, fs) = transfer_cancel_all_op io tm fs"

lemma transfer_step_ok: "transfer_ok c s \<Longrightarrow> transfer_ok c (transfer_step c op s)"
proof (cases s)
  case (Pair tm fs)
  assume "transfer_ok c s"
  then have ok: "transfer_ok c (tm, fs)" using Pair by simp
  show ?thesis unfolding Pair
  proof (cases op)
    case (DoOffer io offer binding)
    then show "transfer_ok c (transfer_step c op (tm, fs))"
      using offer_keeps [OF ok] by (simp split: prod.split)
  next
    case (DoChunk io chunk)
    then show "transfer_ok c (transfer_step c op (tm, fs))"
      using chunk_keeps [OF ok] by (simp split: prod.split)
  next
    case (DoComplete io i)
    then show "transfer_ok c (transfer_step c op (tm, fs))"
      using complete_keeps [OF ok] by (simp split: prod.split)
  qed (use cancel_keeps [OF ok] in simp_all)
qed

interpretation transfer: invariant_steps "transfer_step c" "transfer_ok c"
  for c
  by unfold_locales (rule transfer_step_ok)

lemma transfer_new_ok: "transfer_ok c (transfer_new d l sid, fs)"
  by (simp add: transfer_ok_def transfer_new_def verified_ok_def)

text \<open>C6: whatever the client sends and whichever file system calls fail or tear, every transfer
  recorded as verified has its file in quarantine, with the recorded size and content hash.\<close>

theorem transfer_quarantine_intact:
  assumes "fold (transfer_step c) ops (transfer_new directory limits sid, fs0) = (tm, fs)"
    and "tm_verified tm i = Some v"
  shows "vt_path v = verified_path tm i
    \<and> (\<exists>content. fs (vt_path v) = Some content \<and> length content = vt_size_bytes v
        \<and> blake3_label (blake3_hash c) content = vt_content_hash v)"
proof -
  have "transfer_ok c (tm, fs)"
    using transfer.run_inv [OF transfer_new_ok, of c ops directory limits sid fs0] assms(1) by simp
  then have "verified_ok c tm fs" by (simp add: transfer_ok_def)
  from verified_okD [OF this assms(2)] show ?thesis by blast
qed

section \<open>An honest upload arrives\<close>

text \<open>The offer and the chunks an honest client sends for a content.\<close>

definition honest_offer ::
  "crypto \<Rightarrow> session_binding \<Rightarrow> string \<Rightarrow> string \<Rightarrow> nat \<Rightarrow> u8 list \<Rightarrow> transfer_offer" where
  "honest_offer c binding i cell n content =
     \<lparr>to_context_version = sb_context_version binding, to_transfer_id = i,
      to_direction = ''upload'', to_purpose = ''art-cell'', to_resource_id = cell,
      to_content_hash = blake3_label (blake3_hash c) content,
      to_media_type = ''application/x-roblox-rbxm'', to_size_bytes = length content,
      to_chunk_size_bytes = n, to_chunk_count = div_ceil (length content) n,
      to_encoding = ''base64url'', to_compression = ''none''\<rparr>"

definition honest_chunk ::
  "crypto \<Rightarrow> (u8 list \<Rightarrow> string) \<Rightarrow> session_binding \<Rightarrow> transfer_offer \<Rightarrow> u8 list \<Rightarrow> nat \<Rightarrow> transfer_chunk" where
  "honest_chunk c enc binding offer content k =
     \<lparr>tc_context_version = sb_context_version binding, tc_transfer_id = to_transfer_id offer,
      tc_chunk_index = k, tc_offset_bytes = chunk_offset offer k,
      tc_raw_size_bytes = chunk_len offer k,
      tc_chunk_hash = blake3_label (blake3_hash c) (chunk_slice offer content k),
      tc_data = enc (chunk_slice offer content k)\<rparr>"

definition no_fault :: io_env where
  "no_fault = \<lparr>fails = (\<lambda>_. False), torn = 0\<rparr>"

text \<open>Unpadded base64url: decoding inverts encoding, and \<open>n\<close> bytes take \<open>\<lceil>4n / 3\<rceil>\<close> characters.\<close>

definition base64_contract :: "crypto \<Rightarrow> (u8 list \<Rightarrow> string) \<Rightarrow> bool" where
  "base64_contract c enc \<longleftrightarrow> (\<forall>d. b64_decode c (enc d) = Some d \<and> length (enc d) = div_ceil (length d * 4) 3)
     \<and> (\<forall>d. length (blake3_hash c d) = 32)"

text \<open>Part of the content has arrived: what is marked received is in the file.\<close>

definition arrived ::
  "crypto \<Rightarrow> transfer_offer \<Rightarrow> session_binding \<Rightarrow> u8 list \<Rightarrow> nat set \<Rightarrow> transfer_manager \<times> fs \<Rightarrow> bool" where
  "arrived c offer binding content R s \<longleftrightarrow>
     (\<exists>u. tm_upload (fst s) = Some u \<and> us_offer u = offer \<and> us_binding u = binding
       \<and> (\<forall>k < to_chunk_count offer. us_received u ! k \<longleftrightarrow> k \<in> R)
       \<and> (\<forall>file. snd s (us_path u) = Some file \<longrightarrow>
            (\<forall>k < to_chunk_count offer. k \<in> R \<longrightarrow> chunk_slice offer file k = chunk_slice offer content k))
       \<and> (\<forall>k < to_chunk_count offer. k \<in> R \<longrightarrow> us_received_hashes u ! k
            = Some (blake3_label (blake3_hash c) (chunk_slice offer content k))))"

lemma slices_determine:
  assumes "offer_ok limits offer" and "length f = to_size_bytes offer" and "length g = to_size_bytes offer"
    and "\<And>k. k < to_chunk_count offer \<Longrightarrow> chunk_slice offer f k = chunk_slice offer g k"
  shows "f = g"
proof (rule nth_equalityI)
  show "length f = length g" using assms by simp
  fix i assume i: "i < length f"
  let ?n = "to_chunk_size_bytes offer"
  have n: "0 < ?n" using assms(1) by (simp add: offer_ok_def)
  have "i < to_chunk_count offer * ?n"
    using i assms(1,2) div_ceil_covers [OF n, of "to_size_bytes offer"] by (simp add: offer_ok_def)
  then have k: "i div ?n < to_chunk_count offer" using n by (simp add: less_mult_imp_div_less)
  have split: "i = chunk_offset offer (i div ?n) + i mod ?n" by (simp add: chunk_offset_def)
  have len: "i mod ?n < chunk_len offer (i div ?n)"
    using split i assms(2) n by (simp add: chunk_len_def less_diff_conv2 del: mod_less_divisor) simp
  have "f ! i = chunk_slice offer f (i div ?n) ! (i mod ?n)"
    using len i split assms(2) by (simp add: chunk_slice_def)
  also have "\<dots> = chunk_slice offer g (i div ?n) ! (i mod ?n)" using assms(4) [OF k] by simp
  also have "\<dots> = g ! i" using len i split assms(2,3) by (simp add: chunk_slice_def)
  finally show "f ! i = g ! i" .
qed

lemma honest_chunk_checks:
  assumes "base64_contract c enc" and "offer_ok (tm_limits tm) offer"
    and "max_chunk_bytes (tm_limits tm) * 4 < 2 ^ 64" and "k < to_chunk_count offer"
    and "us_offer u = offer" and "us_binding u = binding" and "length content = to_size_bytes offer"
  shows "chunk_checks c tm u (honest_chunk c enc binding offer content k)
    = Inr (chunk_slice offer content k)"
proof -
  note b = chunk_in_bounds [OF assms(2,4)]
  have d: "length (chunk_slice offer content k) = chunk_len offer k"
    using b assms(7) by (simp add: length_chunk_slice)
  have "chunk_len offer k \<le> max_chunk_bytes (tm_limits tm)"
    using b assms(2) by (simp add: offer_ok_def)
  then have "div_ceil (chunk_len offer k * 4) 3
      \<le> div_ceil (saturating_mul (max_chunk_bytes (tm_limits tm)) 4) 3 + 8"
    using assms(3) by (simp add: div_ceil_def saturating_mul_def min_def div_le_mono trans_le_add1)
  then show ?thesis
    using assms(1,4-6) d blake3_label_valid(1) [of "blake3_hash c" "chunk_slice offer content k"]
    by (simp add: chunk_checks_def honest_chunk_def Let_def result_simps base64_contract_def
        chunk_offset_def [symmetric] chunk_len_def [symmetric])
qed

lemma arrived_chunk:
  assumes "base64_contract c enc" and "offer_ok (tm_limits tm) offer"
    and "max_chunk_bytes (tm_limits tm) * 4 < 2 ^ 64" and "k < to_chunk_count offer"
    and "length content = to_size_bytes offer"
    and "arrived c offer binding content R (tm, fs)" and "transfer_ok c (tm, fs)"
    and "transfer_chunk_op c no_fault tm fs (honest_chunk c enc binding offer content k) = (tm', fs', r)"
  shows "arrived c offer binding content (insert k R) (tm', fs') \<and> transfer_ok c (tm', fs')
    \<and> is_ok r \<and> tm_limits tm' = tm_limits tm \<and> tm_verified tm' = tm_verified tm"
proof -
  obtain u where u: "tm_upload tm = Some u" "us_offer u = offer" "us_binding u = binding"
    and rec: "\<And>j. j < to_chunk_count offer \<Longrightarrow> us_received u ! j \<longleftrightarrow> j \<in> R"
    and sl: "\<And>file j. fs (us_path u) = Some file \<Longrightarrow> j < to_chunk_count offer \<Longrightarrow> j \<in> R
        \<Longrightarrow> chunk_slice offer file j = chunk_slice offer content j"
    and hs: "\<And>j. j < to_chunk_count offer \<Longrightarrow> j \<in> R \<Longrightarrow> us_received_hashes u ! j
        = Some (blake3_label (blake3_hash c) (chunk_slice offer content j))"
    using assms(6) by (auto simp: arrived_def)
  have ok: "upload_ok c tm fs u" using assms(7) u(1) by (simp add: transfer_ok_def)
  then obtain f where f: "fs (us_path u) = Some f" "length f = to_size_bytes offer"
    using u(2) by (auto simp: upload_ok_def)
  have lens: "length (us_received u) = to_chunk_count offer"
    "length (us_received_hashes u) = to_chunk_count offer"
    using ok u(2) by (auto simp: upload_ok_def)
  note checks = honest_chunk_checks [OF assms(1-4) u(2,3) assms(5)]
  have idx [simp]: "tc_chunk_index (honest_chunk c enc binding offer content k) = k"
    "tc_chunk_hash (honest_chunk c enc binding offer content k)
       = blake3_label (blake3_hash c) (chunk_slice offer content k)"
    by (simp_all add: honest_chunk_def)
  let ?w = "write_at f (chunk_offset offer k) (chunk_slice offer content k)"
  have b: "j < to_chunk_count offer \<Longrightarrow> chunk_offset offer j + chunk_len offer j \<le> to_size_bytes offer" for j
    using chunk_in_bounds [OF assms(2)] by simp
  have w: "chunk_slice offer ?w j = chunk_slice offer (if j = k then content else f) j"
    if "j < to_chunk_count offer" for j
    using that b [of k] b [of j] f(2) assms(4,5)
      chunk_slice_write_same [of "chunk_slice offer content k" offer k f]
      chunk_slice_write_other [of "chunk_slice offer content k" offer k j f]
    by (auto simp: length_chunk_slice)
  have keep: "transfer_ok c (tm', fs')" using assms(7,8) by (rule chunk_keeps)
  show ?thesis
  proof (cases "k \<in> R")
    case True
    then have "tm' = tm \<and> fs' = fs \<and> is_ok r"
      using assms(8) u checks rec [OF assms(4)] hs [OF assms(4)]
      by (auto simp: transfer_chunk_op_def Let_def)
    then show ?thesis using keep assms(6) True by (simp add: insert_absorb)
  next
    case False
    then have res: "tm' = tm\<lparr>tm_upload := Some (u\<lparr>us_received := (us_received u)[k := True],
        us_received_hashes := (us_received_hashes u)[k := Some (blake3_label (blake3_hash c)
          (chunk_slice offer content k))]\<rparr>)\<rparr>"
      "fs' = fs(us_path u \<mapsto> ?w)" "is_ok r"
      using assms(8) u(1,2) checks rec [OF assms(4)] f(1)
      by (auto simp: transfer_chunk_op_def Let_def no_fault_def chunk_offset_def)
    have "arrived c offer binding content (insert k R) (tm', fs')"
      unfolding arrived_def res using u(2,3) rec hs sl [OF f(1)] w lens assms(4)
      by (auto simp: nth_list_update)
    then show ?thesis using keep res by simp
  qed
qed

lemma arrived_chunks:
  assumes "base64_contract c enc" and "offer_ok (tm_limits tm) offer"
    and "max_chunk_bytes (tm_limits tm) * 4 < 2 ^ 64" and "length content = to_size_bytes offer"
    and "arrived c offer binding content R (tm, fs)" and "transfer_ok c (tm, fs)"
    and "\<And>k. k \<in> set ks \<Longrightarrow> k < to_chunk_count offer"
    and "fold (transfer_step c) (map (\<lambda>k. DoChunk no_fault (honest_chunk c enc binding offer content k)) ks)
      (tm, fs) = (tm', fs')"
  shows "arrived c offer binding content (R \<union> set ks) (tm', fs') \<and> transfer_ok c (tm', fs')
    \<and> tm_verified tm' = tm_verified tm"
  using assms(2,3,5-8)
proof (induction ks arbitrary: tm fs R)
  case Nil
  then show ?case by simp
next
  case (Cons k ks)
  obtain tm1 fs1 r where
    op: "transfer_chunk_op c no_fault tm fs (honest_chunk c enc binding offer content k) = (tm1, fs1, r)"
    by (cases "transfer_chunk_op c no_fault tm fs (honest_chunk c enc binding offer content k)") auto
  have k: "k < to_chunk_count offer" using Cons.prems(5) by simp
  from arrived_chunk [OF assms(1) Cons.prems(1,2) k assms(4) Cons.prems(3,4) op]
  have a: "arrived c offer binding content (insert k R) (tm1, fs1)" and t: "transfer_ok c (tm1, fs1)"
    and l: "tm_limits tm1 = tm_limits tm" and v: "tm_verified tm1 = tm_verified tm" by auto
  have "arrived c offer binding content (insert k R \<union> set ks) (tm', fs') \<and> transfer_ok c (tm', fs')
      \<and> tm_verified tm' = tm_verified tm1"
    by (rule Cons.IH) (use Cons.prems a t l op in \<open>simp_all\<close>)
  then show ?case using v by simp
qed

lemma arrived_all:
  "arrived c offer binding content {..<to_chunk_count offer} (tm, fs) \<Longrightarrow>
     \<exists>u. tm_upload tm = Some u \<and> us_offer u = offer \<and> us_binding u = binding
       \<and> (\<forall>k < to_chunk_count offer. us_received u ! k)
       \<and> (\<forall>f. fs (us_path u) = Some f \<longrightarrow>
            (\<forall>k < to_chunk_count offer. chunk_slice offer f k = chunk_slice offer content k))"
  by (auto simp: arrived_def)

text \<open>C2: an upload arrives: when an honest client offers a content and sends its chunks in any
  order, any of them more than once, and no file system call fails, \<open>complete\<close> succeeds and the
  quarantined file is the content, under the offered hash.\<close>

theorem upload_roundtrip:
  assumes "base64_contract c enc" and "transfer_ok c (tm, fs)"
    and "max_chunk_bytes (tm_limits tm) * 4 < 2 ^ 64" and "tm_verified tm i = None"
    and "fs (partial_path tm i) = None"
    and "offer_checks tm (honest_offer c binding i cell n content) binding = Inr ()"
    and "set ks = {..<div_ceil (length content) n}"
    and "fold (transfer_step c) (DoOffer no_fault (honest_offer c binding i cell n content) binding
        # map (\<lambda>k. DoChunk no_fault
             (honest_chunk c enc binding (honest_offer c binding i cell n content) content k)) ks)
      (tm, fs) = (tm2, fs2)"
  shows "\<exists>tm3 fs3 v. transfer_complete_op c no_fault tm2 fs2 i = (tm3, fs3, Inr v)
    \<and> fs3 (vt_path v) = Some content \<and> vt_content_hash v = blake3_label (blake3_hash c) content
    \<and> tm_verified tm3 i = Some v \<and> vt_binding v = binding"
proof -
  let ?o = "honest_offer c binding i cell n content"
  have o: "to_chunk_count ?o = div_ceil (length content) n" "to_size_bytes ?o = length content"
    "to_transfer_id ?o = i" "to_content_hash ?o = blake3_label (blake3_hash c) content"
    by (simp_all add: honest_offer_def)
  have ook: "offer_ok (tm_limits tm) ?o" using offer_checks_ok [OF assms(6)] by simp
  obtain tm1 fs1 r where op: "transfer_offer_op no_fault tm fs ?o binding = (tm1, fs1, r)"
    by (cases "transfer_offer_op no_fault tm fs ?o binding") auto
  then have 1: "tm_limits tm1 = tm_limits tm \<and> tm_verified tm1 = tm_verified tm
      \<and> arrived c ?o binding content {} (tm1, fs1)"
    using assms(5,6) by (auto simp: transfer_offer_op_def Let_def no_fault_def o arrived_def)
  have ok1: "transfer_ok c (tm1, fs1)" using assms(2) op by (rule offer_keeps)
  have run: "arrived c ?o binding content ({} \<union> set ks) (tm2, fs2) \<and> transfer_ok c (tm2, fs2)
      \<and> tm_verified tm2 = tm_verified tm1"
  proof (rule arrived_chunks [OF assms(1), where tm = tm1 and fs = fs1])
    show "offer_ok (tm_limits tm1) ?o" using ook 1 by simp
    show "max_chunk_bytes (tm_limits tm1) * 4 < 2 ^ 64" using assms(3) 1 by simp
    show "length content = to_size_bytes ?o" by (simp only: o)
    show "arrived c ?o binding content {} (tm1, fs1)" using 1 by blast
    show "transfer_ok c (tm1, fs1)" by (rule ok1)
    show "k < to_chunk_count ?o" if "k \<in> set ks" for k using that assms(7) by (simp only: o lessThan_iff)
    show "fold (transfer_step c) (map (\<lambda>k. DoChunk no_fault (honest_chunk c enc binding ?o content k)) ks)
        (tm1, fs1) = (tm2, fs2)" using assms(8) op by simp
  qed
  moreover have "{} \<union> set ks = {..<to_chunk_count ?o}" using assms(7) by (simp only: o Un_empty_left)
  ultimately have "arrived c ?o binding content {..<to_chunk_count ?o} (tm2, fs2)" by (simp only:)
  from arrived_all [OF this] obtain u where
    u: "tm_upload tm2 = Some u" "us_offer u = ?o" "us_binding u = binding"
    and rec: "\<forall>k < to_chunk_count ?o. us_received u ! k"
    and sl: "\<forall>f. fs2 (us_path u) = Some f \<longrightarrow>
        (\<forall>k < to_chunk_count ?o. chunk_slice ?o f k = chunk_slice ?o content k)"
    by blast
  have "upload_ok c tm2 fs2 u" using run u(1) by (simp add: transfer_ok_def)
  then obtain f where f: "fs2 (us_path u) = Some f" "length f = to_size_bytes ?o"
    and l: "length (us_received u) = to_chunk_count ?o"
    unfolding upload_ok_def u(2) by blast
  have "f = content"
    by (rule slices_determine [OF ook f(2)]) (use sl f(1) in \<open>simp_all add: o\<close>)
  moreover have "list_all (\<lambda>r. r) (us_received u)" using rec l by (simp add: list_all_length)
  ultimately show ?thesis
    using u f(1) run 1 assms(4) by (simp add: transfer_complete_op_def Let_def no_fault_def o)
qed

text \<open>A concrete instance of the contract: bytes as characters, padded to the base64 length.\<close>

definition pad_enc :: "u8 list \<Rightarrow> string" where
  "pad_enc d = map (\<lambda>b. char_of (unat b)) d
     @ replicate (div_ceil (length d * 4) 3 - length d) CHR ''A''"

definition pad_dec :: "string \<Rightarrow> u8 list option" where
  "pad_dec s = Some (map (\<lambda>ch. of_nat (of_char ch)) (take (length s * 3 div 4) s))"

definition toy_crypto :: crypto where
  "toy_crypto = \<lparr>blake3_hash = (\<lambda>d. take 32 (d @ replicate 32 0)), b64_decode = pad_dec\<rparr>"

lemma toy_contract: "base64_contract toy_crypto pad_enc"
proof -
  have ge: "length d \<le> div_ceil (length d * 4) 3" for d :: "u8 list"
    by (simp add: div_ceil_def)
  have n: "div_ceil (n * 4) 3 * 3 div 4 = n" for n by (simp add: div_ceil_def)
  have len: "length (pad_enc d) = div_ceil (length d * 4) 3" for d
    using ge by (simp add: pad_enc_def)
  have byte: "of_nat (of_char (char_of (unat b) :: char)) = b" for b :: u8
  proof -
    have "unat b < 256" using unsigned_less [of b, where 'a = nat] by simp
    then show ?thesis by simp
  qed
  have "pad_dec (pad_enc d) = Some d" for d
  proof -
    have "map (\<lambda>ch. of_nat (of_char ch)) (map (\<lambda>b. char_of (unat b) :: char) d) = d"
      by (simp only: map_map o_def byte list.map_ident)
    then show ?thesis unfolding pad_dec_def len n by (simp add: pad_enc_def del: map_map)
  qed
  then show ?thesis using len by (simp add: base64_contract_def toy_crypto_def min_def)
qed

definition wit_binding :: session_binding where
  "wit_binding = \<lparr>sb_project_id = ''prj'', sb_workspace_id = ''ws'', sb_universe_id = None,
     sb_place_id = None, sb_channel = ''development'', sb_config_hash = [], sb_ownership_hash = [],
     sb_policy_hash = [], sb_accepted_art_head = None, sb_accepted_state_root = None,
     sb_context_version = 7\<rparr>"

abbreviation wit_tm :: transfer_manager where
  "wit_tm \<equiv> transfer_new ''q'' default_limits ''ses_1''"

abbreviation wit_offer :: "u8 list \<Rightarrow> transfer_offer" where
  "wit_offer content \<equiv> honest_offer toy_crypto wit_binding ''op_0001'' ''cell_0001'' 2 content"

lemma wit_offer_checks:
  "offer_checks (transfer_new d default_limits sid) (wit_offer [a, b, e]) wit_binding = Inr ()"
proof -
  have "validate_blake3_hash (blake3_label (blake3_hash toy_crypto) [a, b, e]) = Inr ()"
    by (rule blake3_label_valid) (simp add: toy_crypto_def)
  then show ?thesis
    by (simp add: offer_checks_def result_simps honest_offer_def transfer_new_def default_limits_def
        validate_scoped_id_iff wit_binding_def div_ceil_def scoped_byte_def ascii_class_defs)
qed

theorem upload_roundtrip_witness:
  "\<exists>tm2 fs2 tm3 fs3 v. fold (transfer_step toy_crypto) (DoOffer no_fault (wit_offer [1, 2, 3]) wit_binding
        # map (\<lambda>k. DoChunk no_fault
             (honest_chunk toy_crypto pad_enc wit_binding (wit_offer [1, 2, 3]) [1, 2, 3] k)) [1, 0, 1])
      (wit_tm, Map.empty) = (tm2, fs2)
    \<and> transfer_complete_op toy_crypto no_fault tm2 fs2 ''op_0001'' = (tm3, fs3, Inr v)
    \<and> fs3 (vt_path v) = Some [1, 2, 3]"
  (is "\<exists>tm2 fs2 tm3 fs3 v. ?run = _ \<and> _")
proof -
  obtain tm2 fs2 where run: "?run = (tm2, fs2)" by (cases ?run) auto
  have ks: "set [1, 0, 1] = {..<div_ceil (length [1, 2, 3 :: u8]) 2}"
    by (auto simp: div_ceil_def)
  have limit: "max_chunk_bytes (tm_limits wit_tm) * 4 < 2 ^ 64"
    and fresh: "tm_verified wit_tm ''op_0001'' = None"
    by (simp_all add: transfer_new_def default_limits_def)
  from upload_roundtrip [OF toy_contract transfer_new_ok limit fresh _ wit_offer_checks ks run] run
  show ?thesis by simp blast
qed

lemma toy_valid: "validate_blake3_hash (blake3_label (blake3_hash toy_crypto) d) = Inr ()"
  by (rule blake3_label_valid) (simp add: toy_crypto_def)

lemma toy_decode: "b64_decode toy_crypto (pad_enc d) = Some d"
  using toy_contract by (simp add: base64_contract_def)

lemma toy_offer_checks: "offer_checks (transfer_new d default_limits sid) (wit_offer [1, 2]) wit_binding = Inr ()"
  using toy_valid [of "[1, 2]"]
  by (simp add: offer_checks_def result_simps honest_offer_def transfer_new_def default_limits_def
      validate_scoped_id_iff wit_binding_def div_ceil_def scoped_byte_def ascii_class_defs)

lemma toy_chunk_checks:
  assumes "us_offer u = wit_offer [1, 2]" and "us_binding u = wit_binding" and "tm_limits tm = default_limits"
  shows "chunk_checks toy_crypto tm u
    (honest_chunk toy_crypto pad_enc wit_binding (wit_offer [1, 2]) [1, 2] 0) = Inr [1, 2]"
  using honest_chunk_checks [OF toy_contract _ _ _ assms(1,2), of tm 0 "[1, 2]"]
    offer_checks_ok [OF toy_offer_checks] assms(3)
  by (simp add: transfer_new_def default_limits_def honest_offer_def div_ceil_def chunk_slice_def
      chunk_len_def chunk_offset_def)

lemma toy_fields:
  "to_transfer_id (wit_offer [1, 2]) = ''op_0001''" "to_chunk_count (wit_offer [1, 2]) = 1"
  "to_size_bytes (wit_offer [1, 2]) = 2" "to_chunk_size_bytes (wit_offer [1, 2]) = 2"
  "to_resource_id (wit_offer [1, 2]) = ''cell_0001''"
  "to_content_hash (wit_offer [1, 2]) = blake3_label (blake3_hash toy_crypto) [1, 2]"
  "tc_chunk_index (honest_chunk toy_crypto pad_enc wit_binding (wit_offer [1, 2]) [1, 2] 0) = 0"
  "tm_limits wit_tm = default_limits" "tm_upload wit_tm = None" "tm_verified wit_tm = Map.empty"
  "partial_path wit_tm ''op_0001'' = (''q'', ''ses_1-op_0001.partial'')"
  "verified_path wit_tm ''op_0001'' = (''q'', ''ses_1-op_0001.verified'')"
  by (simp_all add: honest_offer_def div_ceil_def honest_chunk_def transfer_new_def partial_path_def
      verified_path_def)

abbreviation wit_upload :: "bool \<Rightarrow> string option \<Rightarrow> upload_state" where
  "wit_upload r h \<equiv> \<lparr>us_offer = wit_offer [1, 2], us_binding = wit_binding,
     us_path = (''q'', ''ses_1-op_0001.partial''), us_received = [r], us_received_hashes = [h]\<rparr>"

abbreviation wit_verified :: verified_transfer where
  "wit_verified \<equiv> \<lparr>vt_transfer_id = ''op_0001'', vt_content_hash = blake3_label (blake3_hash toy_crypto) [1, 2],
     vt_path = (''q'', ''ses_1-op_0001.verified''), vt_size_bytes = 2,
     vt_resource_id = ''cell_0001'', vt_binding = wit_binding\<rparr>"

abbreviation wit_chunk :: transfer_chunk where
  "wit_chunk \<equiv> honest_chunk toy_crypto pad_enc wit_binding (wit_offer [1, 2]) [1, 2] 0"

lemma toy_offered:
  "\<exists>x. transfer_offer_op no_fault wit_tm Map.empty (wit_offer [1, 2]) wit_binding
    = (wit_tm\<lparr>tm_upload := Some (wit_upload False None)\<rparr>, [(''q'', ''ses_1-op_0001.partial'') \<mapsto> [0, 0]], Inr x)"
proof -
  have "replicate 2 (0 :: u8) = [0, 0]" by (simp add: numeral_2_eq_2)
  then show ?thesis
    using toy_offer_checks by (simp add: transfer_offer_op_def Let_def no_fault_def toy_fields)
qed

lemma toy_chunked:
  "\<exists>x. transfer_chunk_op toy_crypto no_fault (wit_tm\<lparr>tm_upload := Some (wit_upload False None)\<rparr>)
      [(''q'', ''ses_1-op_0001.partial'') \<mapsto> [0, 0]] wit_chunk
    = (wit_tm\<lparr>tm_upload := Some (wit_upload True (Some (tc_chunk_hash wit_chunk)))\<rparr>,
       [(''q'', ''ses_1-op_0001.partial'') \<mapsto> [1, 2]], Inr x)"
  by (simp add: transfer_chunk_op_def Let_def no_fault_def toy_fields toy_chunk_checks write_at_def)

lemma toy_completed:
  "transfer_complete_op toy_crypto no_fault (wit_tm\<lparr>tm_upload := Some (wit_upload True h)\<rparr>)
      [(''q'', ''ses_1-op_0001.partial'') \<mapsto> [1, 2]] ''op_0001''
    = (wit_tm\<lparr>tm_verified := [''op_0001'' \<mapsto> wit_verified]\<rparr>,
       [(''q'', ''ses_1-op_0001.verified'') \<mapsto> [1, 2]], Inr wit_verified)"
  by (simp add: transfer_complete_op_def Let_def no_fault_def toy_fields)

lemma toy_run:
  "fold (transfer_step toy_crypto)
      [DoOffer no_fault (wit_offer [1, 2]) wit_binding, DoChunk no_fault wit_chunk,
       DoComplete no_fault ''op_0001''] (wit_tm, Map.empty)
   = (wit_tm\<lparr>tm_verified := [''op_0001'' \<mapsto> wit_verified]\<rparr>,
      [(''q'', ''ses_1-op_0001.verified'') \<mapsto> [1, 2]])"
  using toy_offered toy_chunked toy_completed by auto

theorem transfer_quarantine_intact_witness:
  "\<exists>v. tm_verified (fst (fold (transfer_step toy_crypto)
      [DoOffer no_fault (wit_offer [1, 2]) wit_binding,
       DoChunk no_fault wit_chunk, DoComplete no_fault ''op_0001''] (wit_tm, Map.empty))) ''op_0001'' = Some v
    \<and> vt_path v = (''q'', ''ses_1-op_0001.verified'') \<and> vt_size_bytes v = 2"
  using transfer_quarantine_intact [OF toy_run, of "''op_0001''"]
  by (subst toy_run) (simp add: transfer_new_def verified_path_def)

section \<open>Reuse of a transfer id\<close>

fun is_cancel :: "transfer_op \<Rightarrow> bool" where
  "is_cancel (DoCancel io i) = True"
| "is_cancel (DoCancelAll io) = True"
| "is_cancel _ = False"

text \<open>An upload is active whose id is already verified.\<close>

definition shadowed :: "string \<Rightarrow> verified_transfer \<Rightarrow> transfer_manager \<Rightarrow> bool" where
  "shadowed i v tm \<longleftrightarrow> tm_verified tm i = Some v
     \<and> (\<exists>u. tm_upload tm = Some u \<and> to_transfer_id (us_offer u) = i)"

lemma shadowed_step:
  assumes "shadowed i v (fst s)" and "\<not> is_cancel op"
  shows "shadowed i v (fst (transfer_step c op s))"
  using assms
  by (cases s; cases op)
    (auto simp: shadowed_def transfer_offer_op_def offer_checks_def transfer_chunk_op_def
      transfer_complete_op_def Let_def split: sum.split option.split)

lemma shadowed_run:
  "shadowed i v (fst s) \<Longrightarrow> list_all (\<lambda>op. \<not> is_cancel op) ops
     \<Longrightarrow> shadowed i v (fst (fold (transfer_step c) ops s))"
proof (induction ops arbitrary: s)
  case (Cons op ops)
  have "shadowed i v (fst (transfer_step c op s))"
    using Cons.prems by (intro shadowed_step) simp_all
  then show ?case using Cons.IH Cons.prems(2) by simp
qed simp

text \<open>\<open>offer\<close> does not look at the transfers already verified. An offer that reuses a verified
  id is accepted, but from then on, whatever offers, chunks and completions follow, \<open>complete\<close>
  answers with the old transfer and every offer is refused; only a cancellation ends it.\<close>

theorem reused_id_blocks_uploads:
  assumes "tm_verified tm (to_transfer_id offer) = Some v"
    and "transfer_offer_op io tm fs offer binding = (tm1, fs1, Inr r)"
    and "list_all (\<lambda>op. \<not> is_cancel op) ops"
    and "fold (transfer_step c) ops (tm1, fs1) = (tm2, fs2)"
  shows "transfer_complete_op c io' tm2 fs2 (to_transfer_id offer) = (tm2, fs2, Inr v)
    \<and> transfer_offer_op io' tm2 fs2 offer' binding'
        = (tm2, fs2, Inl (TransferRejected ''one upload already active''))"
proof -
  have "shadowed (to_transfer_id offer) v tm1"
    using assms(1,2)
    by (auto simp: shadowed_def transfer_offer_op_def Let_def split: sum.splits if_splits)
  then have "shadowed (to_transfer_id offer) v (fst (tm2, fs2))"
    unfolding assms(4) [symmetric] using assms(3) by (intro shadowed_run) simp_all
  then show ?thesis
    by (auto simp: shadowed_def transfer_complete_op_def transfer_offer_op_def offer_checks_def)
qed

theorem reused_id_blocks_uploads_witness:
  "\<exists>tm fs tm1 fs1 r v. transfer_offer_op no_fault tm fs (wit_offer [1, 2, 3]) wit_binding = (tm1, fs1, Inr r)
    \<and> transfer_complete_op toy_crypto no_fault tm1 fs1 ''op_0001'' = (tm1, fs1, Inr v)
    \<and> vt_size_bytes v = 9"
proof -
  let ?v = "\<lparr>vt_transfer_id = ''op_0001'', vt_content_hash = [], vt_path = (''q'', ''x''),
    vt_size_bytes = 9, vt_resource_id = ''cell_0002'', vt_binding = wit_binding\<rparr>"
  let ?tm = "wit_tm\<lparr>tm_verified := [''op_0001'' \<mapsto> ?v]\<rparr>"
  have "offer_checks ?tm (wit_offer [1, 2, 3]) wit_binding
      = offer_checks wit_tm (wit_offer [1, 2, 3]) wit_binding"
    by (simp add: offer_checks_def)
  then have ok: "offer_checks ?tm (wit_offer [1, 2, 3]) wit_binding = Inr ()"
    using wit_offer_checks by simp
  obtain tm1 fs1 r where op: "transfer_offer_op no_fault ?tm Map.empty (wit_offer [1, 2, 3]) wit_binding
      = (tm1, fs1, Inr r)"
    using ok by (simp add: transfer_offer_op_def Let_def no_fault_def)
  have "transfer_complete_op toy_crypto no_fault tm1 fs1 (to_transfer_id (wit_offer [1, 2, 3]))
      = (tm1, fs1, Inr ?v)"
    using reused_id_blocks_uploads [of ?tm "wit_offer [1, 2, 3]" ?v no_fault Map.empty wit_binding
        tm1 fs1 r "[]" toy_crypto tm1 fs1] op
    by (simp add: honest_offer_def)
  then have "transfer_complete_op toy_crypto no_fault tm1 fs1 ''op_0001'' = (tm1, fs1, Inr ?v)"
    by (simp add: honest_offer_def)
  with op show ?thesis by fastforce
qed

end
