(* ===== verification/BridgeFanout.thy ===== *)
theory BridgeFanout
  imports BridgeTransfer "HOL-Library.AList"
begin

text \<open>
  Accepted revisions on their way to Studio (\<open>bridge.rs\<close>): the validation of an incoming
  revision, its fan-out to the sessions bound to the exact context, the short-lived download
  tickets of large revisions, and the changes of the mutation binding.

  A session's channel is the list of its pushes and whether the receiver is gone. \<open>send\<close>
  waits for room and fails only on a closed channel; \<open>try_send\<close> also fails on a full one.
\<close>

section \<open>State\<close>

record incoming_download =
  dl_url :: string
  dl_token :: string
  dl_expires_at :: string

record incoming_cell =
  ic_cell_id :: string
  ic_parent_path :: string
  ic_content_hash :: string
  ic_size_bytes :: nat
  ic_data :: "string option"
  ic_download :: "incoming_download option"

record incoming_revision =
  ir_revision_id :: string
  ir_state_root :: string
  ir_cell_ids :: "string list"
  ir_author_display :: string
  ir_summary :: string
  ir_cells :: "incoming_cell list"

datatype server_push =
    ContextChanged "session_binding option"
  | Incoming incoming_revision
  | Apply string string nat incoming_revision
  | IncomingAndApply string string nat incoming_revision

record session_sender =
  ss_plugin_installation_id :: string
  ss_hello :: "hello_context option"
  ss_bound_context_version :: "nat option"
  ss_queue :: "server_push list"
  ss_closed :: bool

record download_ticket =
  tk_session_id :: string
  tk_token_digest :: "u8 list"
  tk_bytes :: "u8 list"
  tk_content_hash :: string
  tk_expires_at :: nat
  tk_remaining_uses :: nat

type_synonym sessions = "(string \<times> session_sender) list"
type_synonym downloads = "string \<rightharpoonup> download_ticket"

definition channel_capacity :: nat where
  "channel_capacity = 32"

definition try_send :: "server_push \<Rightarrow> session_sender \<Rightarrow> session_sender \<times> bool" where
  "try_send push s =
     (if ss_closed s \<or> channel_capacity \<le> length (ss_queue s) then (s, False)
      else (s\<lparr>ss_queue := ss_queue s @ [push]\<rparr>, True))"

definition send :: "server_push \<Rightarrow> session_sender \<Rightarrow> session_sender \<times> bool" where
  "send push s = (if ss_closed s then (s, False) else (s\<lparr>ss_queue := ss_queue s @ [push]\<rparr>, True))"

section \<open>Incoming revisions\<close>

definition decode_cell :: "crypto \<Rightarrow> incoming_cell \<Rightarrow> string \<Rightarrow> bridge_error + u8 list" where
  "decode_cell c cell data =
     bindE (ok_or (b64_decode c data) (TransferRejected ''invalid apply base64url'')) (\<lambda>decoded.
       if length decoded \<noteq> ic_size_bytes cell
          \<or> blake3_label (blake3_hash c) decoded \<noteq> ic_content_hash cell
       then Inl ContentHashMismatch else Inr decoded)"

definition validate_incoming_cell :: "crypto \<Rightarrow> bridge_limits \<Rightarrow> incoming_cell \<Rightarrow> bridge_error + unit" where
  "validate_incoming_cell c limits cell =
     bindE (validate_scoped_id (ic_cell_id cell) ''cell_'') (\<lambda>_.
     bindE (validate_blake3_hash (ic_content_hash cell)) (\<lambda>_.
     bindE (ok_or (ic_data cell) (TransferRejected ''native apply source bytes are missing'')) (\<lambda>data.
     bindE (guardE (ic_download cell = None)
            (TransferRejected ''caller may not supply a download ticket'')) (\<lambda>_.
     bindE (guardE (ic_size_bytes cell \<le> max_transfer_bytes limits
              \<and> length data \<le> div_ceil (saturating_mul (max_transfer_bytes limits) 4) 3 + 8)
            MessageTooLarge) (\<lambda>_.
     bindE (decode_cell c cell data) (\<lambda>_. Inr ()))))))"

definition validate_incoming_revision ::
  "crypto \<Rightarrow> bridge_limits \<Rightarrow> incoming_revision \<Rightarrow> bridge_error + unit" where
  "validate_incoming_revision c limits revision =
     bindE (guardE (ir_cells revision \<noteq> [] \<and> length (ir_cells revision) \<le> 128)
            (TransferRejected ''accepted revision has no bounded cell payload'')) (\<lambda>_.
     (let declared_cells = set (ir_cell_ids revision)
      in bindE (guardE (card declared_cells = length (ir_cells revision)
                  \<and> list_all (\<lambda>cell. ic_cell_id cell \<in> declared_cells) (ir_cells revision))
                (TransferRejected ''incoming summary cell IDs do not match payloads'')) (\<lambda>_.
         traverseE (validate_incoming_cell c limits) (ir_cells revision))))"

section \<open>Fan-out\<close>

definition hello_matches :: "session_sender \<Rightarrow> session_binding \<Rightarrow> bool" where
  "hello_matches s binding =
     (case ss_hello s of None \<Rightarrow> False | Some hello \<Rightarrow> hello_matches_binding hello binding)"

text \<open>The sessions the loop of \<open>fanout_accepted_revision\<close> does not skip.\<close>

definition fanout_target :: "string \<Rightarrow> session_binding \<Rightarrow> string \<Rightarrow> session_sender \<Rightarrow> bool" where
  "fanout_target excluding binding i s \<longleftrightarrow> i \<noteq> excluding
     \<and> ss_bound_context_version s = Some (sb_context_version binding) \<and> hello_matches s binding"

definition fanout_push :: "(string \<Rightarrow> string) \<Rightarrow> session_binding \<Rightarrow> incoming_revision \<Rightarrow> string \<Rightarrow> server_push" where
  "fanout_push uuid binding revision i =
     IncomingAndApply (''op_'' @ uuid i) (''apply:'' @ ir_revision_id revision @ '':'' @ i)
       (sb_context_version binding) revision"

text \<open>
  The fan-out waits several times: for the sessions after the binding is read, and for room in each
  channel. Meanwhile other tasks change the shared state, by \<open>intf k\<close> at the \<open>k\<close>-th wait. The loop
  runs over a snapshot of the sessions, but it sends on the live channels; \<open>fe_lingers\<close> tells whether
  the channel of a session that has left the table still takes a push.
\<close>

record fanout_shared =
  sh_binding :: "session_binding option"
  sh_sessions :: sessions

record fanout_env =
  fe_uuid :: "string \<Rightarrow> string"
  fe_lingers :: "string \<Rightarrow> bool"

definition deliver :: "fanout_env \<Rightarrow> string \<Rightarrow> server_push \<Rightarrow> sessions \<Rightarrow> sessions \<times> bool" where
  "deliver env i push sessions =
     (case map_of sessions i of
        None \<Rightarrow> (sessions, fe_lingers env i)
      | Some s \<Rightarrow> (case send push s of (s', ok) \<Rightarrow> (AList.update i s' sessions, ok)))"

primrec fanout_loop ::
  "fanout_env \<Rightarrow> (nat \<Rightarrow> 'z fanout_shared_scheme \<Rightarrow> 'z fanout_shared_scheme) \<Rightarrow> string \<Rightarrow> session_binding
   \<Rightarrow> incoming_revision \<Rightarrow> nat \<Rightarrow> sessions \<Rightarrow> 'z fanout_shared_scheme \<Rightarrow> 'z fanout_shared_scheme \<times> nat" where
  "fanout_loop env intf excluding binding revision k [] sh = (sh, 0)"
| "fanout_loop env intf excluding binding revision k (e # es) sh =
     (if \<not> fanout_target excluding binding (fst e) (snd e)
      then fanout_loop env intf excluding binding revision k es sh
      else (let sh1 = intf k sh
            in case deliver env (fst e) (fanout_push (fe_uuid env) binding revision (fst e)) (sh_sessions sh1) of
                 (sessions, ok) \<Rightarrow>
                   (case fanout_loop env intf excluding binding revision (Suc k) es (sh1\<lparr>sh_sessions := sessions\<rparr>) of
                      (sh', sent) \<Rightarrow> (sh', if ok then sent + 1 else sent))))"

definition fanout_accepted_revision ::
  "fanout_env \<Rightarrow> (nat \<Rightarrow> 'z fanout_shared_scheme \<Rightarrow> 'z fanout_shared_scheme) \<Rightarrow> string
   \<Rightarrow> incoming_revision \<Rightarrow> 'z fanout_shared_scheme \<Rightarrow> 'z fanout_shared_scheme \<times> (bridge_error + nat)" where
  "fanout_accepted_revision env intf excluding revision sh =
     (case sh_binding sh of
        None \<Rightarrow> (sh, Inl ContextStale)
      | Some b \<Rightarrow>
          (let sh1 = intf 0 sh
           in case fanout_loop env intf excluding b revision 1 (sh_sessions sh1) sh1 of
                (sh', sent) \<Rightarrow> (sh', Inr sent)))"

text \<open>The public entry validates first.\<close>

definition handle_fanout ::
  "crypto \<Rightarrow> bridge_limits \<Rightarrow> fanout_env \<Rightarrow> (nat \<Rightarrow> 'z fanout_shared_scheme \<Rightarrow> 'z fanout_shared_scheme)
   \<Rightarrow> string \<Rightarrow> incoming_revision \<Rightarrow> 'z fanout_shared_scheme \<Rightarrow> 'z fanout_shared_scheme \<times> (bridge_error + nat)" where
  "handle_fanout c limits env intf excluding revision sh =
     (case validate_incoming_revision c limits revision of
        Inl e \<Rightarrow> (sh, Inl e)
      | Inr _ \<Rightarrow> fanout_accepted_revision env intf excluding revision sh)"

text \<open>The remote entry compares the context, waits, and then the fan-out reads the binding anew.\<close>

definition fanout_remote_accepted_revision ::
  "crypto \<Rightarrow> bridge_limits \<Rightarrow> fanout_env \<Rightarrow> (nat \<Rightarrow> 'z fanout_shared_scheme \<Rightarrow> 'z fanout_shared_scheme)
   \<Rightarrow> string \<Rightarrow> string \<Rightarrow> nat \<Rightarrow> string option \<Rightarrow> incoming_revision \<Rightarrow> 'z fanout_shared_scheme
   \<Rightarrow> 'z fanout_shared_scheme \<times> (bridge_error + nat)" where
  "fanout_remote_accepted_revision c limits env intf project channel version excluding revision sh =
     (case sh_binding sh of
        None \<Rightarrow> (sh, Inl ContextStale)
      | Some b \<Rightarrow>
          if sb_project_id b \<noteq> project \<or> sb_channel b \<noteq> channel \<or> sb_context_version b \<noteq> version
          then (sh, Inl ContextStale)
          else handle_fanout c limits env (\<lambda>k. intf (Suc k))
                 (case excluding of None \<Rightarrow> '''' | Some i \<Rightarrow> i) revision (intf 0 sh))"

definition request_apply ::
  "crypto \<Rightarrow> bridge_limits \<Rightarrow> session_binding option \<Rightarrow> string \<Rightarrow> string \<Rightarrow> string
   \<Rightarrow> incoming_revision \<Rightarrow> sessions \<Rightarrow> sessions \<times> (bridge_error + unit)" where
  "request_apply c limits binding session_id command_id idempotency_key revision sessions =
     (case bindE (validate_scoped_id command_id ''op_'') (\<lambda>_.
           bindE (guardE (length idempotency_key \<le> 256 \<and> idempotency_key \<noteq> [])
                  (TransferRejected ''invalid idempotency key'')) (\<lambda>_.
           bindE (ok_or binding ContextStale) (\<lambda>b.
           bindE (validate_incoming_revision c limits revision) (\<lambda>_.
           bindE (ok_or (map_of sessions session_id) ContextStale) (\<lambda>sender.
           bindE (guardE (ss_bound_context_version sender = Some (sb_context_version b)
                    \<and> hello_matches sender b) ContextStale) (\<lambda>_.
           Inr (b, sender))))))) of
        Inl e \<Rightarrow> (sessions, Inl e)
      | Inr (b, sender) \<Rightarrow>
          (case send (Apply command_id idempotency_key (sb_context_version b) revision) sender of
             (s', ok) \<Rightarrow> (AList.update session_id s' sessions,
                          if ok then Inr () else Inl ContextStale)))"

definition notify_incoming_revision ::
  "string \<Rightarrow> incoming_revision \<Rightarrow> sessions \<Rightarrow> sessions \<times> nat" where
  "notify_incoming_revision plugin revision sessions =
     (let notify = (\<lambda>s. if ss_plugin_installation_id s = plugin
                        then try_send (Incoming revision) s else (s, False))
      in (map (\<lambda>(i, s). (i, fst (notify s))) sessions,
          length (filter (\<lambda>(i, s). snd (notify s)) sessions)))"

section \<open>Changes of the binding\<close>

definition set_binding ::
  "session_binding option \<Rightarrow> sessions \<Rightarrow> session_binding option \<times> sessions" where
  "set_binding binding sessions =
     (binding, map (\<lambda>(i, s). (i, fst (try_send (ContextChanged binding)
                                   (s\<lparr>ss_bound_context_version := None\<rparr>)))) sessions)"

definition with_head :: "string \<Rightarrow> string \<Rightarrow> session_binding \<Rightarrow> session_binding" where
  "with_head revision_id state_root b =
     b\<lparr>sb_accepted_art_head := Some revision_id, sb_accepted_state_root := Some state_root\<rparr>"

definition update_accepted_head ::
  "string \<Rightarrow> string \<Rightarrow> session_binding option \<Rightarrow> session_binding option" where
  "update_accepted_head revision_id state_root binding = map_option (with_head revision_id state_root) binding"

definition update_accepted_head_if_context ::
  "string \<Rightarrow> string \<Rightarrow> nat \<Rightarrow> string \<Rightarrow> string \<Rightarrow> session_binding option
   \<Rightarrow> session_binding option \<times> (bridge_error + unit)" where
  "update_accepted_head_if_context project channel version revision_id state_root binding =
     (case binding of
        None \<Rightarrow> (binding, Inl ContextStale)
      | Some b \<Rightarrow>
          if sb_project_id b \<noteq> project \<or> sb_channel b \<noteq> channel \<or> sb_context_version b \<noteq> version
          then (binding, Inl ContextStale)
          else (Some (with_head revision_id state_root b), Inr ()))"

section \<open>Download tickets\<close>

text \<open>
  What the preparation of a revision draws on: fresh ids, tokens and clock readings for each
  cell, the printed time, the ticket's URL (which may be unbuildable), and the JSON size.
\<close>

record prepare_env =
  pv_uuid :: "nat \<Rightarrow> string"
  pv_token :: "nat \<Rightarrow> string"
  pv_now :: "nat \<Rightarrow> nat"
  pv_rfc3339 :: "nat \<Rightarrow> string"
  pv_url :: "string \<Rightarrow> bridge_error + string"
  pv_json_size :: "incoming_revision \<Rightarrow> nat"

primrec prepare_cells ::
  "crypto \<Rightarrow> prepare_env \<Rightarrow> string \<Rightarrow> nat \<Rightarrow> incoming_cell list \<Rightarrow> downloads
   \<Rightarrow> downloads \<times> (bridge_error + incoming_cell list)" where
  "prepare_cells c env session_id k [] downloads = (downloads, Inr [])"
| "prepare_cells c env session_id k (cell # cells) downloads =
     (let ticket_id = ''dwn_'' @ pv_uuid env k;
          token = pv_token env k;
          expires_at = pv_now env k + 120
      in case bindE (ok_or (ic_data cell)
                     (TransferRejected ''native apply source bytes are missing'')) (\<lambda>encoded.
              bindE (decode_cell c cell encoded) (\<lambda>decoded.
              bindE (pv_url env ticket_id) (\<lambda>url. Inr (decoded, url)))) of
           Inl e \<Rightarrow> (downloads, Inl e)
         | Inr (decoded, url) \<Rightarrow>
             (let ticket = \<lparr>tk_session_id = session_id,
                            tk_token_digest = digest_secret (blake3_hash c) token,
                            tk_bytes = decoded, tk_content_hash = ic_content_hash cell,
                            tk_expires_at = expires_at, tk_remaining_uses = 3\<rparr>;
                  cell' = cell\<lparr>ic_data := None,
                            ic_download := Some \<lparr>dl_url = url, dl_token = token,
                                                 dl_expires_at = pv_rfc3339 env expires_at\<rparr>\<rparr>
              in case prepare_cells c env session_id (Suc k) cells (downloads(ticket_id \<mapsto> ticket)) of
                   (downloads', Inl e) \<Rightarrow> (downloads', Inl e)
                 | (downloads', Inr cells') \<Rightarrow> (downloads', Inr (cell' # cells'))))"

definition prepare_revision_for_session ::
  "crypto \<Rightarrow> prepare_env \<Rightarrow> bridge_limits \<Rightarrow> string \<Rightarrow> hello_context option \<Rightarrow> incoming_revision
   \<Rightarrow> downloads \<Rightarrow> downloads \<times> (bridge_error + incoming_revision)" where
  "prepare_revision_for_session c env limits session_id hello revision downloads =
     (let inline_limit = max_control_message_bytes limits - 4096
      in if pv_json_size env revision \<le> inline_limit then (downloads, Inr revision)
         else if \<not> (case hello of None \<Rightarrow> False
                      | Some h \<Rightarrow> ''http-download-v1'' \<in> hc_capabilities h)
         then (downloads, Inl (CommandUnsupported
                 ''http-download-v1 capability is required for this accepted revision''))
         else (case prepare_cells c env session_id 0 (ir_cells revision) downloads of
                 (downloads', Inl e) \<Rightarrow> (downloads', Inl e)
               | (downloads', Inr cells) \<Rightarrow>
                   (let revision' = revision\<lparr>ir_cells := cells\<rparr>
                    in if inline_limit < pv_json_size env revision'
                       then (downloads', Inl MessageTooLarge) else (downloads', Inr revision'))))"

definition retain_downloads :: "nat \<Rightarrow> downloads \<Rightarrow> downloads" where
  "retain_downloads now m = (\<lambda>i. case m i of None \<Rightarrow> None
     | Some t \<Rightarrow> if now < tk_expires_at t \<and> 0 < tk_remaining_uses t then Some t else None)"

text \<open>\<open>host\<close> is the outcome of the Host check; the headers are those with a readable value.\<close>

definition download_handler ::
  "crypto \<Rightarrow> nat \<Rightarrow> bridge_error + unit \<Rightarrow> string \<Rightarrow> string option \<Rightarrow> string option \<Rightarrow> downloads
   \<Rightarrow> downloads \<times> (bridge_error + u8 list \<times> string \<times> nat)" where
  "download_handler c now host ticket_id session_header authorization_header downloads =
     (case bindE host (\<lambda>_.
           bindE (validate_scoped_id ticket_id ''dwn_'') (\<lambda>_.
           bindE (ok_or session_header AuthInvalid) (\<lambda>session_id.
           bindE (ok_or (Option.bind authorization_header (strip_prefix ''NeuManTransfer '')) AuthInvalid)
             (\<lambda>authorization. Inr (session_id, authorization))))) of
        Inl e \<Rightarrow> (downloads, Inl e)
      | Inr (session_id, authorization) \<Rightarrow>
          (let token_digest = digest_secret (blake3_hash c) authorization;
               live = retain_downloads now downloads
           in case live ticket_id of
                None \<Rightarrow> (live, Inl AuthInvalid)
              | Some ticket \<Rightarrow>
                  if tk_session_id ticket \<noteq> session_id \<or> tk_token_digest ticket \<noteq> token_digest
                     \<or> tk_expires_at ticket \<le> now
                  then (live, Inl AuthInvalid)
                  else (let ticket' = ticket\<lparr>tk_remaining_uses := tk_remaining_uses ticket - 1\<rparr>
                        in (live(ticket_id := if tk_remaining_uses ticket' = 0 then None else Some ticket'),
                            Inr (tk_bytes ticket, tk_content_hash ticket, tk_expires_at ticket)))))"

text \<open>The end of \<open>session_loop\<close>: the session and its tickets are removed.\<close>

definition end_session_downloads :: "string \<Rightarrow> downloads \<Rightarrow> downloads" where
  "end_session_downloads session_id m = (\<lambda>i. case m i of None \<Rightarrow> None
     | Some t \<Rightarrow> if tk_session_id t \<noteq> session_id then Some t else None)"

section \<open>Who receives an accepted revision\<close>

lemma optional_id_matches_iff: "optional_id_matches expected actual \<longleftrightarrow> expected \<in> {None, actual}"
  by (cases "(expected, actual)" rule: optional_id_matches.cases) auto

lemma hello_matches_iff:
  "hello_matches_binding hello b \<longleftrightarrow> hc_project_id hello = Some (sb_project_id b) \<and> hc_channel hello = Some (sb_channel b)
     \<and> sb_place_id b \<in> {None, hc_place_id hello} \<and> sb_universe_id b \<in> {None, hc_universe_id hello}"
  by (simp add: hello_matches_binding_def optional_id_matches_iff)

text \<open>What a session has received and whether it still listens.\<close>

definition channel_of :: "string \<Rightarrow> sessions \<Rightarrow> (server_push list \<times> bool) option" where
  "channel_of i sessions = map_option (\<lambda>s. (ss_queue s, ss_closed s)) (map_of sessions i)"

lemma channel_of_deliver:
  assumes "deliver env j push sessions = (sessions', ok)"
  shows "channel_of i sessions' = (if i = j then map_option (\<lambda>(q, closed). (if closed then q else q @ [push], closed))
    (channel_of i sessions) else channel_of i sessions)"
  using assms
  by (auto simp: deliver_def send_def channel_of_def update_conv' split: option.splits if_splits)

lemma channel_of_loop:
  assumes calm: "\<And>k sh. 0 < k \<Longrightarrow> channel_of i (sh_sessions (intf k sh)) = channel_of i (sh_sessions sh)"
    and "distinct (map fst snapshot)" and "0 < k"
    and "fanout_loop env intf excluding b revision k snapshot sh = (sh', n)"
  shows "channel_of i (sh_sessions sh')
     = (case map_of snapshot i of
          Some s \<Rightarrow> if fanout_target excluding b i s
            then map_option (\<lambda>(q, closed). (if closed then q else q @ [fanout_push (fe_uuid env) b revision i], closed))
                   (channel_of i (sh_sessions sh))
            else channel_of i (sh_sessions sh)
        | None \<Rightarrow> channel_of i (sh_sessions sh))
   \<and> n \<le> length (filter (\<lambda>(j, s). fanout_target excluding b j s) snapshot)"
  using assms(2-)
proof (induction snapshot arbitrary: k sh sh' n)
  case (Cons e es)
  obtain j s where e: "e = (j, s)" by (cases e)
  show ?case
  proof (cases "fanout_target excluding b j s")
    case False
    have none: "map_of es j = None" using Cons.prems(1) by (simp add: e map_of_eq_None_iff)
    have "distinct (map fst es)" "fanout_loop env intf excluding b revision k es sh = (sh', n)"
      using Cons.prems False by (simp_all add: e)
    from Cons.IH [OF this(1) Cons.prems(2) this(2)] none False show ?thesis
      by (cases "i = j") (simp_all add: e)
  next
    case True
    let ?push = "fanout_push (fe_uuid env) b revision j"
    obtain ss ok where d: "deliver env j ?push (sh_sessions (intf k sh)) = (ss, ok)"
      by (cases "deliver env j ?push (sh_sessions (intf k sh))")
    obtain m where rest: "fanout_loop env intf excluding b revision (Suc k) es ((intf k sh)\<lparr>sh_sessions := ss\<rparr>) = (sh', m)"
      and n: "n = (if ok then m + 1 else m)"
      using Cons.prems(3) True d by (auto simp: e Let_def split: prod.splits)
    have none: "map_of es j = None" and dist: "distinct (map fst es)"
      using Cons.prems(1) by (simp_all add: e map_of_eq_None_iff)
    from Cons.IH [OF dist _ rest] channel_of_deliver [OF d, of i] calm [OF Cons.prems(2), of sh] none True n
    show ?thesis
      by (cases "i = j"; cases ok; cases "channel_of i (sh_sessions sh)") (auto simp: e split: option.splits)
  qed
qed simp

lemma count_loop:
  assumes quiet: "\<And>k sh j. 0 < k \<Longrightarrow> channel_of j (sh_sessions (intf k sh)) = channel_of j (sh_sessions sh)"
    and "distinct (map fst snapshot)" and "0 < k"
    and "\<And>j s. (j, s) \<in> set snapshot \<Longrightarrow> channel_of j (sh_sessions sh) = Some (ss_queue s, ss_closed s)"
    and "fanout_loop env intf excluding b revision k snapshot sh = (sh', n)"
  shows "n = length (filter (\<lambda>(j, s). fanout_target excluding b j s \<and> \<not> ss_closed s) snapshot)"
  using assms(2-)
proof (induction snapshot arbitrary: k sh n)
  case (Cons e es)
  obtain j s where e: "e = (j, s)" by (cases e)
  have fresh: "x \<noteq> j" if "(x, t) \<in> set es" for x t using Cons.prems(1) that by (force simp: e)
  show ?case
  proof (cases "fanout_target excluding b j s")
    case False
    with Cons.prems have "fanout_loop env intf excluding b revision k es sh = (sh', n)" by (simp add: e)
    from Cons.IH [OF _ Cons.prems(2) _ this] Cons.prems(1,3) False show ?thesis by (simp add: e)
  next
    case True
    let ?push = "fanout_push (fe_uuid env) b revision j"
    obtain ss ok where d: "deliver env j ?push (sh_sessions (intf k sh)) = (ss, ok)"
      by (cases "deliver env j ?push (sh_sessions (intf k sh))")
    obtain m where rest: "fanout_loop env intf excluding b revision (Suc k) es ((intf k sh)\<lparr>sh_sessions := ss\<rparr>) = (sh', m)"
      and n: "n = (if ok then m + 1 else m)"
      using Cons.prems(4) True d by (auto simp: e Let_def split: prod.splits)
    have "channel_of j (sh_sessions (intf k sh)) = Some (ss_queue s, ss_closed s)"
      using quiet [OF Cons.prems(2)] Cons.prems(3) by (simp add: e)
    with d have ok: "ok \<longleftrightarrow> \<not> ss_closed s"
      by (auto simp: deliver_def channel_of_def send_def split: if_splits)
    have "channel_of x ss = Some (ss_queue t, ss_closed t)" if "(x, t) \<in> set es" for x t
      using channel_of_deliver [OF d, of x] fresh [OF that] quiet [OF Cons.prems(2)] Cons.prems(3) that by (simp add: e)
    from Cons.IH [OF _ _ _ rest] this Cons.prems(1) n ok True show ?thesis by (simp add: e)
  qed
qed simp

text \<open>C9: exact fan-out: once the binding is read and the sessions are listed, the channel of a listed
  session gets the revision, once and at its end, exactly when the session is not the source, its
  last hello was bound to this very context version and names the binding's project, channel and,
  where the binding has them, place and universe, and it still listens; every other listed session's
  channel is left as it was, whatever the other tasks do to the binding and to the other sessions
  while the fan-out waits. The count returned is at most the number of sessions bound to the context, and while no
  channel is touched by another task it is the number of sessions that get the revision.\<close>

theorem fanout_exact:
  assumes "sh_binding sh = Some b"
    and "fanout_accepted_revision env intf excluding revision sh = (sh', r)"
    and "map_of (sh_sessions (intf 0 sh)) i = Some s" and "distinct (map fst (sh_sessions (intf 0 sh)))"
    and calm: "\<And>k sh. 0 < k \<Longrightarrow> channel_of i (sh_sessions (intf k sh)) = channel_of i (sh_sessions sh)"
  shows "channel_of i (sh_sessions sh')
      = Some (if i \<noteq> excluding \<and> ss_bound_context_version s = Some (sb_context_version b)
                 \<and> (\<exists>hello. ss_hello s = Some hello \<and> hc_project_id hello = Some (sb_project_id b)
                      \<and> hc_channel hello = Some (sb_channel b)
                      \<and> sb_place_id b \<in> {None, hc_place_id hello} \<and> sb_universe_id b \<in> {None, hc_universe_id hello})
                 \<and> \<not> ss_closed s
              then ss_queue s @ [IncomingAndApply (''op_'' @ fe_uuid env i)
                     (''apply:'' @ ir_revision_id revision @ '':'' @ i) (sb_context_version b) revision]
              else ss_queue s, ss_closed s)
    \<and> (\<exists>n. r = Inr n \<and> n \<le> length (filter (\<lambda>(j, t). j \<noteq> excluding
           \<and> ss_bound_context_version t = Some (sb_context_version b)) (sh_sessions (intf 0 sh)))
       \<and> ((\<forall>k sh j. 0 < k \<longrightarrow> channel_of j (sh_sessions (intf k sh)) = channel_of j (sh_sessions sh)) \<longrightarrow>
             n = length (filter (\<lambda>(j, t). fanout_target excluding b j t \<and> \<not> ss_closed t) (sh_sessions (intf 0 sh)))))"
proof
  let ?sh = "intf 0 sh"
  obtain n where loop: "fanout_loop env intf excluding b revision 1 (sh_sessions ?sh) ?sh = (sh', n)" and r: "r = Inr n"
    using assms(1,2) by (auto simp: fanout_accepted_revision_def Let_def split: prod.splits)
  note sent = channel_of_loop [OF calm assms(4) zero_less_one loop]
  have "channel_of i (sh_sessions ?sh) = Some (ss_queue s, ss_closed s)" by (simp add: channel_of_def assms(3))
  moreover have "fanout_target excluding b i s \<longleftrightarrow> i \<noteq> excluding
      \<and> ss_bound_context_version s = Some (sb_context_version b)
      \<and> (\<exists>hello. ss_hello s = Some hello \<and> hc_project_id hello = Some (sb_project_id b)
           \<and> hc_channel hello = Some (sb_channel b)
           \<and> sb_place_id b \<in> {None, hc_place_id hello} \<and> sb_universe_id b \<in> {None, hc_universe_id hello})"
    by (cases "ss_hello s") (simp_all add: fanout_target_def hello_matches_def hello_matches_iff)
  ultimately show "channel_of i (sh_sessions sh')
      = Some (if i \<noteq> excluding \<and> ss_bound_context_version s = Some (sb_context_version b)
                 \<and> (\<exists>hello. ss_hello s = Some hello \<and> hc_project_id hello = Some (sb_project_id b)
                      \<and> hc_channel hello = Some (sb_channel b)
                      \<and> sb_place_id b \<in> {None, hc_place_id hello} \<and> sb_universe_id b \<in> {None, hc_universe_id hello})
                 \<and> \<not> ss_closed s
              then ss_queue s @ [IncomingAndApply (''op_'' @ fe_uuid env i)
                     (''apply:'' @ ir_revision_id revision @ '':'' @ i) (sb_context_version b) revision]
              else ss_queue s, ss_closed s)"
    using sent assms(3) by (cases "fanout_target excluding b i s"; cases "ss_closed s") (simp_all add: fanout_push_def)
  have "length (filter (\<lambda>(j, t). fanout_target excluding b j t) ss)
      \<le> length (filter (\<lambda>(j, t). j \<noteq> excluding \<and> ss_bound_context_version t = Some (sb_context_version b)) ss)" for ss
    by (induction ss) (auto simp: fanout_target_def)
  then have "n \<le> length (filter (\<lambda>(j, t). j \<noteq> excluding
      \<and> ss_bound_context_version t = Some (sb_context_version b)) (sh_sessions ?sh))"
    using sent by (blast intro: order_trans)
  moreover have "n = length (filter (\<lambda>(j, t). fanout_target excluding b j t \<and> \<not> ss_closed t) (sh_sessions ?sh))"
    if "\<forall>k sh j. 0 < k \<longrightarrow> channel_of j (sh_sessions (intf k sh)) = channel_of j (sh_sessions sh)"
    using that assms(4) by (intro count_loop [OF _ _ zero_less_one _ loop]) (auto simp: channel_of_def)
  ultimately show "\<exists>n. r = Inr n \<and> n \<le> length (filter (\<lambda>(j, t). j \<noteq> excluding
           \<and> ss_bound_context_version t = Some (sb_context_version b)) (sh_sessions (intf 0 sh)))
       \<and> ((\<forall>k sh j. 0 < k \<longrightarrow> channel_of j (sh_sessions (intf k sh)) = channel_of j (sh_sessions sh)) \<longrightarrow>
             n = length (filter (\<lambda>(j, t). fanout_target excluding b j t \<and> \<not> ss_closed t) (sh_sessions (intf 0 sh))))"
    using r by blast
qed

text \<open>a change of the binding unbinds everybody: until a session says hello again, neither a
  fan-out nor a direct apply request puts anything in its queue, whatever the new binding.\<close>

lemma fanout_loop_unbound:
  assumes "\<forall>e \<in> set snapshot. ss_bound_context_version (snd e) = None"
  shows "fanout_loop env intf excluding b revision k snapshot sh = (sh, 0)"
  using assms by (induction snapshot) (auto simp: fanout_target_def)

theorem set_binding_stops_pushes:
  assumes "set_binding binding sessions = (binding', sessions')"
    and "sh_sessions sh = sessions'" and "intf 0 sh = sh"
  shows "fst (handle_fanout c limits env intf excluding revision sh) = sh
    \<and> (\<exists>e. request_apply c limits b' i cmd key revision' sessions' = (sessions', Inl e))"
proof
  have unbound: "(j, s) \<in> set sessions' \<Longrightarrow> ss_bound_context_version s = None" for j s
    using assms(1) by (auto simp: set_binding_def try_send_def)
  then have "fanout_loop env intf excluding b revision k sessions' sh = (sh, 0)" for b k
    by (intro fanout_loop_unbound) auto
  then show "fst (handle_fanout c limits env intf excluding revision sh) = sh"
    using assms(2,3)
    by (simp add: handle_fanout_def fanout_accepted_revision_def Let_def split: sum.split option.split)
  have "ss_bound_context_version s \<noteq> Some v" if "map_of sessions' i = Some s" for s v
    using unbound map_of_SomeD [OF that] by simp
  then show "\<exists>e. request_apply c limits b' i cmd key revision' sessions' = (sessions', Inl e)"
    by (auto simp: request_apply_def bindE_def ok_or_def guardE_def
        split: sum.split option.split if_split)
qed

definition wit_hello :: hello_context where
  "wit_hello = \<lparr>hc_universe_id = None, hc_place_id = None, hc_project_id = Some ''prj'',
     hc_channel = Some ''development'', hc_studio_user_id = None, hc_studio_version = None,
     hc_capabilities = {''base64-chunks'', ''http-download-v1''}\<rparr>"

definition wit_sessions :: sessions where
  "wit_sessions = [(''ses_1'', \<lparr>ss_plugin_installation_id = ''plg_0001'', ss_hello = Some wit_hello,
     ss_bound_context_version = Some 7, ss_queue = [], ss_closed = False\<rparr>)]"

definition wit_cell :: incoming_cell where
  "wit_cell = \<lparr>ic_cell_id = ''cell_0001'', ic_parent_path = ''/Workspace'',
     ic_content_hash = blake3_label (blake3_hash toy_crypto) [1, 2], ic_size_bytes = 2,
     ic_data = Some (pad_enc [1, 2]), ic_download = None\<rparr>"

definition wit_revision :: "string list \<Rightarrow> incoming_cell list \<Rightarrow> incoming_revision" where
  "wit_revision ids cells = \<lparr>ir_revision_id = ''rev_1'', ir_state_root = ''root'', ir_cell_ids = ids,
     ir_author_display = ''A'', ir_summary = ''S'', ir_cells = cells\<rparr>"

text \<open>Two sessions bound to the context: the source, and one that receives its revision.\<close>

definition wit_fanout_env :: fanout_env where
  "wit_fanout_env = \<lparr>fe_uuid = (\<lambda>i. i), fe_lingers = (\<lambda>_. False)\<rparr>"

definition wit_fanout_shared :: fanout_shared where
  "wit_fanout_shared = \<lparr>sh_binding = Some wit_binding,
     sh_sessions = wit_sessions @ [(''ses_2'', snd (hd wit_sessions))]\<rparr>"

theorem fanout_exact_witness:
  "channel_of ''ses_1'' (sh_sessions (fst (fanout_accepted_revision wit_fanout_env (\<lambda>_ sh. sh) ''ses_2''
       (wit_revision [] []) wit_fanout_shared)))
   = Some ([IncomingAndApply ''op_ses_1'' ''apply:rev_1:ses_1'' 7 (wit_revision [] [])], False)
   \<and> snd (fanout_accepted_revision wit_fanout_env (\<lambda>_ sh. sh) ''ses_2'' (wit_revision [] []) wit_fanout_shared) = Inr 1"
proof -
  obtain sh' r where run: "fanout_accepted_revision wit_fanout_env (\<lambda>_ sh. sh) ''ses_2'' (wit_revision [] [])
      wit_fanout_shared = (sh', r)"
    by (cases "fanout_accepted_revision wit_fanout_env (\<lambda>_ sh. sh) ''ses_2'' (wit_revision [] []) wit_fanout_shared")
  have "fanout_target ''ses_2'' wit_binding ''ses_1'' (snd (hd wit_sessions))"
    by (simp add: fanout_target_def wit_sessions_def wit_binding_def hello_matches_def wit_hello_def hello_matches_iff)
  with fanout_exact [OF _ run, of wit_binding "''ses_1''" "snd (hd wit_sessions)"]
  have "channel_of ''ses_1'' (sh_sessions sh')
      = Some ([IncomingAndApply ''op_ses_1'' ''apply:rev_1:ses_1'' 7 (wit_revision [] [])], False) \<and> r = Inr 1"
    by (simp add: wit_fanout_shared_def wit_sessions_def wit_fanout_env_def wit_revision_def wit_hello_def wit_binding_def
        fanout_target_def [of "''ses_2''" _ "''ses_2''"])
  then show ?thesis by (simp only: run fst_conv snd_conv)
qed

text \<open>Before the change the witness session is a target; afterwards it gets nothing.\<close>

theorem set_binding_stops_pushes_witness:
  "fanout_target ''ses_2'' wit_binding ''ses_1'' (snd (hd wit_sessions))
    \<and> (let sh = \<lparr>sh_binding = Some wit_binding, sh_sessions = snd (set_binding (Some wit_binding) wit_sessions)\<rparr>
       in fst (handle_fanout toy_crypto default_limits wit_fanout_env (\<lambda>_ sh. sh) ''ses_2''
            (wit_revision [''cell_0001''] [wit_cell]) sh) = sh)"
  using set_binding_stops_pushes [OF prod.collapse [symmetric, of "set_binding (Some wit_binding) wit_sessions"], of
      "\<lparr>sh_binding = Some wit_binding, sh_sessions = snd (set_binding (Some wit_binding) wit_sessions)\<rparr>" "\<lambda>_ sh. sh"]
  by (simp add: fanout_target_def wit_sessions_def wit_binding_def hello_matches_def wit_hello_def
      hello_matches_iff set_binding_def Let_def)

text \<open>The remote entry's comparison of the context does not hold the binding: when the desktop switches
  it before the fan-out reads it, the revision goes to the sessions of the new context, although it
  was fetched for the old one.\<close>

lemma remote_fanout_outrun_by_switch:
  assumes "sh_binding sh = Some old" "sh_binding (intf 0 sh) = Some new"
    and "validate_incoming_revision c limits revision = Inr ()"
  shows "fanout_remote_accepted_revision c limits env intf (sb_project_id old) (sb_channel old)
           (sb_context_version old) (Some i) revision sh
       = (let sh1 = intf (Suc 0) (intf 0 sh)
          in case fanout_loop env (\<lambda>k. intf (Suc k)) i new revision 1 (sh_sessions sh1) sh1 of
               (sh', sent) \<Rightarrow> (sh', Inr sent))"
  using assms by (simp add: fanout_remote_accepted_revision_def handle_fanout_def fanout_accepted_revision_def)

section \<open>What validation lets through\<close>

lemma decode_cell_ok:
  "decode_cell c cell data = Inr d \<longleftrightarrow> b64_decode c data = Some d \<and> length d = ic_size_bytes cell
     \<and> blake3_label (blake3_hash c) d = ic_content_hash cell"
  by (auto simp: decode_cell_def result_simps split: if_splits)

lemma validate_incoming_cell_ok:
  "validate_incoming_cell c limits cell = Inr u \<Longrightarrow>
     \<exists>data d. ic_data cell = Some data \<and> decode_cell c cell data = Inr d \<and> ic_download cell = None
       \<and> validate_scoped_id (ic_cell_id cell) ''cell_'' = Inr () \<and> length d \<le> max_transfer_bytes limits"
  by (auto simp: validate_incoming_cell_def result_simps decode_cell_ok)

text \<open>the comparison of declared and carried cells counts distinct ids on one side only, so a
  revision that declares \<open>a\<close> and \<open>b\<close> and carries \<open>a\<close> twice is accepted, \<open>b\<close> never being delivered.\<close>

theorem duplicate_cells_accepted:
  assumes "validate_incoming_cell c limits cell = Inr ()" and "b \<noteq> ic_cell_id cell"
    and "ir_cell_ids revision = [ic_cell_id cell, b]" and "ir_cells revision = [cell, cell]"
  shows "validate_incoming_revision c limits revision = Inr ()
    \<and> b \<in> set (ir_cell_ids revision) \<and> b \<notin> ic_cell_id ` set (ir_cells revision)"
  using assms by (auto simp: validate_incoming_revision_def Let_def)

lemma wit_cell_valid: "validate_incoming_cell toy_crypto default_limits wit_cell = Inr ()"
  using toy_valid [of "[1, 2]"] toy_decode [of "[1, 2]"]
  by (simp add: validate_incoming_cell_def wit_cell_def decode_cell_def result_simps validate_scoped_id_iff
      scoped_byte_def ascii_class_defs default_limits_def pad_enc_def div_ceil_def saturating_mul_def)

theorem duplicate_cells_accepted_witness:
  "validate_incoming_revision toy_crypto default_limits
     (wit_revision [''cell_0001'', ''cell_0002''] [wit_cell, wit_cell]) = Inr ()"
  using duplicate_cells_accepted [OF wit_cell_valid, of "''cell_0002''"
      "wit_revision [''cell_0001'', ''cell_0002''] [wit_cell, wit_cell]"]
  by (simp add: wit_cell_def wit_revision_def)

section \<open>Tickets\<close>

datatype download_op =
    Prepare prepare_env string "hello_context option" incoming_revision
  | Download nat "bridge_error + unit" string "string option" "string option"
  | EndSession string

fun download_step :: "crypto \<Rightarrow> bridge_limits \<Rightarrow> download_op \<Rightarrow> downloads \<Rightarrow> downloads" where
  "download_step c limits (Prepare env sid hello revision) m =
     fst (prepare_revision_for_session c env limits sid hello revision m)"
| "download_step c limits (Download now host i sid auth) m = fst (download_handler c now host i sid auth m)"
| "download_step c limits (EndSession sid) m = end_session_downloads sid m"

text \<open>Every stored ticket carries bytes of the hash it announces and one to three uses.\<close>

definition ticket_ok :: "crypto \<Rightarrow> download_ticket \<Rightarrow> bool" where
  "ticket_ok c t \<longleftrightarrow> blake3_label (blake3_hash c) (tk_bytes t) = tk_content_hash t
     \<and> 0 < tk_remaining_uses t \<and> tk_remaining_uses t \<le> 3"

definition downloads_ok :: "crypto \<Rightarrow> downloads \<Rightarrow> bool" where
  "downloads_ok c m \<longleftrightarrow> (\<forall>i t. m i = Some t \<longrightarrow> ticket_ok c t)"

lemma downloads_ok_update: "downloads_ok c m \<Longrightarrow> ticket_ok c t \<Longrightarrow> downloads_ok c (m(i \<mapsto> t))"
  by (simp add: downloads_ok_def)

lemma downloads_ok_sub: "downloads_ok c m \<Longrightarrow> m' \<subseteq>\<^sub>m m \<Longrightarrow> downloads_ok c m'"
  unfolding downloads_ok_def map_le_def dom_def by force

lemma retain_downloads_sub: "retain_downloads now m \<subseteq>\<^sub>m m"
  by (auto simp: map_le_def retain_downloads_def split: option.splits if_splits)

lemma end_session_downloads_sub: "end_session_downloads sid m \<subseteq>\<^sub>m m"
  by (auto simp: map_le_def end_session_downloads_def split: option.splits if_splits)

lemma prepare_cells_cases:
  fixes c env sid k cell cells m
  obtains (bad) e where "prepare_cells c env sid k (cell # cells) m = (m, Inl e)"
  | (good) data d url t where "ic_data cell = Some data" "decode_cell c cell data = Inr d"
      "pv_url env (''dwn_'' @ pv_uuid env k) = Inr url"
      "t = \<lparr>tk_session_id = sid, tk_token_digest = digest_secret (blake3_hash c) (pv_token env k),
         tk_bytes = d, tk_content_hash = ic_content_hash cell, tk_expires_at = pv_now env k + 120,
         tk_remaining_uses = 3\<rparr>"
      "prepare_cells c env sid k (cell # cells) m =
        (case prepare_cells c env sid (Suc k) cells (m(''dwn_'' @ pv_uuid env k \<mapsto> t)) of
           (m', Inl e) \<Rightarrow> (m', Inl e)
         | (m', Inr cells') \<Rightarrow> (m', Inr (cell\<lparr>ic_data := None,
             ic_download := Some \<lparr>dl_url = url, dl_token = pv_token env k,
               dl_expires_at = pv_rfc3339 env (pv_now env k + 120)\<rparr>\<rparr> # cells')))"
proof (cases "ic_data cell")
  case None
  then show thesis by (intro bad) simp
next
  case data: (Some data)
  show thesis
  proof (cases "decode_cell c cell data")
    case (Inl e)
    then show thesis using data by (intro bad) simp
  next
    case d: (Inr d)
    show thesis
      by (cases "pv_url env (''dwn_'' @ pv_uuid env k)")
        (use data d in \<open>(intro bad, simp), (rule good, simp_all add: Let_def)\<close>)
  qed
qed

lemma prepare_cells_ok:
  "downloads_ok c m \<Longrightarrow> downloads_ok c (fst (prepare_cells c env sid k cells m))"
proof (induction cells arbitrary: k m)
  case Nil
  then show ?case by simp
next
  case (Cons cell cells)
  show ?case
  proof (cases rule: prepare_cells_cases [of c env sid k cell cells m])
    case bad
    then show ?thesis using Cons.prems by simp
  next
    case (good data d url t)
    have "ticket_ok c t" using good(2,4) by (simp add: ticket_ok_def decode_cell_ok)
    then have "downloads_ok c (fst (prepare_cells c env sid (Suc k) cells
        (m(''dwn_'' @ pv_uuid env k \<mapsto> t))))"
      by (intro Cons.IH downloads_ok_update Cons.prems)
    then show ?thesis by (auto simp: good(5) simp del: prepare_cells.simps split: prod.splits sum.splits)
  qed
qed

lemma prepare_revision_ok:
  "downloads_ok c m \<Longrightarrow> downloads_ok c (fst (prepare_revision_for_session c env limits sid hello revision m))"
  using prepare_cells_ok [of c m env sid 0 "ir_cells revision"]
  by (auto simp: prepare_revision_for_session_def Let_def split: prod.splits sum.splits)

lemma download_handler_cases:
  fixes c now host i sid auth m
  obtains (refused) e where "download_handler c now host i sid auth m = (m, Inl e)"
  | (denied) e where "download_handler c now host i sid auth m = (retain_downloads now m, Inl e)"
  | (served) s token t where "sid = Some s" "auth = Some (''NeuManTransfer '' @ token)" "m i = Some t"
      "now < tk_expires_at t" "0 < tk_remaining_uses t" "tk_session_id t = s"
      "tk_token_digest t = digest_secret (blake3_hash c) token"
      "download_handler c now host i sid auth m
        = ((retain_downloads now m)(i := if tk_remaining_uses t - 1 = 0 then None
             else Some (t\<lparr>tk_remaining_uses := tk_remaining_uses t - 1\<rparr>)),
           Inr (tk_bytes t, tk_content_hash t, tk_expires_at t))"
proof (cases "bindE host (\<lambda>_. bindE (validate_scoped_id i ''dwn_'') (\<lambda>_. bindE (ok_or sid AuthInvalid)
    (\<lambda>s. bindE (ok_or (Option.bind auth (strip_prefix ''NeuManTransfer '')) AuthInvalid)
      (\<lambda>token. Inr (s, token)))))")
  case (Inl e)
  then show thesis by (intro refused) (simp add: download_handler_def)
next
  case (Inr p)
  obtain s token where p: "p = (s, token)" by (cases p)
  have h: "sid = Some s" "auth = Some (''NeuManTransfer '' @ token)"
    using Inr p by (auto simp: result_simps bind_eq_Some_conv strip_prefix_eq_Some)
  show thesis
  proof (cases "retain_downloads now m i")
    case None
    then show thesis using Inr p by (intro denied) (simp add: download_handler_def Let_def)
  next
    case (Some t)
    then have t: "m i = Some t" "now < tk_expires_at t" "0 < tk_remaining_uses t"
      by (auto simp: retain_downloads_def split: option.splits if_splits)
    show thesis
    proof (cases "tk_session_id t = s \<and> tk_token_digest t = digest_secret (blake3_hash c) token")
      case True
      then show thesis using Some t Inr p h
        by (intro served [of s token t]) (simp_all add: download_handler_def Let_def)
    next
      case False
      then show thesis using Some Inr p
        by (intro denied [of AuthInvalid]) (auto simp: download_handler_def Let_def)
    qed
  qed
qed

lemma download_step_ok:
  assumes "downloads_ok c m"
  shows "downloads_ok c (download_step c limits op m)"
proof (cases op)
  case (Prepare env sid hello revision)
  then show ?thesis using assms by (simp add: prepare_revision_ok)
next
  case (EndSession sid)
  then show ?thesis using downloads_ok_sub [OF assms end_session_downloads_sub] by simp
next
  case (Download now host i sid auth)
  note retained = downloads_ok_sub [OF assms retain_downloads_sub, of now]
  show ?thesis
  proof (cases rule: download_handler_cases [of c now host i sid auth m])
    case (served s token t)
    have "ticket_ok c t" using assms served(3) by (simp add: downloads_ok_def)
    then show ?thesis
      using retained by (auto simp: Download served(8) downloads_ok_def ticket_ok_def)
  qed (use assms retained in \<open>simp_all add: Download\<close>)
qed

interpretation downloads: invariant_steps "download_step c limits" "downloads_ok c"
  for c limits
  by unfold_locales (rule download_step_ok)

text \<open>A request that is served costs a use of its ticket.\<close>

fun serves :: "crypto \<Rightarrow> string \<Rightarrow> download_op \<Rightarrow> downloads \<Rightarrow> nat" where
  "serves c i (Download now host j sid auth) m =
     (if j = i \<and> is_ok (snd (download_handler c now host j sid auth m)) then 1 else 0)"
| "serves c i _ m = 0"

fun creates_tickets :: "download_op \<Rightarrow> bool" where
  "creates_tickets (Prepare _ _ _ _) = True"
| "creates_tickets _ = False"

definition uses_of :: "string \<Rightarrow> downloads \<Rightarrow> nat" where
  "uses_of i m = (case m i of None \<Rightarrow> 0 | Some t \<Rightarrow> tk_remaining_uses t)"

lemma uses_of_sub: "m' \<subseteq>\<^sub>m m \<Longrightarrow> uses_of i m' \<le> uses_of i m"
  by (auto simp: uses_of_def map_le_def dom_def split: option.split)

lemma serves_step:
  assumes "\<not> creates_tickets op"
  shows "serves c i op m + uses_of i (download_step c limits op m) \<le> uses_of i m"
proof (cases op)
  case (Prepare env sid hello revision)
  then show ?thesis using assms by simp
next
  case (EndSession sid)
  then show ?thesis by (simp add: uses_of_sub end_session_downloads_sub)
next
  case (Download now host j sid auth)
  note r = uses_of_sub [OF retain_downloads_sub, of i now m]
  show ?thesis
  proof (cases rule: download_handler_cases [of c now host j sid auth m])
    case (served s token t)
    show ?thesis
    proof (cases "j = i")
      case True
      then have "i = j" by simp
      then show ?thesis using served(3,5) by (simp add: Download served(8) uses_of_def)
    next
      case False
      then show ?thesis using r by (simp add: Download served(8) uses_of_def)
    qed
  qed (use r in \<open>simp_all add: Download\<close>)
qed

interpretation tickets: budgeted_steps "download_step c limits" "\<lambda>op. \<not> creates_tickets op"
    "serves c i" "uses_of i"
  for c limits i
  by unfold_locales (rule serves_step)

text \<open>a ticket is good for three downloads: from any state the bridge can reach, as long as no
  revision is prepared, at most three requests on a ticket are served.\<close>

theorem ticket_serves_three:
  assumes "list_all (\<lambda>op. \<not> creates_tickets op) ops"
  shows "total_cost (download_step c limits) (serves c i) ops
      (fold (download_step c limits) before Map.empty) \<le> 3"
proof -
  let ?m = "fold (download_step c limits) before Map.empty"
  have "downloads_ok c ?m" by (rule downloads.run_inv) (simp add: downloads_ok_def)
  then have "uses_of i ?m \<le> 3"
    by (auto simp: uses_of_def downloads_ok_def ticket_ok_def split: option.split)
  then show ?thesis using tickets.total_le_budget [OF assms, of c limits i ?m] by simp
qed

theorem ticket_serves_three_witness:
  "total_cost (download_step toy_crypto default_limits) (serves toy_crypto ''dwn_0001'')
      [Download 5 (Inr ()) ''dwn_0001'' (Some ''ses_1'') (Some ''NeuManTransfer t'')]
      (fold (download_step toy_crypto default_limits) [] Map.empty) \<le> 3"
  by (rule ticket_serves_three) simp

text \<open>C28: a download is served only to the session the ticket was issued to, presenting its token,
  before it expires; and the bytes served have the announced content hash.\<close>

theorem download_authorized:
  assumes "download_handler c now host i sid auth (fold (download_step c limits) ops Map.empty)
    = (m', Inr (bytes, hash, expires))"
  shows "\<exists>t token. fold (download_step c limits) ops Map.empty i = Some t \<and> sid = Some (tk_session_id t)
    \<and> auth = Some (''NeuManTransfer '' @ token)
    \<and> tk_token_digest t = digest_secret (blake3_hash c) token \<and> now < tk_expires_at t
    \<and> bytes = tk_bytes t \<and> blake3_label (blake3_hash c) bytes = hash"
proof -
  let ?m = "fold (download_step c limits) ops Map.empty"
  have ok: "downloads_ok c ?m" by (rule downloads.run_inv) (simp add: downloads_ok_def)
  show ?thesis
  proof (cases rule: download_handler_cases [of c now host i sid auth ?m])
    case (served s token t)
    then show ?thesis using assms ok by (auto simp: downloads_ok_def ticket_ok_def)
  qed (use assms in simp_all)
qed

section \<open>A prepared revision can be fetched\<close>

definition ticket_of :: "crypto \<Rightarrow> prepare_env \<Rightarrow> string \<Rightarrow> nat \<Rightarrow> incoming_cell \<Rightarrow> u8 list \<Rightarrow> download_ticket" where
  "ticket_of c env sid k cell d = \<lparr>tk_session_id = sid,
     tk_token_digest = digest_secret (blake3_hash c) (pv_token env k), tk_bytes = d,
     tk_content_hash = ic_content_hash cell, tk_expires_at = pv_now env k + 120, tk_remaining_uses = 3\<rparr>"

lemma prepare_cells_frame:
  assumes "prepare_cells c env sid k cells m = (m', r)" and "\<And>n. k \<le> n \<Longrightarrow> i \<noteq> ''dwn_'' @ pv_uuid env n"
  shows "m' i = m i"
  using assms
proof (induction cells arbitrary: k m m' r)
  case Nil
  then show ?case by simp
next
  case (Cons cell cells)
  show ?case
  proof (cases rule: prepare_cells_cases [of c env sid k cell cells m])
    case bad
    then show ?thesis using Cons.prems(1) by simp
  next
    case (good data d url t)
    obtain m1 r1 where rest: "prepare_cells c env sid (Suc k) cells (m(''dwn_'' @ pv_uuid env k \<mapsto> t)) = (m1, r1)"
      by (cases "prepare_cells c env sid (Suc k) cells (m(''dwn_'' @ pv_uuid env k \<mapsto> t))")
    have "m' = m1" using Cons.prems(1) good(5) rest by (cases r1) (simp_all del: prepare_cells.simps)
    moreover have "m1 i = (m(''dwn_'' @ pv_uuid env k \<mapsto> t)) i"
      using Cons.IH [OF rest] Cons.prems(2) by simp
    ultimately show ?thesis using Cons.prems(2) [of k] by simp
  qed
qed

lemma prepare_cells_tickets:
  assumes "prepare_cells c env sid k cells m = (m', Inr cells')" and "inj (pv_uuid env)" and "j < length cells"
  shows "\<exists>dl data d. ic_download (cells' ! j) = Some dl \<and> dl_token dl = pv_token env (k + j)
    \<and> ic_data (cells ! j) = Some data \<and> decode_cell c (cells ! j) data = Inr d
    \<and> m' (''dwn_'' @ pv_uuid env (k + j)) = Some (ticket_of c env sid (k + j) (cells ! j) d)"
  using assms(1,3)
proof (induction cells arbitrary: k m m' cells' j)
  case Nil
  then show ?case by simp
next
  case (Cons cell cells)
  show ?case
  proof (cases rule: prepare_cells_cases [of c env sid k cell cells m])
    case bad
    then show ?thesis using Cons.prems(1) by simp
  next
    case (good data d url t)
    let ?m = "m(''dwn_'' @ pv_uuid env k \<mapsto> t)"
    obtain m1 r1 where rest: "prepare_cells c env sid (Suc k) cells ?m = (m1, r1)"
      by (cases "prepare_cells c env sid (Suc k) cells ?m")
    obtain cs where cs: "r1 = Inr cs" "m' = m1"
      and hd: "cells' = cell\<lparr>ic_data := None, ic_download := Some \<lparr>dl_url = url, dl_token = pv_token env k,
        dl_expires_at = pv_rfc3339 env (pv_now env k + 120)\<rparr>\<rparr> # cs"
      using Cons.prems(1) good(5) rest by (cases r1) (auto simp del: prepare_cells.simps)
    show ?thesis
    proof (cases j)
      case 0
      have "m1 (''dwn_'' @ pv_uuid env k) = ?m (''dwn_'' @ pv_uuid env k)"
        by (rule prepare_cells_frame [OF rest]) (use assms(2) in \<open>auto dest: injD\<close>)
      then show ?thesis using 0 good(1,2,4) hd cs by (simp add: ticket_of_def)
    next
      case (Suc n)
      then show ?thesis using Cons.IH [OF rest [unfolded cs(1)], of n] Cons.prems(2) hd cs(2) by simp
    qed
  qed
qed

text \<open>large revisions arrive: when a revision is prepared for a session with tickets, that
  session fetches, with the token it was sent and before the expiry, exactly the bytes the cell
  carried.\<close>

theorem prepared_revision_fetchable:
  assumes "prepare_revision_for_session c env limits sid hello revision m = (m', Inr revision')"
    and "max_control_message_bytes limits - 4096 < pv_json_size env revision"
    and "inj (pv_uuid env)" and "j < length (ir_cells revision)"
    and "validate_scoped_id (''dwn_'' @ pv_uuid env j) ''dwn_'' = Inr ()" and "now < pv_now env j + 120"
  shows "\<exists>dl data bytes m''. ic_download (ir_cells revision' ! j) = Some dl
    \<and> ic_data (ir_cells revision ! j) = Some data \<and> b64_decode c data = Some bytes
    \<and> download_handler c now (Inr ()) (''dwn_'' @ pv_uuid env j) (Some sid)
         (Some (''NeuManTransfer '' @ dl_token dl)) m'
       = (m'', Inr (bytes, ic_content_hash (ir_cells revision ! j), pv_now env j + 120))"
proof -
  have prep: "prepare_cells c env sid 0 (ir_cells revision) m = (m', Inr (ir_cells revision'))"
    using assms(1,2)
    by (auto simp: prepare_revision_for_session_def Let_def split: if_splits prod.splits sum.splits)
  obtain dl data d where t: "ic_download (ir_cells revision' ! j) = Some dl" "dl_token dl = pv_token env j"
    "ic_data (ir_cells revision ! j) = Some data" "decode_cell c (ir_cells revision ! j) data = Inr d"
    "m' (''dwn_'' @ pv_uuid env j) = Some (ticket_of c env sid j (ir_cells revision ! j) d)"
    using prepare_cells_tickets [OF prep assms(3,4)] by auto
  have "retain_downloads now m' (''dwn_'' @ pv_uuid env j)
      = Some (ticket_of c env sid j (ir_cells revision ! j) d)"
    using t(5) assms(6) by (simp add: retain_downloads_def ticket_of_def)
  then show ?thesis
    using t(1-4) assms(5,6) by (simp add: download_handler_def Let_def ticket_of_def decode_cell_ok)
qed

definition wit_prepare_env :: prepare_env where
  "wit_prepare_env = \<lparr>pv_uuid = (\<lambda>k. ''aaaa'' @ replicate k CHR ''a''), pv_token = (\<lambda>k. replicate k CHR ''t''),
     pv_now = (\<lambda>k. 10), pv_rfc3339 = (\<lambda>_. ''T''), pv_url = (\<lambda>i. Inr i),
     pv_json_size = (\<lambda>r. if list_ex (\<lambda>cell. ic_data cell \<noteq> None) (ir_cells r) then 2000000 else 500)\<rparr>"

lemma wit_prepared:
  "\<exists>m' r. prepare_revision_for_session toy_crypto wit_prepare_env default_limits ''ses_1'' (Some wit_hello)
     (wit_revision [''cell_0001''] [wit_cell]) Map.empty = (m', Inr r)"
  using toy_decode [of "[1, 2]"]
  by (simp add: prepare_revision_for_session_def Let_def default_limits_def wit_prepare_env_def
      wit_revision_def wit_cell_def wit_hello_def decode_cell_def result_simps)

theorem prepared_revision_fetchable_witness:
  "\<exists>m' r dl m''. prepare_revision_for_session toy_crypto wit_prepare_env default_limits ''ses_1'' (Some wit_hello)
     (wit_revision [''cell_0001''] [wit_cell]) Map.empty = (m', Inr r)
   \<and> download_handler toy_crypto 20 (Inr ()) ''dwn_aaaa'' (Some ''ses_1'')
         (Some (''NeuManTransfer '' @ dl)) m' = (m'', Inr ([1, 2], ic_content_hash wit_cell, 130))"
proof -
  obtain m' r where p: "prepare_revision_for_session toy_crypto wit_prepare_env default_limits ''ses_1''
      (Some wit_hello) (wit_revision [''cell_0001''] [wit_cell]) Map.empty = (m', Inr r)"
    using wit_prepared by blast
  have "inj (pv_uuid wit_prepare_env)" by (rule injI) (simp add: wit_prepare_env_def)
  from prepared_revision_fetchable [OF p _ this, of 0 20] toy_decode [of "[1, 2]"]
  obtain dl :: incoming_download and m'' where "download_handler toy_crypto 20 (Inr ()) ''dwn_aaaa'' (Some ''ses_1'')
      (Some (''NeuManTransfer '' @ dl_token dl)) m' = (m'', Inr ([1, 2], ic_content_hash wit_cell, 130))"
    by (auto simp: wit_prepare_env_def default_limits_def wit_revision_def wit_cell_def
        validate_scoped_id_iff scoped_byte_def ascii_class_defs)
  then show ?thesis using p by blast
qed

theorem download_authorized_witness:
  "\<exists>m' out. download_handler toy_crypto 20 (Inr ()) ''dwn_aaaa'' (Some ''ses_1'')
      (Some ''NeuManTransfer '') (fold (download_step toy_crypto default_limits)
        [Prepare wit_prepare_env ''ses_1'' (Some wit_hello) (wit_revision [''cell_0001''] [wit_cell])]
        Map.empty) = (m', Inr out)
    \<and> blake3_label (blake3_hash toy_crypto) (fst out) = fst (snd out)"
proof -
  let ?m = "fold (download_step toy_crypto default_limits)
        [Prepare wit_prepare_env ''ses_1'' (Some wit_hello) (wit_revision [''cell_0001''] [wit_cell])] Map.empty"
  have t: "?m ''dwn_aaaa'' = Some (ticket_of toy_crypto wit_prepare_env ''ses_1'' 0 wit_cell [1, 2])"
    using toy_decode [of "[1, 2]"]
    by (simp add: prepare_revision_for_session_def Let_def default_limits_def wit_prepare_env_def
      wit_revision_def wit_cell_def wit_hello_def decode_cell_def result_simps ticket_of_def)
  have "retain_downloads 20 ?m ''dwn_aaaa''
      = Some (ticket_of toy_crypto wit_prepare_env ''ses_1'' 0 wit_cell [1, 2])"
    unfolding retain_downloads_def t by (simp add: ticket_of_def wit_prepare_env_def)
  moreover have "validate_scoped_id ''dwn_aaaa'' ''dwn_'' = Inr ()"
    by (simp add: validate_scoped_id_iff scoped_byte_def ascii_class_defs)
  ultimately obtain m' b h x where d: "download_handler toy_crypto 20 (Inr ()) ''dwn_aaaa'' (Some ''ses_1'')
      (Some ''NeuManTransfer '') ?m = (m', Inr (b, h, x))"
    unfolding download_handler_def Let_def by (simp add: ticket_of_def wit_prepare_env_def)
  from download_authorized [OF d] d show ?thesis by fastforce
qed

end
