(* ===== verification/BridgeSequence.thy ===== *)
theory BridgeSequence
  imports BridgeWire
begin

text \<open>
  The \<open>SequenceGuard\<close> of a bridge session: strictly increasing message numbers, with a window
  of the last 1024 message ids in which an identical retransmission is acknowledged and a
  changed one is a replay. The hash map \<open>seen\<close> is a map, the eviction queue a list.
\<close>

section \<open>The guard\<close>

record sequence_guard =
  expected :: nat
  seen :: "string \<rightharpoonup> u8 list"
  order :: "string list"

datatype sequence_decision = New | Duplicate

definition guard_new :: sequence_guard where
  "guard_new = \<lparr>expected = 1, seen = Map.empty, order = []\<rparr>"

definition guard_admit :: "sequence_guard \<Rightarrow> string \<Rightarrow> u8 list \<Rightarrow> sequence_guard" where
  "guard_admit g mid digest =
     (let g1 = g\<lparr>expected := expected g + 1, seen := (seen g)(mid \<mapsto> digest),
                 order := order g @ [mid]\<rparr>
      in if 1024 < length (order g1)
         then (case order g1 of
                 [] \<Rightarrow> g1
               | expired # rest \<Rightarrow> g1\<lparr>order := rest, seen := (seen g1)(expired := None)\<rparr>)
         else g1)"

definition guard_check ::
  "(u8 list \<Rightarrow> u8 list) \<Rightarrow> sequence_guard \<Rightarrow> envelope \<Rightarrow> u8 list
   \<Rightarrow> sequence_guard \<times> (bridge_error + sequence_decision)" where
  "guard_check blake3 g env raw =
     (if 128 < length (message_id env) \<or> message_id env = [] then (g, Inl ReplayDetected)
      else let digest = blake3 raw
           in case seen g (message_id env) of
                Some previous \<Rightarrow>
                  if previous = digest \<and> sequence env < expected g then (g, Inr Duplicate)
                  else (g, Inl ReplayDetected)
              | None \<Rightarrow>
                  if sequence env \<noteq> expected g
                  then (g, Inl (SequenceGap (expected g) (sequence env)))
                  else (guard_admit g (message_id env) digest, Inr New))"

section \<open>The window\<close>

text \<open>The queue and the map hold the same ids, at most 1024, each admitted at some number.\<close>

definition guard_ok :: "sequence_guard \<Rightarrow> bool" where
  "guard_ok g \<longleftrightarrow> distinct (order g) \<and> dom (seen g) = set (order g) \<and> length (order g) \<le> 1024
     \<and> length (order g) < expected g"

lemma guard_new_ok: "guard_ok guard_new"
  by (simp add: guard_ok_def guard_new_def)

lemma guard_admit_ok:
  assumes "guard_ok g" and "seen g mid = None"
  shows "guard_ok (guard_admit g mid digest)"
proof (cases "1024 < length (order g @ [mid])")
  case False
  have "mid \<notin> dom (seen g)" using assms(2) by (simp add: domIff)
  then have "mid \<notin> set (order g)" using assms(1) by (simp add: guard_ok_def)
  then show ?thesis using False assms by (auto simp: guard_ok_def guard_admit_def Let_def)
next
  case True
  then obtain x rest where o: "order g = x # rest" by (cases "order g") auto
  have "mid \<notin> dom (seen g)" using assms(2) by (simp add: domIff)
  then have "mid \<notin> set (order g)" using assms(1) by (simp add: guard_ok_def)
  then show ?thesis using True o assms by (auto simp: guard_ok_def guard_admit_def Let_def)
qed

lemma guard_admit_expected [simp]: "expected (guard_admit g mid d) = Suc (expected g)"
  by (simp add: guard_admit_def Let_def split: list.split)

lemma guard_check_cases:
  obtains (new) "snd (guard_check blake3 g env raw) = Inr New"
      "fst (guard_check blake3 g env raw) = guard_admit g (message_id env) (blake3 raw)"
      "sequence env = expected g" "seen g (message_id env) = None"
      "message_id env \<noteq> []" "length (message_id env) \<le> 128"
  | (duplicate) "snd (guard_check blake3 g env raw) = Inr Duplicate"
      "fst (guard_check blake3 g env raw) = g" "sequence env < expected g"
      "seen g (message_id env) = Some (blake3 raw)"
  | (refused) e where "snd (guard_check blake3 g env raw) = Inl e"
      "fst (guard_check blake3 g env raw) = g"
proof (cases "128 < length (message_id env) \<or> message_id env = []")
  case True
  then show thesis by (intro refused [of ReplayDetected]) (simp_all add: guard_check_def)
next
  case id: False
  show thesis
  proof (cases "seen g (message_id env)")
    case None
    show thesis
    proof (cases "sequence env = expected g")
      case True
      then show thesis using id None by (intro new) (simp_all add: guard_check_def)
    next
      case False
      then show thesis using id None by (intro refused) (simp_all add: guard_check_def)
    qed
  next
    case (Some previous)
    show thesis
    proof (cases "previous = blake3 raw \<and> sequence env < expected g")
      case True
      then show thesis using id Some by (intro duplicate) (simp_all add: guard_check_def)
    next
      case False
      then show thesis using id Some
        by (intro refused [of ReplayDetected]) (auto simp: guard_check_def)
    qed
  qed
qed

definition guard_step :: "(u8 list \<Rightarrow> u8 list) \<Rightarrow> envelope \<times> u8 list \<Rightarrow> sequence_guard \<Rightarrow> sequence_guard" where
  "guard_step blake3 msg g = fst (guard_check blake3 g (fst msg) (snd msg))"

lemma guard_step_ok: "guard_ok g \<Longrightarrow> guard_ok (guard_step blake3 msg g)"
  by (rule guard_check_cases [of blake3 g "fst msg" "snd msg"])
    (simp_all add: guard_step_def guard_admit_ok)

lemma guard_step_level: "expected g \<le> expected (guard_step blake3 msg g)"
  by (rule guard_check_cases [of blake3 g "fst msg" "snd msg"]) (simp_all add: guard_step_def)

interpretation guard: monotone_steps "guard_step blake3" guard_ok expected
  for blake3
  by unfold_locales (simp_all add: guard_step_ok guard_step_level)

section \<open>Runs\<close>

text \<open>The messages a run of the guard accepts as new, in order.\<close>

primrec guard_accepted ::
  "(u8 list \<Rightarrow> u8 list) \<Rightarrow> sequence_guard \<Rightarrow> (envelope \<times> u8 list) list \<Rightarrow> envelope list" where
  "guard_accepted blake3 g [] = []"
| "guard_accepted blake3 g (m # ms) =
     (if snd (guard_check blake3 g (fst m) (snd m)) = Inr New then [fst m] else [])
     @ guard_accepted blake3 (guard_step blake3 m g) ms"

lemma guard_accepted_sequences:
  "map sequence (guard_accepted blake3 g ms)
     = [expected g ..< expected (fold (guard_step blake3) ms g)]"
proof (induction ms arbitrary: g)
  case Nil
  then show ?case by simp
next
  case (Cons m ms)
  show ?case
  proof (rule guard_check_cases [of blake3 g "fst m" "snd m"])
    assume new: "snd (guard_check blake3 g (fst m) (snd m)) = Inr New"
      "fst (guard_check blake3 g (fst m) (snd m)) = guard_admit g (message_id (fst m)) (blake3 (snd m))"
      "sequence (fst m) = expected g"
    have "Suc (expected g) \<le> expected (fold (guard_step blake3) ms (guard_step blake3 m g))"
    proof -
      have "expected h \<le> expected (fold (guard_step blake3) ms h)" for h
      proof (induction ms arbitrary: h)
        case (Cons x xs)
        have "expected h \<le> expected (guard_step blake3 x h)" by (rule guard_step_level)
        with Cons [of "guard_step blake3 x h"] show ?case by simp
      qed simp
      from this [of "guard_step blake3 m g"] show ?thesis using new(2) by (simp add: guard_step_def)
    qed
    moreover have "guard_accepted blake3 g (m # ms)
        = fst m # guard_accepted blake3 (guard_step blake3 m g) ms" using new(1) by simp
    moreover have "expected (guard_step blake3 m g) = Suc (expected g)"
      using new(2) by (simp add: guard_step_def)
    ultimately show ?thesis
      using new(3) Cons.IH [of "guard_step blake3 m g"] by (simp add: upt_conv_Cons)
  qed (use Cons.IH [of "guard_step blake3 m g"] in \<open>simp_all add: guard_step_def\<close>)
qed

text \<open>C3: whatever a peer sends, in whatever order, the messages a session acts on carry exactly
  the numbers 1, 2, 3, ... without gap, repetition or reordering.\<close>

theorem guard_accepts_in_order:
  "\<exists>n. map sequence (guard_accepted blake3 guard_new ms) = [1 ..< Suc n]"
proof -
  have "1 \<le> expected (fold (guard_step blake3) ms guard_new)"
    using guard.run_level [OF guard_new_ok] by (simp add: guard_new_def)
  then obtain n where "expected (fold (guard_step blake3) ms guard_new) = Suc n"
    by (cases "expected (fold (guard_step blake3) ms guard_new)") auto
  then show ?thesis
    using guard_accepted_sequences [of blake3 guard_new ms] by (auto simp: guard_new_def)
qed

text \<open>exactly-once processing: a message that was accepted as new is never accepted as new
  again, however many messages (so however many evictions from the window) come between.\<close>

theorem guard_never_accepts_twice:
  assumes "guard_ok g" and "snd (guard_check blake3 g env raw) = Inr New"
  shows "snd (guard_check blake3 (fold (guard_step blake3) ms (guard_step blake3 (env, raw) g)) env raw')
    \<noteq> Inr New"
proof
  let ?g1 = "guard_step blake3 (env, raw) g"
  let ?g2 = "fold (guard_step blake3) ms ?g1"
  assume again: "snd (guard_check blake3 ?g2 env raw') = Inr New"
  have "sequence env = expected g \<and> expected ?g1 = Suc (expected g)"
    using assms(2)
    by (cases rule: guard_check_cases [of blake3 g env raw]) (simp_all add: guard_step_def)
  moreover have "expected ?g1 \<le> expected ?g2"
    by (rule guard.run_level) (rule guard_step_ok [OF assms(1)])
  moreover have "sequence env = expected ?g2"
    using again by (cases rule: guard_check_cases [of blake3 ?g2 env raw']) simp_all
  ultimately show False by simp
qed

definition wit_env :: "nat \<Rightarrow> envelope" where
  "wit_env n = \<lparr>protocol_version = ''1.0'', kind = ''session.pong'', message_id = replicate n CHR ''m'',
     correlation_id = None, sequence = n, sent_at = ''t'', env_session_id = ''s'', payload = JNull\<rparr>"

lemma wit_check: "snd (guard_check (\<lambda>m. m) guard_new (wit_env 1) [7]) = Inr New"
  by (simp add: guard_check_def guard_new_def wit_env_def)

theorem guard_never_accepts_twice_witness:
  "snd (guard_check (\<lambda>m. m) (fold (guard_step (\<lambda>m. m)) [(wit_env 2, [8])]
      (guard_step (\<lambda>m. m) (wit_env 1, [7]) guard_new)) (wit_env 1) [7]) \<noteq> Inr New"
  by (rule guard_never_accepts_twice [OF guard_new_ok wit_check])

section \<open>Retransmission inside the window\<close>

text \<open>An id admitted with digest \<open>d\<close>, at most \<open>n\<close> admissions ago.\<close>

definition recent :: "nat \<Rightarrow> string \<Rightarrow> u8 list \<Rightarrow> sequence_guard \<Rightarrow> bool" where
  "recent n mid d g \<longleftrightarrow> guard_ok g \<and> seen g mid = Some d
     \<and> (\<exists>pre post. order g = pre @ mid # post \<and> length post \<le> n)"

lemma recentI:
  "guard_ok g \<Longrightarrow> seen g mid = Some d \<Longrightarrow> order g = pre @ mid # post \<Longrightarrow> length post \<le> n
    \<Longrightarrow> recent n mid d g"
  unfolding recent_def by blast

lemma recent_admit_self:
  assumes "guard_ok g" and "seen g mid = None"
  shows "recent 0 mid d (guard_admit g mid d)"
proof -
  have "mid \<notin> dom (seen g)" using assms(2) by (simp add: domIff)
  then have "mid \<notin> set (order g)" using assms(1) by (simp add: guard_ok_def)
  then show ?thesis
    using guard_admit_ok [OF assms] assms(1)
    by (cases "order g") (auto simp: recent_def guard_admit_def Let_def)
qed

lemma recent_admit_other:
  assumes "recent n mid d g" and "seen g new = None" and "n < 1023"
  shows "recent (Suc n) mid d (guard_admit g new e)"
proof -
  obtain pre post where o: "order g = pre @ mid # post" "length post \<le> n"
    and g: "guard_ok g" "seen g mid = Some d" using assms(1) by (auto simp: recent_def)
  have ne: "new \<noteq> mid" using assms(2) g(2) by auto
  have ok: "guard_ok (guard_admit g new e)" using g(1) assms(2) by (rule guard_admit_ok)
  show ?thesis
  proof (cases "1024 < length (order g @ [new])")
    case False
    then have "order (guard_admit g new e) = pre @ mid # post @ [new]"
      "seen (guard_admit g new e) mid = Some d"
      using o g ne by (auto simp: guard_admit_def Let_def)
    with ok o(2) show ?thesis
      by (intro recentI [where pre = pre and post = "post @ [new]"]) simp_all
  next
    case True
    then have "pre \<noteq> []" using o assms(3) by auto
    then obtain x pre' where x: "pre = x # pre'" by (cases pre) auto
    have "x \<noteq> mid" using g(1) o(1) x by (auto simp: guard_ok_def)
    then have "order (guard_admit g new e) = pre' @ mid # post @ [new]"
      "seen (guard_admit g new e) mid = Some d"
      using True o(1) x g ne by (auto simp: guard_admit_def Let_def)
    with ok o(2) show ?thesis
      by (intro recentI [where pre = pre' and post = "post @ [new]"]) simp_all
  qed
qed

lemma recent_mono: "recent n mid d g \<Longrightarrow> n \<le> m \<Longrightarrow> recent m mid d g"
  unfolding recent_def by (meson le_trans)

lemma recent_run:
  assumes "recent n mid d g" and "n + length (guard_accepted blake3 g ms) < 1024"
  shows "recent (n + length (guard_accepted blake3 g ms)) mid d (fold (guard_step blake3) ms g)"
  using assms
proof (induction ms arbitrary: g n)
  case Nil
  then show ?case by simp
next
  case (Cons m ms)
  show ?case
  proof (cases rule: guard_check_cases [of blake3 g "fst m" "snd m"])
    case new
    have "recent (Suc n) mid d (guard_step blake3 m g)"
      using recent_admit_other [OF Cons.prems(1) new(4)] new(1,2) Cons.prems(2)
      by (simp add: guard_step_def)
    then show ?thesis using Cons.IH [of "Suc n" "guard_step blake3 m g"] Cons.prems(2) new(1) by simp
  next
    case duplicate
    then show ?thesis using Cons.IH [of n g] Cons.prems by (simp add: guard_step_def)
  next
    case (refused e)
    then show ?thesis using Cons.IH [of n g] Cons.prems by (simp add: guard_step_def)
  qed
qed

text \<open>a retransmission of an accepted message within the next 1023 accepted ones is
  acknowledged as a duplicate if its bytes are the same, and reported as a replay if they
  hash differently; in both cases the guard is unchanged.\<close>

theorem guard_window:
  assumes "guard_ok g" and "snd (guard_check blake3 g env raw) = Inr New"
    and "length (guard_accepted blake3 (guard_step blake3 (env, raw) g) ms) < 1024"
  shows "guard_check blake3 (fold (guard_step blake3) ms (guard_step blake3 (env, raw) g)) env raw'
    = (fold (guard_step blake3) ms (guard_step blake3 (env, raw) g),
       if blake3 raw' = blake3 raw then Inr Duplicate else Inl ReplayDetected)"
proof -
  let ?g1 = "guard_step blake3 (env, raw) g"
  let ?g2 = "fold (guard_step blake3) ms ?g1"
  have g1: "recent 0 (message_id env) (blake3 raw) ?g1 \<and> expected ?g1 = Suc (sequence env)
      \<and> message_id env \<noteq> [] \<and> length (message_id env) \<le> 128"
    using assms(1,2) by (cases rule: guard_check_cases [of blake3 g env raw])
      (simp_all add: guard_step_def recent_admit_self)
  then have "seen ?g2 (message_id env) = Some (blake3 raw)"
    using recent_run [of 0 "message_id env" "blake3 raw" ?g1 blake3 ms] assms(3)
    by (simp add: recent_def)
  moreover have "expected ?g1 \<le> expected ?g2"
    by (rule guard.run_level) (rule guard_step_ok [OF assms(1)])
  ultimately show ?thesis using g1 by (auto simp: guard_check_def)
qed

theorem guard_window_witness:
  "snd (guard_check (\<lambda>m. m) (fold (guard_step (\<lambda>m. m)) [(wit_env 2, [8])]
      (guard_step (\<lambda>m. m) (wit_env 1, [7]) guard_new)) (wit_env 1) [7]) = Inr Duplicate"
  by (subst guard_window [OF guard_new_ok wit_check]) simp_all

end
