(* ===== verification/BridgeSession.thy ===== *)
theory BridgeSession
  imports BridgeFanout BridgeSequence
begin

text \<open>
  One Studio session of the bridge: \<open>process_envelope\<close> and the turns of \<open>session_loop\<close>
  (\<open>bridge.rs\<close>).

  The state of a turn has the session's own runtime, the bridge state all sessions share, and the
  transfer directory. The desktop orchestrator, the JSON and time parsers are parameters.
  While a handler awaits, other tasks may change the shared state: \<open>intf k\<close> is what they do at
  the handler's \<open>k\<close>-th await point.
\<close>

section \<open>State\<close>

record verified_transfer_input =
  vi_session_id :: string
  vi_transfer_id :: string
  vi_content_hash :: string
  vi_path :: path
  vi_size_bytes :: nat

record capture_proposal_input =
  ci_session_id :: string
  ci_plugin_installation_id :: string
  ci_cell_id :: string
  ci_transfer_id :: string
  ci_slot_path :: string
  ci_mutation_epoch :: nat
  ci_base_revision :: "string option"
  ci_studio_user_id :: "string option"
  ci_studio_version :: "string option"

record capture_commit =
  cc_revision_id :: string
  cc_status :: string
  cc_state_root :: string
  cc_fanout :: "incoming_revision option"

text \<open>The orchestrator is handed the path of a verified upload: from the file's content it answers and
  leaves a new one, or none (\<open>ingest_verified_transfer\<close> of \<open>core.rs\<close> removes the file).\<close>

record orchestrator =
  transfer_verified :: "verified_transfer_input \<Rightarrow> u8 list option \<Rightarrow> (string + unit) \<times> u8 list option"
  capture_proposal :: "capture_proposal_input \<Rightarrow> string + capture_commit"

datatype bridge_event =
    SessionConnected string string
  | SessionDisconnected string
  | StudioEvent string string json
  | CaptureProposal string string string string nat "string option"
  | ApplyReceipt string string string string string
  | TransferVerified string string string path nat
  | ProtocolViolation "string option" string

record bridge_shared = fanout_shared +
  sh_limits :: bridge_limits
  sh_heartbeat_seconds :: nat
  sh_orchestrator :: "orchestrator option"
  sh_downloads :: downloads
  sh_events :: "bridge_event list"

record session_runtime =
  rt_session_id :: string
  rt_incoming_sequence :: sequence_guard
  rt_outgoing_sequence :: nat
  rt_transfer :: transfer_manager
  rt_hello :: "hello_context option"
  rt_command_receipts :: "string \<rightharpoonup> json"

record turn =
  tn_runtime :: session_runtime
  tn_shared :: bridge_shared
  tn_files :: fs

record wire_lib =
  wl_envelope :: "u8 list \<Rightarrow> envelope option"
  wl_value :: "u8 list \<Rightarrow> json option"
  wl_rfc3339 :: "string \<Rightarrow> int option"

text \<open>What a handler draws on: the crypto primitives, the file system's behaviour, fresh ids, and
  the id and time of the \<open>n\<close>-th envelope sent.\<close>

record session_env =
  se_crypto :: crypto
  se_io :: io_env
  se_fanout :: fanout_env
  se_message_id :: "nat \<Rightarrow> string"
  se_sent_at :: "nat \<Rightarrow> string"

type_synonym interference = "nat \<Rightarrow> bridge_shared \<Rightarrow> bridge_shared"
type_synonym answer = "(string \<times> json \<times> string option) option"
type_synonym handler = "turn \<Rightarrow> turn \<times> (bridge_error + answer)"

definition log_event :: "bridge_event \<Rightarrow> turn \<Rightarrow> turn" where
  "log_event e t = t\<lparr>tn_shared := (tn_shared t)\<lparr>sh_events := sh_events (tn_shared t) @ [e]\<rparr>\<rparr>"

definition interfere :: "interference \<Rightarrow> nat \<Rightarrow> turn \<Rightarrow> turn" where
  "interfere intf k t = t\<lparr>tn_shared := intf k (tn_shared t)\<rparr>"

definition set_transfer :: "transfer_manager \<Rightarrow> turn \<Rightarrow> turn" where
  "set_transfer tm t = t\<lparr>tn_runtime := (tn_runtime t)\<lparr>rt_transfer := tm\<rparr>\<rparr>"

definition bound_context :: "turn \<Rightarrow> json \<Rightarrow> bridge_error + session_binding" where
  "bound_context t v = require_bound_context (sh_binding (tn_shared t)) (rt_hello (tn_runtime t)) v"

section \<open>JSON of the answers\<close>

definition json_opt :: "string option \<Rightarrow> json" where
  "json_opt x = (case x of None \<Rightarrow> JNull | Some s \<Rightarrow> JStr s)"

definition binding_json :: "session_binding option \<Rightarrow> json" where
  "binding_json binding =
     (case binding of
        None \<Rightarrow> JNull
      | Some b \<Rightarrow> JObj [(''projectId'', JStr (sb_project_id b)), (''workspaceId'', JStr (sb_workspace_id b)),
          (''universeId'', json_opt (sb_universe_id b)), (''placeId'', json_opt (sb_place_id b)),
          (''channel'', JStr (sb_channel b)), (''configHash'', JStr (sb_config_hash b)),
          (''ownershipHash'', JStr (sb_ownership_hash b)), (''policyHash'', JStr (sb_policy_hash b)),
          (''acceptedArtHead'', json_opt (sb_accepted_art_head b)),
          (''acceptedStateRoot'', json_opt (sb_accepted_state_root b)),
          (''contextVersion'', JNum (int (sb_context_version b)))])"

definition limits_json :: "bridge_limits \<Rightarrow> json" where
  "limits_json l = JObj [(''maxControlMessageBytes'', JNum (int (max_control_message_bytes l))),
     (''maxChunkBytes'', JNum (int (max_chunk_bytes l))),
     (''maxTransferBytes'', JNum (int (max_transfer_bytes l))),
     (''maxCommandsInFlight'', JNum (int (max_commands_in_flight l)))]"

definition context_payload :: "session_binding option \<Rightarrow> bool \<Rightarrow> bridge_limits \<Rightarrow> nat \<Rightarrow> json" where
  "context_payload binding compatible limits heartbeat = JObj
     [(''bound'', JBool compatible),
      (''unboundReason'', if compatible then JNull else JStr ''identity-mismatch-or-no-binding''),
      (''binding'', binding_json binding),
      (''allowedCommands'', JArr (if compatible then map JStr [''art.capture'', ''art.apply'',
         ''art.register-cell'', ''validation.run'', ''session.refresh-context''] else [])),
      (''heartbeatSeconds'', JNum (int heartbeat)),
      (''limits'', limits_json limits),
      (''capabilities'', JArr (map JStr [''base64-chunks'', ''semantic-fingerprint-v1'', ''apply-transaction-v1'']))]"

text \<open>serde's derived readers: every field present, of its type.\<close>

definition parse_transfer_offer :: "json \<Rightarrow> bridge_error + transfer_offer" where
  "parse_transfer_offer v =
     (let str = (\<lambda>k. ok_or (json_get_str v k) (Json k)); num = (\<lambda>k. ok_or (json_get_u64 v k) (Json k))
      in bindE (num ''contextVersion'') (\<lambda>cv. bindE (str ''transferId'') (\<lambda>ti.
         bindE (str ''direction'') (\<lambda>di. bindE (str ''purpose'') (\<lambda>pu.
         bindE (str ''resourceId'') (\<lambda>ri. bindE (str ''contentHash'') (\<lambda>ch.
         bindE (str ''mediaType'') (\<lambda>mt. bindE (num ''sizeBytes'') (\<lambda>sb.
         bindE (num ''chunkSizeBytes'') (\<lambda>cs. bindE (num ''chunkCount'') (\<lambda>cc.
         bindE (str ''encoding'') (\<lambda>en. bindE (str ''compression'') (\<lambda>co.
         Inr \<lparr>to_context_version = cv, to_transfer_id = ti, to_direction = di, to_purpose = pu,
              to_resource_id = ri, to_content_hash = ch, to_media_type = mt, to_size_bytes = sb,
              to_chunk_size_bytes = cs, to_chunk_count = cc, to_encoding = en, to_compression = co\<rparr>)))))))))))))"

definition parse_transfer_chunk :: "json \<Rightarrow> bridge_error + transfer_chunk" where
  "parse_transfer_chunk v =
     (let str = (\<lambda>k. ok_or (json_get_str v k) (Json k)); num = (\<lambda>k. ok_or (json_get_u64 v k) (Json k))
      in bindE (num ''contextVersion'') (\<lambda>cv. bindE (str ''transferId'') (\<lambda>ti.
         bindE (num ''chunkIndex'') (\<lambda>ci. bindE (num ''offsetBytes'') (\<lambda>ob.
         bindE (num ''rawSizeBytes'') (\<lambda>rs. bindE (str ''chunkHash'') (\<lambda>ch. bindE (str ''data'') (\<lambda>da.
         Inr \<lparr>tc_context_version = cv, tc_transfer_id = ti, tc_chunk_index = ci, tc_offset_bytes = ob,
              tc_raw_size_bytes = rs, tc_chunk_hash = ch, tc_data = da\<rparr>))))))))"

section \<open>The handlers, one for each message type\<close>

definition handle_hello :: "interference \<Rightarrow> string option \<Rightarrow> json \<Rightarrow> handler" where
  "handle_hello intf correlation v t =
     (case parse_hello v of
        Inl e \<Rightarrow> (t, Inl e)
      | Inr hello \<Rightarrow>
          (let binding = sh_binding (tn_shared t);
               compatibility = (case binding of None \<Rightarrow> False | Some b \<Rightarrow> hello_matches_binding hello b);
               t1 = interfere intf 0 (t\<lparr>tn_runtime := (tn_runtime t)\<lparr>rt_hello := Some hello\<rparr>\<rparr>);
               sh = tn_shared t1;
               i = rt_session_id (tn_runtime t);
               sessions = (case map_of (sh_sessions sh) i of
                   None \<Rightarrow> sh_sessions sh
                 | Some s \<Rightarrow> AList.update i (s\<lparr>ss_hello := Some hello,
                     ss_bound_context_version :=
                       (if compatibility then map_option sb_context_version binding else None)\<rparr>) (sh_sessions sh))
           in (t1\<lparr>tn_shared := sh\<lparr>sh_sessions := sessions\<rparr>\<rparr>,
               Inr (Some (''session.context'',
                 context_payload binding compatibility (sh_limits sh) (sh_heartbeat_seconds sh), correlation)))))"

definition handle_studio_event :: "string \<Rightarrow> json \<Rightarrow> handler" where
  "handle_studio_event what v t =
     (log_event (StudioEvent (rt_session_id (tn_runtime t)) what v) t, Inr None)"

definition handle_transfer_offer :: "session_env \<Rightarrow> string option \<Rightarrow> json \<Rightarrow> handler" where
  "handle_transfer_offer env correlation v t =
     (case bindE (bound_context t v) (\<lambda>binding.
           bindE (parse_transfer_offer v) (\<lambda>offer. Inr (binding, offer))) of
        Inl e \<Rightarrow> (t, Inl e)
      | Inr (binding, offer) \<Rightarrow>
          (case transfer_offer_op (se_io env) (rt_transfer (tn_runtime t)) (tn_files t) offer binding of
             (tm, fs, Inl e) \<Rightarrow> (set_transfer tm (t\<lparr>tn_files := fs\<rparr>), Inl e)
           | (tm, fs, Inr accepted) \<Rightarrow>
               (set_transfer tm (t\<lparr>tn_files := fs\<rparr>), Inr (Some (''transfer.accept'', accepted, correlation)))))"

definition handle_transfer_chunk :: "session_env \<Rightarrow> string option \<Rightarrow> json \<Rightarrow> handler" where
  "handle_transfer_chunk env correlation v t =
     (case bindE (bound_context t v) (\<lambda>binding.
           bindE (parse_transfer_chunk v) (\<lambda>chunk.
           bindE (transfer_require_context (rt_transfer (tn_runtime t)) (tc_transfer_id chunk) binding) (\<lambda>_.
           Inr chunk))) of
        Inl e \<Rightarrow> (t, Inl e)
      | Inr chunk \<Rightarrow>
          (case transfer_chunk_op (se_crypto env) (se_io env) (rt_transfer (tn_runtime t)) (tn_files t) chunk of
             (tm, fs, Inl e) \<Rightarrow> (set_transfer tm (t\<lparr>tn_files := fs\<rparr>), Inl e)
           | (tm, fs, Inr ack) \<Rightarrow>
               (set_transfer tm (t\<lparr>tn_files := fs\<rparr>), Inr (Some (''transfer.ack'', ack, correlation)))))"

definition handle_transfer_complete ::
  "session_env \<Rightarrow> interference \<Rightarrow> string option \<Rightarrow> json \<Rightarrow> handler" where
  "handle_transfer_complete env intf correlation v t =
     (case bindE (bound_context t v) (\<lambda>binding.
           bindE (ok_or (json_get_str v ''transferId'') (TransferRejected ''missing transferId'')) (\<lambda>i.
           bindE (transfer_require_context (rt_transfer (tn_runtime t)) i binding) (\<lambda>_. Inr i))) of
        Inl e \<Rightarrow> (t, Inl e)
      | Inr i \<Rightarrow>
          (case transfer_complete_op (se_crypto env) (se_io env) (rt_transfer (tn_runtime t)) (tn_files t) i of
             (tm, fs, Inl e) \<Rightarrow> (set_transfer tm (t\<lparr>tn_files := fs\<rparr>), Inl e)
           | (tm, fs, Inr verified) \<Rightarrow>
               (let t1 = set_transfer tm (t\<lparr>tn_files := fs\<rparr>);
                    sid = rt_session_id (tn_runtime t);
                    input = \<lparr>vi_session_id = sid, vi_transfer_id = vt_transfer_id verified,
                             vi_content_hash = vt_content_hash verified, vi_path = vt_path verified,
                             vi_size_bytes = vt_size_bytes verified\<rparr>;
                    answer = (case sh_orchestrator (tn_shared t1) of
                                None \<Rightarrow> (Inr (), fs (vt_path verified))
                              | Some orch \<Rightarrow> transfer_verified orch input (fs (vt_path verified)));
                    t2 = interfere intf 1 (t1\<lparr>tn_files := fs(vt_path verified := snd answer)\<rparr>)
                in case fst answer of
                     Inl e \<Rightarrow> (t2, Inl (OrchestrationFailed e))
                   | Inr _ \<Rightarrow>
                       (log_event (TransferVerified sid (vt_transfer_id verified) (vt_content_hash verified)
                          (vt_path verified) (vt_size_bytes verified)) t2,
                        Inr (Some (''transfer.verified'',
                          JObj [(''transferId'', JStr (vt_transfer_id verified)),
                                (''contentHash'', JStr (vt_content_hash verified)),
                                (''sizeBytes'', JNum (int (vt_size_bytes verified)))], correlation))))))"

definition handle_transfer_cancel :: "session_env \<Rightarrow> json \<Rightarrow> handler" where
  "handle_transfer_cancel env v t =
     (case json_get_str v ''transferId'' of
        None \<Rightarrow> (t, Inr None)
      | Some i \<Rightarrow>
          (case transfer_cancel_op (se_io env) (rt_transfer (tn_runtime t)) (tn_files t) i of
             (tm, fs) \<Rightarrow> (set_transfer tm (t\<lparr>tn_files := fs\<rparr>), Inr None)))"

text \<open>The checks of a capture proposal, before the orchestrator is asked.\<close>

record capture_intent =
  cp_cell_id :: string
  cp_transfer_id :: string
  cp_slot_path :: string
  cp_epoch :: nat
  cp_base :: "string option"
  cp_hello :: hello_context

definition capture_checks :: "json \<Rightarrow> turn \<Rightarrow> bridge_error + capture_intent" where
  "capture_checks v t =
     bindE (bound_context t v) (\<lambda>binding.
     bindE (required_string v ''cellId'') (\<lambda>cell_id.
     bindE (required_string v ''transferId'') (\<lambda>transfer_id.
     bindE (required_string v ''slotPath'') (\<lambda>slot_path.
     bindE (guardE (starts_with ''/'' slot_path \<and> length slot_path \<le> 1024)
            (TransferRejected ''invalid managed DataModel slot'')) (\<lambda>_.
     bindE (guardE (is_verified_for (rt_transfer (tn_runtime t)) transfer_id cell_id binding)
            (TransferRejected ''capture payload is not verified'')) (\<lambda>_.
     bindE (ok_or (json_get_u64 v ''mutationEpoch'') (TransferRejected ''missing mutationEpoch'')) (\<lambda>epoch.
     bindE (ok_or (rt_hello (tn_runtime t)) ContextStale) (\<lambda>hello.
     Inr \<lparr>cp_cell_id = cell_id, cp_transfer_id = transfer_id, cp_slot_path = slot_path,
          cp_epoch = epoch, cp_base = json_get_str v ''baseRevision'', cp_hello = hello\<rparr>))))))))"

definition capture_commit_of :: "capture_intent \<Rightarrow> turn \<Rightarrow> bridge_error + capture_commit" where
  "capture_commit_of cp t =
     (let sid = rt_session_id (tn_runtime t)
      in case sh_orchestrator (tn_shared t) of
           None \<Rightarrow> Inr \<lparr>cc_revision_id = '''', cc_status = ''queued'', cc_state_root = '''', cc_fanout = None\<rparr>
         | Some orch \<Rightarrow>
             bindE (ok_or (map_of (sh_sessions (tn_shared t)) sid) ContextStale) (\<lambda>session.
               mapE OrchestrationFailed (capture_proposal orch
                 \<lparr>ci_session_id = sid, ci_plugin_installation_id = ss_plugin_installation_id session,
                  ci_cell_id = cp_cell_id cp, ci_transfer_id = cp_transfer_id cp,
                  ci_slot_path = cp_slot_path cp, ci_mutation_epoch = cp_epoch cp,
                  ci_base_revision = cp_base cp, ci_studio_user_id = hc_studio_user_id (cp_hello cp),
                  ci_studio_version = hc_studio_version (cp_hello cp)\<rparr>)))"

text \<open>The fan-out of an accepted capture, then the unconditional update of the binding's head.\<close>

definition capture_fanout ::
  "session_env \<Rightarrow> interference \<Rightarrow> capture_commit \<Rightarrow> turn \<Rightarrow> turn \<times> (bridge_error + nat)" where
  "capture_fanout env intf commit t =
     (case cc_fanout commit of
        None \<Rightarrow> (t, Inr 0)
      | Some revision \<Rightarrow>
          (let sh = tn_shared t
           in case handle_fanout (se_crypto env) (sh_limits sh) (se_fanout env) (\<lambda>k. intf (4 + k))
                     (rt_session_id (tn_runtime t)) revision sh of
                (sh', Inl e) \<Rightarrow> (t\<lparr>tn_shared := sh'\<rparr>, Inl e)
              | (sh', Inr sent) \<Rightarrow>
                  (let t1 = interfere intf 3 (t\<lparr>tn_shared := sh'\<rparr>)
                   in (t1\<lparr>tn_shared := (tn_shared t1)\<lparr>sh_binding :=
                         update_accepted_head (cc_revision_id commit) (cc_state_root commit)
                           (sh_binding (tn_shared t1))\<rparr>\<rparr>, Inr sent))))"

definition json_nonempty :: "string \<Rightarrow> json" where
  "json_nonempty s = (if s = [] then JNull else JStr s)"

definition handle_capture :: "session_env \<Rightarrow> interference \<Rightarrow> string option \<Rightarrow> json \<Rightarrow> handler" where
  "handle_capture env intf correlation v t =
     (case capture_checks v t of
        Inl e \<Rightarrow> (t, Inl e)
      | Inr cp \<Rightarrow>
          (let outcome = capture_commit_of cp t;
               t1 = interfere intf 2 t
           in case outcome of
                Inl e \<Rightarrow> (t1, Inl e)
              | Inr commit \<Rightarrow>
                  (let t2 = log_event (CaptureProposal (rt_session_id (tn_runtime t)) (cp_cell_id cp)
                              (cp_transfer_id cp) (cp_slot_path cp) (cp_epoch cp) (cp_base cp)) t1
                   in case capture_fanout env intf commit t2 of
                        (t3, Inl e) \<Rightarrow> (t3, Inl e)
                      | (t3, Inr sent) \<Rightarrow>
                          (t3, Inr (Some (''art.capture.accepted'',
                             JObj [(''accepted'', JBool True),
                                   (''durable'', JBool (cc_revision_id commit \<noteq> [])),
                                   (''revisionId'', json_nonempty (cc_revision_id commit)),
                                   (''status'', JStr (cc_status commit)),
                                   (''stateRoot'', json_nonempty (cc_state_root commit)),
                                   (''fanoutSessions'', JNum (int sent))], correlation))))))"

definition handle_receipt :: "string \<Rightarrow> string option \<Rightarrow> json \<Rightarrow> handler" where
  "handle_receipt what correlation v t =
     (case bindE (bound_context t v) (\<lambda>_. required_string v ''commandId'') of
        Inl e \<Rightarrow> (t, Inl e)
      | Inr command_id \<Rightarrow>
          (case rt_command_receipts (tn_runtime t) command_id of
             Some previous \<Rightarrow>
               if previous \<noteq> v then (t, Inl ReplayDetected)
               else (t, Inr (Some (''protocol.duplicate-ack'',
                        JObj [(''commandId'', JStr command_id)], correlation)))
           | None \<Rightarrow>
               (case required_string v ''revisionId'' of
                  Inl e \<Rightarrow> (t, Inl e)
                | Inr revision_id \<Rightarrow>
                    (let status = (case json_get_str v ''status'' of None \<Rightarrow> what | Some s \<Rightarrow> s);
                         verification = (case json_get_str v ''verification'' of
                                           None \<Rightarrow> ''applied-unverified'' | Some s \<Rightarrow> s)
                     in (log_event (ApplyReceipt (rt_session_id (tn_runtime t)) command_id revision_id
                            status verification)
                          (t\<lparr>tn_runtime := (tn_runtime t)\<lparr>rt_command_receipts :=
                             (rt_command_receipts (tn_runtime t))(command_id \<mapsto> v)\<rparr>\<rparr>), Inr None)))))"

definition json_str_or_default :: "json \<Rightarrow> string \<Rightarrow> string" where
  "json_str_or_default v k = (case json_get_str v k of None \<Rightarrow> '''' | Some s \<Rightarrow> s)"

fun json_object :: "json \<Rightarrow> json option" where
  "json_object (JObj entries) = Some (JObj entries)"
| "json_object _ = None"

definition handle_command_request :: "string option \<Rightarrow> json \<Rightarrow> handler" where
  "handle_command_request correlation v t =
     (case bindE (bound_context t v) (\<lambda>_.
           bindE (required_string v ''commandId'') (\<lambda>command_id.
           bindE (validate_scoped_id command_id ''op_'') (\<lambda>_.
           bindE (required_string v ''command'') (\<lambda>command.
           bindE (guardE (command = ''art.register-cell'') (CommandUnsupported command)) (\<lambda>_.
           bindE (ok_or (Option.bind (json_get v ''arguments'') json_object)
                  (TransferRejected ''missing command arguments'')) (\<lambda>arguments.
           bindE (ok_or (json_get_str arguments ''cellId'') (TransferRejected ''missing cellId'')) (\<lambda>cell_id.
           bindE (validate_scoped_id cell_id ''cell_'') (\<lambda>_.
           (let path = json_str_or_default arguments ''path'';
                class_name = json_str_or_default arguments ''className''
            in bindE (guardE (path \<noteq> [] \<and> length path \<le> 1024 \<and> class_name \<noteq> [] \<and> length class_name \<le> 128)
                      (TransferRejected ''invalid cell registration intent'')) (\<lambda>_.
               Inr (command_id, cell_id))))))))))) of
        Inl e \<Rightarrow> (t, Inl e)
      | Inr (command_id, cell_id) \<Rightarrow>
          (log_event (StudioEvent (rt_session_id (tn_runtime t)) ''art.register-cell'' v) t,
           Inr (Some (''command.succeeded'',
             JObj [(''contextVersion'', case sh_binding (tn_shared t) of None \<Rightarrow> JNull
                      | Some b \<Rightarrow> JNum (int (sb_context_version b))),
                   (''commandId'', JStr command_id), (''command'', JStr ''art.register-cell''),
                   (''cellId'', JStr cell_id), (''approved'', JBool True)], correlation))))"

definition handle_command_progress :: "string \<Rightarrow> json \<Rightarrow> handler" where
  "handle_command_progress what v t =
     (case bound_context t v of
        Inl e \<Rightarrow> (t, Inl e)
      | Inr _ \<Rightarrow> handle_studio_event what v t)"

section \<open>process_envelope\<close>

definition studio_event_kinds :: "string list" where
  "studio_event_kinds = [''studio.selection-changed'', ''studio.run-state-changed'',
     ''studio.place-context-changed'', ''art.cell-dirty-changed'', ''art.lock-status-changed'',
     ''diagnostic.event'']"

definition receipt_kinds :: "string list" where
  "receipt_kinds = [''art.apply.receipt'', ''command.succeeded'', ''command.failed'', ''command.cancelled'']"

definition dispatch :: "session_env \<Rightarrow> interference \<Rightarrow> string \<Rightarrow> string option \<Rightarrow> json \<Rightarrow> handler" where
  "dispatch env intf what correlation v t =
     (if what = ''session.hello'' then handle_hello intf correlation v t
      else if what = ''session.pong'' \<or> what = ''session.goodbye'' then (t, Inr None)
      else if what \<in> set studio_event_kinds then handle_studio_event what v t
      else if what = ''transfer.offer'' then handle_transfer_offer env correlation v t
      else if what = ''transfer.chunk'' then handle_transfer_chunk env correlation v t
      else if what = ''transfer.complete'' then handle_transfer_complete env intf correlation v t
      else if what = ''transfer.cancel'' then handle_transfer_cancel env v t
      else if what = ''art.capture.proposal'' then handle_capture env intf correlation v t
      else if what \<in> set receipt_kinds then handle_receipt what correlation v t
      else if what = ''command.request'' then handle_command_request correlation v t
      else if what = ''command.accepted'' \<or> what = ''command.progress''
      then handle_command_progress what v t
      else (t, Inl (CommandUnsupported what)))"

text \<open>The clock skew of \<open>sentAt\<close> is only logged.\<close>

definition process_envelope ::
  "session_env \<Rightarrow> wire_lib \<Rightarrow> interference \<Rightarrow> u8 list \<Rightarrow> handler" where
  "process_envelope env lib intf raw t =
     (let rt = tn_runtime t
      in case bindE (ok_or (wl_envelope lib raw) (Json ''envelope'')) (\<lambda>e.
              bindE (guardE (protocol_version e = PROTOCOL_VERSION \<and> env_session_id e = rt_session_id rt)
                     ProtocolIncompatible) (\<lambda>_.
              bindE (guardE (case correlation_id e of None \<Rightarrow> True | Some c \<Rightarrow> c \<noteq> [] \<and> length c \<le> 128)
                     ReplayDetected) (\<lambda>_.
              bindE (ok_or (wl_rfc3339 lib (sent_at e)) (TransferRejected ''invalid sentAt timestamp'')) (\<lambda>_.
              Inr e)))) of
           Inl err \<Rightarrow> (t, Inl err)
         | Inr e \<Rightarrow>
             (case guard_check (blake3_hash (se_crypto env)) (rt_incoming_sequence rt) e raw of
                (g, decision) \<Rightarrow>
                  (let t1 = t\<lparr>tn_runtime := rt\<lparr>rt_incoming_sequence := g\<rparr>\<rparr>
                   in case decision of
                        Inl err \<Rightarrow> (t1, Inl err)
                      | Inr Duplicate \<Rightarrow>
                          (t1, Inr (Some (''protocol.duplicate-ack'',
                             JObj [(''messageId'', JStr (message_id e))], correlation_id e)))
                      | Inr New \<Rightarrow>
                          dispatch env intf (kind e)
                            (case correlation_id e of None \<Rightarrow> Some (message_id e) | Some c \<Rightarrow> Some c)
                            (payload e) t1)))"

section \<open>The session loop\<close>

record outbound =
  ob_protocol_version :: string
  ob_kind :: string
  ob_message_id :: string
  ob_correlation_id :: "string option"
  ob_sequence :: nat
  ob_sent_at :: string
  ob_session_id :: string
  ob_payload :: json

definition next_envelope ::
  "session_env \<Rightarrow> string \<Rightarrow> json \<Rightarrow> string option \<Rightarrow> session_runtime \<Rightarrow> session_runtime \<times> outbound" where
  "next_envelope env what v correlation rt =
     (let n = rt_outgoing_sequence rt
      in (rt\<lparr>rt_outgoing_sequence := n + 1\<rparr>,
          \<lparr>ob_protocol_version = PROTOCOL_VERSION, ob_kind = what, ob_message_id = ''msg_'' @ se_message_id env n,
           ob_correlation_id = correlation, ob_sequence = n, ob_sent_at = se_sent_at env n,
           ob_session_id = rt_session_id rt, ob_payload = v\<rparr>))"

text \<open>
  A turn of the loop: what happened, the loop's state, and the envelopes written. The socket
  takes the \<open>k\<close>-th envelope of the turn if \<open>sock k\<close>; otherwise the loop ends there.
\<close>

record loop_state =
  lp_turn :: turn
  lp_missed_pongs :: nat
  lp_alive :: bool
  lp_sent :: "outbound list"

definition emit ::
  "session_env \<Rightarrow> (nat \<Rightarrow> bool) \<Rightarrow> nat \<Rightarrow> string \<Rightarrow> json \<Rightarrow> string option \<Rightarrow> loop_state \<Rightarrow> loop_state" where
  "emit env sock k what v correlation st =
     (case next_envelope env what v correlation (tn_runtime (lp_turn st)) of
        (rt, out) \<Rightarrow> st\<lparr>lp_turn := (lp_turn st)\<lparr>tn_runtime := rt\<rparr>,
                        lp_sent := lp_sent st @ [out], lp_alive := lp_alive st \<and> sock k\<rparr>)"

fun error_text :: "bridge_error \<Rightarrow> string" where
  "error_text (DiscoveryInvalid s) = ''LBP_DISCOVERY_INVALID: '' @ s"
| "error_text PairingRequired = ''LBP_PAIRING_REQUIRED''"
| "error_text (PairingDenied s) = ''LBP_PAIRING_DENIED: '' @ s"
| "error_text AuthInvalid = ''LBP_AUTH_INVALID''"
| "error_text ProtocolIncompatible = ''LBP_PROTOCOL_INCOMPATIBLE''"
| "error_text ContextStale = ''LBP_CONTEXT_STALE''"
| "error_text (SequenceGap e r) = ''LBP_SEQUENCE_GAP: expected '' @ decimal e @ '', received '' @ decimal r"
| "error_text ReplayDetected = ''LBP_REPLAY_DETECTED''"
| "error_text MessageTooLarge = ''LBP_MESSAGE_TOO_LARGE''"
| "error_text (TransferRejected s) = ''LBP_TRANSFER_REJECTED: '' @ s"
| "error_text ChunkHashMismatch = ''LBP_CHUNK_HASH_MISMATCH''"
| "error_text ContentHashMismatch = ''LBP_CONTENT_HASH_MISMATCH''"
| "error_text (CommandUnsupported s) = ''LBP_COMMAND_UNSUPPORTED: '' @ s"
| "error_text (OrchestrationFailed s) = ''LBP_ORCHESTRATION_FAILED: '' @ s"
| "error_text (Io s) = ''I/O: '' @ s"
| "error_text (Json s) = ''JSON: '' @ s"

definition error_payload :: "bridge_error \<Rightarrow> string option \<Rightarrow> json" where
  "error_payload e correlation = JObj
     [(''code'', JStr (error_code e)),
      (''category'', JStr (if retryable e then ''transient'' else ''validation'')),
      (''message'', JStr (error_text e)), (''retryable'', JBool (retryable e)),
      (''details'', JObj []), (''correlationId'', json_opt correlation)]"

text \<open>\<open>send_error\<close>; its own failure is ignored by the callers.\<close>

definition send_error :: "session_env \<Rightarrow> bridge_error \<Rightarrow> loop_state \<Rightarrow> loop_state" where
  "send_error env e st = emit env (\<lambda>_. True) 0 ''protocol.error'' (error_payload e None) None st"

definition download_json :: "incoming_download \<Rightarrow> json" where
  "download_json d = JObj [(''url'', JStr (dl_url d)), (''token'', JStr (dl_token d)),
     (''expiresAt'', JStr (dl_expires_at d))]"

definition cell_json :: "incoming_cell \<Rightarrow> json" where
  "cell_json cell = JObj
     ([(''cellId'', JStr (ic_cell_id cell)), (''parentPath'', JStr (ic_parent_path cell)),
       (''contentHash'', JStr (ic_content_hash cell)), (''sizeBytes'', JNum (int (ic_size_bytes cell)))]
      @ (case ic_data cell of None \<Rightarrow> [] | Some d \<Rightarrow> [(''data'', JStr d)])
      @ (case ic_download cell of None \<Rightarrow> [] | Some d \<Rightarrow> [(''download'', download_json d)]))"

definition summary_entries :: "incoming_revision \<Rightarrow> (string \<times> json) list" where
  "summary_entries r = [(''revisionId'', JStr (ir_revision_id r)), (''stateRoot'', JStr (ir_state_root r)),
     (''cellIds'', JArr (map JStr (ir_cell_ids r))), (''authorDisplay'', JStr (ir_author_display r)),
     (''summary'', JStr (ir_summary r))]"

definition incoming_summary_payload :: "incoming_revision \<Rightarrow> json" where
  "incoming_summary_payload r = JObj (summary_entries r)"

definition revision_json :: "incoming_revision \<Rightarrow> json" where
  "revision_json r = JObj (summary_entries r @ [(''cells'', JArr (map cell_json (ir_cells r)))])"

definition apply_command_payload :: "string \<Rightarrow> string \<Rightarrow> nat \<Rightarrow> string \<Rightarrow> incoming_revision \<Rightarrow> json" where
  "apply_command_payload command_id key version deadline r = JObj
     [(''commandId'', JStr command_id), (''command'', JStr ''art.apply''),
      (''contextVersion'', JNum (int version)), (''idempotencyKey'', JStr key),
      (''deadlineAt'', JStr deadline), (''arguments'', revision_json r)]"

definition context_changed_payload :: "session_binding option \<Rightarrow> json" where
  "context_changed_payload binding = JObj [(''bound'', JBool False), (''binding'', binding_json binding),
     (''requiresRefresh'', JBool True), (''unboundReason'', JStr ''context-changed-revalidation-required'')]"

definition shared_in :: "loop_state \<Rightarrow> bridge_shared \<Rightarrow> loop_state" where
  "shared_in st sh = st\<lparr>lp_turn := (lp_turn st)\<lparr>tn_shared := sh\<rparr>\<rparr>"

text \<open>\<open>prepare_revision_for_session\<close> from the loop: a failure is reported and the loop goes on.\<close>

definition with_prepared ::
  "session_env \<Rightarrow> prepare_env \<Rightarrow> incoming_revision \<Rightarrow> (incoming_revision \<Rightarrow> loop_state \<Rightarrow> loop_state)
   \<Rightarrow> loop_state \<Rightarrow> loop_state" where
  "with_prepared env penv revision act st =
     (let sh = tn_shared (lp_turn st); rt = tn_runtime (lp_turn st)
      in case prepare_revision_for_session (se_crypto env) penv (sh_limits sh) (rt_session_id rt)
                (rt_hello rt) revision (sh_downloads sh) of
           (downloads, Inl e) \<Rightarrow> send_error env e (shared_in st (sh\<lparr>sh_downloads := downloads\<rparr>))
         | (downloads, Inr revision') \<Rightarrow> act revision' (shared_in st (sh\<lparr>sh_downloads := downloads\<rparr>)))"

fun handle_push ::
  "session_env \<Rightarrow> (nat \<Rightarrow> bool) \<Rightarrow> prepare_env \<Rightarrow> string \<Rightarrow> server_push \<Rightarrow> loop_state \<Rightarrow> loop_state" where
  "handle_push env sock penv deadline (IncomingAndApply cmd key version revision) st =
     with_prepared env penv revision (\<lambda>r st1.
       (let st2 = emit env sock 0 ''art.incoming-summary'' (incoming_summary_payload r) None st1
        in if lp_alive st2
           then emit env sock 1 ''command.request'' (apply_command_payload cmd key version deadline r) None st2
           else st2)) st"
| "handle_push env sock penv deadline (Apply cmd key version revision) st =
     with_prepared env penv revision (\<lambda>r.
       emit env sock 0 ''command.request'' (apply_command_payload cmd key version deadline r) None) st"
| "handle_push env sock penv deadline (ContextChanged binding) st =
     emit env sock 0 ''session.context-changed'' (context_changed_payload binding) None st"
| "handle_push env sock penv deadline (Incoming revision) st =
     emit env sock 0 ''art.incoming-summary'' (revision_json revision) None st"

definition handle_text ::
  "session_env \<Rightarrow> wire_lib \<Rightarrow> interference \<Rightarrow> (nat \<Rightarrow> bool) \<Rightarrow> u8 list \<Rightarrow> loop_state \<Rightarrow> loop_state" where
  "handle_text env lib intf sock text st =
     (let sh = tn_shared (lp_turn st)
      in if max_control_message_bytes (sh_limits sh) < length text
         then (send_error env MessageTooLarge st)\<lparr>lp_alive := False\<rparr>
         else (let pong = Option.bind (wl_value lib text) (\<lambda>v. json_get_str v ''type'') = Some ''session.pong'';
                   st1 = (if pong then st\<lparr>lp_missed_pongs := 0\<rparr> else st)
               in case process_envelope env lib intf text (lp_turn st1) of
                    (t, Inr None) \<Rightarrow> st1\<lparr>lp_turn := t\<rparr>
                  | (t, Inr (Some (what, v, correlation))) \<Rightarrow>
                      emit env sock 0 what v correlation (st1\<lparr>lp_turn := t\<rparr>)
                  | (t, Inl e) \<Rightarrow>
                      (let st2 = send_error env e (st1\<lparr>lp_turn :=
                             log_event (ProtocolViolation (Some (rt_session_id (tn_runtime t))) (error_code e)) t\<rparr>)
                       in if (case e of ReplayDetected \<Rightarrow> True | SequenceGap _ _ \<Rightarrow> True | _ \<Rightarrow> False)
                          then st2\<lparr>lp_alive := False\<rparr> else st2)))"

datatype loop_input =
    InText interference "u8 list"
  | InPong
  | InPing
  | InBinary
  | InClosed
  | InPush prepare_env string server_push
  | InTick

fun loop_input_step ::
  "session_env \<Rightarrow> wire_lib \<Rightarrow> (nat \<Rightarrow> bool) \<Rightarrow> loop_input \<Rightarrow> loop_state \<Rightarrow> loop_state" where
  "loop_input_step env lib sock (InText intf text) st = handle_text env lib intf sock text st"
| "loop_input_step env lib sock InPong st = st\<lparr>lp_missed_pongs := 0\<rparr>"
| "loop_input_step env lib sock InPing st = st\<lparr>lp_alive := lp_alive st \<and> sock 0\<rparr>"
| "loop_input_step env lib sock InBinary st =
     (send_error env (CommandUnsupported ''binary frames not negotiated'') st)\<lparr>lp_alive := False\<rparr>"
| "loop_input_step env lib sock InClosed st = st\<lparr>lp_alive := False\<rparr>"
| "loop_input_step env lib sock (InPush penv deadline push) st = handle_push env sock penv deadline push st"
| "loop_input_step env lib sock InTick st =
     (let missed = min (lp_missed_pongs st + 1) 255
      in if 3 < missed then st\<lparr>lp_missed_pongs := missed, lp_alive := False\<rparr>
         else emit env sock 0 ''session.ping'' (JObj [(''missed'', JNum (int (missed - 1)))]) None
                (st\<lparr>lp_missed_pongs := missed\<rparr>))"

text \<open>A broken loop takes no further turn.\<close>

definition loop_step ::
  "session_env \<times> wire_lib \<times> (nat \<Rightarrow> bool) \<times> loop_input \<Rightarrow> loop_state \<Rightarrow> loop_state" where
  "loop_step op st =
     (case op of (env, lib, sock, input) \<Rightarrow> if lp_alive st then loop_input_step env lib sock input st else st)"

definition session_start ::
  "string \<Rightarrow> string \<Rightarrow> string \<Rightarrow> fs \<Rightarrow> bridge_shared \<Rightarrow> loop_state" where
  "session_start session_id plugin_id transfer_dir fs sh =
     \<lparr>lp_turn = \<lparr>tn_runtime = \<lparr>rt_session_id = session_id, rt_incoming_sequence = guard_new,
          rt_outgoing_sequence = 1, rt_transfer = transfer_new transfer_dir (sh_limits sh) session_id,
          rt_hello = None, rt_command_receipts = Map.empty\<rparr>,
        tn_shared = sh\<lparr>sh_sessions := AList.update session_id
            \<lparr>ss_plugin_installation_id = plugin_id, ss_hello = None, ss_bound_context_version = None,
             ss_queue = [], ss_closed = False\<rparr> (sh_sessions sh),
          sh_events := sh_events sh @ [SessionConnected session_id plugin_id]\<rparr>,
        tn_files = fs\<rparr>,
      lp_missed_pongs = 0, lp_alive = True, lp_sent = []\<rparr>"

definition session_end :: "io_env \<Rightarrow> loop_state \<Rightarrow> bridge_shared \<times> fs" where
  "session_end io st =
     (let t = lp_turn st; sh = tn_shared t; i = rt_session_id (tn_runtime t);
          (tm, fs) = transfer_cancel_all_op io (rt_transfer (tn_runtime t)) (tn_files t)
      in (sh\<lparr>sh_sessions := AList.delete i (sh_sessions sh),
             sh_downloads := end_session_downloads i (sh_downloads sh),
             sh_events := sh_events sh @ [SessionDisconnected i]\<rparr>, fs))"

section \<open>What a handler leaves alone\<close>

definition same_session :: "turn \<Rightarrow> turn \<Rightarrow> bool" where
  "same_session t t' \<longleftrightarrow> rt_session_id (tn_runtime t') = rt_session_id (tn_runtime t)
     \<and> rt_incoming_sequence (tn_runtime t') = rt_incoming_sequence (tn_runtime t)
     \<and> rt_outgoing_sequence (tn_runtime t') = rt_outgoing_sequence (tn_runtime t)"

text \<open>
  The orchestrator may change or remove the verified files. The transfer directory is in order when
  it differs in these files only from one that satisfies the invariant of the transfers.
\<close>

definition agrees :: "transfer_manager \<Rightarrow> fs \<Rightarrow> fs \<Rightarrow> bool" where
  "agrees tm g fs \<longleftrightarrow> (\<forall>p. p \<notin> range (verified_path tm) \<longrightarrow> fs p = g p)"

lemma agrees_upload [simp]: "agrees (tm\<lparr>tm_upload := u\<rparr>) = agrees tm"
  by (simp add: agrees_def fun_eq_iff)

lemma agrees_verified [simp]: "agrees (tm\<lparr>tm_verified := u\<rparr>) = agrees tm"
  by (simp add: agrees_def fun_eq_iff)

lemma agrees_refl [simp]: "agrees tm fs fs"
  by (simp add: agrees_def)

lemma agrees_update: "agrees tm g fs \<Longrightarrow> agrees tm (g(p := x)) (fs(p := x))"
  by (simp add: agrees_def)

lemma agrees_remove: "agrees tm g fs \<Longrightarrow> agrees tm (remove_file io g p) (remove_file io fs p)"
  by (simp add: remove_file_def agrees_update)

lemma agrees_handed: "agrees tm g fs \<Longrightarrow> agrees tm g (fs(verified_path tm i := x))"
  by (auto simp: agrees_def)

lemma agrees_partial: "agrees tm g fs \<Longrightarrow> fs (partial_path tm i) = g (partial_path tm i)"
  unfolding agrees_def by (metis partial_neq_verified rangeE)

lemma agrees_upload_file:
  assumes "transfer_ok c (tm, g)" "agrees tm g fs" "tm_upload tm = Some u"
  shows "fs (us_path u) = g (us_path u)"
  using assms by (simp add: transfer_ok_def upload_ok_def agrees_partial)

lemma offer_agrees:
  assumes "agrees tm g fs" and "transfer_offer_op io tm fs offer b = (tm', fs', r)"
  shows "\<exists>g'. transfer_offer_op io tm g offer b = (tm', g', r) \<and> agrees tm' g' fs'"
  using assms agrees_partial [OF assms(1), of "to_transfer_id offer"]
  by (auto simp: transfer_offer_op_def Let_def agrees_update split: sum.splits if_splits)

lemma chunk_agrees:
  assumes "transfer_ok c (tm, g)" "agrees tm g fs" and "transfer_chunk_op c io tm fs chunk = (tm', fs', r)"
  shows "\<exists>g'. transfer_chunk_op c io tm g chunk = (tm', g', r) \<and> agrees tm' g' fs'"
proof (cases "tm_upload tm")
  case (Some u)
  then show ?thesis
    using assms(2,3) agrees_upload_file [OF assms(1,2) Some]
    by (auto simp: transfer_chunk_op_def Let_def agrees_update split: sum.splits option.splits if_splits)
qed (use assms in \<open>simp add: transfer_chunk_op_def\<close>)

lemma complete_agrees:
  assumes "transfer_ok c (tm, g)" "agrees tm g fs" and "transfer_complete_op c io tm fs i = (tm', fs', r)"
  shows "\<exists>g'. transfer_complete_op c io tm g i = (tm', g', r) \<and> agrees tm' g' fs'"
proof (cases "tm_upload tm")
  case (Some u)
  then show ?thesis
    using assms(2,3) agrees_upload_file [OF assms(1,2) Some]
    by (auto simp: transfer_complete_op_def Let_def agrees_update agrees_remove split: option.splits if_splits)
qed (use assms in \<open>auto simp: transfer_complete_op_def split: option.splits\<close>)

lemma cancel_agrees:
  assumes "agrees tm g fs" and "transfer_cancel_op io tm fs i = (tm', fs')"
  shows "\<exists>g'. transfer_cancel_op io tm g i = (tm', g') \<and> agrees tm' g' fs'"
  using assms by (auto simp: transfer_cancel_op_def agrees_remove split: option.splits if_splits)

definition files_ok :: "crypto \<Rightarrow> turn \<Rightarrow> bool" where
  "files_ok c t \<longleftrightarrow> (\<exists>g. transfer_ok c (rt_transfer (tn_runtime t), g)
     \<and> agrees (rt_transfer (tn_runtime t)) g (tn_files t))"

definition keeps :: "crypto \<Rightarrow> turn \<Rightarrow> turn \<Rightarrow> bool" where
  "keeps c t t' \<longleftrightarrow> same_session t t' \<and> (files_ok c t \<longrightarrow> files_ok c t')"

lemma keeps_refl [simp]: "keeps c t t"
  by (simp add: keeps_def same_session_def)

lemma keeps_trans: "keeps c t u \<Longrightarrow> keeps c u v \<Longrightarrow> keeps c t v"
  by (auto simp: keeps_def same_session_def)

lemma keeps_log [simp]: "keeps c t (log_event e t') = keeps c t t'"
  by (simp add: keeps_def same_session_def files_ok_def log_event_def)

lemma keeps_interfere [simp]: "keeps c t (interfere intf k t') = keeps c t t'"
  by (simp add: keeps_def same_session_def files_ok_def interfere_def)

lemma keeps_shared [simp]: "keeps c t (t'\<lparr>tn_shared := sh\<rparr>) = keeps c t t'"
  by (simp add: keeps_def same_session_def files_ok_def)

lemma keeps_hello [simp]:
  "keeps c t (t'\<lparr>tn_runtime := (tn_runtime t')\<lparr>rt_hello := h\<rparr>\<rparr>) = keeps c t t'"
  by (simp add: keeps_def same_session_def files_ok_def)

lemma keeps_receipts [simp]:
  "keeps c t (t'\<lparr>tn_runtime := (tn_runtime t')\<lparr>rt_command_receipts := m\<rparr>\<rparr>) = keeps c t t'"
  by (simp add: keeps_def same_session_def files_ok_def)

lemma keeps_transfer:
  assumes "\<And>g. transfer_ok c (rt_transfer (tn_runtime t), g) \<Longrightarrow> agrees (rt_transfer (tn_runtime t)) g (tn_files t)
    \<Longrightarrow> \<exists>g'. transfer_ok c (tm, g') \<and> agrees tm g' fs"
  shows "keeps c t (set_transfer tm (t\<lparr>tn_files := fs\<rparr>))"
  using assms by (auto simp: keeps_def same_session_def files_ok_def set_transfer_def)

lemma keeps_hello_handler: "keeps c t (fst (handle_hello intf correlation v t))"
  by (simp add: handle_hello_def Let_def split: sum.split)

lemma keeps_offer_handler: "keeps c t (fst (handle_transfer_offer env correlation v t))"
proof -
  have "keeps c t (set_transfer tm (t\<lparr>tn_files := fs\<rparr>))"
    if "transfer_offer_op (se_io env) (rt_transfer (tn_runtime t)) (tn_files t) offer b = (tm, fs, r)"
    for tm fs r offer b
    by (intro keeps_transfer) (metis offer_keeps offer_agrees that)
  then show ?thesis by (auto simp: handle_transfer_offer_def split: sum.splits prod.splits)
qed

lemma keeps_chunk_handler: "keeps (se_crypto env) t (fst (handle_transfer_chunk env correlation v t))"
proof -
  have "keeps (se_crypto env) t (set_transfer tm (t\<lparr>tn_files := fs\<rparr>))"
    if "transfer_chunk_op (se_crypto env) (se_io env) (rt_transfer (tn_runtime t)) (tn_files t) ch = (tm, fs, r)"
    for tm fs r ch
    by (intro keeps_transfer) (metis chunk_keeps chunk_agrees that)
  then show ?thesis by (auto simp: handle_transfer_chunk_def split: sum.splits prod.splits)
qed

lemma handed_files:
  assumes "transfer_ok c (tm, g)" "agrees tm g fs" and "transfer_complete_op c io tm fs i = (tm', fs', r)"
  shows "\<exists>g'. transfer_ok c (tm', g') \<and> agrees tm' g' fs'
    \<and> (\<forall>v x. r = Inr v \<longrightarrow> agrees tm' g' (fs'(vt_path v := x)))"
proof -
  obtain g' where g': "transfer_complete_op c io tm g i = (tm', g', r)" "agrees tm' g' fs'"
    using complete_agrees [OF assms] by blast
  have ok: "transfer_ok c (tm', g')" "\<forall>v. r = Inr v \<longrightarrow> tm_verified tm' i = Some v"
    using complete_keeps [OF assms(1) g'(1)] by simp_all
  have "agrees tm' g' (fs'(vt_path v := x))" if "r = Inr v" for v x
    using verified_okD [of c tm' g' i v] ok that agrees_handed [OF g'(2)] by (simp add: transfer_ok_def)
  with g'(2) ok(1) show ?thesis by blast
qed

lemma keeps_complete_handler:
  "keeps (se_crypto env) t (fst (handle_transfer_complete env intf correlation v t))"
proof -
  have kept: "keeps (se_crypto env) t (set_transfer tm (t\<lparr>tn_files := fs\<rparr>))"
    "r = Inr v \<Longrightarrow> keeps (se_crypto env) t ((set_transfer tm (t\<lparr>tn_files := fs\<rparr>))\<lparr>tn_files := fs(vt_path v := x)\<rparr>)"
    if "transfer_complete_op (se_crypto env) (se_io env) (rt_transfer (tn_runtime t)) (tn_files t) i = (tm, fs, r)"
    for tm fs r i v x
  proof -
    show "keeps (se_crypto env) t (set_transfer tm (t\<lparr>tn_files := fs\<rparr>))"
      by (intro keeps_transfer) (use handed_files that in blast)
    have "keeps (se_crypto env) t (set_transfer tm (t\<lparr>tn_files := fs(vt_path v := x)\<rparr>))" if "r = Inr v"
      by (intro keeps_transfer)
        (use handed_files [OF _ _ \<open>transfer_complete_op _ _ _ _ i = (tm, fs, r)\<close>] that in blast)
    then show "r = Inr v \<Longrightarrow> keeps (se_crypto env) t ((set_transfer tm (t\<lparr>tn_files := fs\<rparr>))\<lparr>tn_files := fs(vt_path v := x)\<rparr>)"
      by (simp add: keeps_def same_session_def files_ok_def set_transfer_def)
  qed
  then show ?thesis by (auto simp: handle_transfer_complete_def Let_def split: sum.splits prod.splits)
qed

lemma keeps_cancel_handler: "keeps c t (fst (handle_transfer_cancel env v t))"
proof -
  have "keeps c t (set_transfer tm (t\<lparr>tn_files := fs\<rparr>))"
    if "transfer_cancel_op (se_io env) (rt_transfer (tn_runtime t)) (tn_files t) i = (tm, fs)" for tm fs i
    by (intro keeps_transfer) (metis cancel_keeps(1) cancel_agrees that)
  then show ?thesis by (auto simp: handle_transfer_cancel_def split: option.splits prod.splits)
qed

lemma keeps_capture_fanout: "keeps c t (fst (capture_fanout env intf commit t))"
  by (auto simp: capture_fanout_def Let_def split: option.splits prod.splits sum.splits)

lemma keeps_capture_handler: "keeps c t (fst (handle_capture env intf correlation v t))"
proof -
  have "keeps c t t3" if "capture_fanout env intf commit (log_event e (interfere intf 2 t)) = (t3, r)"
    for commit e t3 r
    using keeps_capture_fanout [of c "log_event e (interfere intf 2 t)" env intf commit] that
    by (auto elim: keeps_trans [rotated])
  then show ?thesis by (auto simp: handle_capture_def Let_def split: sum.splits prod.splits)
qed

lemma keeps_dispatch: "keeps (se_crypto env) t (fst (dispatch env intf what correlation v t))"
  using keeps_hello_handler keeps_offer_handler keeps_chunk_handler keeps_complete_handler
    keeps_cancel_handler keeps_capture_handler
  by (auto simp: dispatch_def handle_studio_event_def handle_receipt_def Let_def
      handle_command_request_def handle_command_progress_def split: sum.splits option.splits)

section \<open>Which messages have an effect\<close>

lemma process_envelope_cases:
  fixes env lib intf raw t
  obtains (refused) e where "process_envelope env lib intf raw t = (t, Inl e)"
  | (duplicate) e :: envelope where "process_envelope env lib intf raw t = (t, Inr (Some (''protocol.duplicate-ack'',
         JObj [(''messageId'', JStr (message_id e))], correlation_id e)))"
  | (acted) e g correlation where "wl_envelope lib raw = Some e" "protocol_version e = PROTOCOL_VERSION"
      "env_session_id e = rt_session_id (tn_runtime t)"
      "guard_check (blake3_hash (se_crypto env)) (rt_incoming_sequence (tn_runtime t)) e raw = (g, Inr New)"
      "process_envelope env lib intf raw t = dispatch env intf (kind e) correlation (payload e)
         (t\<lparr>tn_runtime := (tn_runtime t)\<lparr>rt_incoming_sequence := g\<rparr>\<rparr>)"
proof (cases "bindE (ok_or (wl_envelope lib raw) (Json ''envelope'')) (\<lambda>e.
    bindE (guardE (protocol_version e = PROTOCOL_VERSION \<and> env_session_id e = rt_session_id (tn_runtime t))
           ProtocolIncompatible) (\<lambda>_.
    bindE (guardE (case correlation_id e of None \<Rightarrow> True | Some c \<Rightarrow> c \<noteq> [] \<and> length c \<le> 128)
           ReplayDetected) (\<lambda>_.
    bindE (ok_or (wl_rfc3339 lib (sent_at e)) (TransferRejected ''invalid sentAt timestamp'')) (\<lambda>_.
    Inr e))))")
  case (Inl err)
  then show thesis by (intro refused) (simp add: process_envelope_def Let_def)
next
  case (Inr e)
  note wl = Inr [unfolded bindE_eq_Inr guardE_eq_Inr ok_or_eq_Inr]
  have self: "t\<lparr>tn_runtime := (tn_runtime t)\<lparr>rt_incoming_sequence :=
      rt_incoming_sequence (tn_runtime t)\<rparr>\<rparr> = t" by simp
  show thesis
  proof (cases rule: guard_check_cases [of "blake3_hash (se_crypto env)" "rt_incoming_sequence (tn_runtime t)" e raw])
    case new
    then obtain g where "guard_check (blake3_hash (se_crypto env)) (rt_incoming_sequence (tn_runtime t)) e raw
        = (g, Inr New)" by (metis prod.collapse)
    then show thesis using wl Inr acted [of e g] by (auto simp: process_envelope_def Let_def)
  next
    case duplicate
    then have "guard_check (blake3_hash (se_crypto env)) (rt_incoming_sequence (tn_runtime t)) e raw
        = (rt_incoming_sequence (tn_runtime t), Inr Duplicate)" by (metis prod.collapse)
    then show thesis using Inr self that(2) [of e] by (simp add: process_envelope_def Let_def)
  next
    case (refused err)
    then have "guard_check (blake3_hash (se_crypto env)) (rt_incoming_sequence (tn_runtime t)) e raw
        = (rt_incoming_sequence (tn_runtime t), Inl err)" by (metis prod.collapse)
    then show thesis using Inr self that(1) [of err] by (simp add: process_envelope_def Let_def)
  qed
qed

text \<open>C7: only the next message of the session acts: a message that is malformed, for another session
  or version, out of order, a retransmission or a replay leaves the session, the shared state and
  the files exactly as they were; one that changes anything was the expected one, and advances
  the session by one.\<close>

theorem only_next_message_acts:
  assumes "process_envelope env lib intf raw t = (t', r)" and "t' \<noteq> t"
  shows "\<exists>e. wl_envelope lib raw = Some e \<and> env_session_id e = rt_session_id (tn_runtime t)
    \<and> protocol_version e = ''1.0'' \<and> sequence e = expected (rt_incoming_sequence (tn_runtime t))
    \<and> seen (rt_incoming_sequence (tn_runtime t)) (message_id e) = None
    \<and> expected (rt_incoming_sequence (tn_runtime t')) = Suc (sequence e)"
proof (cases rule: process_envelope_cases [of env lib intf raw t])
  case (acted e g correlation)
  let ?t1 = "t\<lparr>tn_runtime := (tn_runtime t)\<lparr>rt_incoming_sequence := g\<rparr>\<rparr>"
  have "fst (dispatch env intf (kind e) correlation (payload e) ?t1) = t'"
    using assms(1) [unfolded acted(5)] by simp
  then have "rt_incoming_sequence (tn_runtime t') = g"
    using keeps_dispatch [of env ?t1 intf "kind e" correlation "payload e"]
    by (simp add: keeps_def same_session_def)
  moreover have "sequence e = expected (rt_incoming_sequence (tn_runtime t))
      \<and> seen (rt_incoming_sequence (tn_runtime t)) (message_id e) = None
      \<and> expected g = Suc (sequence e)"
    using acted(4) by (cases rule: guard_check_cases [of "blake3_hash (se_crypto env)"
        "rt_incoming_sequence (tn_runtime t)" e raw]) simp_all
  ultimately show ?thesis using acted(1-3) by (simp add: PROTOCOL_VERSION_def)
qed (use assms in simp_all)

text \<open>C8: nothing mutates out of context: an offer, chunk or completion of a transfer, a capture proposal,
  an apply receipt or a command message in a session without a binding, without a matching hello, or
  with another context version is answered \<open>ContextStale\<close> and has no effect on the session, the
  shared state or the files. A \<open>transfer.cancel\<close>, which no context guards, then still drops the upload
  in progress if it names it, and changes no file but that upload's partial one, no verified transfer
  and nothing shared.\<close>

theorem mutation_needs_context:
  assumes "bound_context t v = Inl e"
    and "what \<in> {''transfer.offer'', ''transfer.chunk'', ''transfer.complete'', ''transfer.cancel'',
      ''art.capture.proposal'', ''art.apply.receipt'', ''command.succeeded'', ''command.failed'',
      ''command.cancelled'', ''command.request'', ''command.accepted'', ''command.progress''}"
    and "dispatch env intf what correlation v t = (t', r)"
  shows "if what = ''transfer.cancel''
    then r = Inr None \<and> tn_shared t' = tn_shared t
      \<and> tm_verified (rt_transfer (tn_runtime t')) = tm_verified (rt_transfer (tn_runtime t))
      \<and> (t' = t \<or> (\<exists>u. tm_upload (rt_transfer (tn_runtime t)) = Some u
            \<and> json_get_str v ''transferId'' = Some (to_transfer_id (us_offer u))
            \<and> tm_upload (rt_transfer (tn_runtime t')) = None
            \<and> {p. tn_files t' p \<noteq> tn_files t p} \<subseteq> {us_path u}))
    else t' = t \<and> r = Inl ContextStale"
proof -
  have "e = ContextStale"
    using assms(1) by (auto simp: bound_context_def require_bound_context_def bindE_def ok_or_def
        split: sum.splits option.splits if_splits)
  then have stale: "bound_context t v = Inl ContextStale" using assms(1) by simp
  show ?thesis
  proof (cases "what = ''transfer.cancel''")
    case True
    then have "handle_transfer_cancel env v t = (t', r)"
      using assms(3) by (simp add: dispatch_def studio_event_kinds_def)
    then show ?thesis
      using True unfolding handle_transfer_cancel_def transfer_cancel_op_def
      by (auto simp: set_transfer_def remove_file_def split: option.splits if_splits)
  next
    case False
    have "dispatch env intf what correlation v t = (t, Inl ContextStale)"
      using assms(2) False
      by (elim insertE emptyE)
        (simp_all add: stale dispatch_def studio_event_kinds_def receipt_kinds_def handle_transfer_offer_def
          handle_transfer_chunk_def handle_transfer_complete_def handle_capture_def capture_checks_def
          handle_receipt_def handle_command_request_def handle_command_progress_def)
    then show ?thesis using False assms(3) by simp
  qed
qed

section \<open>Runs of the loop\<close>

definition loop_ok :: "crypto \<Rightarrow> loop_state \<Rightarrow> bool" where
  "loop_ok c st \<longleftrightarrow> files_ok c (lp_turn st) \<and> guard_ok (rt_incoming_sequence (tn_runtime (lp_turn st)))
     \<and> 0 < rt_outgoing_sequence (tn_runtime (lp_turn st))
     \<and> map ob_sequence (lp_sent st) = [1 ..< rt_outgoing_sequence (tn_runtime (lp_turn st))]"

lemma loop_ok_emit: "loop_ok c st \<Longrightarrow> loop_ok c (emit env sock k what v correlation st)"
  by (auto simp: loop_ok_def emit_def next_envelope_def Let_def files_ok_def)

lemma loop_ok_flags [simp]:
  "loop_ok c (st\<lparr>lp_alive := b\<rparr>) = loop_ok c st"
  "loop_ok c (st\<lparr>lp_missed_pongs := n\<rparr>) = loop_ok c st"
  "loop_ok c (shared_in st sh) = loop_ok c st"
  by (simp_all add: loop_ok_def shared_in_def files_ok_def)

lemma loop_ok_error: "loop_ok c st \<Longrightarrow> loop_ok c (send_error env e st)"
  by (simp add: send_error_def loop_ok_emit)

lemma loop_ok_prepared:
  assumes "loop_ok c st" and "\<And>r st'. loop_ok c st' \<Longrightarrow> loop_ok c (act r st')"
  shows "loop_ok c (with_prepared env penv revision act st)"
  using assms by (auto simp: with_prepared_def Let_def loop_ok_error split: prod.split sum.split)

lemma loop_ok_push: "loop_ok c st \<Longrightarrow> loop_ok c (handle_push env sock penv deadline push st)"
  by (cases push) (auto simp: Let_def loop_ok_emit intro!: loop_ok_prepared)

lemma process_envelope_ok:
  assumes "files_ok (se_crypto env) t" and "guard_ok (rt_incoming_sequence (tn_runtime t))"
    and "process_envelope env lib intf raw t = (t', r)"
  shows "files_ok (se_crypto env) t' \<and> guard_ok (rt_incoming_sequence (tn_runtime t'))
    \<and> rt_outgoing_sequence (tn_runtime t') = rt_outgoing_sequence (tn_runtime t)
    \<and> rt_session_id (tn_runtime t') = rt_session_id (tn_runtime t)"
proof (cases rule: process_envelope_cases [of env lib intf raw t])
  case (acted e g correlation)
  let ?t1 = "t\<lparr>tn_runtime := (tn_runtime t)\<lparr>rt_incoming_sequence := g\<rparr>\<rparr>"
  have t': "fst (dispatch env intf (kind e) correlation (payload e) ?t1) = t'"
    using assms(3) [unfolded acted(5)] by simp
  have "guard_ok g"
    using guard_step_ok [OF assms(2), of "blake3_hash (se_crypto env)" "(e, raw)"] acted(4)
    by (simp add: guard_step_def)
  moreover have "files_ok (se_crypto env) ?t1" using assms(1) by (simp add: files_ok_def)
  ultimately show ?thesis
    using keeps_dispatch [of env ?t1 intf "kind e" correlation "payload e"]
    by (simp add: t' keeps_def same_session_def)
qed (use assms in auto)

lemma loop_ok_text:
  assumes "loop_ok (se_crypto env) st"
  shows "loop_ok (se_crypto env) (handle_text env lib intf sock text st)"
proof -
  have turn: "loop_ok (se_crypto env) (st'\<lparr>lp_turn := t\<rparr>)"
    if "loop_ok (se_crypto env) st'" "process_envelope env lib intf text (lp_turn st') = (t, r)" for st' t r
    using process_envelope_ok [of env "lp_turn st'" lib intf "text" t r] that by (simp add: loop_ok_def)
  have logged: "loop_ok c (st'\<lparr>lp_turn := log_event e t\<rparr>) = loop_ok c (st'\<lparr>lp_turn := t\<rparr>)" for c st' e t
    by (simp add: loop_ok_def log_event_def files_ok_def)
  show ?thesis
    using assms turn [OF assms] turn [of "st\<lparr>lp_missed_pongs := 0\<rparr>"]
    by (auto simp: handle_text_def Let_def logged intro!: loop_ok_emit loop_ok_error
        split: prod.split sum.split option.split bridge_error.split)
qed

definition session_step ::
  "crypto \<Rightarrow> session_env \<times> wire_lib \<times> (nat \<Rightarrow> bool) \<times> loop_input \<Rightarrow> loop_state \<Rightarrow> loop_state" where
  "session_step c op st = (case op of (env, rest) \<Rightarrow> loop_step (env\<lparr>se_crypto := c\<rparr>, rest) st)"

lemma session_step_ok: "loop_ok c st \<Longrightarrow> loop_ok c (session_step c op st)"
proof -
  obtain env lib sock input where op: "op = (env, lib, sock, input)" by (cases op)
  assume "loop_ok c st"
  then show ?thesis
    using loop_ok_text [of "env\<lparr>se_crypto := c\<rparr>" st]
    by (cases input) (auto simp: op session_step_def loop_step_def Let_def loop_ok_push
        intro!: loop_ok_emit loop_ok_error)
qed

interpretation session: invariant_steps "session_step c" "loop_ok c"
  for c
  by unfold_locales (rule session_step_ok)

lemma session_start_ok: "loop_ok c (session_start sid plugin dir fs sh)"
  using transfer_new_ok [of c dir "sh_limits sh" sid fs] guard_new_ok
  by (auto simp: session_start_def loop_ok_def files_ok_def)

text \<open>what a session writes is numbered 1, 2, 3, ... without gap or repetition, whatever mix of
  requests, pushes, heartbeats, errors and broken sockets it lives through.\<close>

theorem outgoing_sequence_gapless:
  "\<exists>n. map ob_sequence (lp_sent (fold (session_step c) ops (session_start sid plugin dir fs sh))) = [1 ..< Suc n]"
proof -
  have "loop_ok c (fold (session_step c) ops (session_start sid plugin dir fs sh))"
    by (rule session.run_inv) (rule session_start_ok)
  then show ?thesis unfolding loop_ok_def by (metis Suc_pred)
qed

section \<open>Where a verified transfer comes from\<close>

definition verified_of :: "turn \<Rightarrow> string \<rightharpoonup> verified_transfer" where
  "verified_of t = tm_verified (rt_transfer (tn_runtime t))"

lemma verified_of_simps [simp]:
  "verified_of (log_event e t) = verified_of t"
  "verified_of (interfere intf k t) = verified_of t"
  "verified_of (t\<lparr>tn_shared := sh\<rparr>) = verified_of t"
  "verified_of (t\<lparr>tn_files := fs\<rparr>) = verified_of t"
  "verified_of (t\<lparr>tn_runtime := (tn_runtime t')\<lparr>rt_hello := h\<rparr>\<rparr>) = verified_of t'"
  "verified_of (t\<lparr>tn_runtime := (tn_runtime t')\<lparr>rt_command_receipts := m\<rparr>\<rparr>) = verified_of t'"
  "verified_of (t\<lparr>tn_runtime := (tn_runtime t')\<lparr>rt_incoming_sequence := g\<rparr>\<rparr>) = verified_of t'"
  "verified_of (t\<lparr>tn_runtime := (tn_runtime t')\<lparr>rt_outgoing_sequence := n\<rparr>\<rparr>) = verified_of t'"
  "verified_of (set_transfer tm t) = tm_verified tm"
  by (simp_all add: verified_of_def log_event_def interfere_def set_transfer_def)

lemma transfer_ops_verified:
  "transfer_offer_op io tm fs offer b = (tm', fs', r) \<Longrightarrow> tm_verified tm' = tm_verified tm"
  "transfer_chunk_op c io tm fs chunk = (tm', fs', r') \<Longrightarrow> tm_verified tm' = tm_verified tm"
  "transfer_cancel_op io tm fs i = (tm', fs') \<Longrightarrow> tm_verified tm' = tm_verified tm"
  by (auto simp: transfer_offer_op_def transfer_chunk_op_def transfer_cancel_op_def Let_def
      split: sum.splits option.splits if_splits)

text \<open>The completion of a transfer that has just verified it: in quarantine is a file of the recorded size
  and hash. These are the bytes the orchestrator is handed.\<close>

definition completes ::
  "crypto \<Rightarrow> io_env \<Rightarrow> turn \<Rightarrow> string \<Rightarrow> verified_transfer \<Rightarrow> bool" where
  "completes c io t i vt \<longleftrightarrow> verified_of t i = None \<and> (\<exists>tm fs content.
     transfer_complete_op c io (rt_transfer (tn_runtime t)) (tn_files t) i = (tm, fs, Inr vt)
     \<and> fs (vt_path vt) = Some content \<and> length content = vt_size_bytes vt
     \<and> blake3_label (blake3_hash c) content = vt_content_hash vt)"

lemma complete_verified:
  assumes "files_ok c t"
    and "transfer_complete_op c io (rt_transfer (tn_runtime t)) (tn_files t) i = (tm', fs', r)"
    and "tm_verified tm' j = Some vt"
  shows "verified_of t j = Some vt \<or> j = i \<and> completes c io t i vt"
proof (cases "verified_of t i")
  case (Some v)
  then show ?thesis using assms(2,3) by (auto simp: transfer_complete_op_def verified_of_def)
next
  case none: None
  show ?thesis
  proof (cases "tm_upload (rt_transfer (tn_runtime t))")
    case None
    then show ?thesis using assms(2,3) none by (auto simp: transfer_complete_op_def verified_of_def)
  next
    case (Some u)
    obtain g where g: "transfer_ok c (rt_transfer (tn_runtime t), g)" "agrees (rt_transfer (tn_runtime t)) g (tn_files t)"
      using assms(1) by (auto simp: files_ok_def)
    have "\<exists>file. tn_files t (us_path u) = Some file \<and> length file = to_size_bytes (us_offer u)"
      using g(1) Some agrees_upload_file [OF g Some] by (auto simp: transfer_ok_def upload_ok_def)
    then show ?thesis
      using assms(2,3) none Some
      by (auto simp: transfer_complete_op_def completes_def verified_of_def Let_def split: if_splits)
  qed
qed

lemma hello_verified [simp]: "verified_of (fst (handle_hello intf correlation v t)) = verified_of t"
  by (simp add: handle_hello_def Let_def split: sum.split)

lemma offer_verified [simp]: "verified_of (fst (handle_transfer_offer env correlation v t)) = verified_of t"
  using transfer_ops_verified(1)
  by (auto simp: handle_transfer_offer_def verified_of_def [of t] split: sum.splits prod.splits)

lemma chunk_verified [simp]: "verified_of (fst (handle_transfer_chunk env correlation v t)) = verified_of t"
  using transfer_ops_verified(2)
  by (auto simp: handle_transfer_chunk_def verified_of_def [of t] split: sum.splits prod.splits)

lemma cancel_verified [simp]: "verified_of (fst (handle_transfer_cancel env v t)) = verified_of t"
  using transfer_ops_verified(3)
  by (auto simp: handle_transfer_cancel_def verified_of_def [of t] split: option.splits prod.splits)

lemma fanout_verified [simp]: "verified_of (fst (capture_fanout env intf commit t)) = verified_of t"
  by (auto simp: capture_fanout_def Let_def split: option.splits prod.splits sum.splits)

lemma capture_verified [simp]: "verified_of (fst (handle_capture env intf correlation v t)) = verified_of t"
proof -
  have "verified_of t3 = verified_of t" if "capture_fanout env intf commit (log_event e (interfere intf 2 t)) = (t3, r)"
    for commit e t3 r
    using fanout_verified [of env intf commit "log_event e (interfere intf 2 t)"] that by simp
  then show ?thesis by (auto simp: handle_capture_def Let_def split: sum.splits prod.splits)
qed

lemma dispatch_verified:
  assumes "files_ok (se_crypto env) t" and "dispatch env intf what correlation v t = (t', r)"
    and "verified_of t' i = Some vt"
  shows "verified_of t i = Some vt
    \<or> what = ''transfer.complete'' \<and> json_get_str v ''transferId'' = Some i
      \<and> completes (se_crypto env) (se_io env) t i vt"
proof (cases "what = ''transfer.complete''")
  case True
  then have run: "handle_transfer_complete env intf correlation v t = (t', r)"
    using assms(2) by (simp add: dispatch_def studio_event_kinds_def)
  show ?thesis
  proof (cases "bindE (bound_context t v) (\<lambda>binding.
      bindE (ok_or (json_get_str v ''transferId'') (TransferRejected ''missing transferId'')) (\<lambda>i.
      bindE (transfer_require_context (rt_transfer (tn_runtime t)) i binding) (\<lambda>_. Inr i)))")
    case (Inl e)
    then show ?thesis using run assms(3) by (simp add: handle_transfer_complete_def)
  next
    case (Inr j)
    then have j: "json_get_str v ''transferId'' = Some j" by (auto simp: result_simps)
    obtain tm fs x where op: "transfer_complete_op (se_crypto env) (se_io env) (rt_transfer (tn_runtime t))
        (tn_files t) j = (tm, fs, x)" by (metis prod.collapse)
    have "verified_of t' = tm_verified tm"
      using run op Inr by (auto simp: handle_transfer_complete_def Let_def split: sum.splits)
    with complete_verified [OF assms(1) op, of i vt] assms(3) j True show ?thesis by auto
  qed
next
  case False
  then have "verified_of (fst (dispatch env intf what correlation v t)) = verified_of t"
    by (auto simp: dispatch_def handle_studio_event_def handle_receipt_def Let_def
        handle_command_request_def handle_command_progress_def split: sum.splits option.splits)
  then show ?thesis using assms(2,3) by simp
qed

lemma loop_verified_simps [simp]:
  "verified_of (lp_turn (emit env sock k what v correlation st)) = verified_of (lp_turn st)"
  "verified_of (lp_turn (send_error env e st)) = verified_of (lp_turn st)"
  "verified_of (lp_turn (shared_in st sh)) = verified_of (lp_turn st)"
  by (simp_all add: emit_def next_envelope_def Let_def send_error_def shared_in_def)

lemma push_verified [simp]: "verified_of (lp_turn (handle_push env sock penv deadline push st)) = verified_of (lp_turn st)"
  by (cases push) (auto simp: with_prepared_def Let_def split: prod.split sum.split)

lemma text_verified:
  assumes "loop_ok (se_crypto env) st"
    and "verified_of (lp_turn (handle_text env lib intf sock raw st)) i = Some vt"
  shows "verified_of (lp_turn st) i = Some vt
    \<or> (\<exists>e. wl_envelope lib raw = Some e \<and> kind e = ''transfer.complete''
        \<and> json_get_str (payload e) ''transferId'' = Some i
        \<and> completes (se_crypto env) (se_io env) (lp_turn st) i vt)"
proof -
  let ?t = "lp_turn st"
  obtain t' r where run: "process_envelope env lib intf raw ?t = (t', r)"
    by (cases "process_envelope env lib intf raw ?t")
  have "verified_of (lp_turn (handle_text env lib intf sock raw st)) \<in> {verified_of ?t, verified_of t'}"
    using run by (auto simp: handle_text_def Let_def split: sum.split option.split bridge_error.split)
  then consider "verified_of ?t i = Some vt" | "verified_of t' i = Some vt" using assms(2) by auto
  then show ?thesis
  proof cases
    case 2
    show ?thesis
    proof (cases rule: process_envelope_cases [of env lib intf raw ?t])
      case (acted e g correlation)
      let ?t1 = "?t\<lparr>tn_runtime := (tn_runtime ?t)\<lparr>rt_incoming_sequence := g\<rparr>\<rparr>"
      have ok: "files_ok (se_crypto env) ?t1" using assms(1) by (simp add: loop_ok_def files_ok_def)
      have same: "completes c io ?t1 i vt = completes c io ?t i vt" for c io by (simp add: completes_def)
      from dispatch_verified [OF ok, of intf "kind e" correlation "payload e" t' r i vt] 2 run acted
      show ?thesis by (auto simp: same)
    qed (use run 2 in auto)
  qed simp
qed

text \<open>The turn of a run in which a transfer was completed.\<close>

definition completed_in ::
  "crypto \<Rightarrow> loop_state \<Rightarrow> (session_env \<times> wire_lib \<times> (nat \<Rightarrow> bool) \<times> loop_input) list
   \<Rightarrow> string \<Rightarrow> verified_transfer \<Rightarrow> bool" where
  "completed_in c start ops i vt \<longleftrightarrow>
     (\<exists>before env lib sock intf raw later e. ops = before @ (env, lib, sock, InText intf raw) # later
        \<and> wl_envelope lib raw = Some e \<and> kind e = ''transfer.complete''
        \<and> json_get_str (payload e) ''transferId'' = Some i
        \<and> completes c (se_io env) (lp_turn (fold (session_step c) before start)) i vt)"

lemma completed_in_append: "completed_in c start ops i vt \<Longrightarrow> completed_in c start (ops @ ops') i vt"
  unfolding completed_in_def by (elim exE conjE) (simp, blast)

lemma step_verified:
  assumes "loop_ok c st" and "verified_of (lp_turn (session_step c op st)) i = Some vt"
  shows "verified_of (lp_turn st) i = Some vt
    \<or> (\<exists>env lib sock intf raw e. op = (env, lib, sock, InText intf raw) \<and> wl_envelope lib raw = Some e
        \<and> kind e = ''transfer.complete'' \<and> json_get_str (payload e) ''transferId'' = Some i
        \<and> completes c (se_io env) (lp_turn st) i vt)"
proof -
  obtain env lib sock input where op: "op = (env, lib, sock, input)" by (cases op)
  show ?thesis
  proof (cases "lp_alive st")
    case True
    show ?thesis
    proof (cases input)
      case (InText intf raw)
      then have "verified_of (lp_turn (handle_text (env\<lparr>se_crypto := c\<rparr>) lib intf sock raw st)) i = Some vt"
        using assms(2) True by (simp add: op session_step_def loop_step_def)
      from text_verified [OF _ this] assms(1) show ?thesis by (auto simp: op InText)
    qed (use assms(2) True in \<open>auto simp: op session_step_def loop_step_def Let_def split: if_splits\<close>)
  qed (use assms(2) in \<open>simp add: op session_step_def loop_step_def\<close>)
qed

lemma verified_completed:
  "verified_of (lp_turn (fold (session_step c) ops (session_start sid plugin dir fs sh))) i = Some vt
   \<Longrightarrow> completed_in c (session_start sid plugin dir fs sh) ops i vt"
proof (induction ops rule: rev_induct)
  case Nil
  then show ?case by (simp add: verified_of_def session_start_def transfer_new_def)
next
  case (snoc op ops)
  let ?start = "session_start sid plugin dir fs sh"
  have "loop_ok c (fold (session_step c) ops ?start)"
    by (rule session.run_inv) (rule session_start_ok)
  from step_verified [OF this] snoc.prems have "verified_of (lp_turn (fold (session_step c) ops ?start)) i = Some vt
      \<or> (\<exists>env lib sock intf raw e. op = (env, lib, sock, InText intf raw) \<and> wl_envelope lib raw = Some e
        \<and> kind e = ''transfer.complete'' \<and> json_get_str (payload e) ''transferId'' = Some i
        \<and> completes c (se_io env) (lp_turn (fold (session_step c) ops ?start)) i vt)" by simp
  then show ?case
  proof
    assume "verified_of (lp_turn (fold (session_step c) ops ?start)) i = Some vt"
    then show ?thesis by (intro completed_in_append snoc.IH)
  qed (unfold completed_in_def, blast)
qed

section \<open>Captures\<close>

text \<open>C5: a capture is only proposed for bytes this session uploaded: when, after any run of the session, the
  capture checks pass, the named transfer is verified for that cell under the bridge's current binding,
  the slot is an absolute path, and an earlier \<open>transfer.complete\<close> of the session, naming that
  transfer, found it not yet verified and left in quarantine a file of exactly the recorded size and
  hash: the file the orchestrator was then handed, and may have removed since.\<close>

theorem capture_has_verified_bytes:
  assumes "t = lp_turn (fold (session_step c) ops (session_start sid plugin dir fs sh))"
    and "capture_checks v t = Inr cp"
  shows "\<exists>b vt. sh_binding (tn_shared t) = Some b
    \<and> tm_verified (rt_transfer (tn_runtime t)) (cp_transfer_id cp) = Some vt
    \<and> vt_resource_id vt = cp_cell_id cp \<and> vt_binding vt = b \<and> starts_with ''/'' (cp_slot_path cp)
    \<and> (\<exists>before env lib sock intf raw later e tm fs' content.
         ops = before @ (env, lib, sock, InText intf raw) # later
         \<and> wl_envelope lib raw = Some e \<and> kind e = ''transfer.complete''
         \<and> json_get_str (payload e) ''transferId'' = Some (cp_transfer_id cp)
         \<and> (let u = lp_turn (fold (session_step c) before (session_start sid plugin dir fs sh))
            in tm_verified (rt_transfer (tn_runtime u)) (cp_transfer_id cp) = None
             \<and> transfer_complete_op c (se_io env) (rt_transfer (tn_runtime u)) (tn_files u) (cp_transfer_id cp)
               = (tm, fs', Inr vt))
         \<and> fs' (vt_path vt) = Some content \<and> length content = vt_size_bytes vt
         \<and> blake3_label (blake3_hash c) content = vt_content_hash vt)"
proof -
  obtain b where b: "bound_context t v = Inr b"
    "is_verified_for (rt_transfer (tn_runtime t)) (cp_transfer_id cp) (cp_cell_id cp) b"
    "starts_with ''/'' (cp_slot_path cp)"
    using assms(2) by (auto simp: capture_checks_def result_simps)
  then obtain vt where vt: "tm_verified (rt_transfer (tn_runtime t)) (cp_transfer_id cp) = Some vt"
    "vt_resource_id vt = cp_cell_id cp" "vt_binding vt = b"
    by (auto simp: is_verified_for_def split: option.splits)
  have "completed_in c (session_start sid plugin dir fs sh) ops (cp_transfer_id cp) vt"
    using verified_completed vt(1) by (simp add: assms(1) verified_of_def)
  then obtain before env lib sock intf raw later e tm fs' content where
    "ops = before @ (env, lib, sock, InText intf raw) # later" "wl_envelope lib raw = Some e"
    "kind e = ''transfer.complete''" "json_get_str (payload e) ''transferId'' = Some (cp_transfer_id cp)"
    "let u = lp_turn (fold (session_step c) before (session_start sid plugin dir fs sh))
     in tm_verified (rt_transfer (tn_runtime u)) (cp_transfer_id cp) = None
      \<and> transfer_complete_op c (se_io env) (rt_transfer (tn_runtime u)) (tn_files u) (cp_transfer_id cp) = (tm, fs', Inr vt)"
    "fs' (vt_path vt) = Some content" "length content = vt_size_bytes vt"
    "blake3_label (blake3_hash c) content = vt_content_hash vt"
    unfolding completed_in_def completes_def verified_of_def Let_def by blast
  moreover have "sh_binding (tn_shared t) = Some b"
    using b(1) by (simp add: bound_context_def require_bound_context_iff)
  ultimately show ?thesis using vt b(3) by blast
qed

text \<open>a managed slot path may be up to 1024 bytes by the handler's own check, but it is read
  with \<open>required_string\<close>, so that a path longer than 256 bytes is refused as missing.\<close>

theorem long_slot_paths_refused:
  assumes "json_get_str v ''slotPath'' = Some path" and "256 < length path"
  shows "\<exists>e. capture_checks v t = Inl e"
  using assms
  by (auto simp: capture_checks_def required_string_def bindE_def guardE_def split: sum.split option.split)

text \<open>refreshing the accepted head keeps project, channel and context version, so hellos and
  messages still match; but transfers compare the whole binding, so every upload in progress and
  every verified transfer of the old head is refused as stale.\<close>

theorem head_update_strands_transfers:
  assumes "transfer_require_context tm i b = Inr ()" and "is_verified_for tm i cell b"
    and "sb_accepted_art_head b \<noteq> Some revision_id"
  shows "hello_matches_binding h (with_head revision_id state_root b) = hello_matches_binding h b
    \<and> sb_context_version (with_head revision_id state_root b) = sb_context_version b
    \<and> transfer_require_context tm i (with_head revision_id state_root b) = Inl ContextStale
    \<and> \<not> is_verified_for tm i cell (with_head revision_id state_root b)"
proof -
  have ne: "b \<noteq> with_head revision_id state_root b"
  proof
    assume "b = with_head revision_id state_root b"
    then have "sb_accepted_art_head b = sb_accepted_art_head (with_head revision_id state_root b)" by simp
    then show False using assms(3) by (simp add: with_head_def)
  qed
  have "transfer_require_context tm i (with_head revision_id state_root b) = Inl ContextStale"
    using assms(1) ne
    by (auto simp: transfer_require_context_def Let_def bindE_def ok_or_def split: option.splits if_splits)
  then show ?thesis using assms(2) ne
    by (auto simp: hello_matches_binding_def with_head_def is_verified_for_def split: option.splits)
qed

text \<open>the head update after a capture's fan-out does not look at the context again: if the
  desktop switches the binding while the fan-out is being sent, the captured revision becomes the
  accepted head of the new binding, whatever its project.\<close>

theorem capture_overwrites_switched_binding:
  assumes "cc_fanout commit = Some revision"
    and "capture_fanout env intf commit t = (t', Inr sent)"
    and "\<And>sh. sh_binding (intf 3 sh) = Some other"
  shows "sh_binding (tn_shared t') = Some (with_head (cc_revision_id commit) (cc_state_root commit) other)"
  using assms
  by (auto simp: capture_fanout_def Let_def interfere_def update_accepted_head_def
      split: prod.splits sum.splits)

section \<open>Witnesses\<close>

text \<open>An orchestrator that, like the desktop's, removes the verified file once it has its bytes.\<close>

definition wit_orchestrator :: orchestrator where
  "wit_orchestrator = \<lparr>transfer_verified = (\<lambda>_ _. (Inr (), None)), capture_proposal = (\<lambda>_. Inl ''offline'')\<rparr>"

definition wit_shared :: bridge_shared where
  "wit_shared = \<lparr>sh_binding = Some wit_binding, sh_sessions = [], sh_limits = default_limits,
     sh_heartbeat_seconds = 10, sh_orchestrator = Some wit_orchestrator, sh_downloads = Map.empty, sh_events = []\<rparr>"

definition wit_senv :: session_env where
  "wit_senv = \<lparr>se_crypto = toy_crypto, se_io = no_fault, se_fanout = wit_fanout_env, se_message_id = (\<lambda>n. ''m''),
     se_sent_at = (\<lambda>n. ''T'')\<rparr>"

definition wit_msg :: "nat \<Rightarrow> string \<Rightarrow> json \<Rightarrow> envelope" where
  "wit_msg n what v = \<lparr>protocol_version = ''1.0'', kind = what, message_id = replicate n CHR ''m'',
     correlation_id = None, sequence = n, sent_at = ''T'', env_session_id = ''ses_1'', payload = v\<rparr>"

definition wit_lib :: "envelope \<Rightarrow> wire_lib" where
  "wit_lib e = \<lparr>wl_envelope = (\<lambda>_. Some e), wl_value = (\<lambda>_. None), wl_rfc3339 = (\<lambda>_. Some 0)\<rparr>"

definition quiet :: interference where
  "quiet = (\<lambda>_ sh. sh)"

definition wit_start :: loop_state where
  "wit_start = session_start ''ses_1'' ''plg_0001'' ''q'' Map.empty wit_shared"

theorem only_next_message_acts_witness:
  "\<exists>t'. process_envelope wit_senv (wit_lib (wit_msg 1 ''session.pong'' JNull)) quiet [1] (lp_turn wit_start)
      = (t', Inr None) \<and> expected (rt_incoming_sequence (tn_runtime t')) = 2"
proof -
  obtain t' where t': "process_envelope wit_senv (wit_lib (wit_msg 1 ''session.pong'' JNull)) quiet [1]
      (lp_turn wit_start) = (t', Inr None)" "t' \<noteq> lp_turn wit_start"
    by (simp add: process_envelope_def wit_lib_def wit_msg_def wit_start_def session_start_def Let_def
        PROTOCOL_VERSION_def guard_check_def guard_new_def guard_admit_def dispatch_def wit_senv_def)
  from only_next_message_acts [OF t'] t'(1) show ?thesis
    by (simp add: wit_lib_def wit_msg_def)
qed

theorem mutation_needs_context_witness:
  "dispatch wit_senv quiet ''transfer.offer'' None JNull (lp_turn wit_start)
    = (lp_turn wit_start, Inl ContextStale)"
proof -
  obtain t' r where run: "dispatch wit_senv quiet ''transfer.offer'' None JNull (lp_turn wit_start) = (t', r)"
    by (cases "dispatch wit_senv quiet ''transfer.offer'' None JNull (lp_turn wit_start)")
  have "bound_context (lp_turn wit_start) JNull = Inl ContextStale"
    by (simp add: bound_context_def require_bound_context_def wit_start_def session_start_def wit_shared_def)
  from mutation_needs_context [OF this _ run] run show ?thesis by simp
qed

theorem long_slot_paths_refused_witness:
  "\<exists>e. capture_checks (JObj [(''slotPath'', JStr (replicate 300 CHR ''/''))]) (lp_turn wit_start) = Inl e"
  by (rule long_slot_paths_refused [where path = "replicate 300 CHR ''/''"]) (simp_all add: json_get_str_def)

theorem head_update_strands_transfers_witness:
  "transfer_require_context (wit_tm\<lparr>tm_verified := [''op_0001'' \<mapsto> wit_verified]\<rparr>) ''op_0001''
     (with_head ''rev_2'' ''root'' wit_binding) = Inl ContextStale"
  using head_update_strands_transfers [of "wit_tm\<lparr>tm_verified := [''op_0001'' \<mapsto> wit_verified]\<rparr>" "''op_0001''"
      wit_binding "''cell_0001''" "''rev_2''" wit_hello "''root''"]
  by (simp add: transfer_require_context_def transfer_new_def is_verified_for_def wit_binding_def)

theorem capture_overwrites_switched_binding_witness:
  "\<exists>t' n. capture_fanout wit_senv (\<lambda>_ sh. sh\<lparr>sh_binding := Some (wit_binding\<lparr>sb_project_id := ''other''\<rparr>)\<rparr>)
      \<lparr>cc_revision_id = ''rev_1'', cc_status = ''accepted'', cc_state_root = ''root'',
       cc_fanout = Some (wit_revision [''cell_0001''] [wit_cell])\<rparr> (lp_turn wit_start) = (t', Inr n)
    \<and> sh_binding (tn_shared t') = Some (with_head ''rev_1'' ''root'' (wit_binding\<lparr>sb_project_id := ''other''\<rparr>))"
proof -
  let ?c = "\<lparr>cc_revision_id = ''rev_1'', cc_status = ''accepted'', cc_state_root = ''root'',
       cc_fanout = Some (wit_revision [''cell_0001''] [wit_cell])\<rparr>"
  let ?i = "\<lambda>(_ :: nat) sh. sh\<lparr>sh_binding := Some (wit_binding\<lparr>sb_project_id := ''other''\<rparr>)\<rparr> :: bridge_shared"
  have "validate_incoming_revision toy_crypto default_limits (wit_revision [''cell_0001''] [wit_cell]) = Inr ()"
    using wit_cell_valid by (simp add: validate_incoming_revision_def Let_def wit_revision_def wit_cell_def)
  then obtain t' n where "capture_fanout wit_senv ?i ?c (lp_turn wit_start) = (t', Inr n)"
    by (simp add: capture_fanout_def Let_def handle_fanout_def fanout_accepted_revision_def wit_start_def
        session_start_def wit_shared_def wit_senv_def fanout_target_def)
  from capture_overwrites_switched_binding [OF _ this] this show ?thesis by simp
qed

text \<open>A whole session: hello, offer, chunk, completion; then a capture proposal passes its checks.\<close>

definition wit_hello_json :: json where
  "wit_hello_json = JObj [(''projectId'', JStr ''prj''), (''channel'', JStr ''development''),
     (''capabilities'', JArr [JStr ''base64-chunks'', JStr ''http-download-v1''])]"

definition wit_offer_json :: json where
  "wit_offer_json = JObj [(''contextVersion'', JNum 7), (''transferId'', JStr ''op_0001''),
     (''direction'', JStr ''upload''), (''purpose'', JStr ''art-cell''), (''resourceId'', JStr ''cell_0001''),
     (''contentHash'', JStr (blake3_label (blake3_hash toy_crypto) [1, 2])),
     (''mediaType'', JStr ''application/x-roblox-rbxm''), (''sizeBytes'', JNum 2),
     (''chunkSizeBytes'', JNum 2), (''chunkCount'', JNum 1), (''encoding'', JStr ''base64url''),
     (''compression'', JStr ''none'')]"

definition wit_chunk_json :: json where
  "wit_chunk_json = JObj [(''contextVersion'', JNum 7), (''transferId'', JStr ''op_0001''),
     (''chunkIndex'', JNum 0), (''offsetBytes'', JNum 0), (''rawSizeBytes'', JNum 2),
     (''chunkHash'', JStr (blake3_label (blake3_hash toy_crypto) [1, 2])),
     (''data'', JStr (pad_enc [1, 2]))]"

definition wit_complete_json :: json where
  "wit_complete_json = JObj [(''contextVersion'', JNum 7), (''transferId'', JStr ''op_0001'')]"

definition wit_capture_json :: json where
  "wit_capture_json = JObj [(''contextVersion'', JNum 7), (''cellId'', JStr ''cell_0001''),
     (''transferId'', JStr ''op_0001''), (''slotPath'', JStr ''/Workspace/Map''), (''mutationEpoch'', JNum 3)]"

definition wit_input :: "nat \<Rightarrow> string \<Rightarrow> json \<Rightarrow> session_env \<times> wire_lib \<times> (nat \<Rightarrow> bool) \<times> loop_input" where
  "wit_input n what v = (wit_senv, wit_lib (wit_msg n what v), \<lambda>_. True, InText quiet (replicate n 1))"

lemma wit_parsed:
  "parse_hello wit_hello_json = Inr wit_hello"
  "parse_transfer_offer wit_offer_json = Inr (wit_offer [1, 2])"
  "parse_transfer_chunk wit_chunk_json = Inr (honest_chunk toy_crypto pad_enc wit_binding (wit_offer [1, 2]) [1, 2] 0)"
proof -
  show "parse_hello wit_hello_json = Inr wit_hello"
    by (simp add: parse_hello_def wit_hello_json_def json_opt_str_def json_get_str_def hello_capabilities_def
        wit_hello_def Let_def List.map_filter_def)
  show "parse_transfer_offer wit_offer_json = Inr (wit_offer [1, 2])"
    by (simp add: parse_transfer_offer_def wit_offer_json_def json_get_str_def json_get_u64_def Let_def
        honest_offer_def wit_binding_def div_ceil_def)
  show "parse_transfer_chunk wit_chunk_json
      = Inr (honest_chunk toy_crypto pad_enc wit_binding (wit_offer [1, 2]) [1, 2] 0)"
    by (simp add: parse_transfer_chunk_def wit_chunk_json_def json_get_str_def json_get_u64_def Let_def
        honest_chunk_def honest_offer_def wit_binding_def chunk_offset_def chunk_len_def chunk_slice_def)
qed

definition wit_turn :: "transfer_manager \<Rightarrow> fs \<Rightarrow> hello_context option \<Rightarrow> turn \<Rightarrow> bool" where
  "wit_turn tm fs h t \<longleftrightarrow> rt_transfer (tn_runtime t) = tm \<and> tn_files t = fs \<and> rt_hello (tn_runtime t) = h
     \<and> rt_session_id (tn_runtime t) = ''ses_1'' \<and> sh_limits (tn_shared t) = default_limits
     \<and> sh_binding (tn_shared t) = Some wit_binding \<and> sh_orchestrator (tn_shared t) = Some wit_orchestrator"

definition wit_guard :: "nat \<Rightarrow> sequence_guard \<Rightarrow> bool" where
  "wit_guard n g \<longleftrightarrow> expected g = n \<and> (\<forall>m \<ge> n. seen g (replicate m CHR ''m'') = None)"

definition wit_at :: "nat \<Rightarrow> transfer_manager \<Rightarrow> fs \<Rightarrow> hello_context option \<Rightarrow> loop_state \<Rightarrow> bool" where
  "wit_at n tm fs h st \<longleftrightarrow> lp_alive st \<and> wit_turn tm fs h (lp_turn st)
     \<and> wit_guard n (rt_incoming_sequence (tn_runtime (lp_turn st)))"

lemma wit_guard_check:
  assumes "wit_guard n g" and "0 < n" and "n \<le> 128"
  shows "\<exists>g'. guard_check f g (wit_msg n what v) raw = (g', Inr New) \<and> wit_guard (Suc n) g'"
proof -
  let ?g = "guard_admit g (replicate n CHR ''m'') (f raw)"
  have "guard_check f g (wit_msg n what v) raw = (?g, Inr New)"
    using assms by (simp add: guard_check_def wit_guard_def wit_msg_def)
  moreover have "wit_guard (Suc n) ?g"
    using assms(1) by (auto simp: wit_guard_def guard_admit_def Let_def split: list.split)
  ultimately show ?thesis by blast
qed

lemma wit_step:
  assumes at: "wit_at n tm fs h st" and n: "0 < n" "n \<le> 128"
    and act: "\<And>t. wit_turn tm fs h t \<Longrightarrow> \<exists>t' a. dispatch wit_senv quiet what
      (Some (replicate n CHR ''m'')) v t = (t', Inr a) \<and> wit_turn tm' fs' h' t'"
  shows "wit_at (Suc n) tm' fs' h' (session_step toy_crypto (wit_input n what v) st)"
proof -
  let ?t = "lp_turn st"
  have self: "wit_senv\<lparr>se_crypto := toy_crypto\<rparr> = wit_senv" by (simp add: wit_senv_def)
  obtain g where g: "guard_check (blake3_hash (se_crypto wit_senv)) (rt_incoming_sequence (tn_runtime ?t))
      (wit_msg n what v) (replicate n 1) = (g, Inr New)" "wit_guard (Suc n) g"
    using wit_guard_check at n by (force simp: wit_at_def)
  let ?t1 = "?t\<lparr>tn_runtime := (tn_runtime ?t)\<lparr>rt_incoming_sequence := g\<rparr>\<rparr>"
  have "wit_turn tm fs h ?t1" using at by (simp add: wit_at_def wit_turn_def)
  then obtain t' a where t': "dispatch wit_senv quiet what (Some (replicate n CHR ''m'')) v ?t1 = (t', Inr a)"
    "wit_turn tm' fs' h' t'" using act by blast
  have g': "rt_incoming_sequence (tn_runtime t') = g"
    using keeps_dispatch [of wit_senv ?t1 quiet what "Some (replicate n CHR ''m'')" v] t'(1)
    by (simp add: keeps_def same_session_def)
  have "process_envelope wit_senv (wit_lib (wit_msg n what v)) quiet (replicate n 1) ?t = (t', Inr a)"
    using at g(1) t'(1)
    by (simp add: process_envelope_def Let_def wit_lib_def PROTOCOL_VERSION_def wit_at_def wit_turn_def)
      (simp add: wit_msg_def)
  moreover have "\<not> max_control_message_bytes (sh_limits (tn_shared ?t)) < n"
    using at n by (simp add: wit_at_def wit_turn_def default_limits_def)
  ultimately have handled: "handle_text wit_senv (wit_lib (wit_msg n what v)) quiet (\<lambda>_. True) (replicate n 1) st
      = (case a of None \<Rightarrow> st\<lparr>lp_turn := t'\<rparr>
         | Some (w, x, c) \<Rightarrow> emit wit_senv (\<lambda>_. True) 0 w x c (st\<lparr>lp_turn := t'\<rparr>))"
    by (simp add: handle_text_def Let_def wit_lib_def split: option.split)
  show ?thesis
    using at t'(2) g(2) g' unfolding session_step_def wit_input_def
    by (auto simp: self loop_step_def handled wit_at_def wit_turn_def emit_def next_envelope_def Let_def
        split: option.split)
qed

abbreviation wit_done :: "transfer_manager" where
  "wit_done \<equiv> wit_tm\<lparr>tm_verified := [''op_0001'' \<mapsto> wit_verified]\<rparr>"

lemma wit_context:
  "wit_turn tm fs (Some wit_hello) t \<Longrightarrow> json_get_u64 v ''contextVersion'' = Some 7
     \<Longrightarrow> bound_context t v = Inr wit_binding"
  by (simp add: bound_context_def require_bound_context_iff wit_turn_def)
    (simp add: hello_matches_binding_def wit_hello_def wit_binding_def)

lemma wit_versions:
  "json_get_u64 wit_offer_json ''contextVersion'' = Some 7"
  "json_get_u64 wit_chunk_json ''contextVersion'' = Some 7"
  "json_get_u64 wit_complete_json ''contextVersion'' = Some 7"
  "json_get_u64 wit_capture_json ''contextVersion'' = Some 7"
  "json_get_str wit_complete_json ''transferId'' = Some ''op_0001''"
  "tc_transfer_id wit_chunk = ''op_0001''"
  by (simp_all add: wit_offer_json_def wit_chunk_json_def wit_complete_json_def wit_capture_json_def
      json_get_u64_def json_get_str_def honest_chunk_def honest_offer_def)

lemma wit_dispatch_hello:
  "wit_turn wit_tm Map.empty None t \<Longrightarrow> \<exists>t' a.
     dispatch wit_senv quiet ''session.hello'' corr wit_hello_json t = (t', Inr a)
     \<and> wit_turn wit_tm Map.empty (Some wit_hello) t'"
  by (simp add: dispatch_def handle_hello_def wit_parsed Let_def interfere_def quiet_def wit_turn_def)

lemma wit_env_fields: "se_crypto wit_senv = toy_crypto" "se_io wit_senv = no_fault"
  by (simp_all add: wit_senv_def)

lemma wit_dispatch_offer:
  assumes "wit_turn wit_tm Map.empty (Some wit_hello) t"
  shows "\<exists>t' a. dispatch wit_senv quiet ''transfer.offer'' corr wit_offer_json t = (t', Inr a)
    \<and> wit_turn (wit_tm\<lparr>tm_upload := Some (wit_upload False None)\<rparr>)
        [(''q'', ''ses_1-op_0001.partial'') \<mapsto> [0, 0]] (Some wit_hello) t'"
  using assms toy_offered wit_context [OF assms wit_versions(1)]
  by (auto simp: dispatch_def studio_event_kinds_def handle_transfer_offer_def wit_parsed wit_env_fields
      wit_turn_def set_transfer_def)

lemma wit_dispatch_chunk:
  assumes "wit_turn (wit_tm\<lparr>tm_upload := Some (wit_upload False None)\<rparr>)
    [(''q'', ''ses_1-op_0001.partial'') \<mapsto> [0, 0]] (Some wit_hello) t"
  shows "\<exists>t' a. dispatch wit_senv quiet ''transfer.chunk'' corr wit_chunk_json t = (t', Inr a)
    \<and> wit_turn (wit_tm\<lparr>tm_upload := Some (wit_upload True (Some (tc_chunk_hash wit_chunk)))\<rparr>)
        [(''q'', ''ses_1-op_0001.partial'') \<mapsto> [1, 2]] (Some wit_hello) t'"
proof -
  have "transfer_require_context (rt_transfer (tn_runtime t)) ''op_0001'' wit_binding = Inr ()"
    using assms by (simp add: transfer_require_context_def wit_turn_def toy_fields)
  then show ?thesis
    using assms toy_chunked wit_context [OF assms wit_versions(2)]
    by (auto simp: dispatch_def studio_event_kinds_def handle_transfer_chunk_def wit_parsed wit_env_fields
        wit_turn_def set_transfer_def wit_versions(6))
qed

lemma wit_dispatch_complete:
  assumes "wit_turn (wit_tm\<lparr>tm_upload := Some (wit_upload True h)\<rparr>)
    [(''q'', ''ses_1-op_0001.partial'') \<mapsto> [1, 2]] (Some wit_hello) t"
  shows "\<exists>t' a. dispatch wit_senv quiet ''transfer.complete'' corr wit_complete_json t = (t', Inr a)
    \<and> wit_turn wit_done Map.empty (Some wit_hello) t'"
proof -
  have "transfer_require_context (rt_transfer (tn_runtime t)) ''op_0001'' wit_binding = Inr ()"
    using assms by (simp add: transfer_require_context_def wit_turn_def toy_fields)
  then show ?thesis
    using assms toy_completed [of h] wit_context [OF assms wit_versions(3)]
    by (auto simp: dispatch_def studio_event_kinds_def handle_transfer_complete_def wit_env_fields
        wit_turn_def set_transfer_def wit_versions(5) Let_def interfere_def quiet_def log_event_def
        wit_orchestrator_def verified_path_def transfer_new_def)
qed

definition wit_final :: loop_state where
  "wit_final = fold (session_step toy_crypto)
     [wit_input 1 ''session.hello'' wit_hello_json, wit_input 2 ''transfer.offer'' wit_offer_json,
      wit_input 3 ''transfer.chunk'' wit_chunk_json, wit_input 4 ''transfer.complete'' wit_complete_json]
     (session_start ''ses_1'' ''plg_0001'' ''q'' Map.empty wit_shared)"

lemma wit_session_run:
  "wit_at 5 wit_done Map.empty (Some wit_hello) wit_final"
proof -
  have 0: "wit_at 1 wit_tm Map.empty None wit_start"
    by (simp add: wit_at_def wit_turn_def wit_guard_def wit_start_def session_start_def wit_shared_def guard_new_def)
  have 1: "wit_at (Suc 1) wit_tm Map.empty (Some wit_hello)
      (session_step toy_crypto (wit_input 1 ''session.hello'' wit_hello_json) wit_start)" (is "wit_at _ _ _ _ ?s1")
    by (rule wit_step [OF 0 _ _ wit_dispatch_hello]) simp_all
  have 2: "wit_at (Suc 2) (wit_tm\<lparr>tm_upload := Some (wit_upload False None)\<rparr>)
      [(''q'', ''ses_1-op_0001.partial'') \<mapsto> [0, 0]] (Some wit_hello)
      (session_step toy_crypto (wit_input 2 ''transfer.offer'' wit_offer_json) ?s1)" (is "wit_at _ _ _ _ ?s2")
    by (rule wit_step [OF 1 [unfolded Suc_1] _ _ wit_dispatch_offer]) simp_all
  have 3: "wit_at (Suc 3) (wit_tm\<lparr>tm_upload := Some (wit_upload True (Some (tc_chunk_hash wit_chunk)))\<rparr>)
      [(''q'', ''ses_1-op_0001.partial'') \<mapsto> [1, 2]] (Some wit_hello)
      (session_step toy_crypto (wit_input 3 ''transfer.chunk'' wit_chunk_json) ?s2)" (is "wit_at _ _ _ _ ?s3")
    by (rule wit_step [OF _ _ _ wit_dispatch_chunk]) (use 2 in simp_all)
  have "wit_at (Suc 4) wit_done Map.empty (Some wit_hello)
      (session_step toy_crypto (wit_input 4 ''transfer.complete'' wit_complete_json) ?s3)"
    by (rule wit_step [OF _ _ _ wit_dispatch_complete]) (use 3 in simp_all)
  then show ?thesis by (simp add: wit_final_def wit_start_def)
qed

theorem capture_has_verified_bytes_witness:
  "\<exists>cp. capture_checks wit_capture_json (lp_turn wit_final) = Inr cp
    \<and> tn_files (lp_turn wit_final) = Map.empty
    \<and> (\<exists>vt before env lib sock intf raw later tm fs content.
         [wit_input 1 ''session.hello'' wit_hello_json, wit_input 2 ''transfer.offer'' wit_offer_json,
          wit_input 3 ''transfer.chunk'' wit_chunk_json, wit_input 4 ''transfer.complete'' wit_complete_json]
         = before @ (env, lib, sock, InText intf raw) # later
         \<and> transfer_complete_op toy_crypto (se_io env)
             (rt_transfer (tn_runtime (lp_turn (fold (session_step toy_crypto) before wit_start))))
             (tn_files (lp_turn (fold (session_step toy_crypto) before wit_start))) (cp_transfer_id cp) = (tm, fs, Inr vt)
         \<and> fs (vt_path vt) = Some content \<and> length content = vt_size_bytes vt)"
proof -
  have t: "wit_turn wit_done Map.empty (Some wit_hello) (lp_turn wit_final)"
    using wit_session_run by (simp add: wit_at_def)
  then obtain cp where cp: "capture_checks wit_capture_json (lp_turn wit_final) = Inr cp"
    using wit_context [OF t wit_versions(4)]
    by (simp add: capture_checks_def required_string_def wit_capture_json_def json_get_str_def
        json_get_u64_def result_simps is_verified_for_def wit_turn_def)
  have "lp_turn wit_final = lp_turn (fold (session_step toy_crypto)
     [wit_input 1 ''session.hello'' wit_hello_json, wit_input 2 ''transfer.offer'' wit_offer_json,
      wit_input 3 ''transfer.chunk'' wit_chunk_json, wit_input 4 ''transfer.complete'' wit_complete_json]
     (session_start ''ses_1'' ''plg_0001'' ''q'' Map.empty wit_shared))" by (simp only: wit_final_def)
  from capture_has_verified_bytes [OF this cp] cp t show ?thesis
    unfolding wit_turn_def wit_start_def Let_def by blast
qed

end
