(* ===== verification/RustText.thy ===== *)
theory RustText
  imports NM_Prelude
begin

text \<open>
  The operations of Rust's \<open>str\<close> the components share: trimming, splitting, counting and
  folding, on the UTF-8 bytes of a text.
\<close>

section \<open>White space and control characters\<close>

text \<open>
  A \<open>String\<close> is its UTF-8 bytes. \<open>white_chars\<close> lists the encodings of the code points with
  the property \<open>White_Space\<close>, which \<open>str::trim\<close> removes at both ends.
\<close>

definition white_chars :: "string list" where
  "white_chars =
     [[CHR 0x09], [CHR 0x0A], [CHR 0x0B], [CHR 0x0C], [CHR 0x0D], [CHR 0x20],
      [CHR 0xC2, CHR 0x85], [CHR 0xC2, CHR 0xA0], [CHR 0xE1, CHR 0x9A, CHR 0x80],
      [CHR 0xE2, CHR 0x80, CHR 0x80], [CHR 0xE2, CHR 0x80, CHR 0x81],
      [CHR 0xE2, CHR 0x80, CHR 0x82], [CHR 0xE2, CHR 0x80, CHR 0x83],
      [CHR 0xE2, CHR 0x80, CHR 0x84], [CHR 0xE2, CHR 0x80, CHR 0x85],
      [CHR 0xE2, CHR 0x80, CHR 0x86], [CHR 0xE2, CHR 0x80, CHR 0x87],
      [CHR 0xE2, CHR 0x80, CHR 0x88], [CHR 0xE2, CHR 0x80, CHR 0x89],
      [CHR 0xE2, CHR 0x80, CHR 0x8A], [CHR 0xE2, CHR 0x80, CHR 0xA8],
      [CHR 0xE2, CHR 0x80, CHR 0xA9], [CHR 0xE2, CHR 0x80, CHR 0xAF],
      [CHR 0xE2, CHR 0x81, CHR 0x9F], [CHR 0xE3, CHR 0x80, CHR 0x80]]"

text \<open>Drops leading members of \<open>ws\<close>; every round but the last shortens the text, so its
  length is enough fuel.\<close>

primrec drop_white :: "nat \<Rightarrow> string list \<Rightarrow> string \<Rightarrow> string" where
  "drop_white 0 ws s = s"
| "drop_white (Suc n) ws s =
     (case find (\<lambda>w. starts_with w s) ws of
        None \<Rightarrow> s
      | Some w \<Rightarrow> drop_white n ws (drop (length w) s))"

definition str_trim :: "string \<Rightarrow> string" where
  "str_trim s =
     (let t = drop_white (length s) white_chars s
      in rev (drop_white (length t) (map rev white_chars) (rev t)))"

definition chars_count :: "string \<Rightarrow> nat" where
  "chars_count s = length (filter (\<lambda>c. \<not> (128 \<le> byte_val c \<and> byte_val c < 192)) s)"

text \<open>\<open>char::is_control\<close>: U+0000 to U+001F and U+007F to U+009F.\<close>

definition control_byte :: "char \<Rightarrow> bool" where
  "control_byte c \<longleftrightarrow> byte_val c < 32 \<or> byte_val c = 127"

fun has_control :: "string \<Rightarrow> bool" where
  "has_control [] = False"
| "has_control [c] = control_byte c"
| "has_control (c # d # s) =
     (control_byte c \<or> byte_val c = 0xC2 \<and> 128 \<le> byte_val d \<and> byte_val d < 160
      \<or> has_control (d # s))"

section \<open>Splitting\<close>

text \<open>\<open>str::split\<close> with a character.\<close>

primrec split_on :: "char \<Rightarrow> string \<Rightarrow> string list" where
  "split_on c [] = [[]]"
| "split_on c (x # xs) =
     (case split_on c xs of
        [] \<Rightarrow> []
      | f # fs \<Rightarrow> if x = c then [] # f # fs else (x # f) # fs)"

lemma split_on_not_Nil [simp]: "split_on c s \<noteq> []"
  by (induction s) (auto split: list.split)

lemma split_on_Cons [simp]:
  "split_on c (x # xs)
   = (if x = c then [] # split_on c xs else (x # hd (split_on c xs)) # tl (split_on c xs))"
  by (cases "split_on c xs") auto

declare split_on.simps(2) [simp del]

lemma split_on_single: "c \<notin> set s \<Longrightarrow> split_on c s = [s]"
  by (induction s) auto

lemma split_on_append: "c \<notin> set s \<Longrightarrow> split_on c (s @ c # t) = s # split_on c t"
  by (induction s) auto

text \<open>The text is its fields joined by the separator.\<close>

lemma split_on_join:
  "s = hd (split_on c s) @ concat (map (\<lambda>f. c # f) (tl (split_on c s)))"
proof (induction s)
  case (Cons x s)
  obtain f fs where "split_on c s = f # fs" by (cases "split_on c s") auto
  with Cons.IH show ?case by simp
qed simp

text \<open>\<open>str::contains\<close> and \<open>to_ascii_lowercase\<close>.\<close>

primrec contains_text :: "string \<Rightarrow> string \<Rightarrow> bool" where
  "contains_text sub [] \<longleftrightarrow> sub = []"
| "contains_text sub (c # s) \<longleftrightarrow> starts_with sub (c # s) \<or> contains_text sub s"

definition to_ascii_lowercase :: "string \<Rightarrow> string" where
  "to_ascii_lowercase s = map (\<lambda>c. if is_upper c then char_of (byte_val c + 32) else c) s"

text \<open>\<open>str::split_whitespace\<close>: the maximal runs without white space; a text has at most as many
  as it has bytes.\<close>

definition white_start :: "string \<Rightarrow> bool" where
  "white_start s \<longleftrightarrow> list_ex (\<lambda>w. starts_with w s) white_chars"

fun word_prefix :: "string \<Rightarrow> string" where
  "word_prefix [] = []"
| "word_prefix (c # s) = (if white_start (c # s) then [] else c # word_prefix s)"

primrec split_words :: "nat \<Rightarrow> string \<Rightarrow> string list" where
  "split_words 0 s = []"
| "split_words (Suc n) s =
     (let t = drop_white (length s) white_chars s; w = word_prefix t
      in if t = [] then [] else w # split_words n (drop (length w) t))"

definition split_whitespace :: "string \<Rightarrow> string list" where
  "split_whitespace s = split_words (length s) s"

text \<open>\<open>str::lines\<close>.\<close>

definition line_ending :: "string \<Rightarrow> string" where
  "line_ending l = (if l \<noteq> [] \<and> last l = CHR 0x0D then butlast l else l)"

definition text_lines :: "string \<Rightarrow> string list" where
  "text_lines s =
     (let fields = split_on (CHR 0x0A) s
      in map line_ending (butlast fields) @ (if last fields = [] then [] else [last fields]))"

text \<open>\<open>[T]::join\<close>.\<close>

fun join_texts :: "string \<Rightarrow> string list \<Rightarrow> string" where
  "join_texts sep [] = []"
| "join_texts sep [s] = s"
| "join_texts sep (s # ss) = s @ sep @ join_texts sep ss"

subsection \<open>Trimming is complete\<close>

lemma drop_white_enough:
  assumes "[] \<notin> set ws" and "length s \<le> n"
  shows "\<not> list_ex (\<lambda>w. starts_with w (drop_white n ws s)) ws"
  using assms(2)
proof (induction n arbitrary: s)
  case 0
  with assms(1) show ?case by (auto simp: list_ex_iff starts_with_iff)
next
  case (Suc n)
  show ?case
  proof (cases "find (\<lambda>w. starts_with w s) ws")
    case None
    then have "drop_white (Suc n) ws s = s" by simp
    with None show ?thesis by (simp only: find_None_iff list_ex_iff) blast
  next
    case (Some w)
    then have w: "w \<in> set ws" "starts_with w s" by (auto simp: find_Some_iff)
    then have "w \<noteq> []" "length w \<le> length s" using assms(1) by (auto simp: starts_with_iff)
    then have "length (drop (length w) s) \<le> n" using Suc.prems by (cases w) auto
    from Suc.IH [OF this] show ?thesis by (simp add: Some)
  qed
qed

end
