(* ===== verification/HubModel.thy ===== *)
theory HubModel
  imports Identity RustText "HOL-Library.List_Lexorder" "HOL-Library.Char_ord"
    "HOL-Library.Product_Lexorder"
begin

text \<open>
  The data of the NeuMan Hub (\<open>hub.rs\<close>, \<open>schemas/hub.sql\<close>): errors, roles, the text checks
  shared by its operations, the response structs, the rows of the tables, and the inserts with
  the constraints the schema declares.

  A table is the list of its rows in insertion order. A row extends the struct the service
  answers with, so that \<open>*_from_row\<close> is \<open>truncate\<close>. JSON columns hold the value they
  serialize. Integers of the Hub are \<open>i64\<close> values read from the clock, counters and requests;
  none comes near the bounds, so they are \<open>int\<close>.
\<close>

section \<open>Errors\<close>

record hub_error =
  he_status :: nat
  he_code :: string
  he_message :: string
  he_details :: json

definition hub_error_new :: "nat \<Rightarrow> string \<Rightarrow> string \<Rightarrow> hub_error" where
  "hub_error_new status code msg =
     \<lparr>he_status = status, he_code = code, he_message = msg, he_details = JObj []\<rparr>"

definition hub_error_details :: "json \<Rightarrow> hub_error \<Rightarrow> hub_error" where
  "hub_error_details details e = e\<lparr>he_details := details\<rparr>"

definition unauthorized :: hub_error where
  "unauthorized =
     hub_error_new 401 ''HUB_AUTHENTICATION_REQUIRED'' ''A valid bearer token is required.''"

definition forbidden :: hub_error where
  "forbidden = hub_error_new 403 ''HUB_PERMISSION_DENIED''
     ''The authenticated principal is not authorized for this project action.''"

definition not_found :: "string \<Rightarrow> hub_error" where
  "not_found code = hub_error_new 404 code ''The resource was not found.''"

definition hub_invalid :: "string \<Rightarrow> hub_error" where
  "hub_invalid msg = hub_error_new 400 ''HUB_INVALID_REQUEST'' msg"

definition hub_internal :: hub_error where
  "hub_internal =
     hub_error_new 500 ''HUB_INTERNAL'' ''The Hub could not complete the request.''"

definition quota_error :: "string \<Rightarrow> int \<Rightarrow> int \<Rightarrow> hub_error" where
  "quota_error resource current limit =
     hub_error_details
       (JObj [(''resource'', JStr resource), (''current'', JNum current), (''limit'', JNum limit),
              (''remediation'',
               JStr ''Remove unused resources or ask the Hub operator to raise the quota.'')])
       (hub_error_new 429 ''HUB_QUOTA_EXCEEDED'' ''The project quota would be exceeded.'')"

definition conflict :: "string \<Rightarrow> string \<Rightarrow> hub_error" where
  "conflict code msg = hub_error_new 409 code msg"

section \<open>Roles and permissions\<close>

datatype hub_role = Viewer | Artist | Developer | Approver | ReleaseManager | Admin

datatype hub_permission =
  Read | ProposeArt | AcceptArt | Build | ApproveRelease | ExecuteRelease | ManageMembers

definition role_as_str :: "hub_role \<Rightarrow> string" where
  "role_as_str role =
     (case role of Viewer \<Rightarrow> ''viewer'' | Artist \<Rightarrow> ''artist'' | Developer \<Rightarrow> ''developer''
      | Approver \<Rightarrow> ''approver'' | ReleaseManager \<Rightarrow> ''release_manager'' | Admin \<Rightarrow> ''admin'')"

text \<open>The derived deserializer of a unit enum renamed to snake case.\<close>

definition role_parse :: "string \<Rightarrow> hub_error + hub_role" where
  "role_parse value =
     (if value = ''viewer'' then Inr Viewer else if value = ''artist'' then Inr Artist
      else if value = ''developer'' then Inr Developer
      else if value = ''approver'' then Inr Approver
      else if value = ''release_manager'' then Inr ReleaseManager
      else if value = ''admin'' then Inr Admin
      else Inl (hub_invalid ''Unknown project role.''))"

definition role_allows :: "hub_role \<Rightarrow> hub_permission \<Rightarrow> bool" where
  "role_allows role permission =
     (case permission of
        Read \<Rightarrow> True
      | ProposeArt \<Rightarrow> role \<in> {Artist, Developer, Admin}
      | AcceptArt \<Rightarrow> role \<in> {Approver, Admin}
      | Build \<Rightarrow> role \<in> {Developer, Admin}
      | ApproveRelease \<Rightarrow> role \<in> {Approver, Admin}
      | ExecuteRelease \<Rightarrow> role \<in> {ReleaseManager, Admin}
      | ManageMembers \<Rightarrow> role = Admin)"

lemma role_parse_as_str [simp]: "role_parse (role_as_str role) = Inr role"
  by (cases role) (simp_all add: role_parse_def role_as_str_def)

lemma role_parse_sound: "role_parse s = Inr role \<Longrightarrow> role_as_str role = s"
  by (auto simp: role_parse_def role_as_str_def split: if_splits)

interpretation hub_role: canonical_text role_as_str role_parse "\<lambda>_. True"
  by unfold_locales (simp_all add: role_parse_sound)

section \<open>Text checks\<close>

definition validate_name :: "string \<Rightarrow> nat \<Rightarrow> nat \<Rightarrow> string \<Rightarrow> hub_error + unit" where
  "validate_name value min_len max_len name =
     (let trimmed = str_trim value
      in guardE (min_len \<le> chars_count trimmed \<and> chars_count trimmed \<le> max_len
                 \<and> \<not> has_control trimmed)
           (hub_invalid (name @ '' must contain '' @ decimal min_len @ ''-'' @ decimal max_len
                         @ '' non-control characters.'')))"

definition validate_slug :: "string \<Rightarrow> hub_error + unit" where
  "validate_slug value =
     guardE (3 \<le> length value \<and> length value \<le> 64 \<and> hd value \<noteq> CHR ''-''
             \<and> last value \<noteq> CHR ''-''
             \<and> list_all (\<lambda>c. is_lower c \<or> is_digit c \<or> c = CHR ''-'') value)
       (hub_invalid ''Project slug must be 3-64 lowercase letters, digits, or interior hyphens.'')"

definition validate_hash_label :: "string \<Rightarrow> string \<Rightarrow> hub_error + unit" where
  "validate_hash_label value name =
     guardE (16 \<le> length value \<and> length value \<le> 256
             \<and> list_all (\<lambda>c. is_alphanumeric c \<or> c \<in> set ''-_:'') value)
       (hub_invalid (name @ '' is not a valid hash label.''))"

definition validate_content_hash :: "string \<Rightarrow> hub_error + unit" where
  "validate_content_hash value =
     (case strip_prefix ''b3-256:'' value of
        None \<Rightarrow> Inl (hub_error_new 400 ''STO_HASH_INVALID''
                  ''Content hash must use b3-256 identity.'')
      | Some digest \<Rightarrow>
          guardE (length digest = 52
                  \<and> list_all (\<lambda>c. is_lower c \<or> 50 \<le> byte_val c \<and> byte_val c \<le> 55) digest)
            (hub_error_new 400 ''STO_HASH_INVALID''
               ''BLAKE3 digest must be 52 lowercase base32 characters.''))"

lemma validate_content_hash_rendered:
  assumes "hash32 h"
  shows "validate_content_hash (content_hash_display h) = Inr ()"
proof -
  have "b32_valid (encode_base32 h)" using encode_base32_spells by (simp add: b32_spells_def)
  then have "\<forall>c \<in> set (encode_base32 h). b32_part c \<noteq> None" by (simp add: b32_valid_def)
  then have "\<forall>c \<in> set (encode_base32 h). is_lower c \<or> 50 \<le> byte_val c \<and> byte_val c \<le> 55"
    by (auto simp: b32_part_def split: if_splits)
  moreover have "length (encode_base32 h) = 52"
    using content_hash_display_length [OF assms] by (simp add: content_hash_display_def)
  ultimately show ?thesis
    by (simp add: validate_content_hash_def content_hash_display_def guardE_def list_all_iff)
qed

definition validate_media_type :: "string \<Rightarrow> hub_error + unit" where
  "validate_media_type value =
     guardE (3 \<le> length value \<and> length value \<le> 128 \<and> CHR ''/'' \<in> set value
             \<and> list_all is_graphic value)
       (hub_invalid ''mediaType is invalid.'')"

definition valid_scoped_id :: "string \<Rightarrow> string \<Rightarrow> bool" where
  "valid_scoped_id value prefix \<longleftrightarrow>
     length prefix + 4 \<le> length value \<and> length value \<le> 256 \<and> starts_with prefix value
     \<and> list_all (\<lambda>c. is_alphanumeric c \<or> c = CHR ''_'' \<or> c = CHR ''-'') value"

text \<open>A \<open>BTreeSet<String>\<close> holds its members in the order of their bytes.\<close>

fun insert_all_unique :: "string \<Rightarrow> string list \<Rightarrow> string set \<Rightarrow> hub_error + unit" where
  "insert_all_unique name [] seen_values = Inr ()"
| "insert_all_unique name (v # vs) seen_values =
     bindE (validate_name v 1 256 name) (\<lambda>_.
     bindE (guardE (v \<notin> seen_values) (hub_invalid (name @ '' must not contain duplicates.''))) (\<lambda>_.
     insert_all_unique name vs (insert v seen_values)))"

definition sorted_unique :: "string list \<Rightarrow> string \<Rightarrow> hub_error + string list" where
  "sorted_unique values name =
     bindE (guardE (length values \<le> 10000) (hub_invalid (name @ '' contains too many entries.'')))
       (\<lambda>_. bindE (insert_all_unique name values {}) (\<lambda>_. Inr (sort values)))"

lemma insert_all_unique_ok:
  "insert_all_unique name vs A = Inr u
   \<longleftrightarrow> (\<forall>v \<in> set vs. validate_name v 1 256 name = Inr ()) \<and> distinct vs \<and> set vs \<inter> A = {}"
  by (induction vs arbitrary: A) (auto simp: result_simps)

lemma sorted_unique_ok:
  "sorted_unique vs name = Inr ws
   \<longleftrightarrow> length vs \<le> 10000 \<and> (\<forall>v \<in> set vs. validate_name v 1 256 name = Inr ())
       \<and> distinct vs \<and> ws = sort vs"
  by (auto simp: sorted_unique_def result_simps insert_all_unique_ok)

lemma sorted_unique_result:
  assumes "sorted_unique vs name = Inr ws"
  shows "sorted ws" "distinct ws" "set ws = set vs"
  using assms by (simp_all add: sorted_unique_ok)

text \<open>Decimal texts read back.\<close>

lemma byte_val_digit_char: "d < 10 \<Longrightarrow> byte_val (digit_char d) = 48 + d"
  by (simp add: byte_val_def digit_char_def)

lemma decimal_digits: "list_all is_digit (decimal n) \<and> decimal n \<noteq> []"
proof (induction n rule: decimal.induct)
  case (1 n)
  moreover have "n mod 10 \<le> 9" using mod_less_divisor [of 10 n] by linarith
  ultimately show ?case
    by (subst (1 2) decimal.simps) (simp add: is_digit_def [of "digit_char _"] byte_val_digit_char)
qed

lemma decimal_value_decimal: "decimal_value (decimal n) = n"
proof (induction n rule: decimal.induct)
  case (1 n)
  show ?case
  proof (cases "n < 10")
    case True
    then show ?thesis by (subst decimal.simps) (simp add: decimal_value_def byte_val_digit_char)
  next
    case False
    with 1 have "decimal_value (decimal (n div 10)) = n div 10" by simp
    with False show ?thesis
      by (subst decimal.simps) (simp add: decimal_value_def byte_val_digit_char)
  qed
qed

lemma decimal_inj: "decimal m = decimal n \<Longrightarrow> m = n"
  by (metis decimal_value_decimal)

definition show_int :: "int \<Rightarrow> string" where
  "show_int i = (if i < 0 then ''-'' @ decimal (nat (- i)) else decimal (nat i))"

lemma decimal_no_minus: "decimal n \<noteq> CHR ''-'' # s"
  using decimal_digits [of n] by (auto simp: is_digit_def byte_val_def)

lemma show_int_inj: "show_int i = show_int j \<Longrightarrow> i = j"
  using decimal_no_minus decimal_no_minus [symmetric]
  by (auto simp: show_int_def split: if_splits dest!: decimal_inj)

section \<open>Structs and rows\<close>

record actor =
  ac_principal_id :: string
  ac_display_name :: string
  ac_is_operator :: bool
  ac_session_id :: string

record principal_row =
  pr_id :: string
  pr_display_name :: string
  pr_is_operator :: bool
  pr_created_at :: int

record auth_token_row =
  tk_hash :: string
  tk_principal_id :: string
  tk_label :: string
  tk_expires_at :: "int option"
  tk_revoked_at :: "int option"
  tk_created_at :: int

record hub_project =
  hp_id :: string
  hp_name :: string
  hp_slug :: string
  hp_default_channel_id :: string
  hp_archived_at :: "int option"
  hp_version :: int
  hp_created_at :: int
  hp_updated_at :: int

record project_row = hub_project +
  hp_created_by :: string

record membership =
  me_project_id :: string
  me_principal_id :: string
  me_display_name :: string
  me_role :: hub_role
  me_version :: int

record membership_row =
  mb_project_id :: string
  mb_principal_id :: string
  mb_role :: string
  mb_version :: int
  mb_created_at :: int
  mb_updated_at :: int

record channel_row =
  ch_id :: string
  ch_project_id :: string
  ch_name :: string
  ch_head :: "string option"
  ch_version :: int

record art_proposal =
  ap_id :: string
  ap_project_id :: string
  ap_channel_id :: string
  ap_base_revision_id :: "string option"
  ap_state_hash :: string
  ap_title :: string
  ap_description :: string
  ap_resource_ids :: "string list"
  ap_object_hashes :: "string list"
  ap_status :: string
  ap_created_by :: string
  ap_accepted_revision_id :: "string option"
  ap_created_at :: int
  ap_updated_at :: int

record art_review =
  rw_id :: string
  rw_proposal_id :: string
  rw_principal_id :: string
  rw_verdict :: string
  rw_body :: string
  rw_created_at :: int

text \<open>\<open>CanonicalArtCell\<close> and \<open>CanonicalArtManifest\<close>: the state a revision carries.\<close>

record canonical_art_cell =
  cc_cell_id :: string
  cc_parent_path :: string
  cc_content_hash :: string
  cc_size_bytes :: nat

record canonical_art_manifest =
  cm_schema_version :: string
  cm_project_id :: string
  cm_channel_id :: string
  cm_base_hub_revision_id :: "string option"
  cm_base_state_root :: "string option"
  cm_state_root :: string
  cm_source_session_id :: string
  cm_local_revision_id :: string
  cm_changed_cell_ids :: "string list"
  cm_cells :: "canonical_art_cell list"

record hub_revision =
  rv_id :: string
  rv_project_id :: string
  rv_channel_id :: string
  rv_parent_revision_id :: "string option"
  rv_proposal_id :: string
  rv_state_hash :: string
  rv_state :: canonical_art_manifest
  rv_created_by :: string
  rv_created_at :: int

record hub_lease =
  le_id :: string
  le_project_id :: string
  le_channel_id :: string
  le_resource_id :: string
  le_base_revision_id :: "string option"
  le_workstream :: string
  le_intended_action :: string
  le_cell_hash :: "string option"
  le_holder_principal_id :: string
  le_holder_session_id :: string
  le_renewal_counter :: int
  le_acquired_at :: int
  le_expires_at :: int
  le_released_at :: "int option"

record lease_row = hub_lease +
  le_release_reason :: "string option"
  le_outcome_reference :: "string option"

record lease_batch =
  lb_leases :: "hub_lease list"
  lb_lease_duration :: int
  lb_renewal_target :: int
  lb_server_time :: int

record object_metadata =
  ob_content_hash :: string
  ob_sha256 :: string
  ob_size_bytes :: int
  ob_media_type :: string
  ob_integrity_status :: string
  ob_created_at :: int
  ob_verified_at :: int

record object_row = object_metadata +
  ob_storage_path :: string

record project_object_row =
  po_project_id :: string
  po_content_hash :: string
  po_purpose :: string
  po_referenced_by :: string
  po_created_at :: int

record upload_row =
  up_id :: string
  up_project_id :: string
  up_expected_hash :: string
  up_expected_size :: int
  up_media_type :: string
  up_token_hash :: string
  up_temp_path :: string
  up_status :: string
  up_actual_sha256 :: "string option"
  up_expires_at :: int
  up_created_by :: string
  up_created_at :: int

record upload_negotiation =
  un_status :: string
  un_upload_id :: "string option"
  un_upload_url :: "string option"
  un_transfer_token :: "string option"
  un_expires_at :: "int option"
  un_object :: "object_metadata option"

record download_row =
  dw_id :: string
  dw_project_id :: string
  dw_content_hash :: string
  dw_token_hash :: string
  dw_expires_at :: int
  dw_created_by :: string
  dw_created_at :: int

record build_record =
  bd_id :: string
  bd_project_id :: string
  bd_logical_hash :: string
  bd_status :: string
  bd_evidence :: json
  bd_created_by :: string
  bd_created_at :: int
  bd_updated_at :: int

record build_attempt =
  ba_id :: string
  ba_build_id :: string
  ba_status :: string
  ba_evidence :: json
  ba_created_by :: string
  ba_created_at :: int

record hub_release =
  re_id :: string
  re_project_id :: string
  re_bundle_hash :: string
  re_environment :: string
  re_target :: json
  re_evidence :: json
  re_request_hash :: string
  re_state :: string
  re_created_by :: string
  re_created_at :: int
  re_updated_at :: int

record release_approval =
  ra_id :: string
  ra_release_id :: string
  ra_principal_id :: string
  ra_request_hash :: string
  ra_evidence :: json
  ra_created_at :: int

text \<open>
  What an idempotency record stores: the serialized answer. Reading it back at the type of a
  route fails when another type was stored; \<open>expect_*\<close> are those readings.
\<close>

datatype response =
    RProject hub_project
  | RMembership membership
  | RValue json
  | RProposal art_proposal
  | RReview art_review
  | RRevision hub_revision
  | RLeases lease_batch
  | RLease hub_lease
  | RUpload upload_negotiation
  | RObject object_metadata
  | RBuild build_record
  | RAttempt build_attempt
  | RRelease hub_release
  | RApproval release_approval

record idempotency_row =
  ir_principal_id :: string
  ir_project_id :: string
  ir_route :: string
  ir_key :: string
  ir_request_hash :: string
  ir_response :: response
  ir_created_at :: int
  ir_expires_at :: int

record audit_row =
  au_sequence :: nat
  au_id :: string
  au_project_id :: string
  au_actor_principal_id :: string
  au_action :: string
  au_aggregate_type :: string
  au_aggregate_id :: string
  au_outcome :: string
  au_details_json :: string
  au_occurred_at :: int
  au_previous_hash :: "string option"
  au_event_hash :: string

record outbox_row =
  ox_sequence :: nat
  ox_id :: string
  ox_project_id :: string
  ox_category :: string
  ox_event_type :: string
  ox_aggregate_id :: string
  ox_payload :: json
  ox_occurred_at :: int

text \<open>\<open>AUTOINCREMENT\<close> numbers a row with one more than any number given out before.\<close>

record hub_db =
  db_principals :: "principal_row list"
  db_tokens :: "auth_token_row list"
  db_projects :: "project_row list"
  db_memberships :: "membership_row list"
  db_channels :: "channel_row list"
  db_proposals :: "art_proposal list"
  db_reviews :: "art_review list"
  db_revisions :: "hub_revision list"
  db_leases :: "lease_row list"
  db_objects :: "object_row list"
  db_project_objects :: "project_object_row list"
  db_uploads :: "upload_row list"
  db_downloads :: "download_row list"
  db_builds :: "build_record list"
  db_attempts :: "build_attempt list"
  db_releases :: "hub_release list"
  db_approvals :: "release_approval list"
  db_idempotency :: "idempotency_row list"
  db_audit :: "audit_row list"
  db_audit_sequence :: nat
  db_outbox :: "outbox_row list"
  db_outbox_sequence :: nat

end
