(* ===== verification/HubCore.thy ===== *)
theory HubCore
  imports HubModel
begin

text \<open>
  The core of the Hub's repository: authentication, authorization, idempotency records, the
  audit chain and the outbox, the frame every mutation runs in, and the operations on projects
  and members.

  A transaction is a function of the database that answers an error or a value with the new
  database; an error rolls back. Clock readings and fresh UUIDs are drawn by the operation and
  are arguments. \<open>authorize_project\<close> runs in a transaction of its own before the operation's,
  so an operation takes the database of that moment as well (\<open>db0\<close>); other requests may have
  run in between.
\<close>

section \<open>Parameters\<close>

record hub_lib =
  hl_hex :: "u8 list \<Rightarrow> string"
  hl_sha256 :: "u8 list \<Rightarrow> u8 list"
  hl_blake3 :: "u8 list \<Rightarrow> u8 list"
  hl_keyed_blake3 :: "u8 list \<Rightarrow> u8 list \<Rightarrow> u8 list"
  hl_json_text :: "json \<Rightarrow> string"

record hub_draws =
  dr_now :: int
  dr_created_at :: int
  dr_evidence_at :: int
  dr_stored_at :: int
  dr_uuid :: "nat \<Rightarrow> string"
  dr_audit_uuid :: string
  dr_event_uuid :: string

record quotas =
  qu_max_members :: int
  qu_max_active_leases :: int
  qu_max_object_bytes :: int
  qu_max_upload_bytes :: int

definition new_id :: "string \<Rightarrow> string \<Rightarrow> string" where
  "new_id prefix uuid = prefix @ ''_'' @ uuid"

definition sha256_hex :: "hub_lib \<Rightarrow> u8 list \<Rightarrow> string" where
  "sha256_hex L bytes = hl_hex L (hl_sha256 L bytes)"

definition nul :: string where
  "nul = [CHR 0x00]"

definition token_hash :: "hub_lib \<Rightarrow> string \<Rightarrow> string" where
  "token_hash L token =
     sha256_hex L (as_bytes (''neuman-hub-development-token-v1'' @ nul @ token))"

definition canonical_request_hash :: "hub_lib \<Rightarrow> json \<Rightarrow> string" where
  "canonical_request_hash L request = sha256_hex L (as_bytes (hl_json_text L request))"

definition IDEMPOTENCY_TTL_MS :: int where
  "IDEMPOTENCY_TTL_MS = 24 * 60 * 60000"

section \<open>Authentication and authorization\<close>

text \<open>The connection's clock reading is \<open>now\<close>; a token row without its principal joins nothing.\<close>

definition repo_authenticate :: "hub_lib \<Rightarrow> int \<Rightarrow> string \<Rightarrow> string \<Rightarrow> hub_db \<Rightarrow> hub_error + actor" where
  "repo_authenticate L now bearer_token session_id db =
     (let hash = token_hash L bearer_token
      in case find (\<lambda>(t, p). tk_hash t = hash \<and> tk_revoked_at t = None
                      \<and> (case tk_expires_at t of None \<Rightarrow> True | Some e \<Rightarrow> now < e))
                [(t, p). t \<leftarrow> db_tokens db, p \<leftarrow> db_principals db, pr_id p = tk_principal_id t] of
           None \<Rightarrow> Inl unauthorized
         | Some (t, p) \<Rightarrow>
             if hash \<noteq> tk_hash t then Inl unauthorized
             else Inr \<lparr>ac_principal_id = pr_id p, ac_display_name = pr_display_name p,
                       ac_is_operator = pr_is_operator p, ac_session_id = session_id\<rparr>)"

definition url_safe :: "string \<Rightarrow> bool" where
  "url_safe value \<longleftrightarrow> list_all (\<lambda>c. is_alphanumeric c \<or> c \<in> set ''-_:.'') value"

text \<open>Headers are given as the text their value has, \<open>None\<close> when absent or not text.\<close>

definition hub_authenticate ::
  "hub_lib \<Rightarrow> int \<Rightarrow> string option \<Rightarrow> string option \<Rightarrow> hub_db \<Rightarrow> hub_error + actor" where
  "hub_authenticate L now authorization session_header db =
     bindE (ok_or authorization unauthorized) (\<lambda>value.
     bindE (ok_or (strip_prefix ''Bearer '' value) unauthorized) (\<lambda>token.
     if token = [] \<or> 4096 < length token then Inl unauthorized
     else repo_authenticate L now token
            (case session_header of
               None \<Rightarrow> ''api-default''
             | Some s \<Rightarrow> if s \<noteq> [] \<and> length s \<le> 128 \<and> url_safe s then s else ''api-default'')
            db))"

definition bootstrap_development_principal ::
  "hub_lib \<Rightarrow> hub_draws \<Rightarrow> string \<Rightarrow> string \<Rightarrow> hub_db \<Rightarrow> hub_error + string \<times> hub_db" where
  "bootstrap_development_principal L dr token display_name db =
     (if length token < 16
      then Inl (hub_invalid ''Development bootstrap token must contain at least 16 characters.'')
      else
        let hash = token_hash L token
        in case find (\<lambda>t. tk_hash t = hash) (db_tokens db) of
             Some t \<Rightarrow> Inr (tk_principal_id t, db)
           | None \<Rightarrow>
               let principal_id = new_id ''prn'' (dr_uuid dr 0)
               in if principal_id \<in> pr_id ` set (db_principals db) then Inl hub_internal
                  else Inr (principal_id, db
                    \<lparr>db_principals := db_principals db @
                       [\<lparr>pr_id = principal_id, pr_display_name = display_name, pr_is_operator = True,
                         pr_created_at = dr_now dr\<rparr>],
                     db_tokens := db_tokens db @
                       [\<lparr>tk_hash = hash, tk_principal_id = principal_id,
                         tk_label = ''development bootstrap'', tk_expires_at = None,
                         tk_revoked_at = None, tk_created_at = dr_now dr\<rparr>]\<rparr>))"

definition membership_role ::
  "hub_db \<Rightarrow> actor \<Rightarrow> string \<Rightarrow> hub_permission \<Rightarrow> hub_error + hub_role" where
  "membership_role db a pid permission =
     (case find (\<lambda>m. mb_project_id m = pid \<and> mb_principal_id m = ac_principal_id a
                   \<and> (\<exists>p \<in> set (db_projects db). hp_id p = pid \<and> hp_archived_at p = None))
             (db_memberships db) of
        None \<Rightarrow> Inl forbidden
      | Some m \<Rightarrow> bindE (role_parse (mb_role m)) (\<lambda>role.
          if \<not> role_allows role permission then Inl forbidden else Inr role))"

text \<open>The same query in a transaction of its own.\<close>

definition authorize_project ::
  "hub_db \<Rightarrow> actor \<Rightarrow> string \<Rightarrow> hub_permission \<Rightarrow> hub_error + hub_role" where
  "authorize_project db a pid permission = membership_role db a pid permission"

section \<open>Idempotency records\<close>

definition idempotency_key :: "string option \<Rightarrow> hub_error + string" where
  "idempotency_key header =
     bindE (ok_or header (hub_error_new 400 ''HUB_IDEMPOTENCY_REQUIRED''
              ''Idempotency-Key is required for this mutation.'')) (\<lambda>key.
     if \<not> (8 \<le> length key \<and> length key \<le> 128) \<or> \<not> url_safe key
     then Inl (hub_invalid ''Idempotency-Key must be 8-128 URL-safe characters.'')
     else Inr key)"

definition idempotency_match ::
  "actor \<Rightarrow> string \<Rightarrow> string \<Rightarrow> string \<Rightarrow> idempotency_row \<Rightarrow> bool" where
  "idempotency_match a scope route key r \<longleftrightarrow>
     ir_principal_id r = ac_principal_id a \<and> ir_project_id r = scope \<and> ir_route r = route
     \<and> ir_key r = key"

text \<open>\<open>expect\<close> reads the stored answer at the type of the route.\<close>

definition check_idempotency ::
  "hub_db \<Rightarrow> actor \<Rightarrow> string \<Rightarrow> string \<Rightarrow> string \<Rightarrow> string \<Rightarrow> (response \<Rightarrow> 'a option)
   \<Rightarrow> hub_error + 'a option" where
  "check_idempotency db a scope route key request_hash expect =
     (case find (idempotency_match a scope route key) (db_idempotency db) of
        None \<Rightarrow> Inr None
      | Some r \<Rightarrow>
          if ir_request_hash r \<noteq> request_hash
          then Inl (conflict ''HUB_IDEMPOTENCY_CONFLICT''
                 ''This idempotency key was already used with a different request.'')
          else bindE (ok_or (expect (ir_response r)) hub_internal) (\<lambda>v. Inr (Some v)))"

definition store_idempotency ::
  "hub_draws \<Rightarrow> actor \<Rightarrow> string \<Rightarrow> string \<Rightarrow> string \<Rightarrow> string \<Rightarrow> response \<Rightarrow> hub_db
   \<Rightarrow> hub_error + hub_db" where
  "store_idempotency dr a scope route key request_hash answer db =
     (if list_ex (idempotency_match a scope route key) (db_idempotency db)
         \<or> ac_principal_id a \<notin> pr_id ` set (db_principals db)
      then Inl hub_internal
      else Inr (db\<lparr>db_idempotency := db_idempotency db @
             [\<lparr>ir_principal_id = ac_principal_id a, ir_project_id = scope, ir_route = route,
               ir_key = key, ir_request_hash = request_hash, ir_response = answer,
               ir_created_at = dr_stored_at dr,
               ir_expires_at = dr_stored_at dr + IDEMPOTENCY_TTL_MS\<rparr>]\<rparr>))"

section \<open>Audit chain and outbox\<close>

record evidence =
  ev_project_id :: string
  ev_action :: string
  ev_aggregate_type :: string
  ev_aggregate_id :: string
  ev_category :: string
  ev_event_type :: string
  ev_details :: json

definition latest_event_hash :: "hub_db \<Rightarrow> string \<Rightarrow> string option" where
  "latest_event_hash db pid =
     (case rev (sort_key au_sequence (filter (\<lambda>r. au_project_id r = pid) (db_audit db))) of
        [] \<Rightarrow> None
      | r # rs \<Rightarrow> Some (au_event_hash r))"

definition audit_material ::
  "string \<Rightarrow> string \<Rightarrow> string \<Rightarrow> string \<Rightarrow> string \<Rightarrow> string \<Rightarrow> string \<Rightarrow> string \<Rightarrow> int \<Rightarrow> string" where
  "audit_material previous audit_id pid actor_id action aggregate_type aggregate_id details_json
     occurred_at =
     ''neuman-audit-v1'' @ nul @ previous @ nul @ audit_id @ nul @ pid @ nul @ actor_id @ nul
     @ action @ nul @ aggregate_type @ nul @ aggregate_id @ nul @ ''success'' @ nul
     @ details_json @ nul @ show_int occurred_at"

text \<open>The rows of the two inserts.\<close>

definition audit_row_of :: "hub_lib \<Rightarrow> hub_draws \<Rightarrow> actor \<Rightarrow> evidence \<Rightarrow> hub_db \<Rightarrow> audit_row" where
  "audit_row_of L dr a ev db =
     (let occurred_at = dr_evidence_at dr;
          previous_hash = latest_event_hash db (ev_project_id ev);
          details_json = hl_json_text L (ev_details ev);
          audit_id = new_id ''aud'' (dr_audit_uuid dr);
          event_hash = sha256_hex L (as_bytes
            (audit_material (case previous_hash of None \<Rightarrow> [] | Some h \<Rightarrow> h) audit_id
               (ev_project_id ev) (ac_principal_id a) (ev_action ev) (ev_aggregate_type ev)
               (ev_aggregate_id ev) details_json occurred_at))
      in \<lparr>au_sequence = db_audit_sequence db + 1, au_id = audit_id,
          au_project_id = ev_project_id ev, au_actor_principal_id = ac_principal_id a,
          au_action = ev_action ev, au_aggregate_type = ev_aggregate_type ev,
          au_aggregate_id = ev_aggregate_id ev, au_outcome = ''success'',
          au_details_json = details_json, au_occurred_at = occurred_at,
          au_previous_hash = previous_hash, au_event_hash = event_hash\<rparr>)"

definition outbox_row_of :: "hub_draws \<Rightarrow> evidence \<Rightarrow> hub_db \<Rightarrow> outbox_row" where
  "outbox_row_of dr ev db =
     \<lparr>ox_sequence = db_outbox_sequence db + 1, ox_id = new_id ''evt'' (dr_event_uuid dr),
      ox_project_id = ev_project_id ev, ox_category = ev_category ev,
      ox_event_type = ev_event_type ev, ox_aggregate_id = ev_aggregate_id ev,
      ox_payload = ev_details ev, ox_occurred_at = dr_evidence_at dr\<rparr>"

definition append_evidence ::
  "hub_lib \<Rightarrow> hub_draws \<Rightarrow> actor \<Rightarrow> evidence \<Rightarrow> hub_db \<Rightarrow> hub_error + hub_db" where
  "append_evidence L dr a ev db =
     (let event = audit_row_of L dr a ev db; envelope = outbox_row_of dr ev db
      in if au_id event \<in> au_id ` set (db_audit db) then Inl hub_internal
         else if ox_id envelope \<in> ox_id ` set (db_outbox db) then Inl hub_internal
         else Inr (db
           \<lparr>db_audit := db_audit db @ [event], db_audit_sequence := db_audit_sequence db + 1,
            db_outbox := db_outbox db @ [envelope],
            db_outbox_sequence := db_outbox_sequence db + 1\<rparr>))"

section \<open>The frame of a mutation\<close>

text \<open>
  From the idempotency check to the commit every mutation is the same: a recorded answer is
  returned as it is; otherwise the operation's own part (\<open>body\<close>) runs, its evidence is
  appended and its answer recorded.
\<close>

definition idempotent_mutation ::
  "hub_lib \<Rightarrow> hub_draws \<Rightarrow> actor \<Rightarrow> string \<Rightarrow> string \<Rightarrow> string \<Rightarrow> string
   \<Rightarrow> (response \<Rightarrow> 'a option) \<Rightarrow> ('a \<Rightarrow> response)
   \<Rightarrow> (hub_db \<Rightarrow> hub_error + 'a \<times> evidence \<times> hub_db) \<Rightarrow> hub_db \<Rightarrow> hub_error + 'a \<times> hub_db" where
  "idempotent_mutation L dr a scope route key request_hash expect answer body db =
     bindE (check_idempotency db a scope route key request_hash expect) (\<lambda>existing.
     case existing of
       Some value \<Rightarrow> Inr (value, db)
     | None \<Rightarrow>
         bindE (body db) (\<lambda>(value, ev, db1).
         bindE (append_evidence L dr a ev db1) (\<lambda>db2.
         bindE (store_idempotency dr a scope route key request_hash (answer value) db2) (\<lambda>db3.
         Inr (value, db3)))))"

text \<open>What the connection does with a transaction: an error leaves the database as it was.\<close>

definition run_transaction ::
  "(hub_db \<Rightarrow> hub_error + 'a \<times> hub_db) \<Rightarrow> hub_db \<Rightarrow> (hub_error + 'a) \<times> hub_db" where
  "run_transaction tx db =
     (case tx db of Inl e \<Rightarrow> (Inl e, db) | Inr (v, db') \<Rightarrow> (Inr v, db'))"

section \<open>The audit chain\<close>

definition event_hash_of :: "hub_lib \<Rightarrow> audit_row \<Rightarrow> string" where
  "event_hash_of L r = sha256_hex L (as_bytes
     (audit_material (case au_previous_hash r of None \<Rightarrow> [] | Some h \<Rightarrow> h) (au_id r)
        (au_project_id r) (au_actor_principal_id r) (au_action r) (au_aggregate_type r)
        (au_aggregate_id r) (au_details_json r) (au_occurred_at r)))"

fun chained :: "hub_lib \<Rightarrow> string option \<Rightarrow> audit_row list \<Rightarrow> bool" where
  "chained L previous [] \<longleftrightarrow> True"
| "chained L previous (r # rs) \<longleftrightarrow>
     au_previous_hash r = previous \<and> au_event_hash r = event_hash_of L r
     \<and> chained L (Some (au_event_hash r)) rs"

definition last_hash :: "string option \<Rightarrow> audit_row list \<Rightarrow> string option" where
  "last_hash previous rs = (if rs = [] then previous else Some (au_event_hash (last rs)))"

definition project_log :: "hub_db \<Rightarrow> string \<Rightarrow> audit_row list" where
  "project_log db pid = filter (\<lambda>r. au_project_id r = pid) (db_audit db)"

definition audit_ok :: "hub_lib \<Rightarrow> hub_db \<Rightarrow> bool" where
  "audit_ok L db \<longleftrightarrow>
     sorted_wrt (<) (map au_sequence (db_audit db))
     \<and> (\<forall>r \<in> set (db_audit db). au_sequence r \<le> db_audit_sequence db)
     \<and> distinct (map au_id (db_audit db))
     \<and> (\<forall>pid. chained L None (project_log db pid))"

lemma chained_append:
  "chained L previous (rs @ ss)
   \<longleftrightarrow> chained L previous rs \<and> chained L (last_hash previous rs) ss"
  by (induction rs arbitrary: previous) (auto simp: last_hash_def)

lemma latest_event_hash_eq:
  assumes "sorted_wrt (<) (map au_sequence (db_audit db))"
  shows "latest_event_hash db pid = last_hash None (project_log db pid)"
proof -
  have "sorted (map au_sequence (db_audit db))"
    using assms by (rule strict_sorted_imp_sorted)
  then have "sorted (map au_sequence (project_log db pid))"
    unfolding project_log_def by (rule sorted_filter)
  then have "sort_key au_sequence (project_log db pid) = project_log db pid"
    by (rule sort_key_id_if_sorted)
  then show ?thesis
    by (cases "project_log db pid" rule: rev_cases)
      (simp_all add: latest_event_hash_def last_hash_def flip: project_log_def)
qed

lemma audit_row_of_simps [simp]:
  "au_sequence (audit_row_of L dr a ev db) = db_audit_sequence db + 1"
  "au_id (audit_row_of L dr a ev db) = new_id ''aud'' (dr_audit_uuid dr)"
  "au_project_id (audit_row_of L dr a ev db) = ev_project_id ev"
  "au_actor_principal_id (audit_row_of L dr a ev db) = ac_principal_id a"
  "au_action (audit_row_of L dr a ev db) = ev_action ev"
  "au_aggregate_id (audit_row_of L dr a ev db) = ev_aggregate_id ev"
  "au_previous_hash (audit_row_of L dr a ev db) = latest_event_hash db (ev_project_id ev)"
  "au_event_hash (audit_row_of L dr a ev db) = event_hash_of L (audit_row_of L dr a ev db)"
  by (simp_all add: audit_row_of_def Let_def event_hash_of_def)

lemma outbox_row_of_simps [simp]:
  "ox_sequence (outbox_row_of dr ev db) = db_outbox_sequence db + 1"
  "ox_id (outbox_row_of dr ev db) = new_id ''evt'' (dr_event_uuid dr)"
  "ox_project_id (outbox_row_of dr ev db) = ev_project_id ev"
  "ox_event_type (outbox_row_of dr ev db) = ev_event_type ev"
  "ox_aggregate_id (outbox_row_of dr ev db) = ev_aggregate_id ev"
  "ox_payload (outbox_row_of dr ev db) = ev_details ev"
  by (simp_all add: outbox_row_of_def)

lemma append_evidence_ok:
  "append_evidence L dr a ev db = Inr db'
   \<longleftrightarrow> new_id ''aud'' (dr_audit_uuid dr) \<notin> au_id ` set (db_audit db)
       \<and> new_id ''evt'' (dr_event_uuid dr) \<notin> ox_id ` set (db_outbox db)
       \<and> db' = db\<lparr>db_audit := db_audit db @ [audit_row_of L dr a ev db],
                  db_audit_sequence := db_audit_sequence db + 1,
                  db_outbox := db_outbox db @ [outbox_row_of dr ev db],
                  db_outbox_sequence := db_outbox_sequence db + 1\<rparr>"
  by (auto simp: append_evidence_def Let_def)

lemma append_evidence_audit_ok:
  assumes ok: "audit_ok L db" and step: "append_evidence L dr a ev db = Inr db'"
  shows "audit_ok L db'"
proof -
  let ?r = "audit_row_of L dr a ev db"
  have sorted: "sorted_wrt (<) (map au_sequence (db_audit db))" using ok by (simp add: audit_ok_def)
  have fresh: "au_id ?r \<notin> au_id ` set (db_audit db)"
    and audit: "db_audit db' = db_audit db @ [?r]"
    and count: "db_audit_sequence db' = db_audit_sequence db + 1"
    using step by (auto simp: append_evidence_ok)
  have log: "project_log db' pid
      = project_log db pid @ (if pid = ev_project_id ev then [?r] else [])" for pid
    by (simp add: project_log_def audit)
  have "chained L None (project_log db' pid)" for pid
    using ok sorted by (simp add: log chained_append audit_ok_def latest_event_hash_eq)
  then show ?thesis
    using ok fresh unfolding audit_ok_def audit count
    by (auto simp: sorted_wrt_append less_Suc_eq_le intro: le_SucI)
qed

section \<open>What every mutation shares\<close>

definition same_log :: "hub_db \<Rightarrow> hub_db \<Rightarrow> bool" where
  "same_log db db' \<longleftrightarrow>
     db_audit db' = db_audit db \<and> db_audit_sequence db' = db_audit_sequence db
     \<and> db_outbox db' = db_outbox db \<and> db_outbox_sequence db' = db_outbox_sequence db
     \<and> db_idempotency db' = db_idempotency db \<and> db_principals db' = db_principals db"

text \<open>The database with other contents of the tables the frame writes.\<close>

definition relog ::
  "audit_row list \<Rightarrow> nat \<Rightarrow> outbox_row list \<Rightarrow> nat \<Rightarrow> idempotency_row list \<Rightarrow> hub_db \<Rightarrow> hub_db" where
  "relog au n ox m ir db = db\<lparr>db_audit := au, db_audit_sequence := n, db_outbox := ox,
     db_outbox_sequence := m, db_idempotency := ir\<rparr>"

lemma relog_simps [simp]:
  "db_principals (relog au n ox m ir db) = db_principals db"
  "db_projects (relog au n ox m ir db) = db_projects db"
  "db_memberships (relog au n ox m ir db) = db_memberships db"
  "db_channels (relog au n ox m ir db) = db_channels db"
  "db_proposals (relog au n ox m ir db) = db_proposals db"
  "db_reviews (relog au n ox m ir db) = db_reviews db"
  "db_revisions (relog au n ox m ir db) = db_revisions db"
  "db_leases (relog au n ox m ir db) = db_leases db"
  "db_objects (relog au n ox m ir db) = db_objects db"
  "db_project_objects (relog au n ox m ir db) = db_project_objects db"
  "db_uploads (relog au n ox m ir db) = db_uploads db"
  "db_downloads (relog au n ox m ir db) = db_downloads db"
  "db_builds (relog au n ox m ir db) = db_builds db"
  "db_attempts (relog au n ox m ir db) = db_attempts db"
  "db_releases (relog au n ox m ir db) = db_releases db"
  "db_approvals (relog au n ox m ir db) = db_approvals db"
  "db_tokens (relog au n ox m ir db) = db_tokens db"
  by (simp_all add: relog_def)

lemma membership_role_relog [simp]:
  "membership_role (relog au n ox m ir db) = membership_role db"
  by (simp add: membership_role_def fun_eq_iff)

text \<open>The record a completed mutation leaves, and the log growing by appending.\<close>

definition recorded ::
  "actor \<Rightarrow> string \<Rightarrow> string \<Rightarrow> string \<Rightarrow> string \<Rightarrow> response \<Rightarrow> hub_db \<Rightarrow> bool" where
  "recorded a scope route key request_hash answer db \<longleftrightarrow>
     (\<exists>r. find (idempotency_match a scope route key) (db_idempotency db) = Some r
          \<and> ir_request_hash r = request_hash \<and> ir_response r = answer)"

definition log_extends :: "hub_db \<Rightarrow> hub_db \<Rightarrow> bool" where
  "log_extends db db' \<longleftrightarrow>
     (\<exists>au ir. db_audit db' = db_audit db @ au \<and> db_idempotency db' = db_idempotency db @ ir)"

lemma log_extends_refl [simp]: "log_extends db db"
  by (simp add: log_extends_def)

lemma log_extends_trans: "log_extends a b \<Longrightarrow> log_extends b c \<Longrightarrow> log_extends a c"
  by (auto simp: log_extends_def)

lemma find_append: "find P (xs @ ys) = (case find P xs of None \<Rightarrow> find P ys | Some x \<Rightarrow> Some x)"
  by (induction xs) simp_all

lemma find_None_list_ex: "find P xs = None \<longleftrightarrow> \<not> list_ex P xs"
  by (induction xs) simp_all

lemma recorded_extends:
  "recorded a scope route key h answer db \<Longrightarrow> log_extends db db'
   \<Longrightarrow> recorded a scope route key h answer db'"
  by (auto simp: recorded_def log_extends_def find_append)

lemma check_idempotency_recorded:
  assumes "recorded a scope route key h answer db"
  shows "check_idempotency db a scope route key h' expect =
    (if h' = h then bindE (ok_or (expect answer) hub_internal) (\<lambda>v. Inr (Some v))
     else Inl (conflict ''HUB_IDEMPOTENCY_CONFLICT''
            ''This idempotency key was already used with a different request.''))"
  using assms by (auto simp: recorded_def check_idempotency_def)

lemma check_idempotency_None:
  "check_idempotency db a scope route key h expect = Inr None
   \<longleftrightarrow> find (idempotency_match a scope route key) (db_idempotency db) = None"
  by (auto simp: check_idempotency_def result_simps split: option.splits)

lemma store_idempotency_ok:
  "store_idempotency dr a scope route key h answer db = Inr db'
   \<longleftrightarrow> find (idempotency_match a scope route key) (db_idempotency db) = None
       \<and> ac_principal_id a \<in> pr_id ` set (db_principals db)
       \<and> db' = db\<lparr>db_idempotency := db_idempotency db @
             [\<lparr>ir_principal_id = ac_principal_id a, ir_project_id = scope, ir_route = route,
               ir_key = key, ir_request_hash = h, ir_response = answer,
               ir_created_at = dr_stored_at dr,
               ir_expires_at = dr_stored_at dr + IDEMPOTENCY_TTL_MS\<rparr>]\<rparr>"
  by (auto simp: store_idempotency_def find_None_list_ex)

lemma store_idempotency_recorded:
  assumes "store_idempotency dr a scope route key h answer db = Inr db'"
  shows "recorded a scope route key h answer db'"
  using assms
  by (auto simp: store_idempotency_ok recorded_def find_append idempotency_match_def)

lemma mutation_cases:
  assumes "idempotent_mutation L dr a scope route key h expect answer body db = Inr (v, db')"
  obtains (replay) "db' = db"
      "check_idempotency db a scope route key h expect = Inr (Some v)"
  | (fresh) ev db1 db2 where "body db = Inr (v, ev, db1)"
      "find (idempotency_match a scope route key) (db_idempotency db) = None"
      "append_evidence L dr a ev db1 = Inr db2"
      "store_idempotency dr a scope route key h (answer v) db2 = Inr db'"
proof -
  obtain found where c: "check_idempotency db a scope route key h expect = Inr found"
    using assms by (auto simp: idempotent_mutation_def result_simps)
  show ?thesis
  proof (cases found)
    case None
    with assms c show ?thesis
      by (auto simp: idempotent_mutation_def result_simps check_idempotency_None intro: fresh)
  next
    case (Some w)
    with assms c show ?thesis by (auto simp: idempotent_mutation_def intro: replay)
  qed
qed

lemma mutation_shape:
  assumes "idempotent_mutation L dr a scope route key h expect answer body db = Inr (v, db')"
  obtains (replay) "db' = db"
  | (fresh) ev db1 au n ox m ir where "body db = Inr (v, ev, db1)" "db' = relog au n ox m ir db1"
  using assms
proof (cases rule: mutation_cases)
  case (fresh ev db1 db2)
  from fresh(3,4) have "db' = relog (db_audit db') (db_audit_sequence db') (db_outbox db')
      (db_outbox_sequence db') (db_idempotency db') db1"
    by (auto simp: append_evidence_ok store_idempotency_ok relog_def)
  with fresh(1) show thesis by (rule that(2))
qed (rule that(1))

lemma mutation_fresh_shape:
  assumes "idempotent_mutation L dr a scope route key h expect answer body db = Inr (v, db')"
    and "find (idempotency_match a scope route key) (db_idempotency db) = None"
  obtains ev db1 au n ox m ir where "body db = Inr (v, ev, db1)" "db' = relog au n ox m ir db1"
  using assms(1)
proof (cases rule: mutation_cases)
  case replay
  with assms(2) show thesis by (simp add: check_idempotency_def)
next
  case (fresh ev db1 db2)
  from fresh(3,4) have "db' = relog (db_audit db') (db_audit_sequence db') (db_outbox db')
      (db_outbox_sequence db') (db_idempotency db') db1"
    by (auto simp: append_evidence_ok store_idempotency_ok relog_def)
  with fresh(1) show thesis by (rule that)
qed

text \<open>
  An operation's own part, as the frame uses it: it leaves the log tables alone, and its answer
  reads back at the type it was stored with.
\<close>

locale hub_mutation =
  fixes body :: "hub_db \<Rightarrow> hub_error + 'a \<times> evidence \<times> hub_db"
    and expect :: "response \<Rightarrow> 'a option"
    and answer :: "'a \<Rightarrow> response"
  assumes body_same_log: "body db = Inr (v, ev, db') \<Longrightarrow> same_log db db'"
    and expect_answer: "expect (answer v) = Some v"
begin

lemma fresh_audit_ok:
  assumes "audit_ok L db" and "body db = Inr (v, ev, db1)"
    and "append_evidence L dr a ev db1 = Inr db2"
    and "store_idempotency dr a scope route key h (answer v) db2 = Inr db'"
  shows "audit_ok L db'"
proof -
  have "audit_ok L db1"
    using assms(1) body_same_log [OF assms(2)]
    by (auto simp: audit_ok_def same_log_def project_log_def)
  from append_evidence_audit_ok [OF this assms(3)] show ?thesis
    using assms(4) by (auto simp: store_idempotency_ok audit_ok_def project_log_def)
qed

lemma audit_ok:
  assumes "audit_ok L db"
    and "idempotent_mutation L dr a scope route key h expect answer body db = Inr (v, db')"
  shows "audit_ok L db'"
  using assms(2)
proof (cases rule: mutation_cases)
  case (fresh ev db1 db2)
  show ?thesis by (rule fresh_audit_ok [OF assms(1) fresh(1,3,4)])
qed (simp add: assms(1))

lemma extends:
  assumes "idempotent_mutation L dr a scope route key h expect answer body db = Inr (v, db')"
  shows "log_extends db db'"
  using assms
proof (cases rule: mutation_cases)
  case (fresh ev db1 db2)
  then show ?thesis
    using body_same_log [OF fresh(1)]
    by (auto simp: append_evidence_ok store_idempotency_ok log_extends_def same_log_def)
qed simp

lemma answer_recorded:
  assumes "idempotent_mutation L dr a scope route key h expect answer body db = Inr (v, db')"
  shows "\<exists>stored. recorded a scope route key h stored db' \<and> expect stored = Some v"
  using assms
proof (cases rule: mutation_cases)
  case replay
  then show ?thesis
    by (auto simp: check_idempotency_def recorded_def result_simps split: option.splits if_splits)
next
  case (fresh ev db1 db2)
  show ?thesis
    using store_idempotency_recorded [OF fresh(4)] expect_answer by blast
qed

lemma fresh_succeeds:
  assumes "body db = Inr (v, ev, db1)"
    and "find (idempotency_match a scope route key) (db_idempotency db) = None"
    and "new_id ''aud'' (dr_audit_uuid dr) \<notin> au_id ` set (db_audit db)"
    and "new_id ''evt'' (dr_event_uuid dr) \<notin> ox_id ` set (db_outbox db)"
    and "ac_principal_id a \<in> pr_id ` set (db_principals db)"
  shows "\<exists>au n ox m ir. idempotent_mutation L dr a scope route key h expect answer body db
    = Inr (v, relog au n ox m ir db1)"
proof -
  have log: "same_log db db1" using assms(1) by (rule body_same_log)
  then have "\<exists>db2. append_evidence L dr a ev db1 = Inr db2"
    using assms(3,4) by (simp add: append_evidence_ok same_log_def)
  then obtain db2 where db2: "append_evidence L dr a ev db1 = Inr db2" ..
  then have "\<exists>db3. store_idempotency dr a scope route key h (answer v) db2 = Inr db3"
    using assms(2,5) log by (auto simp: append_evidence_ok store_idempotency_ok same_log_def)
  then obtain db3 where db3: "store_idempotency dr a scope route key h (answer v) db2 = Inr db3" ..
  have "idempotent_mutation L dr a scope route key h expect answer body db = Inr (v, db3)"
    using assms(1,2) db2 db3 by (simp add: idempotent_mutation_def check_idempotency_def)
  moreover have "db3 = relog (db_audit db3) (db_audit_sequence db3) (db_outbox db3)
      (db_outbox_sequence db3) (db_idempotency db3) db1"
    using db2 db3 by (auto simp: append_evidence_ok store_idempotency_ok relog_def)
  ultimately show ?thesis by metis
qed

lemma retry:
  assumes "idempotent_mutation L dr a scope route key h expect answer body db = Inr (v, db1)"
    and "log_extends db1 db2"
  shows "idempotent_mutation L dr' a scope route key h' expect answer body' db2 =
    (if h' = h then Inr (v, db2)
     else Inl (conflict ''HUB_IDEMPOTENCY_CONFLICT''
            ''This idempotency key was already used with a different request.''))"
proof -
  obtain stored where r: "recorded a scope route key h stored db1" and e: "expect stored = Some v"
    using answer_recorded [OF assms(1)] by blast
  have "recorded a scope route key h stored db2" by (rule recorded_extends [OF r assms(2)])
  note check = check_idempotency_recorded [OF this, of h' expect]
  show ?thesis by (simp add: idempotent_mutation_def check e)
qed

end

section \<open>Tamper evidence\<close>

definition nul_free :: "string \<Rightarrow> bool" where
  "nul_free s \<longleftrightarrow> CHR 0x00 \<notin> set s"

text \<open>What an audit row claims: every column but its sequence number and its constant outcome.\<close>

definition audit_content ::
  "audit_row \<Rightarrow> (string option \<times> string \<times> string \<times> string) \<times> string \<times> string \<times> string \<times> string \<times> int"
  where
  "audit_content r =
     ((au_previous_hash r, au_id r, au_project_id r, au_actor_principal_id r), au_action r,
      au_aggregate_type r, au_aggregate_id r, au_details_json r, au_occurred_at r)"

definition row_material :: "audit_row \<Rightarrow> u8 list" where
  "row_material r = as_bytes
     (audit_material (case au_previous_hash r of None \<Rightarrow> [] | Some h \<Rightarrow> h) (au_id r)
        (au_project_id r) (au_actor_principal_id r) (au_action r) (au_aggregate_type r)
        (au_aggregate_id r) (au_details_json r) (au_occurred_at r))"

text \<open>The fields contain no separator and no event hash is empty (a hash is 64 hex digits).\<close>

definition clean_row :: "audit_row \<Rightarrow> bool" where
  "clean_row r \<longleftrightarrow>
     nul_free (au_id r) \<and> nul_free (au_project_id r) \<and> nul_free (au_actor_principal_id r)
     \<and> nul_free (au_action r) \<and> nul_free (au_aggregate_type r) \<and> nul_free (au_aggregate_id r)
     \<and> nul_free (au_details_json r) \<and> nul_free (au_event_hash r) \<and> au_event_hash r \<noteq> []
     \<and> (case au_previous_hash r of None \<Rightarrow> True | Some h \<Rightarrow> nul_free h \<and> h \<noteq> [])"

text \<open>SHA-256 has no collision among the messages of \<open>M\<close>.\<close>

definition sha256_collision_free :: "hub_lib \<Rightarrow> u8 list set \<Rightarrow> bool" where
  "sha256_collision_free L M \<longleftrightarrow>
     (\<forall>x \<in> M. \<forall>y \<in> M. sha256_hex L x = sha256_hex L y \<longrightarrow> x = y)"

lemma sha256_collision_freeD:
  "sha256_collision_free L M \<Longrightarrow> x \<in> M \<Longrightarrow> y \<in> M \<Longrightarrow> sha256_hex L x = sha256_hex L y \<Longrightarrow> x = y"
  unfolding sha256_collision_free_def by blast

lemma sha256_collision_free_mono:
  "sha256_collision_free L M \<Longrightarrow> N \<subseteq> M \<Longrightarrow> sha256_collision_free L N"
  unfolding sha256_collision_free_def by blast

lemma nul_split:
  assumes "nul_free xs" "nul_free ys" "xs @ nul @ as = ys @ nul @ bs"
  shows "xs = ys \<and> as = bs"
  using assms
proof (induction xs arbitrary: ys)
  case Nil
  then show ?case by (cases ys) (auto simp: nul_free_def nul_def)
next
  case (Cons x xs)
  then show ?case by (cases ys) (auto simp: nul_free_def nul_def)
qed

lemma nul_split_iff:
  "nul_free xs \<Longrightarrow> nul_free ys \<Longrightarrow> xs @ nul @ as = ys @ nul @ bs \<longleftrightarrow> xs = ys \<and> as = bs"
  using nul_split by blast

lemma nul_free_success: "nul_free ''success''"
  by (simp add: nul_free_def)

lemma show_int_eq: "show_int i = show_int j \<longleftrightarrow> i = j"
  using show_int_inj by blast

lemma event_hash_of_material: "event_hash_of L r = sha256_hex L (row_material r)"
  by (simp add: event_hash_of_def row_material_def)

lemma audit_material_inj:
  assumes "nul_free p" "nul_free i" "nul_free j" "nul_free a" "nul_free c" "nul_free t" "nul_free g"
      "nul_free d"
    and "nul_free p'" "nul_free i'" "nul_free j'" "nul_free a'" "nul_free c'" "nul_free t'"
      "nul_free g'" "nul_free d'"
    and "audit_material p i j a c t g d at = audit_material p' i' j' a' c' t' g' d' at'"
  shows "p = p' \<and> i = i' \<and> j = j' \<and> a = a' \<and> c = c' \<and> t = t' \<and> g = g' \<and> d = d' \<and> at = at'"
  using assms(17) unfolding audit_material_def
  by (simp only: same_append_eq nul_split_iff [OF assms(1,9)] nul_split_iff [OF assms(2,10)]
      nul_split_iff [OF assms(3,11)] nul_split_iff [OF assms(4,12)] nul_split_iff [OF assms(5,13)]
      nul_split_iff [OF assms(6,14)] nul_split_iff [OF assms(7,15)] nul_split_iff [OF assms(8,16)]
      show_int_eq simp_thms)

lemma row_material_inj:
  assumes "clean_row r" "clean_row q" "row_material r = row_material q"
  shows "audit_content r = audit_content q"
proof -
  define pr where "pr = (case au_previous_hash r of None \<Rightarrow> [] | Some h \<Rightarrow> h)"
  define pq where "pq = (case au_previous_hash q of None \<Rightarrow> [] | Some h \<Rightarrow> h)"
  have free: "nul_free pr" "nul_free pq"
    using assms(1,2) by (auto simp: clean_row_def pr_def pq_def nul_free_def split: option.splits)
  have "audit_material pr (au_id r) (au_project_id r) (au_actor_principal_id r) (au_action r)
        (au_aggregate_type r) (au_aggregate_id r) (au_details_json r) (au_occurred_at r)
      = audit_material pq (au_id q) (au_project_id q) (au_actor_principal_id q) (au_action q)
        (au_aggregate_type q) (au_aggregate_id q) (au_details_json q) (au_occurred_at q)"
    using assms(3) as_bytes_inj by (simp add: row_material_def pr_def pq_def)
  then have eqs: "pr = pq \<and> au_id r = au_id q \<and> au_project_id r = au_project_id q
    \<and> au_actor_principal_id r = au_actor_principal_id q \<and> au_action r = au_action q
    \<and> au_aggregate_type r = au_aggregate_type q \<and> au_aggregate_id r = au_aggregate_id q
    \<and> au_details_json r = au_details_json q \<and> au_occurred_at r = au_occurred_at q"
    using assms(1,2) free unfolding clean_row_def
    by - (rule audit_material_inj, auto)
  have "au_previous_hash r = au_previous_hash q"
    using eqs assms(1,2) by (auto simp: pr_def pq_def clean_row_def split: option.splits)
  with eqs show ?thesis by (simp add: audit_content_def)
qed

lemma chained_hashes_bind:
  assumes "\<forall>r \<in> set rs \<union> set qs. clean_row r"
    and "sha256_collision_free L (row_material ` (set rs \<union> set qs))"
    and "chained L None rs" "chained L None qs"
    and "last_hash None rs = last_hash None qs"
  shows "map audit_content rs = map audit_content qs"
  using assms
proof (induction rs arbitrary: qs rule: rev_induct)
  case Nil
  then show ?case by (auto simp: last_hash_def split: if_splits)
next
  case (snoc r rs)
  from snoc.prems(5) obtain qs' q where qs: "qs = qs' @ [q]"
    by (cases qs rule: rev_cases) (auto simp: last_hash_def)
  have r: "au_event_hash r = sha256_hex L (row_material r)" "au_previous_hash r = last_hash None rs"
    and q: "au_event_hash q = sha256_hex L (row_material q)" "au_previous_hash q = last_hash None qs'"
    using snoc.prems(3,4) by (simp_all add: qs chained_append event_hash_of_material)
  have "au_event_hash r = au_event_hash q"
    using snoc.prems(5) by (simp add: qs last_hash_def)
  then have "sha256_hex L (row_material r) = sha256_hex L (row_material q)" by (simp only: r q)
  then have "row_material r = row_material q"
    by (rule sha256_collision_freeD [OF snoc.prems(2), rotated 2]) (simp_all add: qs)
  then have same: "audit_content r = audit_content q"
    using snoc.prems(1) by (intro row_material_inj) (auto simp: qs)
  then have "last_hash None rs = last_hash None qs'" using r(2) q(2) by (simp add: audit_content_def)
  moreover have "sha256_collision_free L (row_material ` (set rs \<union> set qs'))"
    by (rule sha256_collision_free_mono [OF snoc.prems(2)]) (auto simp: qs)
  ultimately have "map audit_content rs = map audit_content qs'"
    using snoc.prems(1,3,4) by (intro snoc.IH) (auto simp: qs chained_append)
  with same show ?case by (simp add: qs)
qed

end
