(* ===== verification/HubProjects.thy ===== *)
theory HubProjects
  imports HubCore
begin

text \<open>
  Projects and members: \<open>create_project\<close>, \<open>patch_project\<close>, \<open>archive_project\<close>,
  \<open>upsert_member\<close>, \<open>remove_member\<close> and the queries. The part of an operation between the
  idempotency check and the evidence is its \<open>_body\<close>.
\<close>

section \<open>Requests\<close>

record create_project_request =
  cp_name :: string
  cp_slug :: string

definition create_project_json :: "create_project_request \<Rightarrow> json" where
  "create_project_json r = JObj [(''name'', JStr (cp_name r)), (''slug'', JStr (cp_slug r))]"

record upsert_member_request =
  um_principal_id :: string
  um_role :: hub_role

definition upsert_member_json :: "upsert_member_request \<Rightarrow> json" where
  "upsert_member_json r =
     JObj [(''principalId'', JStr (um_principal_id r)), (''role'', JStr (role_as_str (um_role r)))]"

record patch_project_request =
  pp_name :: string
  pp_expected_version :: int

definition patch_project_json :: "patch_project_request \<Rightarrow> json" where
  "patch_project_json r =
     JObj [(''name'', JStr (pp_name r)), (''expectedVersion'', JNum (pp_expected_version r))]"

definition project_from_row :: "project_row \<Rightarrow> hub_project" where
  "project_from_row p = hub_project.truncate p"

definition expect_project :: "response \<Rightarrow> hub_project option" where
  "expect_project r = (case r of RProject p \<Rightarrow> Some p | _ \<Rightarrow> None)"

definition expect_membership :: "response \<Rightarrow> membership option" where
  "expect_membership r = (case r of RMembership m \<Rightarrow> Some m | _ \<Rightarrow> None)"

definition expect_value :: "response \<Rightarrow> json option" where
  "expect_value r = (case r of RValue v \<Rightarrow> Some v | _ \<Rightarrow> None)"

definition membership_json :: "membership \<Rightarrow> json" where
  "membership_json m =
     JObj [(''projectId'', JStr (me_project_id m)), (''principalId'', JStr (me_principal_id m)),
           (''displayName'', JStr (me_display_name m)),
           (''role'', JStr (role_as_str (me_role m))), (''version'', JNum (me_version m))]"

section \<open>Inserts\<close>

text \<open>
  An insert that breaks a key or a reference of the schema is an internal error;
  \<open>INSERT OR IGNORE\<close> skips a row that breaks a key, which \<open>create_project\<close> reports.
\<close>

definition project_key_taken :: "project_row \<Rightarrow> hub_db \<Rightarrow> bool" where
  "project_key_taken r db \<longleftrightarrow>
     (\<exists>p \<in> set (db_projects db). hp_id p = hp_id r \<or> hp_slug p = hp_slug r
        \<or> hp_default_channel_id p = hp_default_channel_id r)"

definition insert_channel :: "channel_row \<Rightarrow> hub_db \<Rightarrow> hub_error + hub_db" where
  "insert_channel r db =
     (if (\<exists>c \<in> set (db_channels db). ch_id c = ch_id r
            \<or> ch_project_id c = ch_project_id r \<and> ch_name c = ch_name r)
         \<or> ch_project_id r \<notin> hp_id ` set (db_projects db)
      then Inl hub_internal
      else Inr (db\<lparr>db_channels := db_channels db @ [r]\<rparr>))"

definition insert_membership :: "membership_row \<Rightarrow> hub_db \<Rightarrow> hub_error + hub_db" where
  "insert_membership r db =
     (if (\<exists>m \<in> set (db_memberships db). mb_project_id m = mb_project_id r
            \<and> mb_principal_id m = mb_principal_id r)
         \<or> mb_project_id r \<notin> hp_id ` set (db_projects db)
         \<or> mb_principal_id r \<notin> pr_id ` set (db_principals db)
      then Inl hub_internal
      else Inr (db\<lparr>db_memberships := db_memberships db @ [r]\<rparr>))"

section \<open>Creating a project\<close>

definition create_project_body ::
  "hub_draws \<Rightarrow> actor \<Rightarrow> create_project_request \<Rightarrow> hub_db
   \<Rightarrow> hub_error + hub_project \<times> evidence \<times> hub_db" where
  "create_project_body dr a request db =
     (let now = dr_now dr;
          project = \<lparr>hp_id = new_id ''prj'' (dr_uuid dr 0), hp_name = str_trim (cp_name request),
            hp_slug = cp_slug request, hp_default_channel_id = new_id ''ach'' (dr_uuid dr 1),
            hp_archived_at = None, hp_version = 1, hp_created_at = now, hp_updated_at = now\<rparr>;
          row = hub_project.extend project (project_row.fields (ac_principal_id a))
      in if project_key_taken row db
         then Inl (conflict ''HUB_VERSION_CONFLICT'' ''A project already uses this slug.'')
         else if ac_principal_id a \<notin> pr_id ` set (db_principals db) then Inl hub_internal
         else
           bindE (insert_channel \<lparr>ch_id = hp_default_channel_id project, ch_project_id = hp_id project,
                    ch_name = ''accepted'', ch_head = None, ch_version = 1\<rparr>
                    (db\<lparr>db_projects := db_projects db @ [row]\<rparr>)) (\<lambda>db1.
           bindE (insert_membership \<lparr>mb_project_id = hp_id project,
                    mb_principal_id = ac_principal_id a, mb_role = ''admin'', mb_version = 1,
                    mb_created_at = now, mb_updated_at = now\<rparr> db1) (\<lambda>db2.
           Inr (project,
             \<lparr>ev_project_id = hp_id project, ev_action = ''project.created'',
              ev_aggregate_type = ''project'', ev_aggregate_id = hp_id project,
              ev_category = ''project'', ev_event_type = ''project.created'',
              ev_details = JObj [(''name'', JStr (hp_name project)),
                                 (''slug'', JStr (hp_slug project))]\<rparr>, db2))))"

definition create_project ::
  "hub_lib \<Rightarrow> hub_draws \<Rightarrow> actor \<Rightarrow> string \<Rightarrow> create_project_request \<Rightarrow> hub_db
   \<Rightarrow> hub_error + hub_project \<times> hub_db" where
  "create_project L dr a key request db =
     bindE (validate_name (cp_name request) 1 120 ''Project name'') (\<lambda>_.
     bindE (validate_slug (cp_slug request)) (\<lambda>_.
     idempotent_mutation L dr a ''_global'' ''projects.create'' key
       (canonical_request_hash L (create_project_json request)) expect_project RProject
       (create_project_body dr a request) db))"

section \<open>Queries\<close>

definition list_projects :: "hub_db \<Rightarrow> actor \<Rightarrow> hub_project list" where
  "list_projects db a =
     take 201 (sort_key (\<lambda>p. (hp_name p, hp_id p))
       [project_from_row p. p \<leftarrow> db_projects db, m \<leftarrow> db_memberships db,
          mb_project_id m = hp_id p \<and> mb_principal_id m = ac_principal_id a])"

definition get_project :: "hub_db \<Rightarrow> hub_db \<Rightarrow> actor \<Rightarrow> string \<Rightarrow> hub_error + hub_project" where
  "get_project db0 db a pid =
     bindE (authorize_project db0 a pid Read) (\<lambda>_.
     bindE (ok_or (find (\<lambda>p. hp_id p = pid) (db_projects db)) (not_found ''HUB_PROJECT_NOT_FOUND''))
       (\<lambda>p. Inr (project_from_row p)))"

definition list_members ::
  "hub_db \<Rightarrow> hub_db \<Rightarrow> actor \<Rightarrow> string \<Rightarrow> hub_error + membership list" where
  "list_members db0 db a pid =
     bindE (authorize_project db0 a pid Read) (\<lambda>_.
     collectE (\<lambda>(m, p). bindE (role_parse (mb_role m)) (\<lambda>role.
         Inr \<lparr>me_project_id = mb_project_id m, me_principal_id = mb_principal_id m,
              me_display_name = pr_display_name p, me_role = role, me_version = mb_version m\<rparr>))
       (sort_key (\<lambda>(m, p). (pr_display_name p, pr_id p))
          [(m, p). m \<leftarrow> db_memberships db, p \<leftarrow> db_principals db,
             pr_id p = mb_principal_id m \<and> mb_project_id m = pid]))"

section \<open>Members\<close>

definition is_member :: "string \<Rightarrow> string \<Rightarrow> membership_row \<Rightarrow> bool" where
  "is_member pid principal_id m \<longleftrightarrow> mb_project_id m = pid \<and> mb_principal_id m = principal_id"

text \<open>\<open>INSERT .. ON CONFLICT(project_id, principal_id) DO UPDATE\<close>.\<close>

definition upsert_membership ::
  "int \<Rightarrow> string \<Rightarrow> upsert_member_request \<Rightarrow> hub_db \<Rightarrow> hub_error + hub_db" where
  "upsert_membership now pid request db =
     (if list_ex (is_member pid (um_principal_id request)) (db_memberships db)
      then Inr (db\<lparr>db_memberships := map (\<lambda>m.
             if is_member pid (um_principal_id request) m
             then m\<lparr>mb_role := role_as_str (um_role request), mb_version := mb_version m + 1,
                    mb_updated_at := now\<rparr>
             else m) (db_memberships db)\<rparr>)
      else insert_membership \<lparr>mb_project_id = pid, mb_principal_id = um_principal_id request,
             mb_role = role_as_str (um_role request), mb_version = 1, mb_created_at = now,
             mb_updated_at = now\<rparr> db)"

definition upsert_member_body ::
  "quotas \<Rightarrow> hub_draws \<Rightarrow> string \<Rightarrow> upsert_member_request \<Rightarrow> hub_db
   \<Rightarrow> hub_error + membership \<times> evidence \<times> hub_db" where
  "upsert_member_body Q dr pid request db =
     (let member_count = int (length (filter (\<lambda>m. mb_project_id m = pid) (db_memberships db)));
          exists = list_ex (is_member pid (um_principal_id request)) (db_memberships db)
      in if \<not> exists \<and> qu_max_members Q \<le> member_count
         then Inl (quota_error ''members'' member_count (qu_max_members Q))
         else
           bindE (ok_or (find (\<lambda>p. pr_id p = um_principal_id request) (db_principals db))
                    (not_found ''HUB_PRINCIPAL_NOT_FOUND'')) (\<lambda>p.
           bindE (upsert_membership (dr_now dr) pid request db) (\<lambda>db1.
           bindE (ok_or (find (is_member pid (um_principal_id request)) (db_memberships db1))
                    hub_internal) (\<lambda>row.
           let result = \<lparr>me_project_id = pid, me_principal_id = um_principal_id request,
                 me_display_name = pr_display_name p, me_role = um_role request,
                 me_version = mb_version row\<rparr>
           in Inr (result,
                \<lparr>ev_project_id = pid, ev_action = ''membership.upserted'',
                 ev_aggregate_type = ''membership'', ev_aggregate_id = um_principal_id request,
                 ev_category = ''membership'', ev_event_type = ''membership.changed'',
                 ev_details = membership_json result\<rparr>, db1)))))"

definition upsert_member ::
  "hub_lib \<Rightarrow> quotas \<Rightarrow> hub_draws \<Rightarrow> hub_db \<Rightarrow> actor \<Rightarrow> string \<Rightarrow> string \<Rightarrow> upsert_member_request
   \<Rightarrow> hub_db \<Rightarrow> hub_error + membership \<times> hub_db" where
  "upsert_member L Q dr db0 a pid key request db =
     bindE (authorize_project db0 a pid ManageMembers) (\<lambda>_.
     bindE (membership_role db a pid ManageMembers) (\<lambda>_.
     idempotent_mutation L dr a pid ''members.upsert'' key
       (canonical_request_hash L (upsert_member_json request)) expect_membership RMembership
       (upsert_member_body Q dr pid request) db))"

definition removed_json :: "string \<Rightarrow> string \<Rightarrow> json" where
  "removed_json pid principal_id =
     JObj [(''projectId'', JStr pid), (''principalId'', JStr principal_id),
           (''removed'', JBool True)]"

definition remove_member_body ::
  "string \<Rightarrow> string \<Rightarrow> hub_db \<Rightarrow> hub_error + json \<times> evidence \<times> hub_db" where
  "remove_member_body pid principal_id db =
     bindE (ok_or (find (is_member pid principal_id) (db_memberships db))
              (not_found ''HUB_MEMBERSHIP_NOT_FOUND'')) (\<lambda>m.
     if mb_role m = ''admin''
        \<and> length (filter (\<lambda>n. mb_project_id n = pid \<and> mb_role n = ''admin'') (db_memberships db)) \<le> 1
     then Inl (conflict ''HUB_LAST_ADMIN'' ''A project must retain at least one administrator.'')
     else
       let result = removed_json pid principal_id
       in Inr (result,
            \<lparr>ev_project_id = pid, ev_action = ''membership.removed'',
             ev_aggregate_type = ''membership'', ev_aggregate_id = principal_id,
             ev_category = ''membership'', ev_event_type = ''membership.removed'',
             ev_details = result\<rparr>,
            db\<lparr>db_memberships := filter (\<lambda>n. \<not> is_member pid principal_id n) (db_memberships db)\<rparr>))"

definition remove_member ::
  "hub_lib \<Rightarrow> hub_draws \<Rightarrow> hub_db \<Rightarrow> actor \<Rightarrow> string \<Rightarrow> string \<Rightarrow> string \<Rightarrow> hub_db
   \<Rightarrow> hub_error + json \<times> hub_db" where
  "remove_member L dr db0 a pid principal_id key db =
     bindE (authorize_project db0 a pid ManageMembers) (\<lambda>_.
     bindE (membership_role db a pid ManageMembers) (\<lambda>_.
     idempotent_mutation L dr a pid ''members.remove'' key
       (canonical_request_hash L (JObj [(''principalId'', JStr principal_id)])) expect_value RValue
       (remove_member_body pid principal_id) db))"

section \<open>Renaming and archiving\<close>

text \<open>The two updates count the rows they change; the changed row is read again.\<close>

definition update_project ::
  "(project_row \<Rightarrow> bool) \<Rightarrow> (project_row \<Rightarrow> project_row) \<Rightarrow> string \<Rightarrow> string \<Rightarrow> hub_db
   \<Rightarrow> hub_error + hub_project \<times> hub_db" where
  "update_project hit change conflict_text pid db =
     (if length (filter hit (db_projects db)) \<noteq> 1
      then Inl (conflict ''HUB_VERSION_CONFLICT'' conflict_text)
      else
        let db1 = db\<lparr>db_projects := map (\<lambda>p. if hit p then change p else p) (db_projects db)\<rparr>
        in bindE (ok_or (find (\<lambda>p. hp_id p = pid) (db_projects db1)) hub_internal) (\<lambda>p.
           Inr (project_from_row p, db1)))"

definition patch_project_body ::
  "hub_draws \<Rightarrow> string \<Rightarrow> patch_project_request \<Rightarrow> hub_db
   \<Rightarrow> hub_error + hub_project \<times> evidence \<times> hub_db" where
  "patch_project_body dr pid request db =
     bindE (update_project
       (\<lambda>p. hp_id p = pid \<and> hp_version p = pp_expected_version request \<and> hp_archived_at p = None)
       (\<lambda>p. p\<lparr>hp_name := str_trim (pp_name request), hp_version := hp_version p + 1,
             hp_updated_at := dr_now dr\<rparr>)
       ''Project version did not match.'' pid db) (\<lambda>(project, db1).
     Inr (project,
       \<lparr>ev_project_id = pid, ev_action = ''project.updated'', ev_aggregate_type = ''project'',
        ev_aggregate_id = pid, ev_category = ''project'', ev_event_type = ''project.updated'',
        ev_details = JObj [(''name'', JStr (hp_name project)),
                           (''version'', JNum (hp_version project))]\<rparr>, db1))"

definition patch_project ::
  "hub_lib \<Rightarrow> hub_draws \<Rightarrow> hub_db \<Rightarrow> actor \<Rightarrow> string \<Rightarrow> string \<Rightarrow> patch_project_request
   \<Rightarrow> hub_db \<Rightarrow> hub_error + hub_project \<times> hub_db" where
  "patch_project L dr db0 a pid key request db =
     bindE (authorize_project db0 a pid ManageMembers) (\<lambda>_.
     bindE (validate_name (pp_name request) 1 120 ''Project name'') (\<lambda>_.
     bindE (membership_role db a pid ManageMembers) (\<lambda>_.
     idempotent_mutation L dr a pid ''projects.patch'' key
       (canonical_request_hash L (patch_project_json request)) expect_project RProject
       (patch_project_body dr pid request) db)))"

definition archive_project_body ::
  "hub_draws \<Rightarrow> string \<Rightarrow> hub_db \<Rightarrow> hub_error + hub_project \<times> evidence \<times> hub_db" where
  "archive_project_body dr pid db =
     (let now = dr_now dr
      in bindE (update_project (\<lambda>p. hp_id p = pid \<and> hp_archived_at p = None)
           (\<lambda>p. p\<lparr>hp_archived_at := Some now, hp_version := hp_version p + 1, hp_updated_at := now\<rparr>)
           ''Project is already archived.'' pid db) (\<lambda>(project, db1).
         Inr (project,
           \<lparr>ev_project_id = pid, ev_action = ''project.archived'', ev_aggregate_type = ''project'',
            ev_aggregate_id = pid, ev_category = ''project'', ev_event_type = ''project.archived'',
            ev_details = JObj [(''archivedAtMs'', JNum now)]\<rparr>, db1)))"

definition archive_project ::
  "hub_lib \<Rightarrow> hub_draws \<Rightarrow> hub_db \<Rightarrow> actor \<Rightarrow> string \<Rightarrow> string \<Rightarrow> hub_db
   \<Rightarrow> hub_error + hub_project \<times> hub_db" where
  "archive_project L dr db0 a pid key db =
     bindE (authorize_project db0 a pid ManageMembers) (\<lambda>_.
     bindE (membership_role db a pid ManageMembers) (\<lambda>_.
     idempotent_mutation L dr a pid ''projects.archive'' key
       (canonical_request_hash L (JObj [(''projectId'', JStr pid)])) expect_project RProject
       (archive_project_body dr pid) db))"

section \<open>The operations as mutations\<close>

lemmas project_body_defs =
  create_project_body_def upsert_member_body_def remove_member_body_def patch_project_body_def
  archive_project_body_def update_project_def upsert_membership_def insert_membership_def
  insert_channel_def

interpretation create_project:
  hub_mutation "create_project_body dr a request" expect_project RProject for dr a request
  by unfold_locales
    (auto simp: project_body_defs same_log_def expect_project_def result_simps Let_def
      split: if_splits)

interpretation upsert_member:
  hub_mutation "upsert_member_body Q dr pid request" expect_membership RMembership
  for Q dr pid request
  by unfold_locales
    (auto simp: project_body_defs same_log_def expect_membership_def result_simps Let_def
      split: if_splits)

interpretation remove_member:
  hub_mutation "remove_member_body pid principal_id" expect_value RValue for pid principal_id
  by unfold_locales
    (auto simp: project_body_defs same_log_def expect_value_def result_simps Let_def
      split: if_splits)

interpretation patch_project:
  hub_mutation "patch_project_body dr pid request" expect_project RProject for dr pid request
  by unfold_locales
    (auto simp: project_body_defs same_log_def expect_project_def result_simps Let_def
      split: if_splits)

interpretation archive_project:
  hub_mutation "archive_project_body dr pid" expect_project RProject for dr pid
  by unfold_locales
    (auto simp: project_body_defs same_log_def expect_project_def result_simps Let_def
      split: if_splits)

section \<open>The membership table as a map of roles\<close>

definition members_ok :: "hub_db \<Rightarrow> bool" where
  "members_ok db \<longleftrightarrow>
     distinct (map (\<lambda>m. (mb_project_id m, mb_principal_id m)) (db_memberships db))
     \<and> (\<forall>m \<in> set (db_memberships db). is_ok (role_parse (mb_role m))
          \<and> mb_project_id m \<in> hp_id ` set (db_projects db)
          \<and> mb_principal_id m \<in> pr_id ` set (db_principals db))"

definition stored_role :: "membership_row \<Rightarrow> hub_role" where
  "stored_role m = (case role_parse (mb_role m) of Inr r \<Rightarrow> r | Inl _ \<Rightarrow> Viewer)"

definition roles_of :: "hub_db \<Rightarrow> string \<Rightarrow> string \<rightharpoonup> hub_role" where
  "roles_of db pid u = map_option stored_role (find (is_member pid u) (db_memberships db))"

text \<open>The abstract membership service of one project: a map of roles, with error codes.\<close>

definition spec_upsert ::
  "int \<Rightarrow> string set \<Rightarrow> string \<Rightarrow> hub_role \<Rightarrow> (string \<rightharpoonup> hub_role) \<Rightarrow> string + (string \<rightharpoonup> hub_role)" where
  "spec_upsert max_members known u r roles =
     (if u \<notin> dom roles \<and> max_members \<le> int (card (dom roles)) then Inl ''HUB_QUOTA_EXCEEDED''
      else if u \<notin> known then Inl ''HUB_PRINCIPAL_NOT_FOUND''
      else Inr (roles(u \<mapsto> r)))"

definition spec_remove ::
  "string \<Rightarrow> (string \<rightharpoonup> hub_role) \<Rightarrow> string + (string \<rightharpoonup> hub_role)" where
  "spec_remove u roles =
     (if u \<notin> dom roles then Inl ''HUB_MEMBERSHIP_NOT_FOUND''
      else if {v. roles v = Some Admin} = {u} then Inl ''HUB_LAST_ADMIN''
      else Inr (roles(u := None)))"

definition abs_members ::
  "string \<Rightarrow> hub_error + 'a \<times> evidence \<times> hub_db \<Rightarrow> string + (string \<rightharpoonup> hub_role)" where
  "abs_members pid result =
     (case result of Inl e \<Rightarrow> Inl (he_code e) | Inr (v, ev, db) \<Rightarrow> Inr (roles_of db pid))"

lemma role_as_str_inj: "role_as_str r = role_as_str q \<Longrightarrow> r = q"
  by (rule hub_role.render_inj) simp_all

lemma is_member_unique: "is_member pid u m \<Longrightarrow> is_member pid v m \<longleftrightarrow> v = u"
  by (auto simp: is_member_def)

lemma is_member_update [simp]:
  "is_member pid u (m\<lparr>mb_role := r, mb_version := n, mb_updated_at := t\<rparr>) = is_member pid u m"
  by (simp add: is_member_def)

lemma is_member_new [simp]:
  "is_member pid u \<lparr>mb_project_id = p, mb_principal_id = q, mb_role = r, mb_version = n,
     mb_created_at = c, mb_updated_at = t\<rparr> \<longleftrightarrow> p = pid \<and> q = u"
  by (simp add: is_member_def)

lemma find_member_Some:
  assumes "members_ok db"
  shows "find (is_member pid u) (db_memberships db) = Some m
    \<longleftrightarrow> m \<in> set (db_memberships db) \<and> is_member pid u m"
proof
  assume "find (is_member pid u) (db_memberships db) = Some m"
  then show "m \<in> set (db_memberships db) \<and> is_member pid u m"
    by (auto simp: find_Some_iff)
next
  assume m: "m \<in> set (db_memberships db) \<and> is_member pid u m"
  then obtain m' where m': "find (is_member pid u) (db_memberships db) = Some m'"
    by (cases "find (is_member pid u) (db_memberships db)") (auto simp: find_None_iff)
  then have "m' \<in> set (db_memberships db)" "is_member pid u m'" by (auto simp: find_Some_iff)
  with m assms have "m' = m"
    unfolding members_ok_def distinct_map inj_on_def is_member_def by (metis (no_types, lifting))
  with m' show "find (is_member pid u) (db_memberships db) = Some m" by simp
qed

lemma stored_role_iff:
  assumes "members_ok db" "m \<in> set (db_memberships db)"
  shows "stored_role m = r \<longleftrightarrow> mb_role m = role_as_str r"
proof -
  have "is_ok (role_parse (mb_role m))" using assms by (simp add: members_ok_def)
  then obtain r' where "role_parse (mb_role m) = Inr r'" unfolding is_ok_iff by blast
  then have "mb_role m = role_as_str r'" "stored_role m = r'"
    using role_parse_sound by (simp_all add: stored_role_def)
  then show ?thesis using role_as_str_inj by auto
qed

lemma roles_of_Some:
  assumes "members_ok db"
  shows "roles_of db pid u = Some r
    \<longleftrightarrow> (\<exists>m \<in> set (db_memberships db). is_member pid u m \<and> mb_role m = role_as_str r)"
  using stored_role_iff [OF assms] by (auto simp: roles_of_def find_member_Some [OF assms])

lemma dom_roles_of:
  "dom (roles_of db pid) = mb_principal_id ` {m \<in> set (db_memberships db). mb_project_id m = pid}"
  by (auto simp: roles_of_def dom_def find_Some_iff find_None_iff is_member_def image_iff
      not_None_eq [symmetric])

lemma card_members:
  assumes "members_ok db"
  shows "card (mb_principal_id ` {m \<in> set (db_memberships db). mb_project_id m = pid \<and> P m})
    = length (filter (\<lambda>m. mb_project_id m = pid \<and> P m) (db_memberships db))"
proof -
  let ?Q = "\<lambda>m. mb_project_id m = pid \<and> P m"
  have d: "distinct (db_memberships db)"
    and inj: "inj_on (\<lambda>m. (mb_project_id m, mb_principal_id m)) (set (db_memberships db))"
    using assms by (simp_all add: members_ok_def distinct_map)
  have "length (filter ?Q (db_memberships db)) = card {m \<in> set (db_memberships db). ?Q m}"
    using distinct_card [OF distinct_filter [OF d, of ?Q]] by (simp only: set_filter)
  moreover have "inj_on mb_principal_id {m \<in> set (db_memberships db). mb_project_id m = pid \<and> P m}"
    using inj by (auto simp: inj_on_def)
  ultimately show ?thesis by (simp add: card_image)
qed

lemma card_dom_roles:
  "members_ok db \<Longrightarrow> card (dom (roles_of db pid))
     = length (filter (\<lambda>m. mb_project_id m = pid) (db_memberships db))"
  using card_members [of db pid "\<lambda>_. True"] by (simp add: dom_roles_of)

lemma admins_of_roles:
  assumes "members_ok db"
  shows "{u. roles_of db pid u = Some Admin}
    = mb_principal_id ` {m \<in> set (db_memberships db). mb_project_id m = pid \<and> mb_role m = ''admin''}"
  by (auto simp: roles_of_Some [OF assms] is_member_def role_as_str_def)

lemma card_admins:
  "members_ok db \<Longrightarrow> card {u. roles_of db pid u = Some Admin}
     = length (filter (\<lambda>m. mb_project_id m = pid \<and> mb_role m = ''admin'') (db_memberships db))"
  using card_members [of db pid "\<lambda>m. mb_role m = ''admin''"] by (simp add: admins_of_roles)

lemma admin_alone_iff:
  assumes "members_ok db" "roles_of db pid u = Some Admin"
  shows "length (filter (\<lambda>m. mb_project_id m = pid \<and> mb_role m = ''admin'') (db_memberships db)) \<le> 1
    \<longleftrightarrow> {v. roles_of db pid v = Some Admin} = {u}"
proof -
  let ?A = "{v. roles_of db pid v = Some Admin}"
  have "finite ?A" using assms(1) by (simp add: admins_of_roles)
  moreover have "u \<in> ?A" using assms(2) by simp
  ultimately have "card ?A \<le> 1 \<longleftrightarrow> ?A = {u}"
    by (metis One_nat_def card_1_singletonE card_gt_0_iff empty_iff is_singletonI
        is_singleton_altdef le_antisym Suc_leI singletonD)
  then show ?thesis by (simp only: card_admins [OF assms(1)])
qed

lemma remove_member_refines:
  assumes ok: "members_ok db"
  shows "abs_members pid (remove_member_body pid u db) = spec_remove u (roles_of db pid)"
proof (cases "find (is_member pid u) (db_memberships db)")
  case None
  then show ?thesis
    by (simp add: remove_member_body_def abs_members_def spec_remove_def not_found_def
        hub_error_new_def roles_of_def dom_def)
next
  case (Some m)
  then have m: "m \<in> set (db_memberships db)" "is_member pid u m" by (auto simp: find_Some_iff)
  have dom: "u \<in> dom (roles_of db pid)" using Some by (simp add: roles_of_def dom_def)
  have admin: "mb_role m = ''admin'' \<longleftrightarrow> roles_of db pid u = Some Admin"
    using stored_role_iff [OF ok m(1), of Admin] Some by (simp add: roles_of_def role_as_str_def)
  have gone: "roles_of (db\<lparr>db_memberships := filter (\<lambda>n. \<not> is_member pid u n) (db_memberships db)\<rparr>) pid
      = (roles_of db pid)(u := None)"
  proof
    fix v
    have "find (is_member pid v) (filter (\<lambda>n. \<not> is_member pid u n) ms)
        = (if v = u then None else find (is_member pid v) ms)" for ms
      by (induction ms) (auto simp: is_member_unique)
    then show "roles_of (db\<lparr>db_memberships := filter (\<lambda>n. \<not> is_member pid u n) (db_memberships db)\<rparr>)
        pid v = ((roles_of db pid)(u := None)) v"
      by (simp add: roles_of_def)
  qed
  show ?thesis
  proof (cases "roles_of db pid u = Some Admin")
    case True
    note alone = admin_alone_iff [OF ok True]
    show ?thesis
    proof (cases "{v. roles_of db pid v = Some Admin} = {u}")
      case True
      with alone Some admin dom \<open>roles_of db pid u = Some Admin\<close> show ?thesis
        unfolding remove_member_body_def abs_members_def spec_remove_def
        by (simp add: conflict_def hub_error_new_def)
    next
      case False
      with alone Some dom gone show ?thesis
        unfolding remove_member_body_def abs_members_def spec_remove_def
        by (simp add: Let_def)
    qed
  next
    case False
    then have "{v. roles_of db pid v = Some Admin} \<noteq> {u}" by auto
    with False Some admin dom gone show ?thesis
      by (simp add: remove_member_body_def abs_members_def spec_remove_def Let_def)
  qed
qed

lemma roles_of_upsert:
  assumes "upsert_membership now pid request db = Inr db'"
  shows "roles_of db' pid = (roles_of db pid)(um_principal_id request \<mapsto> um_role request)"
proof
  fix v
  let ?u = "um_principal_id request"
  let ?new = "\<lambda>m. if is_member pid ?u m then m\<lparr>mb_role := role_as_str (um_role request),
    mb_version := mb_version m + 1, mb_updated_at := now\<rparr> else m"
  have set: "stored_role m = um_role request" if "mb_role m = role_as_str (um_role request)" for m
    using that by (simp add: stored_role_def)
  have upd: "find (is_member pid v) (map ?new ms) = map_option ?new (find (is_member pid v) ms)" for ms
    by (induction ms) auto
  have hit: "is_member pid w m" if "find (is_member pid w) ms = Some m" for w ms m
    using that by (auto simp: find_Some_iff)
  show "roles_of db' pid v = ((roles_of db pid)(?u \<mapsto> um_role request)) v"
  proof (cases "list_ex (is_member pid ?u) (db_memberships db)")
    case True
    then obtain m where m: "find (is_member pid ?u) (db_memberships db) = Some m"
      by (cases "find (is_member pid ?u) (db_memberships db)") (simp_all add: find_None_list_ex)
    have roles: "roles_of db' pid v
        = map_option (stored_role \<circ> ?new) (find (is_member pid v) (db_memberships db))"
      using assms True by (auto simp: upsert_membership_def roles_of_def upd option.map_comp)
    show ?thesis
    proof (cases "v = ?u")
      case True
      with roles m hit [OF m] show ?thesis by (simp add: set)
    next
      case False
      then have "\<not> is_member pid ?u n" if "find (is_member pid v) (db_memberships db) = Some n" for n
        using hit [OF that] is_member_unique by blast
      with False roles show ?thesis
        by (cases "find (is_member pid v) (db_memberships db)") (simp_all add: roles_of_def)
    qed
  next
    case False
    then have none: "find (is_member pid ?u) (db_memberships db) = None"
      by (simp add: find_None_list_ex)
    with assms False show ?thesis
      by (cases "find (is_member pid v) (db_memberships db)")
        (auto simp: upsert_membership_def roles_of_def insert_membership_def set find_append
          split: if_splits)
  qed
qed

lemma upsert_membership_success:
  assumes "is_ok (upsert_membership now pid request db)"
  shows "\<exists>db1 m. upsert_membership now pid request db = Inr db1
    \<and> find (is_member pid (um_principal_id request)) (db_memberships db1) = Some m"
proof -
  obtain db1 where db1: "upsert_membership now pid request db = Inr db1"
    using assms by (auto simp: is_ok_iff)
  have "roles_of db1 pid (um_principal_id request) = Some (um_role request)"
    using roles_of_upsert [OF db1] by simp
  then show ?thesis using db1 by (auto simp: roles_of_def)
qed

lemma upsert_member_refines:
  assumes ok: "members_ok db" and "pid \<in> hp_id ` set (db_projects db)"
  shows "abs_members pid (upsert_member_body Q dr pid request db)
    = spec_upsert (qu_max_members Q) (pr_id ` set (db_principals db)) (um_principal_id request)
        (um_role request) (roles_of db pid)"
proof -
  let ?u = "um_principal_id request"
  let ?quota = "?u \<notin> dom (roles_of db pid)
    \<and> qu_max_members Q \<le> int (card (dom (roles_of db pid)))"
  have member: "list_ex (is_member pid ?u) (db_memberships db) \<longleftrightarrow> ?u \<in> dom (roles_of db pid)"
    using find_None_list_ex [of "is_member pid ?u" "db_memberships db"]
    by (cases "find (is_member pid ?u) (db_memberships db)") (auto simp: roles_of_def dom_def)
  have count: "length (filter (\<lambda>m. mb_project_id m = pid) (db_memberships db))
      = card (dom (roles_of db pid))"
    using card_dom_roles [OF ok] by simp
  show ?thesis
  proof (cases ?quota)
    case True
    then show ?thesis
      by (simp add: upsert_member_body_def abs_members_def spec_upsert_def member count quota_error_def
          hub_error_details_def hub_error_new_def Let_def)
  next
    case nq: False
    show ?thesis
    proof (cases "find (\<lambda>p. pr_id p = ?u) (db_principals db)")
      case None
      then have "?u \<notin> pr_id ` set (db_principals db)" by (auto simp: find_None_iff)
      with None nq show ?thesis
        by (auto simp: upsert_member_body_def abs_members_def spec_upsert_def member count
            not_found_def hub_error_new_def Let_def)
    next
      case (Some p)
      then have "p \<in> set (db_principals db)" "pr_id p = ?u" by (auto simp: find_Some_iff)
      then have known: "?u \<in> pr_id ` set (db_principals db)" by (metis image_eqI)
      have "is_ok (upsert_membership (dr_now dr) pid request db)"
        using assms(2) known unfolding upsert_membership_def insert_membership_def
        by (simp add: list_ex_iff is_member_def)
      then obtain db1 m where "upsert_membership (dr_now dr) pid request db = Inr db1"
        "find (is_member pid ?u) (db_memberships db1) = Some m"
        using upsert_membership_success by blast
      with nq Some known show ?thesis
        by (auto simp: upsert_member_body_def abs_members_def spec_upsert_def member count Let_def
            roles_of_upsert)
    qed
  qed
qed

section \<open>The membership table stays well formed\<close>

text \<open>\<open>members_ok\<close> reads three tables only.\<close>

lemma members_ok_relog [simp]: "members_ok (relog au n ox m ir db) = members_ok db"
  by (simp add: members_ok_def)

lemma insert_membership_members_ok:
  assumes "members_ok db" "insert_membership r db = Inr db'" "is_ok (role_parse (mb_role r))"
  shows "members_ok db'"
proof -
  have db': "db' = db\<lparr>db_memberships := db_memberships db @ [r]\<rparr>"
    and fks: "mb_project_id r \<in> hp_id ` set (db_projects db)"
      "mb_principal_id r \<in> pr_id ` set (db_principals db)"
    and "(mb_project_id r, mb_principal_id r)
      \<notin> set (map (\<lambda>m. (mb_project_id m, mb_principal_id m)) (db_memberships db))"
    using assms(2) by (auto simp: insert_membership_def split: if_splits)
  with assms(1,3) show ?thesis unfolding members_ok_def by simp
qed

lemma members_ok_map:
  assumes "members_ok db"
    and same: "\<And>m. mb_project_id (f m) = mb_project_id m" "\<And>m. mb_principal_id (f m) = mb_principal_id m"
    and role: "\<And>m. is_ok (role_parse (mb_role m)) \<Longrightarrow> is_ok (role_parse (mb_role (f m)))"
  shows "members_ok (db\<lparr>db_memberships := map f (db_memberships db)\<rparr>)"
proof -
  have "map (\<lambda>m. (mb_project_id m, mb_principal_id m)) (map f ms)
      = map (\<lambda>m. (mb_project_id m, mb_principal_id m)) ms" for ms
    by (simp add: same)
  then show ?thesis
    using assms(1) role unfolding members_ok_def by (auto simp: same comp_def)
qed

lemma create_project_body_cases:
  assumes "create_project_body dr a request db = Inr (v, ev, db')"
  obtains row c db2 r where "insert_channel c (db\<lparr>db_projects := db_projects db @ [row]\<rparr>) = Inr db2"
    "insert_membership r db2 = Inr db'" "mb_role r = ''admin''" "hp_id row = hp_id v"
    "\<not> project_key_taken row db" "mb_project_id r = hp_id v"
    "mb_principal_id r = ac_principal_id a" "ch_project_id c = hp_id v" "ch_head c = None"
    "ch_id c = hp_default_channel_id v" "hp_archived_at row = None"
proof -
  show thesis
    using assms unfolding create_project_body_def Let_def
    by (auto simp: result_simps hub_project.defs project_row.defs split: if_splits)
      (rule that, assumption, assumption, simp_all)
qed

lemma create_project_body_members_ok:
  assumes "members_ok db" "create_project_body dr a request db = Inr (v, ev, db')"
  shows "members_ok db'"
  using assms(2)
proof (cases rule: create_project_body_cases)
  case (1 row c db2 r)
  have "members_ok db2"
    using assms(1) 1(1) by (auto simp: members_ok_def insert_channel_def split: if_splits)
  then show ?thesis
    using 1(2) by (rule insert_membership_members_ok) (simp add: 1(3) role_parse_def)
qed

lemma remove_member_body_members_ok:
  assumes "members_ok db" "remove_member_body pid u db = Inr (v, ev, db')"
  shows "members_ok db'"
  using assms
  by (auto simp: remove_member_body_def members_ok_def result_simps Let_def distinct_map_filter
      split: if_splits)

lemma upsert_member_body_members_ok:
  assumes "members_ok db" "upsert_member_body Q dr pid request db = Inr (v, ev, db')"
  shows "members_ok db'"
proof -
  have u: "upsert_membership (dr_now dr) pid request db = Inr db'"
    using assms(2) by (auto simp: upsert_member_body_def Let_def result_simps split: if_splits)
  show ?thesis
  proof (cases "list_ex (is_member pid (um_principal_id request)) (db_memberships db)")
    case True
    with u show ?thesis
      by (auto simp: upsert_membership_def intro!: members_ok_map [OF assms(1)])
  next
    case False
    with u show ?thesis
      by (intro insert_membership_members_ok [OF assms(1)]) (auto simp: upsert_membership_def)
  qed
qed

lemma update_project_members_ok:
  assumes "members_ok db" "update_project hit change text pid db = Inr (v, db')"
    and "\<And>p. hp_id (change p) = hp_id p"
  shows "members_ok db'"
proof -
  have "hp_id ` set (map (\<lambda>p. if hit p then change p else p) ps) = hp_id ` set ps" for ps
    by (induction ps) (simp_all add: assms(3))
  with assms(1,2) show ?thesis
    by (auto simp: update_project_def members_ok_def result_simps Let_def split: if_splits)
qed

section \<open>Authorization reads the role map\<close>

definition project_open :: "hub_db \<Rightarrow> string \<Rightarrow> bool" where
  "project_open db pid \<longleftrightarrow> (\<exists>p \<in> set (db_projects db). hp_id p = pid \<and> hp_archived_at p = None)"

lemma membership_role_roles:
  assumes "members_ok db"
  shows "membership_role db a pid perm
    = (if project_open db pid
       then (case roles_of db pid (ac_principal_id a) of
               None \<Rightarrow> Inl forbidden
             | Some r \<Rightarrow> if role_allows r perm then Inr r else Inl forbidden)
       else Inl forbidden)"
proof (cases "project_open db pid")
  case False
  then have none: "find (\<lambda>m. mb_project_id m = pid \<and> mb_principal_id m = ac_principal_id a
      \<and> (\<exists>p \<in> set (db_projects db). hp_id p = pid \<and> hp_archived_at p = None))
      (db_memberships db) = None"
    unfolding project_open_def find_None_iff by blast
  show ?thesis unfolding membership_role_def none using False by simp
next
  case True
  then have pred: "(\<lambda>m. mb_project_id m = pid \<and> mb_principal_id m = ac_principal_id a
      \<and> (\<exists>p \<in> set (db_projects db). hp_id p = pid \<and> hp_archived_at p = None))
      = is_member pid (ac_principal_id a)"
    unfolding project_open_def by (auto simp: is_member_def fun_eq_iff)
  show ?thesis
  proof (cases "find (is_member pid (ac_principal_id a)) (db_memberships db)")
    case None
    with True show ?thesis unfolding membership_role_def pred by (simp add: roles_of_def)
  next
    case (Some m)
    then have "is_ok (role_parse (mb_role m))"
      using assms find_member_Some [OF assms] by (simp add: members_ok_def)
    then obtain r where "role_parse (mb_role m) = Inr r" unfolding is_ok_iff by blast
    with Some True show ?thesis
      unfolding membership_role_def pred by (simp add: roles_of_def stored_role_def)
  qed
qed

text \<open>Without an administrator nobody manages the project any more.\<close>

definition orphaned :: "hub_db \<Rightarrow> string \<Rightarrow> bool" where
  "orphaned db pid \<longleftrightarrow> (\<forall>u. roles_of db pid u \<noteq> Some Admin)"

lemma orphaned_forbidden:
  assumes "members_ok db" "orphaned db pid"
  shows "membership_role db a pid ManageMembers = Inl forbidden"
  using assms(2)
  by (auto simp: membership_role_roles [OF assms(1)] orphaned_def role_allows_def split: option.splits)

lemma orphaned_relog [simp]: "orphaned (relog au n ox m ir db) pid = orphaned db pid"
  by (simp add: orphaned_def roles_of_def)

lemma upsert_last_admin_orphans:
  assumes ok: "members_ok db"
    and sole: "{u. roles_of db pid u = Some Admin} = {um_principal_id request}"
    and "um_role request \<noteq> Admin"
    and "upsert_member_body Q dr pid request db = Inr (v, ev, db')"
  shows "orphaned db' pid"
proof -
  have "upsert_membership (dr_now dr) pid request db = Inr db'"
    using assms(4) by (auto simp: upsert_member_body_def Let_def result_simps split: if_splits)
  from roles_of_upsert [OF this] show ?thesis
    using assms(3) sole by (auto simp: orphaned_def)
qed

section \<open>A concrete Hub\<close>

text \<open>Inputs for the witnesses: one project with one administrator and an invited artist.\<close>

definition wit_hub_lib :: hub_lib where
  "wit_hub_lib = \<lparr>hl_hex = (\<lambda>_. ''h''), hl_sha256 = id, hl_blake3 = take 1,
     hl_keyed_blake3 = (\<lambda>k m. k @ m), hl_json_text = (\<lambda>_. ''j'')\<rparr>"

definition wit_draws :: "int \<Rightarrow> string \<Rightarrow> hub_draws" where
  "wit_draws t u = \<lparr>dr_now = t, dr_created_at = t, dr_evidence_at = t, dr_stored_at = t,
     dr_uuid = (\<lambda>n. u @ replicate n (CHR ''i'')), dr_audit_uuid = u, dr_event_uuid = u\<rparr>"

definition wit_quotas :: quotas where
  "wit_quotas = \<lparr>qu_max_members = 4, qu_max_active_leases = 20, qu_max_object_bytes = 1000,
     qu_max_upload_bytes = 1000\<rparr>"

definition empty_hub :: hub_db where
  "empty_hub = \<lparr>db_principals = [], db_tokens = [], db_projects = [], db_memberships = [],
     db_channels = [], db_proposals = [], db_reviews = [], db_revisions = [], db_leases = [],
     db_objects = [], db_project_objects = [], db_uploads = [], db_downloads = [], db_builds = [],
     db_attempts = [], db_releases = [], db_approvals = [], db_idempotency = [], db_audit = [],
     db_audit_sequence = 0, db_outbox = [], db_outbox_sequence = 0\<rparr>"

definition wit_principal :: "string \<Rightarrow> principal_row" where
  "wit_principal u = \<lparr>pr_id = u, pr_display_name = u, pr_is_operator = False, pr_created_at = 0\<rparr>"

definition wit_member :: "string \<Rightarrow> hub_role \<Rightarrow> membership_row" where
  "wit_member u r = \<lparr>mb_project_id = ''prj_1'', mb_principal_id = u, mb_role = role_as_str r,
     mb_version = 1, mb_created_at = 0, mb_updated_at = 0\<rparr>"

definition wit_hub :: hub_db where
  "wit_hub = empty_hub\<lparr>
     db_principals := [wit_principal ''ada'', wit_principal ''bob''],
     db_projects := [\<lparr>hp_id = ''prj_1'', hp_name = ''Game'', hp_slug = ''game'',
        hp_default_channel_id = ''ach_1'', hp_archived_at = None, hp_version = 1,
        hp_created_at = 0, hp_updated_at = 0, hp_created_by = ''ada''\<rparr>],
     db_memberships := [wit_member ''ada'' Admin],
     db_channels := [\<lparr>ch_id = ''ach_1'', ch_project_id = ''prj_1'', ch_name = ''accepted'',
        ch_head = None, ch_version = 1\<rparr>]\<rparr>"

definition wit_actor :: "string \<Rightarrow> actor" where
  "wit_actor u = \<lparr>ac_principal_id = u, ac_display_name = u, ac_is_operator = False,
     ac_session_id = ''s''\<rparr>"

lemmas wit_hub_defs =
  wit_hub_lib_def wit_draws_def wit_quotas_def empty_hub_def wit_principal_def wit_member_def
  wit_hub_def wit_actor_def

lemma wit_hub_members_ok: "members_ok wit_hub"
  by (simp add: members_ok_def wit_hub_defs)

section \<open>Properties\<close>

text \<open>C11: Adding, re-roling and removing members of a project refines a map of roles with a
  quota, the principals known, and the rule that a removal never takes the last administrator:
  the operations fail exactly when the specification does, with its error code, and otherwise
  leave exactly the map it prescribes.\<close>

theorem membership_refines_role_map:
  assumes "members_ok db" and "pid \<in> hp_id ` set (db_projects db)"
  shows "abs_members pid (upsert_member_body Q dr pid request db)
      = spec_upsert (qu_max_members Q) (pr_id ` set (db_principals db)) (um_principal_id request)
          (um_role request) (roles_of db pid)
    \<and> abs_members pid (remove_member_body pid u db) = spec_remove u (roles_of db pid)"
  using upsert_member_refines [OF assms] remove_member_refines [OF assms(1)] by blast

lemma membership_refines_role_map_witness:
  "abs_members ''prj_1'' (upsert_member_body wit_quotas (wit_draws 5 ''u'') ''prj_1''
       \<lparr>um_principal_id = ''bob'', um_role = Artist\<rparr> wit_hub)
     = spec_upsert 4 {''ada'', ''bob''} ''bob'' Artist (roles_of wit_hub ''prj_1'')
   \<and> abs_members ''prj_1'' (remove_member_body ''prj_1'' ''ada'' wit_hub)
     = spec_remove ''ada'' (roles_of wit_hub ''prj_1'')
   \<and> spec_remove ''ada'' (roles_of wit_hub ''prj_1'') = Inl ''HUB_LAST_ADMIN''"
proof -
  have "''prj_1'' \<in> hp_id ` set (db_projects wit_hub)" by (simp add: wit_hub_defs)
  note refines = membership_refines_role_map [OF wit_hub_members_ok this, of wit_quotas
      "wit_draws 5 ''u''" "\<lparr>um_principal_id = ''bob'', um_role = Artist\<rparr>" "''ada''"]
  have "roles_of wit_hub ''prj_1'' v = (if v = ''ada'' then Some Admin else None)" for v
    by (simp add: roles_of_def wit_hub_defs is_member_def stored_role_def)
  then have "spec_remove ''ada'' (roles_of wit_hub ''prj_1'') = Inl ''HUB_LAST_ADMIN''"
    by (auto simp: spec_remove_def dom_def)
  with refines show ?thesis by (simp add: wit_hub_defs)
qed

end
