(* ===== verification/HubObjects.thy ===== *)
theory HubObjects
  imports HubProjects
begin

text \<open>
  The content-addressed object store: negotiating, receiving and completing uploads, object
  queries and downloads.

  The file system is a map from paths to contents. It is not part of the transaction: what an
  operation did to files stays when the database rolls back. The outcome of every file system
  call is an argument.
\<close>

type_synonym fs = "string \<rightharpoonup> u8 list"

section \<open>Parameters and paths\<close>

record hub_config =
  hc_object_dir :: string
  hc_transfer_key :: "u8 list"
  hc_cursor_key :: "u8 list"
  hc_public_base_url :: string

text \<open>\<open>io_write = Some part\<close>: the write failed after \<open>part\<close> reached the file.\<close>

record io_outcome =
  io_write :: "u8 list option"
  io_rename :: bool
  io_read :: bool
  io_create_dir :: bool
  io_read_existing :: bool
  io_remove :: bool

definition TRANSFER_TTL_MS :: int where
  "TRANSFER_TTL_MS = 10 * 60000"

definition hub_content_hash :: "hub_lib \<Rightarrow> u8 list \<Rightarrow> string" where
  "hub_content_hash L bytes = ''b3-256:'' @ hub_base32_lower (hl_blake3 L bytes)"

definition cas_path :: "string \<Rightarrow> string \<Rightarrow> string" where
  "cas_path object_dir digest =
     object_dir @ ''/cas/'' @ take 2 digest @ ''/'' @ take 2 (drop 2 digest) @ ''/'' @ digest"

definition object_path :: "hub_config \<Rightarrow> string \<Rightarrow> hub_error + string" where
  "object_path cfg hash =
     bindE (validate_content_hash hash) (\<lambda>_.
     bindE (ok_or (strip_prefix ''b3-256:'' hash) (hub_invalid ''Unsupported content hash.''))
       (\<lambda>digest. Inr (cas_path (hc_object_dir cfg) digest)))"

definition temp_path :: "hub_config \<Rightarrow> string \<Rightarrow> string" where
  "temp_path cfg upload_id = hc_object_dir cfg @ ''/tmp/'' @ upload_id"

text \<open>\<open>Path::with_extension\<close>: replaces what follows the last dot of the file name, if the dot
  is not its first character.\<close>

definition with_extension :: "string \<Rightarrow> string \<Rightarrow> string" where
  "with_extension ext path =
     (let name = rev (takeWhile (\<lambda>c. c \<noteq> CHR ''/'') (rev path));
          dir = take (length path - length name) path;
          stem = (if CHR ''.'' \<in> set (tl name)
                  then rev (tl (dropWhile (\<lambda>c. c \<noteq> CHR ''.'') (rev name))) else name)
      in dir @ stem @ ''.'' @ ext)"

definition derive_transfer_secret ::
  "hub_lib \<Rightarrow> u8 list \<Rightarrow> string \<Rightarrow> string \<Rightarrow> int \<Rightarrow> string" where
  "derive_transfer_secret L transfer_key upload_id pid expires_at =
     hl_hex L (hl_keyed_blake3 L transfer_key
       (as_bytes (''neuman-hub-upload-transfer-v1'' @ nul @ upload_id @ nul @ pid @ nul
                  @ show_int expires_at)))"

definition trim_end_slashes :: "string \<Rightarrow> string" where
  "trim_end_slashes url = rev (dropWhile (\<lambda>c. c = CHR ''/'') (rev url))"

section \<open>Requests and answers\<close>

record negotiate_request =
  ng_expected_hash :: string
  ng_expected_size :: int
  ng_media_type :: string

record complete_request =
  cu_purpose :: string
  cu_referenced_by :: string

record object_status =
  os_content_hash :: string
  os_status :: string
  os_size_bytes :: "int option"

record download_negotiation =
  dn_download_id :: string
  dn_download_url :: string
  dn_transfer_token :: string
  dn_expires_at :: int
  dn_content_hash :: string
  dn_size_bytes :: int

definition negotiate_json :: "negotiate_request \<Rightarrow> json" where
  "negotiate_json r =
     JObj [(''expectedHash'', JStr (ng_expected_hash r)), (''expectedSize'', JNum (ng_expected_size r)),
           (''mediaType'', JStr (ng_media_type r))]"

definition complete_json :: "complete_request \<Rightarrow> json" where
  "complete_json r =
     JObj [(''purpose'', JStr (cu_purpose r)), (''referencedBy'', JStr (cu_referenced_by r))]"

definition expect_upload :: "response \<Rightarrow> upload_negotiation option" where
  "expect_upload r = (case r of RUpload u \<Rightarrow> Some u | _ \<Rightarrow> None)"

definition expect_object :: "response \<Rightarrow> object_metadata option" where
  "expect_object r = (case r of RObject x \<Rightarrow> Some x | _ \<Rightarrow> None)"

definition object_from_row :: "object_row \<Rightarrow> object_metadata" where
  "object_from_row r = object_metadata.truncate r"

text \<open>\<open>objects JOIN project_objects\<close> on the content hash.\<close>

definition authorized_object :: "hub_db \<Rightarrow> string \<Rightarrow> string \<Rightarrow> object_row option" where
  "authorized_object db pid hash =
     find (\<lambda>r. ob_content_hash r = hash
             \<and> (\<exists>po \<in> set (db_project_objects db). po_project_id po = pid \<and> po_content_hash po = hash))
       (db_objects db)"

section \<open>Negotiating an upload\<close>

definition insert_upload :: "upload_row \<Rightarrow> hub_db \<Rightarrow> hub_error + hub_db" where
  "insert_upload r db =
     (if up_id r \<in> up_id ` set (db_uploads db)
         \<or> (\<exists>u \<in> set (db_uploads db). up_project_id u = up_project_id r
              \<and> up_expected_hash u = up_expected_hash r \<and> up_status u = up_status r)
         \<or> up_project_id r \<notin> hp_id ` set (db_projects db)
         \<or> up_created_by r \<notin> pr_id ` set (db_principals db)
      then Inl hub_internal
      else Inr (db\<lparr>db_uploads := db_uploads db @ [r]\<rparr>))"

definition used_bytes :: "hub_db \<Rightarrow> string \<Rightarrow> int" where
  "used_bytes db pid =
     sum_list [ob_size_bytes r. po \<leftarrow> db_project_objects db, r \<leftarrow> db_objects db,
                 ob_content_hash r = po_content_hash po \<and> po_project_id po = pid]"

text \<open>The answer of a replay gets its bearer token back, derived again from what is stored.\<close>

definition restore_token ::
  "hub_lib \<Rightarrow> hub_config \<Rightarrow> string \<Rightarrow> upload_negotiation \<Rightarrow> upload_negotiation" where
  "restore_token L cfg pid v =
     (case (un_upload_id v, un_expires_at v) of
        (Some upload_id, Some expires_at) \<Rightarrow>
          if un_status v = ''upload_required'' \<and> un_transfer_token v = None
          then v\<lparr>un_transfer_token :=
                 Some (derive_transfer_secret L (hc_transfer_key cfg) upload_id pid expires_at)\<rparr>
          else v
      | _ \<Rightarrow> v)"

definition new_upload ::
  "hub_lib \<Rightarrow> hub_config \<Rightarrow> hub_draws \<Rightarrow> actor \<Rightarrow> string \<Rightarrow> negotiate_request \<Rightarrow> upload_row" where
  "new_upload L cfg dr a pid request =
     (let expires_at = dr_now dr + TRANSFER_TTL_MS;
          upload_id = new_id ''upl'' (dr_uuid dr 0);
          secret = derive_transfer_secret L (hc_transfer_key cfg) upload_id pid expires_at
      in \<lparr>up_id = upload_id, up_project_id = pid, up_expected_hash = ng_expected_hash request,
          up_expected_size = ng_expected_size request, up_media_type = ng_media_type request,
          up_token_hash = token_hash L secret, up_temp_path = temp_path cfg upload_id,
          up_status = ''negotiated'', up_actual_sha256 = None, up_expires_at = expires_at,
          up_created_by = ac_principal_id a, up_created_at = dr_created_at dr\<rparr>)"

definition negotiation_of :: "hub_lib \<Rightarrow> hub_config \<Rightarrow> upload_row \<Rightarrow> upload_negotiation" where
  "negotiation_of L cfg r =
     \<lparr>un_status = ''upload_required'', un_upload_id = Some (up_id r),
      un_upload_url = Some (trim_end_slashes (hc_public_base_url cfg)
         @ ''/api/v1/transfers/uploads/'' @ up_id r),
      un_transfer_token = Some (derive_transfer_secret L (hc_transfer_key cfg) (up_id r)
         (up_project_id r) (up_expires_at r)),
      un_expires_at = Some (up_expires_at r), un_object = None\<rparr>"

definition present_negotiation :: "object_row \<Rightarrow> upload_negotiation" where
  "present_negotiation r =
     \<lparr>un_status = ''present'', un_upload_id = None, un_upload_url = None,
      un_transfer_token = None, un_expires_at = None, un_object = Some (object_from_row r)\<rparr>"

definition negotiate_evidence :: "string \<Rightarrow> upload_row \<Rightarrow> evidence" where
  "negotiate_evidence pid r =
     \<lparr>ev_project_id = pid, ev_action = ''object.upload_negotiated'', ev_aggregate_type = ''upload'',
      ev_aggregate_id = up_id r, ev_category = ''object'',
      ev_event_type = ''object.upload.negotiated'',
      ev_details = JObj [(''uploadId'', JStr (up_id r)),
                         (''contentHash'', JStr (up_expected_hash r)),
                         (''sizeBytes'', JNum (up_expected_size r))]\<rparr>"

text \<open>
  \<open>fresh_upload\<close> is the part for content the Hub does not have, \<open>negotiate_tx\<close> the transaction
  after the authorization.
\<close>

definition fresh_upload ::
  "hub_lib \<Rightarrow> quotas \<Rightarrow> hub_config \<Rightarrow> hub_draws \<Rightarrow> actor \<Rightarrow> string \<Rightarrow> string \<Rightarrow> string
   \<Rightarrow> negotiate_request \<Rightarrow> hub_db \<Rightarrow> hub_error + upload_negotiation \<times> hub_db" where
  "fresh_upload L Q cfg dr a pid key h request db =
     (if \<exists>r \<in> set (db_objects db). ob_content_hash r = ng_expected_hash request
      then Inl (hub_error_new 403 ''HUB_OBJECT_UNAUTHORIZED''
             ''The object exists but is not authorized for this project.'')
      else if qu_max_object_bytes Q
                < min (used_bytes db pid + ng_expected_size request) (2 ^ 63 - 1)
      then Inl (quota_error ''objectBytes'' (used_bytes db pid) (qu_max_object_bytes Q))
      else
        let row = new_upload L cfg dr a pid request; result = negotiation_of L cfg row
        in bindE (insert_upload row db) (\<lambda>db1.
           bindE (append_evidence L dr a (negotiate_evidence pid row) db1) (\<lambda>db2.
           bindE (store_idempotency dr a pid ''objects.negotiate_upload'' key h
                    (RUpload (result\<lparr>un_transfer_token := None\<rparr>)) db2) (\<lambda>db3.
           Inr (result, db3)))))"

definition negotiate_tx ::
  "hub_lib \<Rightarrow> quotas \<Rightarrow> hub_config \<Rightarrow> hub_draws \<Rightarrow> actor \<Rightarrow> string \<Rightarrow> string \<Rightarrow> string
   \<Rightarrow> negotiate_request \<Rightarrow> hub_db \<Rightarrow> hub_error + upload_negotiation \<times> hub_db" where
  "negotiate_tx L Q cfg dr a pid key h request db =
     bindE (check_idempotency db a pid ''objects.negotiate_upload'' key h expect_upload) (\<lambda>existing.
     case existing of
       Some value \<Rightarrow> Inr (restore_token L cfg pid value, db)
     | None \<Rightarrow>
         (case authorized_object db pid (ng_expected_hash request) of
            Some r \<Rightarrow>
              if ob_size_bytes r \<noteq> ng_expected_size request
              then Inl (conflict ''STO_HASH_MISMATCH''
                     ''The existing authorized object has a different size.'')
              else
                bindE (store_idempotency dr a pid ''objects.negotiate_upload'' key h
                         (RUpload (present_negotiation r)) db) (\<lambda>db1.
                Inr (present_negotiation r, db1))
          | None \<Rightarrow> fresh_upload L Q cfg dr a pid key h request db))"

definition negotiate_upload ::
  "hub_lib \<Rightarrow> quotas \<Rightarrow> hub_config \<Rightarrow> hub_draws \<Rightarrow> hub_db \<Rightarrow> actor \<Rightarrow> string \<Rightarrow> string
   \<Rightarrow> negotiate_request \<Rightarrow> hub_db \<Rightarrow> hub_error + upload_negotiation \<times> hub_db" where
  "negotiate_upload L Q cfg dr db0 a pid key request db =
     bindE (authorize_project db0 a pid ProposeArt) (\<lambda>_.
     bindE (validate_content_hash (ng_expected_hash request)) (\<lambda>_.
     if ng_expected_size request < 0 \<or> qu_max_upload_bytes Q < ng_expected_size request
     then Inl (quota_error ''uploadBytes'' (max (ng_expected_size request) 0)
                 (qu_max_upload_bytes Q))
     else
       bindE (validate_media_type (ng_media_type request)) (\<lambda>_.
       bindE (membership_role db a pid ProposeArt) (\<lambda>_.
       negotiate_tx L Q cfg dr a pid key
         (canonical_request_hash L (negotiate_json request)) request db))))"

section \<open>Receiving bytes\<close>

text \<open>Status changes count on the key of \<open>uploads\<close>: a change that would leave two rows of one
  project, content hash and status is a constraint error.\<close>

definition upload_keys_distinct :: "upload_row list \<Rightarrow> bool" where
  "upload_keys_distinct us \<longleftrightarrow>
     distinct (map (\<lambda>u. (up_project_id u, up_expected_hash u, up_status u)) us)"

definition update_uploads ::
  "(upload_row \<Rightarrow> bool) \<Rightarrow> (upload_row \<Rightarrow> upload_row) \<Rightarrow> hub_db \<Rightarrow> hub_error + hub_db" where
  "update_uploads hit change db =
     (let us = map (\<lambda>u. if hit u then change u else u) (db_uploads db)
      in if upload_keys_distinct us then Inr (db\<lparr>db_uploads := us\<rparr>) else Inl hub_internal)"

definition upload_expired :: "nat \<Rightarrow> string \<Rightarrow> hub_error" where
  "upload_expired status msg = hub_error_new status ''STO_UPLOAD_EXPIRED'' msg"

text \<open>The checks of \<open>receive_upload\<close> before it touches a file.\<close>

definition receive_checks ::
  "hub_lib \<Rightarrow> int \<Rightarrow> string \<Rightarrow> string \<Rightarrow> u8 list \<Rightarrow> hub_db \<Rightarrow> hub_error + upload_row" where
  "receive_checks L now upload_id transfer_token bytes db =
     bindE (ok_or (find (\<lambda>u. up_id u = upload_id) (db_uploads db)) (not_found ''STO_UPLOAD_EXPIRED''))
       (\<lambda>u.
     if up_status u \<noteq> ''negotiated'' \<or> up_expires_at u \<le> now
     then Inl (upload_expired 410 ''The upload negotiation is no longer active.'')
     else if token_hash L transfer_token \<noteq> up_token_hash u then Inl unauthorized
     else if int (length bytes) \<noteq> up_expected_size u
     then Inl (hub_error_new 400 ''STO_HASH_MISMATCH''
            ''Uploaded byte length does not match the negotiated size.'')
     else if hub_content_hash L bytes \<noteq> up_expected_hash u
     then Inl (hub_error_new 400 ''STO_HASH_MISMATCH''
            ''Uploaded bytes do not match the negotiated BLAKE3 content hash.'')
     else Inr u)"

definition receive_upload ::
  "hub_lib \<Rightarrow> io_outcome \<Rightarrow> int \<Rightarrow> string \<Rightarrow> string \<Rightarrow> u8 list \<Rightarrow> hub_db \<Rightarrow> fs
   \<Rightarrow> (hub_error + unit \<times> hub_db) \<times> fs" where
  "receive_upload L io now upload_id transfer_token bytes db fs =
     (case receive_checks L now upload_id transfer_token bytes db of
        Inl e \<Rightarrow> (Inl e, fs)
      | Inr u \<Rightarrow>
          let path = up_temp_path u; stage_path = with_extension ''stage'' path
          in case io_write io of
               Some part \<Rightarrow> (Inl hub_internal, fs(stage_path \<mapsto> part))
             | None \<Rightarrow>
                 if \<not> io_rename io then (Inl hub_internal, fs(stage_path \<mapsto> bytes))
                 else
                   (bindE (update_uploads (\<lambda>v. up_id v = upload_id \<and> up_status v = ''negotiated'')
                       (\<lambda>v. v\<lparr>up_status := ''received'', up_actual_sha256 := Some (sha256_hex L bytes)\<rparr>)
                       db) (\<lambda>db1. Inr ((), db1)),
                    (fs(stage_path := None))(path \<mapsto> bytes)))"

section \<open>Completing an upload\<close>

definition insert_project_object :: "project_object_row \<Rightarrow> hub_db \<Rightarrow> hub_error + hub_db" where
  "insert_project_object r db =
     (if (\<exists>po \<in> set (db_project_objects db). po_project_id po = po_project_id r
            \<and> po_content_hash po = po_content_hash r)
         \<or> po_project_id r \<notin> hp_id ` set (db_projects db)
         \<or> po_content_hash r \<notin> ob_content_hash ` set (db_objects db)
      then Inl hub_internal
      else Inr (db\<lparr>db_project_objects := db_project_objects db @ [r]\<rparr>))"

text \<open>\<open>INSERT OR IGNORE INTO objects\<close>.\<close>

definition insert_object_or_ignore :: "object_row \<Rightarrow> hub_db \<Rightarrow> hub_db" where
  "insert_object_or_ignore r db =
     (if ob_content_hash r \<in> ob_content_hash ` set (db_objects db) then db
      else db\<lparr>db_objects := db_objects db @ [r]\<rparr>)"

text \<open>The verification at completion; it answers the row and the bytes of its temporary file.\<close>

definition complete_checks ::
  "hub_lib \<Rightarrow> io_outcome \<Rightarrow> hub_draws \<Rightarrow> string \<Rightarrow> string \<Rightarrow> hub_db \<Rightarrow> fs
   \<Rightarrow> hub_error + upload_row \<times> u8 list" where
  "complete_checks L io dr pid upload_id db fs =
     bindE (ok_or (find (\<lambda>u. up_id u = upload_id \<and> up_project_id u = pid) (db_uploads db))
              (not_found ''STO_UPLOAD_EXPIRED'')) (\<lambda>u.
     if up_status u \<noteq> ''received'' \<or> up_expires_at u \<le> dr_created_at dr
     then Inl (upload_expired 409 ''Upload bytes have not been received or the transfer expired.'')
     else
       bindE (if io_read io then ok_or (fs (up_temp_path u)) hub_internal else Inl hub_internal)
         (\<lambda>bytes.
       if hub_content_hash L bytes \<noteq> up_expected_hash u
          \<or> int (length bytes) \<noteq> up_expected_size u
          \<or> up_actual_sha256 u \<noteq> Some (sha256_hex L bytes)
       then Inl (hub_error_new 400 ''STO_HASH_MISMATCH'' ''Upload verification failed at completion.'')
       else Inr (u, bytes)))"

text \<open>Moving the bytes to their content address; an object already there is verified instead.\<close>

definition place_object ::
  "hub_lib \<Rightarrow> io_outcome \<Rightarrow> upload_row \<Rightarrow> string \<Rightarrow> u8 list \<Rightarrow> fs \<Rightarrow> (hub_error + unit) \<times> fs" where
  "place_object L io u path bytes fs =
     (if \<not> io_create_dir io then (Inl hub_internal, fs)
      else case fs path of
        Some existing \<Rightarrow>
          if \<not> io_read_existing io then (Inl hub_internal, fs)
          else if hub_content_hash L existing \<noteq> up_expected_hash u
          then (Inl (hub_error_new 500 ''STO_OBJECT_CORRUPT''
                 ''A physical object failed integrity verification.''), fs)
          else (Inr (), if io_remove io then fs(up_temp_path u := None) else fs)
      | None \<Rightarrow>
          if \<not> io_rename io then (Inl hub_internal, fs)
          else (Inr (), (fs(up_temp_path u := None))(path \<mapsto> bytes)))"

definition completed_object :: "hub_draws \<Rightarrow> upload_row \<Rightarrow> string \<Rightarrow> object_row" where
  "completed_object dr u path =
     \<lparr>ob_content_hash = up_expected_hash u,
      ob_sha256 = (case up_actual_sha256 u of Some s \<Rightarrow> s | None \<Rightarrow> []),
      ob_size_bytes = up_expected_size u, ob_media_type = up_media_type u,
      ob_integrity_status = ''verified'', ob_created_at = dr_now dr, ob_verified_at = dr_now dr,
      ob_storage_path = path\<rparr>"

text \<open>The inserts and the status change of a completion.\<close>

definition record_object ::
  "hub_draws \<Rightarrow> string \<Rightarrow> complete_request \<Rightarrow> upload_row \<Rightarrow> string \<Rightarrow> hub_db
   \<Rightarrow> hub_error + object_metadata \<times> evidence \<times> hub_db" where
  "record_object dr pid request u path db =
     (let row = completed_object dr u path
      in bindE (insert_project_object
             \<lparr>po_project_id = pid, po_content_hash = ob_content_hash row,
              po_purpose = cu_purpose request, po_referenced_by = cu_referenced_by request,
              po_created_at = dr_now dr\<rparr> (insert_object_or_ignore row db)) (\<lambda>db1.
         bindE (update_uploads (\<lambda>v. up_id v = up_id u \<and> up_status v = ''received'')
                  (\<lambda>v. v\<lparr>up_status := ''completed''\<rparr>) db1) (\<lambda>db2.
         Inr (object_from_row row,
           \<lparr>ev_project_id = pid, ev_action = ''object.upload_completed'',
            ev_aggregate_type = ''object'', ev_aggregate_id = ob_content_hash row,
            ev_category = ''object'', ev_event_type = ''object.available'',
            ev_details = JObj [(''contentHash'', JStr (ob_content_hash row)),
                               (''sizeBytes'', JNum (ob_size_bytes row)),
                               (''uploadId'', JStr (up_id u))]\<rparr>, db2))))"

definition complete_body ::
  "hub_lib \<Rightarrow> hub_config \<Rightarrow> io_outcome \<Rightarrow> hub_draws \<Rightarrow> string \<Rightarrow> string \<Rightarrow> complete_request
   \<Rightarrow> fs \<Rightarrow> hub_db \<Rightarrow> (hub_error + object_metadata \<times> evidence \<times> hub_db) \<times> fs" where
  "complete_body L cfg io dr pid upload_id request fs db =
     (case complete_checks L io dr pid upload_id db fs of
        Inl e \<Rightarrow> (Inl e, fs)
      | Inr (u, bytes) \<Rightarrow>
          (case object_path cfg (up_expected_hash u) of
             Inl e \<Rightarrow> (Inl e, fs)
           | Inr path \<Rightarrow>
               (case place_object L io u path bytes fs of
                  (Inl e, fs1) \<Rightarrow> (Inl e, fs1)
                | (Inr _, fs1) \<Rightarrow> (record_object dr pid request u path db, fs1))))"

text \<open>The file effects happen when the transaction reaches the body.\<close>

definition complete_upload ::
  "hub_lib \<Rightarrow> hub_config \<Rightarrow> io_outcome \<Rightarrow> hub_draws \<Rightarrow> hub_db \<Rightarrow> actor \<Rightarrow> string \<Rightarrow> string
   \<Rightarrow> string \<Rightarrow> complete_request \<Rightarrow> hub_db \<Rightarrow> fs
   \<Rightarrow> (hub_error + object_metadata \<times> hub_db) \<times> fs" where
  "complete_upload L cfg io dr db0 a pid upload_id key request db fs =
     (let h = canonical_request_hash L (complete_json request);
          checks = bindE (authorize_project db0 a pid ProposeArt) (\<lambda>_.
            bindE (validate_name (cu_purpose request) 1 128 ''purpose'') (\<lambda>_.
            bindE (validate_name (cu_referenced_by request) 1 256 ''referencedBy'') (\<lambda>_.
            membership_role db a pid ProposeArt)))
      in (bindE checks (\<lambda>_.
            idempotent_mutation L dr a pid ''uploads.complete'' key h expect_object RObject
              (\<lambda>db. fst (complete_body L cfg io dr pid upload_id request fs db)) db),
          if is_ok checks
             \<and> check_idempotency db a pid ''uploads.complete'' key h expect_object = Inr None
          then snd (complete_body L cfg io dr pid upload_id request fs db) else fs))"

section \<open>Queries and downloads\<close>

definition object_metadata_of ::
  "hub_db \<Rightarrow> hub_db \<Rightarrow> actor \<Rightarrow> string \<Rightarrow> string \<Rightarrow> hub_error + object_metadata" where
  "object_metadata_of db0 db a pid hash =
     bindE (authorize_project db0 a pid Read) (\<lambda>_.
     bindE (validate_content_hash hash) (\<lambda>_.
     bindE (ok_or (authorized_object db pid hash) (not_found ''STO_OBJECT_UNAUTHORIZED''))
       (\<lambda>r. Inr (object_from_row r))))"

definition stat_object :: "hub_db \<Rightarrow> string \<Rightarrow> string \<Rightarrow> hub_error + object_status" where
  "stat_object db pid hash =
     bindE (validate_content_hash hash) (\<lambda>_.
     let authorized = map_option ob_size_bytes (authorized_object db pid hash);
         globally_present = (\<exists>r \<in> set (db_objects db). ob_content_hash r = hash)
     in Inr \<lparr>os_content_hash = hash,
             os_status = (if authorized \<noteq> None then ''present_authorized''
                          else if globally_present then ''present_unauthorized'' else ''missing''),
             os_size_bytes = authorized\<rparr>)"

definition batch_stat ::
  "hub_db \<Rightarrow> hub_db \<Rightarrow> actor \<Rightarrow> string \<Rightarrow> string list \<Rightarrow> hub_error + object_status list" where
  "batch_stat db0 db a pid hashes =
     bindE (authorize_project db0 a pid Read) (\<lambda>_.
     bindE (sorted_unique hashes ''contentHashes'') (\<lambda>sorted_hashes.
     if 500 < length sorted_hashes
     then Inl (hub_invalid ''batchStat accepts at most 500 hashes.'')
     else collectE (stat_object db pid) sorted_hashes))"

definition insert_download :: "download_row \<Rightarrow> hub_db \<Rightarrow> hub_error + hub_db" where
  "insert_download r db =
     (if dw_id r \<in> dw_id ` set (db_downloads db)
         \<or> dw_project_id r \<notin> hp_id ` set (db_projects db)
         \<or> dw_content_hash r \<notin> ob_content_hash ` set (db_objects db)
         \<or> dw_created_by r \<notin> pr_id ` set (db_principals db)
      then Inl hub_internal
      else Inr (db\<lparr>db_downloads := db_downloads db @ [r]\<rparr>))"

text \<open>\<open>secret\<close> is the text \<open>random_secret\<close> draws; the metadata was read before, on \<open>db0\<close> and
  \<open>db1\<close>.\<close>

definition negotiate_download ::
  "hub_lib \<Rightarrow> hub_config \<Rightarrow> hub_draws \<Rightarrow> string \<Rightarrow> hub_db \<Rightarrow> hub_db \<Rightarrow> actor \<Rightarrow> string \<Rightarrow> string
   \<Rightarrow> hub_db \<Rightarrow> hub_error + download_negotiation \<times> hub_db" where
  "negotiate_download L cfg dr secret db0 db1 a pid hash db =
     bindE (object_metadata_of db0 db1 a pid hash) (\<lambda>object.
     let id = new_id ''dwn'' (dr_uuid dr 0); expires_at = dr_now dr + TRANSFER_TTL_MS
     in bindE (insert_download
            \<lparr>dw_id = id, dw_project_id = pid, dw_content_hash = hash,
             dw_token_hash = token_hash L secret, dw_expires_at = expires_at,
             dw_created_by = ac_principal_id a, dw_created_at = dr_created_at dr\<rparr> db) (\<lambda>db2.
        Inr (\<lparr>dn_download_id = id,
              dn_download_url = trim_end_slashes (hc_public_base_url cfg)
                @ ''/api/v1/transfers/downloads/'' @ id,
              dn_transfer_token = secret, dn_expires_at = expires_at, dn_content_hash = hash,
              dn_size_bytes = ob_size_bytes object\<rparr>, db2)))"

definition read_download ::
  "hub_lib \<Rightarrow> io_outcome \<Rightarrow> int \<Rightarrow> string \<Rightarrow> string \<Rightarrow> hub_db \<Rightarrow> fs \<Rightarrow> hub_error + u8 list \<times> string"
  where
  "read_download L io now download_id transfer_token db fs =
     bindE (ok_or (find (\<lambda>(d, r). dw_id d = download_id)
              [(d, r). d \<leftarrow> db_downloads db, r \<leftarrow> db_objects db,
                 ob_content_hash r = dw_content_hash d
                 \<and> (\<exists>po \<in> set (db_project_objects db). po_project_id po = dw_project_id d
                      \<and> po_content_hash po = dw_content_hash d)])
              (not_found ''STO_OBJECT_UNAUTHORIZED'')) (\<lambda>(d, r).
     if dw_expires_at d \<le> now
     then Inl (upload_expired 410 ''The download transfer expired.'')
     else if token_hash L transfer_token \<noteq> dw_token_hash d then Inl unauthorized
     else
       bindE (if io_read io then ok_or (fs (ob_storage_path r)) hub_internal else Inl hub_internal)
         (\<lambda>bytes.
       if hub_content_hash L bytes \<noteq> ob_content_hash r
       then Inl (hub_error_new 500 ''STO_OBJECT_CORRUPT''
              ''Downloaded bytes failed content verification.'')
       else Inr (bytes, ob_media_type r)))"

section \<open>The operations as mutations\<close>

lemma insert_upload_ok:
  "insert_upload r db = Inr db'
   \<longleftrightarrow> up_id r \<notin> up_id ` set (db_uploads db)
       \<and> (\<forall>u \<in> set (db_uploads db). up_project_id u = up_project_id r
            \<and> up_expected_hash u = up_expected_hash r \<longrightarrow> up_status u \<noteq> up_status r)
       \<and> up_project_id r \<in> hp_id ` set (db_projects db)
       \<and> up_created_by r \<in> pr_id ` set (db_principals db)
       \<and> db' = db\<lparr>db_uploads := db_uploads db @ [r]\<rparr>"
  unfolding insert_upload_def by auto

lemma update_uploads_ok:
  "update_uploads hit change db = Inr db'
   \<longleftrightarrow> upload_keys_distinct (map (\<lambda>u. if hit u then change u else u) (db_uploads db))
       \<and> db' = db\<lparr>db_uploads := map (\<lambda>u. if hit u then change u else u) (db_uploads db)\<rparr>"
  by (auto simp: update_uploads_def Let_def)

lemma insert_project_object_ok:
  "insert_project_object r db = Inr db'
   \<longleftrightarrow> (\<forall>po \<in> set (db_project_objects db). po_project_id po = po_project_id r
            \<longrightarrow> po_content_hash po \<noteq> po_content_hash r)
       \<and> po_project_id r \<in> hp_id ` set (db_projects db)
       \<and> po_content_hash r \<in> ob_content_hash ` set (db_objects db)
       \<and> db' = db\<lparr>db_project_objects := db_project_objects db @ [r]\<rparr>"
  unfolding insert_project_object_def by auto

lemma record_object_cases:
  assumes "record_object dr pid request u path db = Inr (v, ev, db')"
  obtains po f where
    "db' = (insert_object_or_ignore (completed_object dr u path) db)
       \<lparr>db_project_objects := db_project_objects db @ [po],
        db_uploads := map f (db_uploads db)\<rparr>"
    "po_project_id po = pid" "po_content_hash po = up_expected_hash u"
    "\<And>w. f w = (if up_id w = up_id u \<and> up_status w = ''received''
              then w\<lparr>up_status := ''completed''\<rparr> else w)"
    "upload_keys_distinct (map f (db_uploads db))"
    "v = object_from_row (completed_object dr u path)" "ev_project_id ev = pid"
proof -
  have "db_uploads (insert_object_or_ignore r db) = db_uploads db"
    "db_project_objects (insert_object_or_ignore r db) = db_project_objects db" for r
    by (simp_all add: insert_object_or_ignore_def)
  with assms show thesis
    unfolding record_object_def Let_def
    by (auto simp: result_simps insert_project_object_ok update_uploads_ok completed_object_def
        intro!: that)
qed

lemma complete_body_cases:
  assumes "complete_body L cfg io dr pid upload_id request fs db = (Inr (v, ev, db'), fs')"
  obtains u bytes path where "complete_checks L io dr pid upload_id db fs = Inr (u, bytes)"
    "object_path cfg (up_expected_hash u) = Inr path"
    "place_object L io u path bytes fs = (Inr (), fs')"
    "record_object dr pid request u path db = Inr (v, ev, db')"
  using assms unfolding complete_body_def
  by (auto split: sum.splits prod.splits intro!: that)

lemma same_log_complete_body:
  assumes "fst (complete_body L cfg io dr pid upload_id request fs db) = Inr (v, ev, db')"
  shows "same_log db db'"
proof -
  obtain fs' where "complete_body L cfg io dr pid upload_id request fs db = (Inr (v, ev, db'), fs')"
    using assms by (metis prod.collapse)
  then show ?thesis
    by (auto simp: same_log_def insert_object_or_ignore_def
        elim!: complete_body_cases record_object_cases split: if_splits)
qed

interpretation complete_upload:
  hub_mutation "\<lambda>db. fst (complete_body L cfg io dr pid upload_id request fs db)" expect_object RObject
  for L cfg io dr pid upload_id request fs
  by unfold_locales (simp_all add: same_log_complete_body expect_object_def)

lemma fresh_upload_cases:
  assumes "fresh_upload L Q cfg dr a pid key h request db = Inr (v, db')"
  obtains db1 db2 where
    "insert_upload (new_upload L cfg dr a pid request) db = Inr db1"
    "append_evidence L dr a (negotiate_evidence pid (new_upload L cfg dr a pid request)) db1 = Inr db2"
    "store_idempotency dr a pid ''objects.negotiate_upload'' key h
       (RUpload (negotiation_of L cfg (new_upload L cfg dr a pid request)
          \<lparr>un_transfer_token := None\<rparr>)) db2 = Inr db'"
    "v = negotiation_of L cfg (new_upload L cfg dr a pid request)"
    "ng_expected_hash request \<notin> ob_content_hash ` set (db_objects db)"
proof -
  have "ng_expected_hash request \<notin> ob_content_hash ` set (db_objects db)"
    using assms by (auto simp: fresh_upload_def split: if_splits)
  with assms show thesis
    unfolding fresh_upload_def Let_def
    by (simp only: split: if_split_asm) (auto simp: result_simps intro: that)
qed

lemma negotiate_tx_cases:
  assumes "negotiate_tx L Q cfg dr a pid key h request db = Inr (v, db')"
  obtains (replay) "db' = db"
  | (present) r where "authorized_object db pid (ng_expected_hash request) = Some r"
      "store_idempotency dr a pid ''objects.negotiate_upload'' key h
         (RUpload (present_negotiation r)) db = Inr db'"
      "v = present_negotiation r"
  | (upload) row db1 db2 where "row = new_upload L cfg dr a pid request"
      "insert_upload row db = Inr db1"
      "append_evidence L dr a (negotiate_evidence pid row) db1 = Inr db2"
      "store_idempotency dr a pid ''objects.negotiate_upload'' key h
         (RUpload (negotiation_of L cfg row\<lparr>un_transfer_token := None\<rparr>)) db2 = Inr db'"
      "v = negotiation_of L cfg row"
      "ng_expected_hash request \<notin> ob_content_hash ` set (db_objects db)"
proof -
  obtain existing where
    c: "check_idempotency db a pid ''objects.negotiate_upload'' key h expect_upload = Inr existing"
    using assms by (auto simp: negotiate_tx_def result_simps)
  note step = assms [unfolded negotiate_tx_def c, simplified]
  show thesis
  proof (cases existing)
    case (Some w)
    with step show thesis by (intro that(1)) simp
  next
    case None
    note step = step [unfolded None, simplified]
    show thesis
    proof (cases "authorized_object db pid (ng_expected_hash request)")
      case (Some r)
      with step show thesis
        by (intro that(2) [OF Some]) (auto simp: result_simps split: if_splits)
    next
      case none: None
      with step have "fresh_upload L Q cfg dr a pid key h request db = Inr (v, db')" by simp
      then show thesis
        by (elim fresh_upload_cases) (rule that(3), rule refl)
    qed
  qed
qed

lemma store_idempotency_audit_ok:
  "store_idempotency dr a scope route key h answer db = Inr db' \<Longrightarrow> audit_ok L db
   \<Longrightarrow> audit_ok L db' \<and> log_extends db db'"
  by (auto simp: store_idempotency_ok audit_ok_def project_log_def log_extends_def)

lemma append_evidence_extends:
  "append_evidence L dr a ev db = Inr db' \<Longrightarrow> log_extends db db'"
  by (auto simp: append_evidence_ok log_extends_def)

lemma negotiate_tx_audit_ok:
  assumes ok: "audit_ok L db" and step: "negotiate_tx L Q cfg dr a pid key h request db = Inr (v, db')"
  shows "audit_ok L db' \<and> log_extends db db'"
  using step
proof (cases rule: negotiate_tx_cases)
  case (present r)
  from present(2) ok show ?thesis by (rule store_idempotency_audit_ok)
next
  case (upload row db1 db2)
  have "audit_ok L db1" "log_extends db db1"
    using ok upload(2) by (auto simp: insert_upload_ok audit_ok_def project_log_def log_extends_def)
  moreover from this(1) have "audit_ok L db2" using upload(3) by (rule append_evidence_audit_ok)
  moreover have "log_extends db1 db2" using upload(3) by (rule append_evidence_extends)
  ultimately show ?thesis
    using store_idempotency_audit_ok [OF upload(4)] by (blast intro: log_extends_trans)
qed (simp add: ok)

section \<open>The store stays intact\<close>

text \<open>
  Every recorded object's file is at its content address and hashes to it; temporary files are
  kept apart.
\<close>

definition store_ok :: "hub_lib \<Rightarrow> hub_config \<Rightarrow> hub_db \<Rightarrow> fs \<Rightarrow> bool" where
  "store_ok L cfg db fs \<longleftrightarrow>
     (\<forall>r \<in> set (db_objects db). \<exists>bytes.
        object_path cfg (ob_content_hash r) = Inr (ob_storage_path r)
        \<and> fs (ob_storage_path r) = Some bytes \<and> hub_content_hash L bytes = ob_content_hash r)
     \<and> (\<forall>u \<in> set (db_uploads db). starts_with (hc_object_dir cfg @ ''/tmp/'') (up_temp_path u))"

lemma object_path_ok:
  "object_path cfg hash = Inr path
   \<Longrightarrow> starts_with (hc_object_dir cfg @ ''/cas/'') path"
  by (auto simp: object_path_def result_simps cas_path_def starts_with_iff)

lemma cas_tmp_apart:
  "starts_with (dir @ ''/cas/'') p \<Longrightarrow> starts_with (dir @ ''/tmp/'') q \<Longrightarrow> p \<noteq> q"
  by (auto simp: starts_with_iff)

lemma takeWhile_last_slash:
  "takeWhile (\<lambda>c. c \<noteq> CHR ''/'') (rev (p @ CHR ''/'' # s))
     = takeWhile (\<lambda>c. c \<noteq> CHR ''/'') (rev s)"
proof -
  have "takeWhile (\<lambda>c. c \<noteq> CHR ''/'') (xs @ CHR ''/'' # ys) = takeWhile (\<lambda>c. c \<noteq> CHR ''/'') xs"
    for xs ys by (induction xs) auto
  then show ?thesis by simp
qed

lemma with_extension_stays:
  assumes "starts_with (dir @ ''/tmp/'') path"
  shows "starts_with (dir @ ''/tmp/'') (with_extension ext path)"
proof -
  obtain s where path: "path = (dir @ ''/tmp'') @ CHR ''/'' # s"
    using assms by (auto simp: starts_with_iff)
  define n where "n = length (takeWhile (\<lambda>c. c \<noteq> CHR ''/'') (rev s))"
  have "n \<le> length s" using length_takeWhile_le [of _ "rev s"] by (simp add: n_def)
  then have "take (length path - n) path = (dir @ ''/tmp/'') @ take (length s - n) s"
    unfolding path by (simp add: Suc_diff_le)
  moreover have "length (rev (takeWhile (\<lambda>c. c \<noteq> CHR ''/'') (rev path))) = n"
    unfolding path takeWhile_last_slash n_def by (rule length_rev)
  moreover obtain rest where "with_extension ext path = take (length path
      - length (rev (takeWhile (\<lambda>c. c \<noteq> CHR ''/'') (rev path)))) path @ rest"
    unfolding with_extension_def Let_def by blast
  ultimately have "with_extension ext path = (dir @ ''/tmp/'') @ take (length s - n) s @ rest"
    by simp
  then show ?thesis unfolding starts_with_iff by blast
qed

lemma store_ok_outside:
  assumes "store_ok L cfg db fs"
    and "db_objects db' = db_objects db"
    and "\<forall>u \<in> set (db_uploads db'). starts_with (hc_object_dir cfg @ ''/tmp/'') (up_temp_path u)"
    and "\<And>p. starts_with (hc_object_dir cfg @ ''/cas/'') p \<Longrightarrow> fs' p = fs p"
  shows "store_ok L cfg db' fs'"
  using assms object_path_ok unfolding store_ok_def by metis

lemma negotiate_tx_store_ok:
  assumes ok: "store_ok L cfg db fs"
    and step: "negotiate_tx L Q cfg dr a pid key h request db = Inr (v, db')"
  shows "store_ok L cfg db' fs"
  using step
proof (cases rule: negotiate_tx_cases)
  case (present r)
  then show ?thesis using ok by (auto simp: store_idempotency_ok store_ok_def)
next
  case (upload row db1 db2)
  have "starts_with (hc_object_dir cfg @ ''/tmp/'') (up_temp_path row)"
    by (simp add: upload(1) new_upload_def Let_def temp_path_def starts_with_iff)
  then show ?thesis
    using ok upload(2-4)
    by (auto simp: store_idempotency_ok append_evidence_ok insert_upload_ok store_ok_def)
qed (simp add: ok)

lemma receive_checks_known:
  "receive_checks L now upload_id tok bytes db = Inr u \<Longrightarrow> u \<in> set (db_uploads db)"
  by (auto simp: receive_checks_def result_simps find_Some_iff split: if_splits)

lemma receive_upload_store_ok:
  assumes ok: "store_ok L cfg db fs"
    and step: "receive_upload L io now upload_id tok bytes db fs = (r, fs')"
  shows "store_ok L cfg db fs' \<and> (\<forall>v db'. r = Inr (v, db') \<longrightarrow> store_ok L cfg db' fs')"
proof (cases "receive_checks L now upload_id tok bytes db")
  case (Inl e)
  with step ok show ?thesis by (auto simp: receive_upload_def)
next
  case (Inr u)
  have tmp: "starts_with (hc_object_dir cfg @ ''/tmp/'') (up_temp_path u)"
    using receive_checks_known [OF Inr] ok by (auto simp: store_ok_def)
  have apart: "p \<noteq> up_temp_path u \<and> p \<noteq> with_extension ''stage'' (up_temp_path u)"
    if "starts_with (hc_object_dir cfg @ ''/cas/'') p" for p
    using cas_tmp_apart [OF that tmp] cas_tmp_apart [OF that with_extension_stays [OF tmp]] by simp
  have fs': "fs' p = fs p" if "starts_with (hc_object_dir cfg @ ''/cas/'') p" for p
    using step Inr apart [OF that]
    by (auto simp: receive_upload_def Let_def split: option.splits if_splits)
  have db': "db_objects db' = db_objects db
      \<and> (\<forall>u \<in> set (db_uploads db'). starts_with (hc_object_dir cfg @ ''/tmp/'') (up_temp_path u))"
    if "r = Inr (v, db')" for v db'
    using step Inr ok that
    by (auto simp: receive_upload_def Let_def update_uploads_ok result_simps store_ok_def
        split: option.splits if_splits)
  show ?thesis
    using store_ok_outside [OF ok refl _ fs'] store_ok_outside [OF ok _ _ fs'] db' ok
    by (auto simp: store_ok_def)
qed

lemma complete_checks_ok:
  assumes "complete_checks L io dr pid upload_id db fs = Inr (u, bytes)"
  shows "u \<in> set (db_uploads db)" "up_id u = upload_id" "up_project_id u = pid"
    "up_status u = ''received''" "fs (up_temp_path u) = Some bytes"
    "hub_content_hash L bytes = up_expected_hash u" "int (length bytes) = up_expected_size u"
    "up_actual_sha256 u = Some (sha256_hex L bytes)" "dr_created_at dr < up_expires_at u"
proof -
  obtain w where w: "find (\<lambda>u. up_id u = upload_id \<and> up_project_id u = pid) (db_uploads db) = Some w"
    using assms by (auto simp: complete_checks_def result_simps)
  then have mem: "w \<in> set (db_uploads db)" "up_id w = upload_id" "up_project_id w = pid"
    by (auto simp: find_Some_iff)
  have "u = w \<and> up_status w = ''received'' \<and> fs (up_temp_path w) = Some bytes
      \<and> hub_content_hash L bytes = up_expected_hash w \<and> int (length bytes) = up_expected_size w
      \<and> up_actual_sha256 w = Some (sha256_hex L bytes) \<and> dr_created_at dr < up_expires_at w"
    using assms w by (auto simp: complete_checks_def result_simps split: if_splits)
  with mem show "u \<in> set (db_uploads db)" "up_id u = upload_id" "up_project_id u = pid"
    "up_status u = ''received''" "fs (up_temp_path u) = Some bytes"
    "hub_content_hash L bytes = up_expected_hash u" "int (length bytes) = up_expected_size u"
    "up_actual_sha256 u = Some (sha256_hex L bytes)" "dr_created_at dr < up_expires_at u"
    by simp_all
qed

lemma place_object_cas:
  assumes "place_object L io u path bytes fs = (res, fs')"
    and "starts_with (dir @ ''/tmp/'') (up_temp_path u)" "starts_with (dir @ ''/cas/'') p"
  shows "fs' p = fs p \<or> p = path \<and> fs path = None \<and> fs' path = Some bytes"
  using assms(1) cas_tmp_apart [OF assms(3,2)]
  by (auto simp: place_object_def split: if_splits option.splits)

lemma place_object_present:
  assumes "place_object L io u path bytes fs = (Inr (), fs')"
    and "starts_with (dir @ ''/tmp/'') (up_temp_path u)" "starts_with (dir @ ''/cas/'') path"
    and "hub_content_hash L bytes = up_expected_hash u"
  shows "\<exists>content. fs' path = Some content \<and> hub_content_hash L content = up_expected_hash u"
  using assms(1,4) cas_tmp_apart [OF assms(3,2)]
  by (auto simp: place_object_def split: if_splits option.splits)

lemma complete_body_store_ok:
  assumes ok: "store_ok L cfg db fs"
    and step: "complete_body L cfg io dr pid upload_id request fs db = (r, fs')"
  shows "store_ok L cfg db fs' \<and> (\<forall>v ev db'. r = Inr (v, ev, db') \<longrightarrow> store_ok L cfg db' fs')"
proof (cases "\<exists>u bytes path. complete_checks L io dr pid upload_id db fs = Inr (u, bytes)
    \<and> object_path cfg (up_expected_hash u) = Inr path")
  case False
  with step have "fs' = fs" "\<exists>e. r = Inl e"
    by (auto simp: complete_body_def split: sum.splits prod.splits)
  with ok show ?thesis by auto
next
  case True
  then obtain u bytes path where checks: "complete_checks L io dr pid upload_id db fs = Inr (u, bytes)"
    and path: "object_path cfg (up_expected_hash u) = Inr path" by blast
  note u = complete_checks_ok [OF checks]
  have tmp: "starts_with (hc_object_dir cfg @ ''/tmp/'') (up_temp_path u)"
    using u(1) ok by (auto simp: store_ok_def)
  have cas: "starts_with (hc_object_dir cfg @ ''/cas/'') path" using path by (rule object_path_ok)
  obtain res where place: "place_object L io u path bytes fs = (res, fs')"
    using step checks path by (auto simp: complete_body_def split: sum.splits prod.splits)
  have kept: "fs' (ob_storage_path x) = fs (ob_storage_path x)" if "x \<in> set (db_objects db)" for x
  proof -
    have "starts_with (hc_object_dir cfg @ ''/cas/'') (ob_storage_path x)"
      "fs (ob_storage_path x) \<noteq> None"
      using that ok by (auto simp: store_ok_def dest!: bspec object_path_ok)
    then show ?thesis using place_object_cas [OF place tmp] by fastforce
  qed
  have db: "store_ok L cfg db fs'"
    using ok kept unfolding store_ok_def by (metis (no_types, lifting))
  have "store_ok L cfg db' fs'" if r: "r = Inr (v, ev, db')" for v ev db'
  proof -
    from step have "complete_body L cfg io dr pid upload_id request fs db = (Inr (v, ev, db'), fs')"
      by (simp only: r)
    then show ?thesis
    proof (cases rule: complete_body_cases)
      case (1 u' bytes' path')
      with checks path have same: "u' = u" "path' = path" "bytes' = bytes" by auto
      from 1(3) place_object_present [OF _ tmp cas u(6)] obtain content
        where "fs' path = Some content" "hub_content_hash L content = up_expected_hash u"
        unfolding same by blast
      then have new: "\<exists>bytes. object_path cfg (up_expected_hash u) = Inr path
          \<and> fs' path = Some bytes \<and> hub_content_hash L bytes = up_expected_hash u"
        using path by blast
      from 1(4) [unfolded same] show ?thesis
      proof (cases rule: record_object_cases)
        case (1 po f)
        have "up_temp_path (f w) = up_temp_path w" for w by (simp add: 1(4))
        then show ?thesis
          using db new unfolding 1(1)
          by (auto simp: store_ok_def insert_object_or_ignore_def completed_object_def)
      qed
    qed
  qed
  with db show ?thesis by blast
qed

lemma complete_upload_store_ok:
  assumes ok: "store_ok L cfg db fs"
    and step: "complete_upload L cfg io dr db0 a pid upload_id key request db fs = (r, fs')"
  shows "store_ok L cfg db fs' \<and> (\<forall>v db'. r = Inr (v, db') \<longrightarrow> store_ok L cfg db' fs')"
proof -
  let ?h = "canonical_request_hash L (complete_json request)"
  let ?body = "complete_body L cfg io dr pid upload_id request fs db"
  let ?fresh = "check_idempotency db a pid ''uploads.complete'' key ?h expect_object = Inr None"
  have body: "store_ok L cfg db (snd ?body)
      \<and> (\<forall>v ev db'. fst ?body = Inr (v, ev, db') \<longrightarrow> store_ok L cfg db' (snd ?body))"
    using complete_body_store_ok [OF ok] by (metis prod.collapse)
  have fs': "fs' = snd ?body \<or> fs' = fs"
    using step by (auto simp: complete_upload_def Let_def split: if_splits)
  have db: "store_ok L cfg db fs'" using fs' body ok by auto
  have "store_ok L cfg db' fs'" if r: "r = Inr (v, db')" for v db'
  proof -
    have mut: "idempotent_mutation L dr a pid ''uploads.complete'' key ?h expect_object RObject
        (\<lambda>db. fst (complete_body L cfg io dr pid upload_id request fs db)) db = Inr (v, db')"
      using step r by (auto simp: complete_upload_def Let_def result_simps)
    then show ?thesis
    proof (cases rule: mutation_cases)
      case (fresh ev db1 db2)
      have "?fresh" using fresh(2) by (simp add: check_idempotency_None)
      with step r have "fs' = snd ?body"
        by (auto simp: complete_upload_def Let_def is_ok_iff result_simps split: if_splits)
      with body fresh(1) have "store_ok L cfg db1 fs'" by blast
      with fresh(3,4) show ?thesis
        by (auto simp: append_evidence_ok store_idempotency_ok store_ok_def)
    qed (simp add: db)
  qed
  with db show ?thesis by blast
qed

end
