(* ===== verification/HubLeases.thy ===== *)
theory HubLeases
  imports HubProjects
begin

text \<open>
  Acceptance leases: acquiring one or a batch, renewing, releasing and breaking them, and the
  listing. A lease is active at a time while it is neither released nor expired.
\<close>

definition LEASE_DURATION_MS :: int where
  "LEASE_DURATION_MS = 120000"

definition LEASE_RENEWAL_TARGET_MS :: int where
  "LEASE_RENEWAL_TARGET_MS = 30000"

section \<open>Requests\<close>

text \<open>
  \<open>cell_hashes\<close> is a \<open>HashMap\<close>: its pairs come in an order that differs from one instance to
  the next, and the request is serialized in that order. The list is that iteration.
\<close>

record acquire_batch_request =
  aq_channel_id :: string
  aq_resource_ids :: "string list"
  aq_base_revision_id :: "string option"
  aq_workstream :: string
  aq_intended_action :: string
  aq_cell_hashes :: "(string \<times> string) list"

record acquire_request =
  ar_channel_id :: string
  ar_resource_id :: string
  ar_base_revision_id :: "string option"
  ar_workstream :: string
  ar_intended_action :: string
  ar_cell_hash :: "string option"

record renew_request =
  rn_renewal_counter :: int
  rn_base_revision_id :: "string option"
  rn_cell_hash :: "string option"

definition opt_json :: "string option \<Rightarrow> json" where
  "opt_json x = (case x of None \<Rightarrow> JNull | Some s \<Rightarrow> JStr s)"

definition acquire_batch_json :: "acquire_batch_request \<Rightarrow> json" where
  "acquire_batch_json r =
     JObj [(''channelId'', JStr (aq_channel_id r)),
           (''resourceIds'', JArr (map JStr (aq_resource_ids r))),
           (''baseRevisionId'', opt_json (aq_base_revision_id r)),
           (''workstream'', JStr (aq_workstream r)),
           (''intendedAction'', JStr (aq_intended_action r)),
           (''cellHashes'', JObj (map (\<lambda>(k, v). (k, JStr v)) (aq_cell_hashes r)))]"

definition renew_json :: "renew_request \<Rightarrow> json" where
  "renew_json r =
     JObj [(''renewalCounter'', JNum (rn_renewal_counter r)),
           (''baseRevisionId'', opt_json (rn_base_revision_id r)),
           (''cellHash'', opt_json (rn_cell_hash r))]"

definition expect_leases :: "response \<Rightarrow> lease_batch option" where
  "expect_leases r = (case r of RLeases b \<Rightarrow> Some b | _ \<Rightarrow> None)"

definition expect_lease :: "response \<Rightarrow> hub_lease option" where
  "expect_lease r = (case r of RLease l \<Rightarrow> Some l | _ \<Rightarrow> None)"

definition lease_from_row :: "lease_row \<Rightarrow> hub_lease" where
  "lease_from_row l = hub_lease.truncate l"

section \<open>Acquiring\<close>

definition lease_active :: "int \<Rightarrow> lease_row \<Rightarrow> bool" where
  "lease_active now l \<longleftrightarrow> le_released_at l = None \<and> now < le_expires_at l"

definition covers :: "string \<Rightarrow> string \<Rightarrow> string \<Rightarrow> lease_row \<Rightarrow> bool" where
  "covers pid cid resource l \<longleftrightarrow>
     le_project_id l = pid \<and> le_channel_id l = cid \<and> le_resource_id l = resource"

definition base_stale :: "string \<Rightarrow> string option \<Rightarrow> hub_error" where
  "base_stale text_of head = hub_error_details
     (JObj [(''currentHeadRevisionId'', opt_json head)]) (conflict ''HUB_BASE_STALE'' text_of)"

text \<open>The newest active lease on a resource, if any, stops the whole batch.\<close>

primrec check_conflicts :: "hub_db \<Rightarrow> string \<Rightarrow> string \<Rightarrow> int \<Rightarrow> string list \<Rightarrow> hub_error + unit" where
  "check_conflicts db pid cid now [] = Inr ()"
| "check_conflicts db pid cid now (resource # resources) =
     (case rev (sort_key le_expires_at
              (filter (\<lambda>l. covers pid cid resource l \<and> lease_active now l) (db_leases db))) of
        l # ls \<Rightarrow> Inl (hub_error_details
          (JObj [(''resourceId'', JStr resource), (''leaseId'', JStr (le_id l)),
                 (''holderPrincipalId'', JStr (le_holder_principal_id l)),
                 (''expiresAtMs'', JNum (le_expires_at l))])
          (conflict ''HUB_LOCK_CONFLICT''
             ''A protected acceptance lease already covers this resource.''))
      | [] \<Rightarrow> check_conflicts db pid cid now resources)"

definition insert_lease :: "lease_row \<Rightarrow> hub_db \<Rightarrow> hub_error + hub_db" where
  "insert_lease r db =
     (if le_id r \<in> le_id ` set (db_leases db)
         \<or> le_project_id r \<notin> hp_id ` set (db_projects db)
         \<or> le_channel_id r \<notin> ch_id ` set (db_channels db)
         \<or> le_holder_principal_id r \<notin> pr_id ` set (db_principals db)
      then Inl hub_internal
      else Inr (db\<lparr>db_leases := db_leases db @ [r]\<rparr>))"

definition new_lease ::
  "hub_draws \<Rightarrow> actor \<Rightarrow> string \<Rightarrow> acquire_batch_request \<Rightarrow> nat \<Rightarrow> string \<Rightarrow> lease_row" where
  "new_lease dr a pid request i resource =
     \<lparr>le_id = new_id ''lck'' (dr_uuid dr i), le_project_id = pid,
      le_channel_id = aq_channel_id request, le_resource_id = resource,
      le_base_revision_id = aq_base_revision_id request,
      le_workstream = aq_workstream request, le_intended_action = aq_intended_action request,
      le_cell_hash = map_of (aq_cell_hashes request) resource,
      le_holder_principal_id = ac_principal_id a, le_holder_session_id = ac_session_id a,
      le_renewal_counter = 0, le_acquired_at = dr_now dr,
      le_expires_at = dr_now dr + LEASE_DURATION_MS, le_released_at = None,
      le_release_reason = None, le_outcome_reference = None\<rparr>"

primrec insert_leases ::
  "hub_draws \<Rightarrow> actor \<Rightarrow> string \<Rightarrow> acquire_batch_request \<Rightarrow> string list \<Rightarrow> nat \<Rightarrow> hub_db
   \<Rightarrow> hub_error + hub_lease list \<times> hub_db" where
  "insert_leases dr a pid request [] i db = Inr ([], db)"
| "insert_leases dr a pid request (resource # resources) i db =
     bindE (insert_lease (new_lease dr a pid request i resource) db) (\<lambda>db1.
     bindE (insert_leases dr a pid request resources (i + 1) db1) (\<lambda>(leases, db2).
     Inr (lease_from_row (new_lease dr a pid request i resource) # leases, db2)))"

definition acquire_batch_body ::
  "quotas \<Rightarrow> hub_draws \<Rightarrow> actor \<Rightarrow> string \<Rightarrow> acquire_batch_request \<Rightarrow> string list \<Rightarrow> hub_db
   \<Rightarrow> hub_error + lease_batch \<times> evidence \<times> hub_db" where
  "acquire_batch_body Q dr a pid request resources db =
     bindE (ok_or (find (\<lambda>c. ch_id c = aq_channel_id request \<and> ch_project_id c = pid)
                     (db_channels db)) (not_found ''HUB_ART_CHANNEL_NOT_FOUND'')) (\<lambda>channel.
     if ch_head channel \<noteq> aq_base_revision_id request
     then Inl (base_stale ''Lease base must be the current accepted channel head.''
                 (ch_head channel))
     else
       let now = dr_now dr;
           active_count = int (length (filter (\<lambda>l. le_project_id l = pid \<and> lease_active now l)
                                         (db_leases db)))
       in if qu_max_active_leases Q < active_count + int (length resources)
          then Inl (quota_error ''activeLeases'' active_count (qu_max_active_leases Q))
          else
            bindE (check_conflicts db pid (aq_channel_id request) now resources) (\<lambda>_.
            bindE (insert_leases dr a pid request resources 0 db) (\<lambda>(leases, db1).
            Inr (\<lparr>lb_leases = leases, lb_lease_duration = LEASE_DURATION_MS,
                  lb_renewal_target = LEASE_RENEWAL_TARGET_MS, lb_server_time = now\<rparr>,
              \<lparr>ev_project_id = pid, ev_action = ''lease.batch_acquired'',
               ev_aggregate_type = ''lease_batch'', ev_aggregate_id = le_id (hd leases),
               ev_category = ''lock'', ev_event_type = ''lock.acquired'',
               ev_details = JObj
                 [(''leaseIds'', JArr (map (JStr \<circ> le_id) leases)),
                  (''resourceIds'', JArr (map (JStr \<circ> le_resource_id) leases)),
                  (''expiresAtMs'', JNum (now + LEASE_DURATION_MS))]\<rparr>, db1))))"

definition acquire_lease_batch ::
  "hub_lib \<Rightarrow> quotas \<Rightarrow> hub_draws \<Rightarrow> hub_db \<Rightarrow> actor \<Rightarrow> string \<Rightarrow> string \<Rightarrow> acquire_batch_request
   \<Rightarrow> string \<Rightarrow> hub_db \<Rightarrow> hub_error + lease_batch \<times> hub_db" where
  "acquire_lease_batch L Q dr db0 a pid key request route db =
     bindE (authorize_project db0 a pid ProposeArt) (\<lambda>_.
     bindE (validate_name (aq_workstream request) 1 128 ''workstream'') (\<lambda>_.
     bindE (validate_name (aq_intended_action request) 1 128 ''intendedAction'') (\<lambda>_.
     bindE (sorted_unique (aq_resource_ids request) ''resourceIds'') (\<lambda>resources.
     if resources = [] then Inl (hub_invalid ''At least one lease resource is required.'')
     else
       bindE (membership_role db a pid ProposeArt) (\<lambda>_.
       idempotent_mutation L dr a pid route key
         (canonical_request_hash L (acquire_batch_json request)) expect_leases RLeases
         (acquire_batch_body Q dr a pid request resources) db)))))"

definition acquire_lease ::
  "hub_lib \<Rightarrow> quotas \<Rightarrow> hub_draws \<Rightarrow> hub_db \<Rightarrow> actor \<Rightarrow> string \<Rightarrow> string \<Rightarrow> acquire_request
   \<Rightarrow> hub_db \<Rightarrow> hub_error + lease_batch \<times> hub_db" where
  "acquire_lease L Q dr db0 a pid key request db =
     acquire_lease_batch L Q dr db0 a pid key
       \<lparr>aq_channel_id = ar_channel_id request, aq_resource_ids = [ar_resource_id request],
        aq_base_revision_id = ar_base_revision_id request,
        aq_workstream = ar_workstream request, aq_intended_action = ar_intended_action request,
        aq_cell_hashes = (case ar_cell_hash request of
            None \<Rightarrow> [] | Some hash \<Rightarrow> [(ar_resource_id request, hash)])\<rparr>
       ''leases.acquire'' db"

section \<open>Listing, renewing and releasing\<close>

definition list_leases :: "hub_db \<Rightarrow> int \<Rightarrow> hub_db \<Rightarrow> actor \<Rightarrow> string \<Rightarrow> hub_error + hub_lease list" where
  "list_leases db0 now db a pid =
     bindE (authorize_project db0 a pid Read) (\<lambda>_.
     Inr (map lease_from_row (sort_key (\<lambda>l. (le_resource_id l, le_id l))
            (filter (\<lambda>l. le_project_id l = pid \<and> lease_active now l) (db_leases db)))))"

text \<open>The rows the \<open>UPDATE\<close> of a renewal hits.\<close>

definition renewable :: "hub_draws \<Rightarrow> actor \<Rightarrow> string \<Rightarrow> string \<Rightarrow> renew_request \<Rightarrow> lease_row \<Rightarrow> bool" where
  "renewable dr a pid lease_id request l \<longleftrightarrow>
     le_id l = lease_id \<and> le_project_id l = pid
     \<and> le_holder_principal_id l = ac_principal_id a \<and> le_holder_session_id l = ac_session_id a
     \<and> lease_active (dr_now dr) l \<and> le_renewal_counter l = rn_renewal_counter request"

definition renewed :: "hub_draws \<Rightarrow> renew_request \<Rightarrow> lease_row \<Rightarrow> lease_row" where
  "renewed dr request l =
     l\<lparr>le_renewal_counter := le_renewal_counter l + 1,
       le_expires_at := dr_now dr + LEASE_DURATION_MS,
       le_base_revision_id := rn_base_revision_id request, le_cell_hash := rn_cell_hash request\<rparr>"

definition update_leases ::
  "(lease_row \<Rightarrow> bool) \<Rightarrow> (lease_row \<Rightarrow> lease_row) \<Rightarrow> hub_db \<Rightarrow> hub_db" where
  "update_leases hit change db =
     db\<lparr>db_leases := map (\<lambda>l. if hit l then change l else l) (db_leases db)\<rparr>"

definition renew_lease_body ::
  "hub_draws \<Rightarrow> actor \<Rightarrow> string \<Rightarrow> string \<Rightarrow> renew_request \<Rightarrow> hub_db
   \<Rightarrow> hub_error + hub_lease \<times> evidence \<times> hub_db" where
  "renew_lease_body dr a pid lease_id request db =
     (let now = dr_now dr; hit = renewable dr a pid lease_id request
      in if length (filter hit (db_leases db)) \<noteq> 1
         then (case find (\<lambda>l. le_id l = lease_id \<and> le_project_id l = pid) (db_leases db) of
                 Some l \<Rightarrow>
                   if le_expires_at l \<le> now
                   then Inl (conflict ''HUB_LOCK_EXPIRED''
                     ''Expired leases cannot be renewed; acquire a new lease and rebase.'')
                   else Inl (conflict ''HUB_VERSION_CONFLICT''
                     ''Lease holder, session, or renewal counter did not match.'')
               | None \<Rightarrow> Inl (conflict ''HUB_VERSION_CONFLICT''
                     ''Lease holder, session, or renewal counter did not match.''))
         else
           let db1 = update_leases hit (renewed dr request) db
           in bindE (ok_or (find (\<lambda>l. le_id l = lease_id) (db_leases db1)) hub_internal) (\<lambda>l.
              Inr (lease_from_row l,
                \<lparr>ev_project_id = pid, ev_action = ''lease.renewed'', ev_aggregate_type = ''lease'',
                 ev_aggregate_id = lease_id, ev_category = ''lock'',
                 ev_event_type = ''lock.renewed'',
                 ev_details = JObj
                   [(''leaseId'', JStr lease_id), (''expiresAtMs'', JNum (le_expires_at l)),
                    (''renewalCounter'', JNum (le_renewal_counter l))]\<rparr>, db1)))"

definition renew_lease ::
  "hub_lib \<Rightarrow> hub_draws \<Rightarrow> hub_db \<Rightarrow> actor \<Rightarrow> string \<Rightarrow> string \<Rightarrow> string \<Rightarrow> renew_request \<Rightarrow> hub_db
   \<Rightarrow> hub_error + hub_lease \<times> hub_db" where
  "renew_lease L dr db0 a pid lease_id key request db =
     bindE (authorize_project db0 a pid ProposeArt) (\<lambda>_.
     bindE (membership_role db a pid ProposeArt) (\<lambda>_.
     idempotent_mutation L dr a pid ''leases.renew'' key
       (canonical_request_hash L (renew_json request)) expect_lease RLease
       (renew_lease_body dr a pid lease_id request) db))"

text \<open>
  Releasing is authorized before its transaction only, and is not idempotent. A forced release
  (\<open>break\<close>) hits the lease whoever holds it.
\<close>

definition releasable :: "actor \<Rightarrow> string \<Rightarrow> string \<Rightarrow> bool \<Rightarrow> lease_row \<Rightarrow> bool" where
  "releasable a pid lease_id force l \<longleftrightarrow>
     le_id l = lease_id \<and> le_project_id l = pid
     \<and> (force \<or> le_holder_principal_id l = ac_principal_id a
                \<and> le_holder_session_id l = ac_session_id a)
     \<and> le_released_at l = None"

definition released :: "int \<Rightarrow> string \<Rightarrow> lease_row \<Rightarrow> lease_row" where
  "released now reason l = l\<lparr>le_released_at := Some now, le_release_reason := Some reason\<rparr>"

definition release_evidence :: "string \<Rightarrow> string \<Rightarrow> string \<Rightarrow> bool \<Rightarrow> evidence" where
  "release_evidence pid lease_id reason force =
     (let action = (if force then ''lease.broken'' else ''lease.released'')
      in \<lparr>ev_project_id = pid, ev_action = action, ev_aggregate_type = ''lease'',
          ev_aggregate_id = lease_id, ev_category = ''lock'', ev_event_type = action,
          ev_details = JObj [(''leaseId'', JStr lease_id), (''reason'', JStr reason),
                             (''forced'', JBool force)]\<rparr>)"

definition release_lease ::
  "hub_lib \<Rightarrow> hub_draws \<Rightarrow> hub_db \<Rightarrow> actor \<Rightarrow> string \<Rightarrow> string \<Rightarrow> string \<Rightarrow> bool \<Rightarrow> hub_db
   \<Rightarrow> hub_error + json \<times> hub_db" where
  "release_lease L dr db0 a pid lease_id reason force db =
     bindE (authorize_project db0 a pid ProposeArt) (\<lambda>role.
     if force \<and> role \<noteq> Admin then Inl forbidden
     else
       bindE (validate_name reason 3 512 ''release reason'') (\<lambda>_.
       let now = dr_now dr; hit = releasable a pid lease_id force
       in if length (filter hit (db_leases db)) \<noteq> 1
          then Inl (not_found ''HUB_LOCK_NOT_FOUND'')
          else
            bindE (append_evidence L dr a (release_evidence pid lease_id reason force)
                     (update_leases hit (released now reason) db)) (\<lambda>db1.
            Inr (JObj [(''leaseId'', JStr lease_id), (''releasedAtMs'', JNum now)], db1))))"

section \<open>The operations as mutations\<close>

lemma insert_leases_ok:
  "insert_leases dr a pid request rs i db = Inr (ls, db')
   \<Longrightarrow> \<exists>xs. db' = db\<lparr>db_leases := db_leases db @ xs\<rparr> \<and> map le_resource_id xs = rs
         \<and> ls = map lease_from_row xs \<and> distinct (map le_id xs)
         \<and> le_id ` set xs \<inter> le_id ` set (db_leases db) = {}
         \<and> (\<forall>l \<in> set xs. \<exists>j r. l = new_lease dr a pid request j r)"
proof (induction rs arbitrary: i db ls)
  case Nil
  then show ?case by (auto intro: exI [of _ "[]"])
next
  case (Cons r rs)
  let ?l = "new_lease dr a pid request i r"
  from Cons.prems obtain ls' where fresh: "le_id ?l \<notin> le_id ` set (db_leases db)"
    and rest: "insert_leases dr a pid request rs (i + 1) (db\<lparr>db_leases := db_leases db @ [?l]\<rparr>)
      = Inr (ls', db')" and ls: "ls = lease_from_row ?l # ls'"
    by (auto simp: result_simps insert_lease_def split: if_splits)
  from Cons.IH [OF rest] obtain xs where xs: "db' = db\<lparr>db_leases := db_leases db @ ?l # xs\<rparr>"
    "map le_resource_id xs = rs" "ls' = map lease_from_row xs" "distinct (map le_id xs)"
    "le_id ` set xs \<inter> le_id ` set (db_leases db @ [?l]) = {}"
    "\<forall>l \<in> set xs. \<exists>j r. l = new_lease dr a pid request j r"
    by auto
  show ?case
    by (rule exI [of _ "?l # xs"]) (use xs fresh ls in \<open>auto simp: new_lease_def\<close>)
qed

lemma acquire_batch_body_cases:
  assumes "acquire_batch_body Q dr a pid request resources db = Inr (v, ev, db')"
  obtains xs where "db' = db\<lparr>db_leases := db_leases db @ xs\<rparr>" "map le_resource_id xs = resources"
    "lb_leases v = map lease_from_row xs" "distinct (map le_id xs)"
    "le_id ` set xs \<inter> le_id ` set (db_leases db) = {}"
    "\<forall>l \<in> set xs. \<exists>j r. l = new_lease dr a pid request j r"
    "check_conflicts db pid (aq_channel_id request) (dr_now dr) resources = Inr ()"
    "ev_project_id ev = pid"
  using assms unfolding acquire_batch_body_def Let_def
  by (auto simp: result_simps split: if_splits dest!: insert_leases_ok intro: that)

lemma check_conflicts_ok:
  "check_conflicts db pid cid now rs = Inr ()
   \<longleftrightarrow> (\<forall>r \<in> set rs. \<forall>l \<in> set (db_leases db). covers pid cid r l \<longrightarrow> \<not> lease_active now l)"
proof (induction rs)
  case (Cons r rs)
  have "filter (\<lambda>l. covers pid cid r l \<and> lease_active now l) (db_leases db) = []
      \<longleftrightarrow> (\<forall>l \<in> set (db_leases db). covers pid cid r l \<longrightarrow> \<not> lease_active now l)"
    by (auto simp: filter_empty_conv)
  moreover have "rev (sort_key le_expires_at xs) = [] \<longleftrightarrow> xs = []" for xs :: "lease_row list"
    by (metis length_0_conv length_rev length_sort)
  ultimately show ?case using Cons by (auto split: list.splits)
qed simp

interpretation acquire_batch:
  hub_mutation "acquire_batch_body Q dr a pid request resources" expect_leases RLeases
  for Q dr a pid request resources
  by unfold_locales
    (auto simp: same_log_def expect_leases_def elim!: acquire_batch_body_cases)

lemma renew_lease_body_cases:
  assumes "renew_lease_body dr a pid lease_id request db = Inr (v, ev, db')"
  obtains l where "db' = update_leases (renewable dr a pid lease_id request) (renewed dr request) db"
    "l \<in> set (db_leases db)" "renewable dr a pid lease_id request l"
    "length (filter (renewable dr a pid lease_id request) (db_leases db)) = 1"
    "ev_project_id ev = pid"
proof -
  have n: "length (filter (renewable dr a pid lease_id request) (db_leases db)) = 1"
    and db': "db' = update_leases (renewable dr a pid lease_id request) (renewed dr request) db"
    and ev: "ev_project_id ev = pid"
    using assms
    by (auto simp: renew_lease_body_def Let_def result_simps split: if_splits option.splits)
  from n have "filter (renewable dr a pid lease_id request) (db_leases db) \<noteq> []" by auto
  then obtain l where "l \<in> set (db_leases db)" "renewable dr a pid lease_id request l"
    by (auto simp: filter_empty_conv)
  with n db' ev show ?thesis by (intro that)
qed

lemma same_log_update_leases [simp]: "same_log db (update_leases hit change db)"
  by (simp add: same_log_def update_leases_def)

interpretation renew_lease:
  hub_mutation "renew_lease_body dr a pid lease_id request" expect_lease RLease
  for dr a pid lease_id request
  by unfold_locales (auto simp: expect_lease_def elim!: renew_lease_body_cases)

section \<open>Exclusion\<close>

text \<open>
  At no time from \<open>now\<close> on are two leases on one resource of one channel active, and lease ids
  are unique.
\<close>

definition same_slot :: "lease_row \<Rightarrow> lease_row \<Rightarrow> bool" where
  "same_slot l m \<longleftrightarrow> le_project_id l = le_project_id m \<and> le_channel_id l = le_channel_id m
     \<and> le_resource_id l = le_resource_id m"

definition no_double_lease :: "int \<Rightarrow> lease_row list \<Rightarrow> bool" where
  "no_double_lease now ls \<longleftrightarrow>
     distinct (map le_id ls)
     \<and> (\<forall>l \<in> set ls. \<forall>m \<in> set ls. same_slot l m \<and> lease_active now l \<and> lease_active now m
          \<longrightarrow> l = m)"

lemma lease_active_earlier: "lease_active t l \<Longrightarrow> now \<le> t \<Longrightarrow> lease_active now l"
  by (auto simp: lease_active_def)

lemma no_double_lease_later: "no_double_lease now ls \<Longrightarrow> now \<le> t \<Longrightarrow> no_double_lease t ls"
  unfolding no_double_lease_def using lease_active_earlier by blast

lemma acquire_batch_exclusive:
  assumes ok: "no_double_lease now (db_leases db)" and t: "now \<le> dr_now dr"
    and "distinct resources"
    and step: "acquire_batch_body Q dr a pid request resources db = Inr (v, ev, db')"
  shows "no_double_lease (dr_now dr) (db_leases db')"
  using step
proof (cases rule: acquire_batch_body_cases)
  case (1 xs)
  have old: "no_double_lease (dr_now dr) (db_leases db)" using ok t by (rule no_double_lease_later)
  have new: "\<exists>j r. l = new_lease dr a pid request j r" if "l \<in> set xs" for l using 1(6) that by blast
  have cross: "\<not> lease_active (dr_now dr) m" if "l \<in> set xs" "m \<in> set (db_leases db)" "same_slot l m"
    for l m
  proof -
    have "le_resource_id l \<in> set resources" using that(1) by (simp flip: 1(2))
    moreover have "covers pid (aq_channel_id request) (le_resource_id l) m"
      using that(3) new [OF that(1)] by (auto simp: covers_def same_slot_def new_lease_def)
    ultimately show ?thesis using 1(7) that(2) unfolding check_conflicts_ok by blast
  qed
  have inner: "l = m" if "l \<in> set xs" "m \<in> set xs" "same_slot l m" for l m
    using that \<open>distinct resources\<close> unfolding 1(2) [symmetric] distinct_map inj_on_def same_slot_def
    by blast
  have "same_slot m l" if "same_slot l m" for l m using that by (simp add: same_slot_def)
  then show ?thesis
    using old cross inner 1(4,5) unfolding no_double_lease_def 1(1) by (auto simp: disjoint_iff)
qed

text \<open>Changes that activate nothing keep exclusion.\<close>

lemma no_double_lease_map:
  assumes "no_double_lease now ls"
    and "\<And>l. le_id (f l) = le_id l" "\<And>l m. same_slot (f l) (f m) = same_slot l m"
    and "\<And>l. lease_active now (f l) \<Longrightarrow> lease_active now l"
  shows "no_double_lease now (map f ls)"
  using assms unfolding no_double_lease_def by (simp add: comp_def) blast

lemma renew_lease_exclusive:
  assumes ok: "no_double_lease now (db_leases db)" and t: "now \<le> dr_now dr"
    and step: "renew_lease_body dr a pid lease_id request db = Inr (v, ev, db')"
  shows "no_double_lease (dr_now dr) (db_leases db')"
  using step
proof (cases rule: renew_lease_body_cases)
  case (1 l)
  let ?hit = "renewable dr a pid lease_id request"
  let ?f = "\<lambda>l. if ?hit l then renewed dr request l else l"
  have old: "no_double_lease (dr_now dr) (db_leases db)" using ok t by (rule no_double_lease_later)
  have eq: "db_leases db' = map ?f (db_leases db)" by (simp add: 1(1) update_leases_def)
  show ?thesis
    unfolding eq
    by (rule no_double_lease_map [OF old])
      (auto simp: renewed_def same_slot_def renewable_def split: if_splits)
qed

lemma release_lease_cases:
  assumes "release_lease L dr db0 a pid lease_id reason force db = Inr (v, db')"
  obtains role where
    "append_evidence L dr a (release_evidence pid lease_id reason force)
       (update_leases (releasable a pid lease_id force) (released (dr_now dr) reason) db) = Inr db'"
    "authorize_project db0 a pid ProposeArt = Inr role" "force \<longrightarrow> role = Admin"
    "length (filter (releasable a pid lease_id force) (db_leases db)) = 1"
  using assms unfolding release_lease_def Let_def
  by (auto simp: result_simps split: if_splits intro: that)

lemma no_double_lease_released:
  "no_double_lease now ls
   \<Longrightarrow> no_double_lease now (map (\<lambda>l. if hit l then released t reason l else l) ls)"
  by (rule no_double_lease_map)
    (auto simp: released_def same_slot_def lease_active_def split: if_splits)

lemma release_lease_exclusive:
  assumes "no_double_lease now (db_leases db)"
    and "release_lease L dr db0 a pid lease_id reason force db = Inr (v, db')"
  shows "no_double_lease now (db_leases db')"
  using assms(2)
proof (cases rule: release_lease_cases)
  case (1 role)
  then have "db_leases db' = map (\<lambda>l. if releasable a pid lease_id force l
      then released (dr_now dr) reason l else l) (db_leases db)"
    by (auto simp: append_evidence_ok update_leases_def)
  then show ?thesis using assms(1) by (simp only: no_double_lease_released)
qed

lemma release_lease_audit_ok:
  assumes "audit_ok L db"
    and "release_lease L dr db0 a pid lease_id reason force db = Inr (v, db')"
  shows "audit_ok L db' \<and> log_extends db db'"
  using assms(2)
proof (cases rule: release_lease_cases)
  case (1 role)
  let ?db1 = "update_leases (releasable a pid lease_id force) (released (dr_now dr) reason) db"
  have "audit_ok L ?db1"
    using assms(1) by (simp add: audit_ok_def update_leases_def project_log_def)
  moreover have "log_extends db db'"
    using 1(1) by (auto simp: append_evidence_ok log_extends_def update_leases_def)
  ultimately show ?thesis using append_evidence_audit_ok 1(1) by blast
qed

section \<open>Acquiring succeeds\<close>

lemma new_id_eq [simp]: "new_id p u = new_id p v \<longleftrightarrow> u = v"
  by (simp add: new_id_def)

lemma find_channel_known:
  "find (\<lambda>c. ch_id c = cid \<and> ch_project_id c = pid) (db_channels db) = Some c
   \<Longrightarrow> cid \<in> ch_id ` set (db_channels db)"
  by (auto simp: find_Some_iff)

lemma insert_leases_succeeds:
  assumes "inj (dr_uuid dr)" "\<forall>j \<ge> i. new_id ''lck'' (dr_uuid dr j) \<notin> le_id ` set (db_leases db)"
    and "pid \<in> hp_id ` set (db_projects db)" "ac_principal_id a \<in> pr_id ` set (db_principals db)"
    and "aq_channel_id request \<in> ch_id ` set (db_channels db)"
  shows "\<exists>ls db'. insert_leases dr a pid request resources i db = Inr (ls, db')"
  using assms
proof (induction resources arbitrary: i db)
  case (Cons r rs)
  let ?l = "new_lease dr a pid request i r"
  let ?db = "db\<lparr>db_leases := db_leases db @ [?l]\<rparr>"
  have "insert_lease ?l db = Inr ?db"
    using Cons.prems(2-5) by (simp add: insert_lease_def new_lease_def)
  moreover have "\<exists>ls db'. insert_leases dr a pid request rs (Suc i) ?db = Inr (ls, db')"
  proof (rule Cons.IH [OF Cons.prems(1)])
    show "\<forall>j \<ge> Suc i. new_id ''lck'' (dr_uuid dr j) \<notin> le_id ` set (db_leases ?db)"
      using Cons.prems(2) inj_eq [OF Cons.prems(1)] by (auto simp: new_lease_def)
  qed (use Cons.prems in simp_all)
  ultimately show ?case by auto
qed simp

section \<open>Concrete leases\<close>

definition wit_lease :: lease_row where
  "wit_lease = \<lparr>le_id = ''lck_0'', le_project_id = ''prj_1'', le_channel_id = ''ach_1'',
     le_resource_id = ''cell_a'', le_base_revision_id = None, le_workstream = ''w'',
     le_intended_action = ''edit'', le_cell_hash = None, le_holder_principal_id = ''ada'',
     le_holder_session_id = ''s'', le_renewal_counter = 0, le_acquired_at = 1000,
     le_expires_at = 121000, le_released_at = None, le_release_reason = None,
     le_outcome_reference = None\<rparr>"

definition wit_leased :: hub_db where
  "wit_leased = wit_hub\<lparr>db_memberships := [wit_member ''ada'' Admin, wit_member ''bob'' Artist],
     db_leases := [wit_lease]\<rparr>"

definition wit_acquire :: acquire_batch_request where
  "wit_acquire = \<lparr>aq_channel_id = ''ach_1'', aq_resource_ids = [''cell_a''],
     aq_base_revision_id = None, aq_workstream = ''w'', aq_intended_action = ''edit'',
     aq_cell_hashes = [(''a'', ''x''), (''b'', ''y'')]\<rparr>"

section \<open>Properties\<close>

text \<open>C32: An expired or released lease blocks nobody: on a channel whose head is the base asked
  for, within the quota and with fresh ids, acquiring succeeds as soon as every lease on the
  resources asked for has expired or was released, whoever held them.\<close>

theorem vanished_holder_frees_resources:
  assumes "\<forall>r \<in> set resources. \<forall>l \<in> set (db_leases db).
      covers pid (aq_channel_id request) r l
      \<longrightarrow> le_released_at l \<noteq> None \<or> le_expires_at l \<le> dr_now dr"
    and "find (\<lambda>c. ch_id c = aq_channel_id request \<and> ch_project_id c = pid) (db_channels db) = Some c"
    and "ch_head c = aq_base_revision_id request"
    and "int (length (filter (\<lambda>l. le_project_id l = pid \<and> lease_active (dr_now dr) l) (db_leases db)))
      + int (length resources) \<le> qu_max_active_leases Q"
    and "inj (dr_uuid dr)" "\<forall>i. new_id ''lck'' (dr_uuid dr i) \<notin> le_id ` set (db_leases db)"
    and "pid \<in> hp_id ` set (db_projects db)" "ac_principal_id a \<in> pr_id ` set (db_principals db)"
  shows "\<exists>v ev db'. acquire_batch_body Q dr a pid request resources db = Inr (v, ev, db')
    \<and> map le_resource_id (lb_leases v) = resources
    \<and> (\<forall>l \<in> set (lb_leases v). le_expires_at l = dr_now dr + 120000)"
proof -
  have "check_conflicts db pid (aq_channel_id request) (dr_now dr) resources = Inr ()"
    using assms(1) unfolding check_conflicts_ok lease_active_def by (metis linorder_not_less)
  moreover obtain ls db' where ins: "insert_leases dr a pid request resources 0 db = Inr (ls, db')"
    using insert_leases_succeeds [of dr 0 db pid a request resources] assms(5-8)
      find_channel_known [OF assms(2)] by blast
  ultimately obtain v ev where v: "acquire_batch_body Q dr a pid request resources db = Inr (v, ev, db')"
    and leases: "lb_leases v = ls"
    using assms(2-4) by (simp add: acquire_batch_body_def Let_def)
  from insert_leases_ok [OF ins] obtain xs where "map le_resource_id xs = resources"
    "ls = map lease_from_row xs" "\<forall>l \<in> set xs. \<exists>j r. l = new_lease dr a pid request j r"
    by blast
  then have "map le_resource_id ls = resources"
    "\<forall>l \<in> set ls. le_expires_at l = dr_now dr + 120000"
    by (auto simp: lease_from_row_def hub_lease.defs new_lease_def LEASE_DURATION_MS_def comp_def)
  with v leases show ?thesis by blast
qed

lemma vanished_holder_frees_resources_witness:
  "\<exists>v ev db'. acquire_batch_body wit_quotas (wit_draws 200000 ''u'') (wit_actor ''bob'') ''prj_1''
      wit_acquire [''cell_a''] wit_leased = Inr (v, ev, db')
    \<and> map le_resource_id (lb_leases v) = [''cell_a'']
    \<and> (\<forall>l \<in> set (lb_leases v). le_expires_at l = dr_now (wit_draws 200000 ''u'') + 120000)"
proof (rule vanished_holder_frees_resources)
  show "inj (dr_uuid (wit_draws 200000 ''u''))"
    by (auto simp: wit_draws_def inj_on_def dest: arg_cong [where f = length])
  show "\<forall>i. new_id ''lck'' (dr_uuid (wit_draws 200000 ''u'') i) \<notin> le_id ` set (db_leases wit_leased)"
    by (simp add: wit_leased_def wit_lease_def new_id_def wit_hub_defs)
  show "find (\<lambda>c. ch_id c = aq_channel_id wit_acquire \<and> ch_project_id c = ''prj_1'') (db_channels wit_leased)
      = Some \<lparr>ch_id = ''ach_1'', ch_project_id = ''prj_1'', ch_name = ''accepted'',
        ch_head = None, ch_version = 1\<rparr>"
    by (simp add: wit_leased_def wit_acquire_def wit_hub_defs)
qed (simp_all add: wit_leased_def wit_acquire_def wit_lease_def wit_hub_defs covers_def lease_active_def)

text \<open>A batch that is retried with the same cell hashes can be refused: the request is
  serialized in the iteration order of a hash map, so whenever a second instance of the same map
  is serialized differently, the retry of an acquired batch under its key is answered with
  \<open>HUB_IDEMPOTENCY_CONFLICT\<close> instead of the recorded leases.\<close>

theorem retried_batch_conflicts:
  assumes "acquire_lease_batch L Q dr db0 a pid key request route db = Inr (v, db1)"
    and "log_extends db1 db2"
    and "map_of hashes = map_of (aq_cell_hashes request)"
    and "canonical_request_hash L (acquire_batch_json (request\<lparr>aq_cell_hashes := hashes\<rparr>))
      \<noteq> canonical_request_hash L (acquire_batch_json request)"
    and "is_ok (authorize_project db0' a pid ProposeArt)" "is_ok (membership_role db2 a pid ProposeArt)"
  shows "acquire_lease_batch L Q dr' db0' a pid key (request\<lparr>aq_cell_hashes := hashes\<rparr>) route db2
    = Inl (conflict ''HUB_IDEMPOTENCY_CONFLICT''
        ''This idempotency key was already used with a different request.'')"
proof -
  from assms(1) obtain resources where
    valid: "validate_name (aq_workstream request) 1 128 ''workstream'' = Inr ()"
      "validate_name (aq_intended_action request) 1 128 ''intendedAction'' = Inr ()"
      "sorted_unique (aq_resource_ids request) ''resourceIds'' = Inr resources" "resources \<noteq> []"
    and first: "idempotent_mutation L dr a pid route key
       (canonical_request_hash L (acquire_batch_json request)) expect_leases RLeases
       (acquire_batch_body Q dr a pid request resources) db = Inr (v, db1)"
    by (auto simp: acquire_lease_batch_def result_simps split: if_splits)
  show ?thesis
    using valid assms(4-6) acquire_batch.retry [OF first assms(2), of dr'
        "canonical_request_hash L (acquire_batch_json (request\<lparr>aq_cell_hashes := hashes\<rparr>))"
        "acquire_batch_body Q dr' a pid (request\<lparr>aq_cell_hashes := hashes\<rparr>) resources"]
    by (auto simp: acquire_lease_batch_def is_ok_iff)
qed

text \<open>Releasing a lease is authorized in a transaction of its own before the one that
  releases, and never again: a principal whose membership was withdrawn in between still
  releases, and a former administrator still breaks the lease of somebody else.\<close>

theorem release_ignores_revocation:
  assumes "authorize_project db0 a pid ProposeArt = Inr Admin"
    and "membership_role db a pid ProposeArt = Inl forbidden"
    and "validate_name reason 3 512 ''release reason'' = Inr ()"
    and "length (filter (releasable a pid lease_id True) (db_leases db)) = 1"
    and "new_id ''aud'' (dr_audit_uuid dr) \<notin> au_id ` set (db_audit db)"
      "new_id ''evt'' (dr_event_uuid dr) \<notin> ox_id ` set (db_outbox db)"
  shows "\<exists>v db'. release_lease L dr db0 a pid lease_id reason True db = Inr (v, db')
    \<and> (\<forall>l \<in> set (db_leases db'). le_id l = lease_id \<and> le_project_id l = pid
         \<longrightarrow> le_released_at l \<noteq> None)"
proof -
  have "\<exists>db'. append_evidence L dr a (release_evidence pid lease_id reason True)
      (update_leases (releasable a pid lease_id True) (released (dr_now dr) reason) db) = Inr db'"
    using assms(5,6) by (simp add: append_evidence_ok update_leases_def)
  then obtain db' where db': "append_evidence L dr a (release_evidence pid lease_id reason True)
      (update_leases (releasable a pid lease_id True) (released (dr_now dr) reason) db) = Inr db'" ..
  then have "release_lease L dr db0 a pid lease_id reason True db
      = Inr (JObj [(''leaseId'', JStr lease_id), (''releasedAtMs'', JNum (dr_now dr))], db')"
    using assms(1,3,4) by (simp add: release_lease_def Let_def)
  moreover have "le_released_at l \<noteq> None"
    if "l \<in> set (db_leases db')" "le_id l = lease_id" "le_project_id l = pid" for l
  proof -
    have "db_leases db' = map (\<lambda>l. if releasable a pid lease_id True l
        then released (dr_now dr) reason l else l) (db_leases db)"
      using db' by (simp add: append_evidence_ok update_leases_def)
    with that(1) have "l \<in> (\<lambda>k. if releasable a pid lease_id True k
        then released (dr_now dr) reason k else k) ` set (db_leases db)" by simp
    then obtain k where "l = (if releasable a pid lease_id True k
        then released (dr_now dr) reason k else k)" by (rule imageE)
    with that(2,3) show ?thesis by (auto simp: releasable_def released_def split: if_splits)
  qed
  ultimately show ?thesis by blast
qed

lemma release_ignores_revocation_witness:
  "\<exists>v db'. release_lease wit_hub_lib (wit_draws 2000 ''u'') wit_hub (wit_actor ''ada'') ''prj_1''
      ''lck_0'' ''cleanup'' True
      (wit_hub\<lparr>db_memberships := [wit_member ''bob'' Artist], db_leases := [wit_lease]\<rparr>)
      = Inr (v, db')
    \<and> (\<forall>l \<in> set (db_leases db'). le_id l = ''lck_0'' \<and> le_project_id l = ''prj_1''
         \<longrightarrow> le_released_at l \<noteq> None)"
proof (rule release_ignores_revocation)
  show "authorize_project wit_hub (wit_actor ''ada'') ''prj_1'' ProposeArt = Inr Admin"
    by (simp add: authorize_project_def membership_role_def wit_hub_defs role_allows_def)
  show "validate_name ''cleanup'' 3 512 ''release reason'' = Inr ()" by code_simp
qed (simp_all add: membership_role_def wit_hub_defs wit_lease_def releasable_def)

text \<open>A serializer that shows the order of the cell hashes.\<close>

definition wit_order_lib :: hub_lib where
  "wit_order_lib = wit_hub_lib\<lparr>hl_hex := (\<lambda>bs. if bs = as_bytes ''a'' then ''a'' else ''h''),
     hl_json_text := (\<lambda>j. case j of
       JObj [_, _, _, _, _, (_, JObj ((k, _) # _))] \<Rightarrow> k | _ \<Rightarrow> ''j'')\<rparr>"

definition wit_two_members :: hub_db where
  "wit_two_members = wit_hub\<lparr>db_memberships := [wit_member ''ada'' Admin, wit_member ''bob'' Artist]\<rparr>"

lemma wit_acquire_valid:
  "validate_name (aq_workstream wit_acquire) 1 128 ''workstream'' = Inr ()"
  "validate_name (aq_intended_action wit_acquire) 1 128 ''intendedAction'' = Inr ()"
  "validate_name ''cell_a'' 1 256 ''resourceIds'' = Inr ()"
  subgoal by code_simp
  subgoal by code_simp
  subgoal by code_simp
  done

lemma wit_acquired:
  "\<exists>v au n ox m ir db2. acquire_lease_batch wit_order_lib wit_quotas (wit_draws 5 ''u'') wit_two_members
       (wit_actor ''bob'') ''prj_1'' ''key-0001'' wit_acquire ''leases.acquire_batch'' wit_two_members
     = Inr (v, relog au n ox m ir db2)
   \<and> db_memberships db2 = db_memberships wit_two_members \<and> db_projects db2 = db_projects wit_two_members"
proof -
  let ?body = "acquire_batch_body wit_quotas (wit_draws 5 ''u'') (wit_actor ''bob'') ''prj_1''
      wit_acquire [''cell_a'']"
  have "is_ok (?body wit_two_members)" by code_simp
  then obtain v ev db2 where body: "?body wit_two_members = Inr (v, ev, db2)" by (auto simp: is_ok_iff)
  then have same: "db_memberships db2 = db_memberships wit_two_members"
    "db_projects db2 = db_projects wit_two_members"
    by (auto elim!: acquire_batch_body_cases)
  have "find (idempotency_match (wit_actor ''bob'') ''prj_1'' ''leases.acquire_batch'' ''key-0001'')
      (db_idempotency wit_two_members) = None"
    "db_audit wit_two_members = []" "db_outbox wit_two_members = []"
    "ac_principal_id (wit_actor ''bob'') \<in> pr_id ` set (db_principals wit_two_members)"
    by (simp_all add: wit_two_members_def wit_hub_defs)
  then obtain au n ox m ir where mut: "idempotent_mutation wit_order_lib (wit_draws 5 ''u'')
      (wit_actor ''bob'') ''prj_1'' ''leases.acquire_batch'' ''key-0001''
      (canonical_request_hash wit_order_lib (acquire_batch_json wit_acquire)) expect_leases RLeases
      ?body wit_two_members = Inr (v, relog au n ox m ir db2)"
    using acquire_batch.fresh_succeeds [OF body, of "wit_actor ''bob''" "''prj_1''"
        "''leases.acquire_batch''" "''key-0001''" "wit_draws 5 ''u''" wit_order_lib
        "canonical_request_hash wit_order_lib (acquire_batch_json wit_acquire)"]
    by auto
  have "is_ok (membership_role wit_two_members (wit_actor ''bob'') ''prj_1'' ProposeArt)"
    by (simp add: membership_role_def wit_two_members_def wit_hub_defs role_allows_def)
  moreover have "sorted_unique (aq_resource_ids wit_acquire) ''resourceIds'' = Inr [''cell_a'']"
    using wit_acquire_valid(3) by (simp add: sorted_unique_ok wit_acquire_def)
  ultimately have "acquire_lease_batch wit_order_lib wit_quotas (wit_draws 5 ''u'') wit_two_members
       (wit_actor ''bob'') ''prj_1'' ''key-0001'' wit_acquire ''leases.acquire_batch'' wit_two_members
     = Inr (v, relog au n ox m ir db2)"
    using mut wit_acquire_valid(1,2) by (auto simp: acquire_lease_batch_def authorize_project_def is_ok_iff)
  with same show ?thesis by blast
qed

lemma retried_batch_conflicts_witness:
  "\<exists>v db1. acquire_lease_batch wit_order_lib wit_quotas (wit_draws 5 ''u'') wit_two_members
       (wit_actor ''bob'') ''prj_1'' ''key-0001'' wit_acquire ''leases.acquire_batch'' wit_two_members
     = Inr (v, db1)
   \<and> acquire_lease_batch wit_order_lib wit_quotas (wit_draws 9 ''v'') db1 (wit_actor ''bob'')
       ''prj_1'' ''key-0001'' (wit_acquire\<lparr>aq_cell_hashes := [(''b'', ''y''), (''a'', ''x'')]\<rparr>)
       ''leases.acquire_batch'' db1
     = Inl (conflict ''HUB_IDEMPOTENCY_CONFLICT''
         ''This idempotency key was already used with a different request.'')"
proof -
  obtain v au n ox m ir db2 where first: "acquire_lease_batch wit_order_lib wit_quotas
      (wit_draws 5 ''u'') wit_two_members (wit_actor ''bob'') ''prj_1'' ''key-0001'' wit_acquire
      ''leases.acquire_batch'' wit_two_members = Inr (v, relog au n ox m ir db2)"
    and same: "db_memberships db2 = db_memberships wit_two_members"
      "db_projects db2 = db_projects wit_two_members"
    using wit_acquired by blast
  have role: "is_ok (membership_role (relog au n ox m ir db2) (wit_actor ''bob'') ''prj_1'' ProposeArt)"
    using same
    by (simp add: membership_role_def wit_two_members_def wit_hub_defs role_allows_def)
  have "canonical_request_hash wit_order_lib (acquire_batch_json
        (wit_acquire\<lparr>aq_cell_hashes := [(''b'', ''y''), (''a'', ''x'')]\<rparr>))
      \<noteq> canonical_request_hash wit_order_lib (acquire_batch_json wit_acquire)"
    by code_simp
  moreover have "map_of [(''b'', ''y''), (''a'', ''x'')] = map_of (aq_cell_hashes wit_acquire)"
    by (auto simp: wit_acquire_def)
  moreover have "is_ok (authorize_project (relog au n ox m ir db2) (wit_actor ''bob'') ''prj_1'' ProposeArt)"
    using role by (simp add: authorize_project_def)
  ultimately show ?thesis
    using first retried_batch_conflicts [OF first log_extends_refl] role by blast
qed

end
