(* ===== verification/HubArt.thy ===== *)
theory HubArt
  imports HubObjects HubLeases ArtState
begin

text \<open>
  Art proposals: creating them against the accepted head with a canonical manifest, reviewing,
  accepting (the only operation that moves a channel's head) and rejecting.

  The manifest parser and the canonical JSON serializer are parameters; the state root and the
  identifier parsers are those of \<open>domain.rs\<close>.
\<close>

record 'u art_env =
  ae_uuid :: "'u uuid_lib"
  ae_parse_manifest :: "u8 list \<Rightarrow> canonical_art_manifest option"
  ae_jcs :: "canonical_art_manifest \<Rightarrow> u8 list option"

definition ART_MANIFEST_SCHEMA :: string where
  "ART_MANIFEST_SCHEMA = ''dev.neuman.hub-art-manifest/v1''"

definition ART_MANIFEST_MEDIA_TYPE :: string where
  "ART_MANIFEST_MEDIA_TYPE = ''application/vnd.neuman.art-manifest+json''"

definition MAX_ART_MANIFEST_BYTES :: nat where
  "MAX_ART_MANIFEST_BYTES = 1024 * 1024"

section \<open>Requests\<close>

record create_proposal_request =
  pq_channel_id :: string
  pq_base_revision_id :: "string option"
  pq_state_hash :: string
  pq_title :: string
  pq_description :: string
  pq_resource_ids :: "string list"
  pq_object_hashes :: "string list"

record review_request =
  vq_verdict :: string
  vq_body :: string

definition create_proposal_json :: "create_proposal_request \<Rightarrow> json" where
  "create_proposal_json r =
     JObj [(''channelId'', JStr (pq_channel_id r)),
           (''baseRevisionId'', opt_json (pq_base_revision_id r)),
           (''stateHash'', JStr (pq_state_hash r)), (''title'', JStr (pq_title r)),
           (''description'', JStr (pq_description r)),
           (''resourceIds'', JArr (map JStr (pq_resource_ids r))),
           (''objectHashes'', JArr (map JStr (pq_object_hashes r)))]"

definition review_json :: "review_request \<Rightarrow> json" where
  "review_json r = JObj [(''verdict'', JStr (vq_verdict r)), (''body'', JStr (vq_body r))]"

definition accept_json :: "string option \<Rightarrow> json" where
  "accept_json expected_head = JObj [(''expectedHeadRevisionId'', opt_json expected_head)]"

definition reject_json :: "string \<Rightarrow> json" where
  "reject_json reason = JObj [(''reason'', JStr reason)]"

definition expect_proposal :: "response \<Rightarrow> art_proposal option" where
  "expect_proposal r = (case r of RProposal x \<Rightarrow> Some x | _ \<Rightarrow> None)"

definition expect_review :: "response \<Rightarrow> art_review option" where
  "expect_review r = (case r of RReview x \<Rightarrow> Some x | _ \<Rightarrow> None)"

definition expect_revision :: "response \<Rightarrow> hub_revision option" where
  "expect_revision r = (case r of RRevision x \<Rightarrow> Some x | _ \<Rightarrow> None)"

section \<open>The canonical manifest of a proposal\<close>

definition verified_object :: "hub_db \<Rightarrow> string \<Rightarrow> string \<Rightarrow> object_row option" where
  "verified_object db pid hash =
     find (\<lambda>r. ob_content_hash r = hash \<and> ob_integrity_status r = ''verified''
             \<and> (\<exists>po \<in> set (db_project_objects db). po_project_id po = pid \<and> po_content_hash po = hash))
       (db_objects db)"

definition manifest_candidates :: "hub_db \<Rightarrow> string \<Rightarrow> string list \<Rightarrow> string list" where
  "manifest_candidates db pid hashes =
     filter (\<lambda>hash. map_option ob_media_type (verified_object db pid hash)
                      = Some ART_MANIFEST_MEDIA_TYPE) hashes"

definition load_manifest ::
  "hub_lib \<Rightarrow> hub_config \<Rightarrow> 'u art_env \<Rightarrow> fs \<Rightarrow> string \<Rightarrow> hub_error + canonical_art_manifest" where
  "load_manifest L cfg env fs manifest_hash =
     bindE (ok_or (strip_prefix ''b3-256:'' manifest_hash) (hub_invalid ''Art manifest hash is invalid.''))
       (\<lambda>digest.
     bindE (ok_or (fs (cas_path (hc_object_dir cfg) digest)) hub_internal) (\<lambda>bytes.
     if bytes = [] \<or> MAX_ART_MANIFEST_BYTES < length bytes
     then Inl (hub_invalid ''Art manifest size is outside limits.'')
     else if hub_content_hash L bytes \<noteq> manifest_hash
     then Inl (hub_error_new 412 ''STO_HASH_MISMATCH''
            ''The canonical art manifest failed content verification.'')
     else
       bindE (ok_or (ae_parse_manifest env bytes)
                (hub_invalid ''Canonical art manifest JSON is invalid.'')) (\<lambda>manifest.
       bindE (ok_or (ae_jcs env manifest) hub_internal) (\<lambda>canonical.
       if canonical \<noteq> bytes
       then Inl (hub_invalid ''Art manifest bytes must use canonical JSON encoding.'')
       else Inr manifest))))"

definition manifest_context_ok ::
  "string \<Rightarrow> create_proposal_request \<Rightarrow> string option \<Rightarrow> canonical_art_manifest \<Rightarrow> bool" where
  "manifest_context_ok pid request head m \<longleftrightarrow>
     cm_schema_version m = ART_MANIFEST_SCHEMA \<and> cm_project_id m = pid
     \<and> cm_channel_id m = pq_channel_id request \<and> cm_base_hub_revision_id m = head
     \<and> cm_cells m \<noteq> [] \<and> length (cm_cells m) \<le> 128
     \<and> valid_scoped_id (cm_source_session_id m) ''ses_''
     \<and> valid_scoped_id (cm_local_revision_id m) ''art_''"

definition base_manifest ::
  "hub_db \<Rightarrow> string \<Rightarrow> string \<Rightarrow> string option \<Rightarrow> hub_error + canonical_art_manifest option" where
  "base_manifest db pid cid head =
     (case head of
        None \<Rightarrow> Inr None
      | Some revision \<Rightarrow>
          bindE (ok_or (find (\<lambda>r. rv_id r = revision \<and> rv_project_id r = pid \<and> rv_channel_id r = cid)
                   (db_revisions db)) hub_internal) (\<lambda>r. Inr (Some (rv_state r))))"

text \<open>
  The loop over the cells. The state it builds is keyed by the cell's UUID; canonical UUID
  texts compare like the UUIDs, so the map's order is the manifest's.
\<close>

definition cell_shape_ok :: "string option \<Rightarrow> canonical_art_cell \<Rightarrow> bool" where
  "cell_shape_ok previous c \<longleftrightarrow>
     valid_scoped_id (cc_cell_id c) ''cell_'' \<and> length (cc_parent_path c) \<le> 1024
     \<and> starts_with ''/'' (cc_parent_path c) \<and> \<not> has_control (cc_parent_path c)
     \<and> cc_size_bytes c \<noteq> 0
     \<and> (case previous of None \<Rightarrow> True | Some p \<Rightarrow> p < cc_cell_id c)"

primrec check_cells ::
  "'u art_env \<Rightarrow> hub_db \<Rightarrow> string \<Rightarrow> string option \<Rightarrow> canonical_art_cell list
   \<Rightarrow> hub_error + ('u \<times> 'u art_cell_state) list" where
  "check_cells env db pid previous [] = Inr []"
| "check_cells env db pid previous (c # cs) =
     (if \<not> cell_shape_ok previous c
      then Inl (hub_invalid
             ''Canonical art cells must be sorted, unique, and contain valid slots.'')
      else
        bindE (validate_content_hash (cc_content_hash c)) (\<lambda>_.
        if map_option ob_size_bytes (verified_object db pid (cc_content_hash c))
             \<noteq> Some (int (cc_size_bytes c))
        then Inl (hub_error_new 412 ''HUB_OBJECT_MISSING''
               ''A canonical art cell is missing, unauthorized, or has the wrong size.'')
        else
          bindE (mapE (\<lambda>_. hub_invalid ''Canonical art cell ID is invalid.'')
                   (cell_id_from_str (ae_uuid env) (cc_cell_id c))) (\<lambda>uuid.
          bindE (mapE (\<lambda>_. hub_invalid ''Canonical art cell hash is invalid.'')
                   (content_hash_from_str (cc_content_hash c))) (\<lambda>hash.
          bindE (check_cells env db pid (Some (cc_cell_id c)) cs) (\<lambda>state.
          Inr ((uuid, \<lparr>cell_id = uuid, snapshot_hash = hash, slot_path = cc_parent_path c\<rparr>)
               # state))))))"

text \<open>The ids of the cells that differ from the accepted base; nothing may be deleted.\<close>

definition derived_changed ::
  "canonical_art_manifest option \<Rightarrow> canonical_art_cell list \<Rightarrow> hub_error + string list" where
  "derived_changed base cs =
     (case base of
        None \<Rightarrow> Inr (sort (map cc_cell_id cs))
      | Some b \<Rightarrow>
          let base_cells = map_of (rev (map (\<lambda>c. (cc_cell_id c, c)) (cm_cells b)))
          in if \<exists>c \<in> set (cm_cells b). cc_cell_id c \<notin> cc_cell_id ` set cs
             then Inl (hub_invalid ''Cell deletion is not supported by the v1 art manifest.'')
             else Inr (sort (map cc_cell_id (filter (\<lambda>c. base_cells (cc_cell_id c) \<noteq> Some c) cs))))"

definition validate_canonical_art_proposal ::
  "hub_lib \<Rightarrow> hub_config \<Rightarrow> 'u art_env \<Rightarrow> fs \<Rightarrow> hub_db \<Rightarrow> string \<Rightarrow> create_proposal_request
   \<Rightarrow> string option \<Rightarrow> hub_error + canonical_art_manifest" where
  "validate_canonical_art_proposal L cfg env fs db pid request head =
     (case manifest_candidates db pid (pq_object_hashes request) of
        [manifest_hash] \<Rightarrow>
          bindE (load_manifest L cfg env fs manifest_hash) (\<lambda>m.
          bindE (guardE (manifest_context_ok pid request head m)
                   (hub_invalid ''Canonical art manifest context is invalid.'')) (\<lambda>_.
          bindE (base_manifest db pid (pq_channel_id request) head) (\<lambda>base.
          bindE (guardE (cm_base_state_root m = map_option cm_state_root base)
                   (conflict ''HUB_BASE_STALE''
                      ''The manifest base state root does not match the accepted channel head.'')) (\<lambda>_.
          bindE (check_cells env db pid None (cm_cells m)) (\<lambda>state.
          bindE (mapE (\<lambda>_. hub_invalid ''Canonical art state root could not be computed.'')
                   (compute_state_root (hl_blake3 L) (ae_uuid env) state)) (\<lambda>root.
          let computed = content_hash_display root
          in bindE (guardE (cm_state_root m = computed \<and> pq_state_hash request = computed)
                   (hub_error_new 400 ''HUB_ART_STATE_HASH_MISMATCH''
                      ''The proposal state root does not match its canonical cells.'')) (\<lambda>_.
             bindE (derived_changed base (cm_cells m)) (\<lambda>changed.
             bindE (guardE (changed \<noteq> [] \<and> cm_changed_cell_ids m = changed
                      \<and> pq_resource_ids request = changed
                      \<and> pq_object_hashes request
                          = sort (remdups (manifest_hash # map cc_content_hash (cm_cells m))))
                   (hub_invalid ''Proposal resources and objects must exactly match the server-derived canonical art delta.''))
               (\<lambda>_. Inr m)))))))))
      | _ \<Rightarrow> Inl (hub_invalid
           ''A proposal must reference exactly one canonical art manifest object.''))"

section \<open>Proposing and reviewing\<close>

definition find_channel :: "hub_db \<Rightarrow> string \<Rightarrow> string \<Rightarrow> channel_row option" where
  "find_channel db cid pid = find (\<lambda>c. ch_id c = cid \<and> ch_project_id c = pid) (db_channels db)"

definition find_proposal :: "hub_db \<Rightarrow> string \<Rightarrow> string \<Rightarrow> art_proposal option" where
  "find_proposal db proposal_id pid =
     find (\<lambda>p. ap_id p = proposal_id \<and> ap_project_id p = pid) (db_proposals db)"

definition insert_proposal :: "art_proposal \<Rightarrow> hub_db \<Rightarrow> hub_error + hub_db" where
  "insert_proposal r db =
     (if ap_id r \<in> ap_id ` set (db_proposals db)
         \<or> ap_project_id r \<notin> hp_id ` set (db_projects db)
         \<or> ap_channel_id r \<notin> ch_id ` set (db_channels db)
         \<or> ap_created_by r \<notin> pr_id ` set (db_principals db)
      then Inl hub_internal
      else Inr (db\<lparr>db_proposals := db_proposals db @ [r]\<rparr>))"

definition object_missing :: "string \<Rightarrow> hub_error" where
  "object_missing msg = hub_error_new 412 ''HUB_OBJECT_MISSING'' msg"

definition create_proposal_body ::
  "hub_lib \<Rightarrow> hub_config \<Rightarrow> 'u art_env \<Rightarrow> fs \<Rightarrow> hub_draws \<Rightarrow> actor \<Rightarrow> string
   \<Rightarrow> create_proposal_request \<Rightarrow> string list \<Rightarrow> string list \<Rightarrow> hub_db
   \<Rightarrow> hub_error + art_proposal \<times> evidence \<times> hub_db" where
  "create_proposal_body L cfg env fs dr a pid request resources object_hashes db =
     bindE (ok_or (find_channel db (pq_channel_id request) pid)
              (not_found ''HUB_ART_CHANNEL_NOT_FOUND'')) (\<lambda>channel.
     if ch_head channel \<noteq> pq_base_revision_id request
     then Inl (base_stale ''The proposal base is not the current accepted channel head.''
                 (ch_head channel))
     else
       bindE (traverseE (\<lambda>hash. guardE
                (\<exists>po \<in> set (db_project_objects db). po_project_id po = pid \<and> po_content_hash po = hash)
                (object_missing
                   ''Every proposal object must be uploaded and authorized for the project.''))
                object_hashes) (\<lambda>_.
       bindE (validate_canonical_art_proposal L cfg env fs db pid
                (request\<lparr>pq_resource_ids := resources, pq_object_hashes := object_hashes\<rparr>)
                (ch_head channel)) (\<lambda>_.
       let proposal = \<lparr>ap_id = new_id ''apr'' (dr_uuid dr 0), ap_project_id = pid,
             ap_channel_id = pq_channel_id request,
             ap_base_revision_id = pq_base_revision_id request,
             ap_state_hash = pq_state_hash request, ap_title = str_trim (pq_title request),
             ap_description = pq_description request, ap_resource_ids = resources,
             ap_object_hashes = object_hashes, ap_status = ''open'',
             ap_created_by = ac_principal_id a, ap_accepted_revision_id = None,
             ap_created_at = dr_now dr, ap_updated_at = dr_now dr\<rparr>
       in bindE (insert_proposal proposal db) (\<lambda>db1.
          Inr (proposal,
            \<lparr>ev_project_id = pid, ev_action = ''art_proposal.created'',
             ev_aggregate_type = ''art_proposal'', ev_aggregate_id = ap_id proposal,
             ev_category = ''art'', ev_event_type = ''art.proposal.created'',
             ev_details = JObj [(''proposalId'', JStr (ap_id proposal)),
                                (''channelId'', JStr (ap_channel_id proposal))]\<rparr>, db1)))))"

definition create_art_proposal ::
  "hub_lib \<Rightarrow> hub_config \<Rightarrow> 'u art_env \<Rightarrow> fs \<Rightarrow> hub_draws \<Rightarrow> hub_db \<Rightarrow> actor \<Rightarrow> string \<Rightarrow> string
   \<Rightarrow> create_proposal_request \<Rightarrow> hub_db \<Rightarrow> hub_error + art_proposal \<times> hub_db" where
  "create_art_proposal L cfg env fs dr db0 a pid key request db =
     bindE (authorize_project db0 a pid ProposeArt) (\<lambda>_.
     bindE (validate_name (pq_title request) 1 160 ''Proposal title'') (\<lambda>_.
     bindE (validate_hash_label (pq_state_hash request) ''stateHash'') (\<lambda>_.
     bindE (sorted_unique (pq_resource_ids request) ''resourceIds'') (\<lambda>resources.
     bindE (sorted_unique (pq_object_hashes request) ''objectHashes'') (\<lambda>object_hashes.
     bindE (traverseE validate_content_hash object_hashes) (\<lambda>_.
     bindE (membership_role db a pid ProposeArt) (\<lambda>_.
     idempotent_mutation L dr a pid ''art_proposals.create'' key
       (canonical_request_hash L (create_proposal_json request)) expect_proposal RProposal
       (create_proposal_body L cfg env fs dr a pid request resources object_hashes) db)))))))"

definition get_art_proposal ::
  "hub_db \<Rightarrow> hub_db \<Rightarrow> actor \<Rightarrow> string \<Rightarrow> string \<Rightarrow> hub_error + art_proposal" where
  "get_art_proposal db0 db a pid proposal_id =
     bindE (authorize_project db0 a pid Read) (\<lambda>_.
     ok_or (find_proposal db proposal_id pid) (not_found ''HUB_ART_PROPOSAL_NOT_FOUND''))"

definition insert_review :: "art_review \<Rightarrow> hub_db \<Rightarrow> hub_error + hub_db" where
  "insert_review r db =
     (if rw_id r \<in> rw_id ` set (db_reviews db)
         \<or> rw_proposal_id r \<notin> ap_id ` set (db_proposals db)
         \<or> rw_principal_id r \<notin> pr_id ` set (db_principals db)
      then Inl hub_internal
      else Inr (db\<lparr>db_reviews := db_reviews db @ [r]\<rparr>))"

definition review_body ::
  "hub_draws \<Rightarrow> actor \<Rightarrow> string \<Rightarrow> string \<Rightarrow> review_request \<Rightarrow> hub_db
   \<Rightarrow> hub_error + art_review \<times> evidence \<times> hub_db" where
  "review_body dr a pid proposal_id request db =
     bindE (ok_or (find_proposal db proposal_id pid) (not_found ''HUB_ART_PROPOSAL_NOT_FOUND''))
       (\<lambda>proposal.
     if ap_status proposal \<noteq> ''open''
     then Inl (conflict ''HUB_VERSION_CONFLICT'' ''Only open proposals can be reviewed.'')
     else
       let review = \<lparr>rw_id = new_id ''arv'' (dr_uuid dr 0), rw_proposal_id = proposal_id,
             rw_principal_id = ac_principal_id a, rw_verdict = vq_verdict request,
             rw_body = vq_body request, rw_created_at = dr_now dr\<rparr>
       in bindE (insert_review review db) (\<lambda>db1.
          Inr (review,
            \<lparr>ev_project_id = pid, ev_action = ''art_proposal.reviewed'',
             ev_aggregate_type = ''art_proposal'', ev_aggregate_id = proposal_id,
             ev_category = ''art'', ev_event_type = ''art.proposal.reviewed'',
             ev_details = JObj [(''proposalId'', JStr proposal_id),
                                (''verdict'', JStr (rw_verdict review))]\<rparr>, db1)))"

definition review_art_proposal ::
  "hub_lib \<Rightarrow> hub_draws \<Rightarrow> hub_db \<Rightarrow> actor \<Rightarrow> string \<Rightarrow> string \<Rightarrow> string \<Rightarrow> review_request \<Rightarrow> hub_db
   \<Rightarrow> hub_error + art_review \<times> hub_db" where
  "review_art_proposal L dr db0 a pid proposal_id key request db =
     bindE (authorize_project db0 a pid AcceptArt) (\<lambda>_.
     if vq_verdict request \<notin> {''approve'', ''request_changes'', ''comment''}
     then Inl (hub_invalid ''Unknown proposal review verdict.'')
     else
       bindE (membership_role db a pid AcceptArt) (\<lambda>_.
       idempotent_mutation L dr a pid ''art_proposals.review'' key
         (canonical_request_hash L (review_json request)) expect_review RReview
         (review_body dr a pid proposal_id request) db))"

section \<open>Accepting and rejecting\<close>

text \<open>The checks of an acceptance, in the order of the code; it answers the proposal, the head it
  was checked against and the manifest.\<close>

definition accept_checks ::
  "hub_lib \<Rightarrow> hub_config \<Rightarrow> 'u art_env \<Rightarrow> fs \<Rightarrow> hub_draws \<Rightarrow> actor \<Rightarrow> string \<Rightarrow> string
   \<Rightarrow> string option \<Rightarrow> hub_db
   \<Rightarrow> hub_error + art_proposal \<times> string option \<times> canonical_art_manifest" where
  "accept_checks L cfg env fs dr a pid proposal_id expected_head db =
     bindE (ok_or (find_proposal db proposal_id pid) (not_found ''HUB_ART_PROPOSAL_NOT_FOUND''))
       (\<lambda>proposal.
     bindE (guardE (ap_status proposal = ''open'')
              (conflict ''HUB_VERSION_CONFLICT'' ''Only an open proposal can be accepted.'')) (\<lambda>_.
     bindE (ok_or (find_channel db (ap_channel_id proposal) pid) hub_internal) (\<lambda>channel.
     let head = ch_head channel
     in bindE (guardE (head = expected_head \<and> head = ap_base_revision_id proposal)
                 (base_stale ''The accepted channel head changed; rebase or merge the proposal.'' head))
          (\<lambda>_.
        bindE (traverseE (\<lambda>hash. guardE (verified_object db pid hash \<noteq> None)
                 (object_missing
                    ''An accepted revision cannot reference missing or unverified objects.''))
                 (ap_object_hashes proposal)) (\<lambda>_.
        bindE (validate_canonical_art_proposal L cfg env fs db pid
                 \<lparr>pq_channel_id = ap_channel_id proposal,
                  pq_base_revision_id = ap_base_revision_id proposal,
                  pq_state_hash = ap_state_hash proposal, pq_title = ap_title proposal,
                  pq_description = ap_description proposal,
                  pq_resource_ids = ap_resource_ids proposal,
                  pq_object_hashes = ap_object_hashes proposal\<rparr> head) (\<lambda>manifest.
        bindE (traverseE (\<lambda>resource. guardE
                 (\<exists>l \<in> set (db_leases db). covers pid (ap_channel_id proposal) resource l
                    \<and> le_holder_principal_id l = ap_created_by proposal
                    \<and> lease_active (dr_now dr) l
                    \<and> le_base_revision_id l = ap_base_revision_id proposal)
                 (hub_error_details (JObj [(''resourceId'', JStr resource)])
                    (conflict ''HUB_LOCK_CONFLICT'' ''Every changed protected resource requires an unexpired proposal-author lease.'')))
                 (ap_resource_ids proposal)) (\<lambda>_.
        bindE (membership_role db a pid AcceptArt) (\<lambda>acceptor_role.
        bindE (guardE ((\<exists>r \<in> set (db_reviews db). rw_proposal_id r = proposal_id
                           \<and> rw_verdict r = ''approve'') \<or> acceptor_role = Admin)
                 (hub_error_new 412 ''HUB_APPROVAL_REQUIRED''
                    ''This proposal needs an approving review before acceptance.'')) (\<lambda>_.
        Inr (proposal, head, manifest))))))))))"

definition new_revision ::
  "hub_draws \<Rightarrow> actor \<Rightarrow> string \<Rightarrow> art_proposal \<Rightarrow> string option \<Rightarrow> canonical_art_manifest
   \<Rightarrow> hub_revision" where
  "new_revision dr a pid proposal head manifest =
     \<lparr>rv_id = new_id ''arev'' (dr_uuid dr 0), rv_project_id = pid,
      rv_channel_id = ap_channel_id proposal, rv_parent_revision_id = head,
      rv_proposal_id = ap_id proposal, rv_state_hash = ap_state_hash proposal,
      rv_state = manifest, rv_created_by = ac_principal_id a, rv_created_at = dr_now dr\<rparr>"

definition insert_revision :: "hub_revision \<Rightarrow> hub_db \<Rightarrow> hub_error + hub_db" where
  "insert_revision r db =
     (if rv_id r \<in> rv_id ` set (db_revisions db)
         \<or> rv_proposal_id r \<in> rv_proposal_id ` set (db_revisions db)
         \<or> rv_project_id r \<notin> hp_id ` set (db_projects db)
         \<or> rv_channel_id r \<notin> ch_id ` set (db_channels db)
         \<or> rv_proposal_id r \<notin> ap_id ` set (db_proposals db)
         \<or> rv_created_by r \<notin> pr_id ` set (db_principals db)
      then Inl hub_internal
      else Inr (db\<lparr>db_revisions := db_revisions db @ [r]\<rparr>))"

text \<open>Compare and swap of the accepted head.\<close>

definition advance_head ::
  "string \<Rightarrow> string \<Rightarrow> string option \<Rightarrow> string \<Rightarrow> hub_db \<Rightarrow> hub_error + hub_db" where
  "advance_head cid pid old_head revision db =
     (let hit = (\<lambda>c. ch_id c = cid \<and> ch_project_id c = pid \<and> ch_head c = old_head)
      in if length (filter hit (db_channels db)) \<noteq> 1
         then Inl (conflict ''HUB_VERSION_CONFLICT'' ''Accepted-head compare-and-swap failed.'')
         else Inr (db\<lparr>db_channels := map (\<lambda>c.
                if hit c then c\<lparr>ch_head := Some revision, ch_version := ch_version c + 1\<rparr> else c)
                (db_channels db)\<rparr>))"

definition mark_accepted :: "hub_draws \<Rightarrow> string \<Rightarrow> string \<Rightarrow> hub_db \<Rightarrow> hub_db" where
  "mark_accepted dr proposal_id revision db =
     db\<lparr>db_proposals := map (\<lambda>p. if ap_id p = proposal_id \<and> ap_status p = ''open''
          then p\<lparr>ap_status := ''accepted'', ap_accepted_revision_id := Some revision,
                 ap_updated_at := dr_now dr\<rparr>
          else p) (db_proposals db)\<rparr>"

text \<open>One \<open>UPDATE\<close> per resource of the proposal.\<close>

primrec release_accepted ::
  "hub_draws \<Rightarrow> string \<Rightarrow> art_proposal \<Rightarrow> string \<Rightarrow> string list \<Rightarrow> hub_db \<Rightarrow> hub_db" where
  "release_accepted dr pid proposal revision [] db = db"
| "release_accepted dr pid proposal revision (resource # resources) db =
     release_accepted dr pid proposal revision resources
       (update_leases (\<lambda>l. covers pid (ap_channel_id proposal) resource l
            \<and> le_holder_principal_id l = ap_created_by proposal \<and> le_released_at l = None)
          (\<lambda>l. l\<lparr>le_released_at := Some (dr_now dr), le_release_reason := Some ''proposal accepted'',
                le_outcome_reference := Some revision\<rparr>) db)"

definition accept_evidence :: "string \<Rightarrow> string \<Rightarrow> hub_revision \<Rightarrow> evidence" where
  "accept_evidence pid proposal_id revision =
     \<lparr>ev_project_id = pid, ev_action = ''art_proposal.accepted'',
      ev_aggregate_type = ''art_revision'', ev_aggregate_id = rv_id revision,
      ev_category = ''art'', ev_event_type = ''art.channel.head_changed'',
      ev_details = JObj [(''proposalId'', JStr proposal_id), (''revisionId'', JStr (rv_id revision)),
                         (''previousHeadRevisionId'', opt_json (rv_parent_revision_id revision)),
                         (''stateHash'', JStr (rv_state_hash revision))]\<rparr>"

definition accept_body ::
  "hub_lib \<Rightarrow> hub_config \<Rightarrow> 'u art_env \<Rightarrow> fs \<Rightarrow> hub_draws \<Rightarrow> actor \<Rightarrow> string \<Rightarrow> string
   \<Rightarrow> string option \<Rightarrow> hub_db \<Rightarrow> hub_error + hub_revision \<times> evidence \<times> hub_db" where
  "accept_body L cfg env fs dr a pid proposal_id expected_head db =
     bindE (accept_checks L cfg env fs dr a pid proposal_id expected_head db)
       (\<lambda>(proposal, head, manifest).
     let revision = new_revision dr a pid proposal head manifest
     in bindE (insert_revision revision db) (\<lambda>db1.
        bindE (advance_head (ap_channel_id proposal) pid head (rv_id revision) db1) (\<lambda>db2.
        Inr (revision, accept_evidence pid proposal_id revision,
             release_accepted dr pid proposal (rv_id revision) (ap_resource_ids proposal)
               (mark_accepted dr proposal_id (rv_id revision) db2)))))"

definition accept_art_proposal ::
  "hub_lib \<Rightarrow> hub_config \<Rightarrow> 'u art_env \<Rightarrow> fs \<Rightarrow> hub_draws \<Rightarrow> hub_db \<Rightarrow> actor \<Rightarrow> string \<Rightarrow> string
   \<Rightarrow> string \<Rightarrow> string option \<Rightarrow> hub_db \<Rightarrow> hub_error + hub_revision \<times> hub_db" where
  "accept_art_proposal L cfg env fs dr db0 a pid proposal_id key expected_head db =
     bindE (authorize_project db0 a pid AcceptArt) (\<lambda>_.
     bindE (membership_role db a pid AcceptArt) (\<lambda>_.
     idempotent_mutation L dr a pid ''art_proposals.accept'' key
       (canonical_request_hash L (accept_json expected_head)) expect_revision RRevision
       (accept_body L cfg env fs dr a pid proposal_id expected_head) db))"

definition reject_body ::
  "hub_draws \<Rightarrow> string \<Rightarrow> string \<Rightarrow> string \<Rightarrow> hub_db \<Rightarrow> hub_error + art_proposal \<times> evidence \<times> hub_db"
  where
  "reject_body dr pid proposal_id reason db =
     (let hit = (\<lambda>p. ap_id p = proposal_id \<and> ap_project_id p = pid \<and> ap_status p = ''open'')
      in if length (filter hit (db_proposals db)) \<noteq> 1
         then Inl (conflict ''HUB_VERSION_CONFLICT'' ''Only an open proposal can be rejected.'')
         else
           let db1 = db\<lparr>db_proposals := map (\<lambda>p. if hit p
                     then p\<lparr>ap_status := ''rejected'', ap_updated_at := dr_now dr\<rparr> else p)
                     (db_proposals db)\<rparr>
           in bindE (ok_or (find (\<lambda>p. ap_id p = proposal_id) (db_proposals db1)) hub_internal)
                (\<lambda>proposal.
              Inr (proposal,
                \<lparr>ev_project_id = pid, ev_action = ''art_proposal.rejected'',
                 ev_aggregate_type = ''art_proposal'', ev_aggregate_id = proposal_id,
                 ev_category = ''art'', ev_event_type = ''art.proposal.rejected'',
                 ev_details = JObj [(''proposalId'', JStr proposal_id),
                                    (''reason'', JStr reason)]\<rparr>, db1)))"

definition reject_art_proposal ::
  "hub_lib \<Rightarrow> hub_draws \<Rightarrow> hub_db \<Rightarrow> actor \<Rightarrow> string \<Rightarrow> string \<Rightarrow> string \<Rightarrow> string \<Rightarrow> hub_db
   \<Rightarrow> hub_error + art_proposal \<times> hub_db" where
  "reject_art_proposal L dr db0 a pid proposal_id key reason db =
     bindE (authorize_project db0 a pid AcceptArt) (\<lambda>_.
     bindE (validate_name reason 3 512 ''reason'') (\<lambda>_.
     bindE (membership_role db a pid AcceptArt) (\<lambda>_.
     idempotent_mutation L dr a pid ''art_proposals.reject'' key
       (canonical_request_hash L (reject_json reason)) expect_proposal RProposal
       (reject_body dr pid proposal_id reason) db)))"

section \<open>Queries\<close>

definition get_art_revision ::
  "hub_db \<Rightarrow> hub_db \<Rightarrow> actor \<Rightarrow> string \<Rightarrow> string \<Rightarrow> hub_error + hub_revision" where
  "get_art_revision db0 db a pid revision_id =
     bindE (authorize_project db0 a pid Read) (\<lambda>_.
     ok_or (find (\<lambda>r. rv_id r = revision_id \<and> rv_project_id r = pid) (db_revisions db))
       (not_found ''HUB_ART_REVISION_NOT_FOUND''))"

definition channel_head :: "hub_db \<Rightarrow> hub_db \<Rightarrow> actor \<Rightarrow> string \<Rightarrow> string \<Rightarrow> hub_error + json" where
  "channel_head db0 db a pid cid =
     bindE (authorize_project db0 a pid Read) (\<lambda>_.
     bindE (ok_or (find_channel db cid pid) (not_found ''HUB_ART_CHANNEL_NOT_FOUND'')) (\<lambda>c.
     Inr (JObj [(''channelId'', JStr cid), (''headRevisionId'', opt_json (ch_head c)),
                (''version'', JNum (ch_version c))])))"

section \<open>The operations as mutations\<close>

lemma insert_proposal_ok:
  "insert_proposal r db = Inr db'
   \<longleftrightarrow> ap_id r \<notin> ap_id ` set (db_proposals db) \<and> ap_project_id r \<in> hp_id ` set (db_projects db)
       \<and> ap_channel_id r \<in> ch_id ` set (db_channels db)
       \<and> ap_created_by r \<in> pr_id ` set (db_principals db)
       \<and> db' = db\<lparr>db_proposals := db_proposals db @ [r]\<rparr>"
  unfolding insert_proposal_def by auto

lemma insert_review_ok:
  "insert_review r db = Inr db'
   \<longleftrightarrow> rw_id r \<notin> rw_id ` set (db_reviews db) \<and> rw_proposal_id r \<in> ap_id ` set (db_proposals db)
       \<and> rw_principal_id r \<in> pr_id ` set (db_principals db)
       \<and> db' = db\<lparr>db_reviews := db_reviews db @ [r]\<rparr>"
  unfolding insert_review_def by auto

lemma insert_revision_ok:
  "insert_revision r db = Inr db'
   \<longleftrightarrow> rv_id r \<notin> rv_id ` set (db_revisions db)
       \<and> rv_proposal_id r \<notin> rv_proposal_id ` set (db_revisions db)
       \<and> rv_project_id r \<in> hp_id ` set (db_projects db)
       \<and> rv_channel_id r \<in> ch_id ` set (db_channels db)
       \<and> rv_proposal_id r \<in> ap_id ` set (db_proposals db)
       \<and> rv_created_by r \<in> pr_id ` set (db_principals db)
       \<and> db' = db\<lparr>db_revisions := db_revisions db @ [r]\<rparr>"
  unfolding insert_revision_def by auto

lemma create_proposal_body_cases:
  assumes "create_proposal_body L cfg env fs dr a pid request resources hashes db = Inr (v, ev, db')"
  obtains c where "find_channel db (pq_channel_id request) pid = Some c"
    "ch_head c = pq_base_revision_id request"
    "db' = db\<lparr>db_proposals := db_proposals db @ [v]\<rparr>"
    "ap_id v \<notin> ap_id ` set (db_proposals db)" "ap_status v = ''open''"
    "ap_channel_id v = pq_channel_id request" "ap_project_id v = pid"
    "ap_id v = new_id ''apr'' (dr_uuid dr 0)"
  using assms unfolding create_proposal_body_def Let_def
  by (auto simp: result_simps insert_proposal_ok split: if_splits intro: that)

interpretation create_proposal:
  hub_mutation "create_proposal_body L cfg env fs dr a pid request resources hashes"
    expect_proposal RProposal
  for L cfg env fs dr a pid request resources hashes
  by unfold_locales (auto simp: same_log_def expect_proposal_def elim!: create_proposal_body_cases)

lemma review_body_cases:
  assumes "review_body dr a pid proposal_id request db = Inr (v, ev, db')"
  obtains p where "find_proposal db proposal_id pid = Some p" "ap_status p = ''open''"
    "db' = db\<lparr>db_reviews := db_reviews db @ [v]\<rparr>"
  using assms unfolding review_body_def Let_def
  by (auto simp: result_simps insert_review_ok split: if_splits intro: that)

interpretation review_proposal:
  hub_mutation "review_body dr a pid proposal_id request" expect_review RReview
  for dr a pid proposal_id request
  by unfold_locales (auto simp: same_log_def expect_review_def elim!: review_body_cases)

definition rejected_row :: "hub_draws \<Rightarrow> string \<Rightarrow> string \<Rightarrow> art_proposal \<Rightarrow> art_proposal" where
  "rejected_row dr pid proposal_id p =
     (if ap_id p = proposal_id \<and> ap_project_id p = pid \<and> ap_status p = ''open''
      then p\<lparr>ap_status := ''rejected'', ap_updated_at := dr_now dr\<rparr> else p)"

lemma reject_body_cases:
  assumes "reject_body dr pid proposal_id reason db = Inr (v, ev, db')"
  obtains "db' = db\<lparr>db_proposals := map (rejected_row dr pid proposal_id) (db_proposals db)\<rparr>"
  using assms unfolding reject_body_def Let_def
  by (auto simp: result_simps rejected_row_def fun_eq_iff split: if_splits intro!: that)

interpretation reject_proposal:
  hub_mutation "reject_body dr pid proposal_id reason" expect_proposal RProposal
  for dr pid proposal_id reason
  by unfold_locales (auto simp: same_log_def expect_proposal_def elim!: reject_body_cases)

lemma release_accepted_leases:
  "\<exists>f. release_accepted dr pid p revision rs db = db\<lparr>db_leases := map f (db_leases db)\<rparr>
     \<and> (\<forall>l. le_id (f l) = le_id l \<and> le_project_id (f l) = le_project_id l
            \<and> le_channel_id (f l) = le_channel_id l \<and> le_resource_id (f l) = le_resource_id l
            \<and> le_expires_at (f l) = le_expires_at l
            \<and> (f l = l \<or> le_released_at (f l) = Some (dr_now dr)))"
proof (induction rs arbitrary: db)
  case Nil
  have "map id (db_leases db) = db_leases db" by simp
  then show ?case by (intro exI [of _ id]) simp
next
  case (Cons r rs)
  define g where "g = (\<lambda>l. if covers pid (ap_channel_id p) r l
      \<and> le_holder_principal_id l = ap_created_by p \<and> le_released_at l = None
    then l\<lparr>le_released_at := Some (dr_now dr), le_release_reason := Some ''proposal accepted'',
           le_outcome_reference := Some revision\<rparr> else l)"
  let ?db = "db\<lparr>db_leases := map g (db_leases db)\<rparr>"
  from Cons.IH [of ?db] obtain f where f: "release_accepted dr pid p revision rs ?db
      = ?db\<lparr>db_leases := map f (db_leases ?db)\<rparr>"
    "\<forall>l. le_id (f l) = le_id l \<and> le_project_id (f l) = le_project_id l
            \<and> le_channel_id (f l) = le_channel_id l \<and> le_resource_id (f l) = le_resource_id l
            \<and> le_expires_at (f l) = le_expires_at l
            \<and> (f l = l \<or> le_released_at (f l) = Some (dr_now dr))" by blast
  have "release_accepted dr pid p revision (r # rs) db
      = db\<lparr>db_leases := map (f \<circ> g) (db_leases db)\<rparr>"
    using f(1) by (simp add: update_leases_def g_def [symmetric])
  moreover have "le_id (g l) = le_id l \<and> le_project_id (g l) = le_project_id l
      \<and> le_channel_id (g l) = le_channel_id l \<and> le_resource_id (g l) = le_resource_id l
      \<and> le_expires_at (g l) = le_expires_at l \<and> (g l = l \<or> le_released_at (g l) = Some (dr_now dr))" for l
    by (simp add: g_def)
  ultimately show ?case
    using f(2) by (intro exI [of _ "f \<circ> g"]) (metis comp_apply)
qed

lemma accept_checks_ok:
  assumes "accept_checks L cfg env fs dr a pid proposal_id expected_head db = Inr (p, head, m)"
  shows "find_proposal db proposal_id pid = Some p" "ap_status p = ''open''"
    "\<exists>c. find_channel db (ap_channel_id p) pid = Some c \<and> ch_head c = head"
    "head = expected_head" "head = ap_base_revision_id p"
    "\<forall>hash \<in> set (ap_object_hashes p). verified_object db pid hash \<noteq> None"
    "\<forall>resource \<in> set (ap_resource_ids p). \<exists>l \<in> set (db_leases db).
       covers pid (ap_channel_id p) resource l \<and> le_holder_principal_id l = ap_created_by p
       \<and> lease_active (dr_now dr) l \<and> le_base_revision_id l = ap_base_revision_id p"
    "(\<exists>r \<in> set (db_reviews db). rw_proposal_id r = proposal_id \<and> rw_verdict r = ''approve'')
     \<or> membership_role db a pid AcceptArt = Inr Admin"
    "validate_canonical_art_proposal L cfg env fs db pid
       \<lparr>pq_channel_id = ap_channel_id p, pq_base_revision_id = ap_base_revision_id p,
        pq_state_hash = ap_state_hash p, pq_title = ap_title p,
        pq_description = ap_description p, pq_resource_ids = ap_resource_ids p,
        pq_object_hashes = ap_object_hashes p\<rparr> head = Inr m"
  using assms unfolding accept_checks_def Let_def
  by (auto simp: result_simps)

lemma accept_body_cases:
  assumes "accept_body L cfg env fs dr a pid proposal_id expected_head db = Inr (v, ev, db')"
  obtains p head m f where
    "accept_checks L cfg env fs dr a pid proposal_id expected_head db = Inr (p, head, m)"
    "v = new_revision dr a pid p head m" "rv_id v \<notin> rv_id ` set (db_revisions db)"
    "ap_id p \<notin> rv_proposal_id ` set (db_revisions db)"
    "\<And>l. le_id (f l) = le_id l \<and> le_project_id (f l) = le_project_id l
            \<and> le_channel_id (f l) = le_channel_id l \<and> le_resource_id (f l) = le_resource_id l
            \<and> le_expires_at (f l) = le_expires_at l
            \<and> (f l = l \<or> le_released_at (f l) = Some (dr_now dr))"
    "db' = db\<lparr>db_revisions := db_revisions db @ [v],
       db_channels := map (\<lambda>c. if ch_id c = ap_channel_id p \<and> ch_project_id c = pid \<and> ch_head c = head
           then c\<lparr>ch_head := Some (rv_id v), ch_version := ch_version c + 1\<rparr> else c) (db_channels db),
       db_proposals := map (\<lambda>q. if ap_id q = proposal_id \<and> ap_status q = ''open''
           then q\<lparr>ap_status := ''accepted'', ap_accepted_revision_id := Some (rv_id v),
                  ap_updated_at := dr_now dr\<rparr> else q) (db_proposals db),
       db_leases := map f (db_leases db)\<rparr>"
    "ev = accept_evidence pid proposal_id v"
proof -
  obtain p head m where checks: "accept_checks L cfg env fs dr a pid proposal_id expected_head db
      = Inr (p, head, m)"
    using assms by (auto simp: accept_body_def result_simps)
  let ?v = "new_revision dr a pid p head m"
  obtain db1 db2 where db1: "insert_revision ?v db = Inr db1"
    and db2: "advance_head (ap_channel_id p) pid head (rv_id ?v) db1 = Inr db2"
    and v: "v = ?v" and ev: "ev = accept_evidence pid proposal_id ?v"
    and db': "db' = release_accepted dr pid p (rv_id ?v) (ap_resource_ids p)
        (mark_accepted dr proposal_id (rv_id ?v) db2)"
    using assms checks unfolding accept_body_def Let_def by (auto simp: result_simps)
  obtain f where f: "db' = mark_accepted dr proposal_id (rv_id ?v) db2\<lparr>db_leases := map f (db_leases
        (mark_accepted dr proposal_id (rv_id ?v) db2))\<rparr>"
    "\<And>l. le_id (f l) = le_id l \<and> le_project_id (f l) = le_project_id l
            \<and> le_channel_id (f l) = le_channel_id l \<and> le_resource_id (f l) = le_resource_id l
            \<and> le_expires_at (f l) = le_expires_at l
            \<and> (f l = l \<or> le_released_at (f l) = Some (dr_now dr))"
    using release_accepted_leases [of dr pid p "rv_id ?v" "ap_resource_ids p"
        "mark_accepted dr proposal_id (rv_id ?v) db2"] unfolding db' by blast
  have ins: "rv_id ?v \<notin> rv_id ` set (db_revisions db)"
    "ap_id p \<notin> rv_proposal_id ` set (db_revisions db)"
    "db1 = db\<lparr>db_revisions := db_revisions db @ [?v]\<rparr>"
    using db1 by (auto simp: insert_revision_ok new_revision_def)
  have "db2 = db1\<lparr>db_channels := map (\<lambda>c. if ch_id c = ap_channel_id p \<and> ch_project_id c = pid \<and> ch_head c = head
           then c\<lparr>ch_head := Some (rv_id ?v), ch_version := ch_version c + 1\<rparr> else c) (db_channels db1)\<rparr>"
    using db2 unfolding advance_head_def Let_def by (simp split: if_splits)
  then show thesis
    by (intro that [OF checks v, of f])
      (use ins f ev in \<open>simp_all add: v mark_accepted_def\<close>)
qed

interpretation accept_proposal:
  hub_mutation "accept_body L cfg env fs dr a pid proposal_id expected_head" expect_revision RRevision
  for L cfg env fs dr a pid proposal_id expected_head
proof unfold_locales
  show "same_log db db'"
    if "accept_body L cfg env fs dr a pid proposal_id expected_head db = Inr (v, ev, db')" for db v ev db'
    using that by (cases rule: accept_body_cases) (simp add: same_log_def)
qed (simp add: expect_revision_def)

section \<open>The history of a channel\<close>

definition revisions_of :: "hub_db \<Rightarrow> string \<Rightarrow> string \<Rightarrow> hub_revision list" where
  "revisions_of db pid cid =
     filter (\<lambda>r. rv_project_id r = pid \<and> rv_channel_id r = cid) (db_revisions db)"

fun linear_from :: "string option \<Rightarrow> hub_revision list \<Rightarrow> bool" where
  "linear_from parent [] \<longleftrightarrow> True"
| "linear_from parent (r # rs) \<longleftrightarrow>
     rv_parent_revision_id r = parent \<and> linear_from (Some (rv_id r)) rs"

definition last_revision :: "hub_revision list \<Rightarrow> string option" where
  "last_revision rs = (if rs = [] then None else Some (rv_id (last rs)))"

text \<open>
  Every channel's revisions form one line that ends in its head, and a proposal is accepted
  exactly when it has a revision.
\<close>

definition art_ok :: "hub_db \<Rightarrow> bool" where
  "art_ok db \<longleftrightarrow>
     distinct (map ch_id (db_channels db)) \<and> distinct (map rv_id (db_revisions db))
     \<and> distinct (map ap_id (db_proposals db))
     \<and> (\<forall>c \<in> set (db_channels db).
          linear_from None (revisions_of db (ch_project_id c) (ch_id c))
          \<and> ch_head c = last_revision (revisions_of db (ch_project_id c) (ch_id c)))
     \<and> (\<forall>r \<in> set (db_revisions db). \<exists>c \<in> set (db_channels db).
          ch_id c = rv_channel_id r \<and> ch_project_id c = rv_project_id r)
     \<and> (\<forall>p \<in> set (db_proposals db). ap_status p \<in> {''open'', ''accepted'', ''rejected''}
          \<and> (ap_status p = ''accepted'' \<longleftrightarrow> ap_id p \<in> rv_proposal_id ` set (db_revisions db)))
     \<and> (\<forall>r \<in> set (db_revisions db). rv_proposal_id r \<in> ap_id ` set (db_proposals db))"

lemma linear_from_append:
  "linear_from parent (rs @ [r]) \<longleftrightarrow> linear_from parent rs
     \<and> rv_parent_revision_id r = (if rs = [] then parent else Some (rv_id (last rs)))"
  by (induction rs arbitrary: parent) auto

lemma distinct_key: "distinct (map f xs) \<Longrightarrow> x \<in> set xs \<Longrightarrow> y \<in> set xs \<Longrightarrow> f x = f y \<Longrightarrow> x = y"
  by (simp add: distinct_map inj_on_def)

lemma art_ok_relog [simp]: "art_ok (relog au n ox m ir db) = art_ok db"
  by (simp add: art_ok_def revisions_of_def)

lemma art_ok_same:
  "db_channels db' = db_channels db \<Longrightarrow> db_revisions db' = db_revisions db
   \<Longrightarrow> db_proposals db' = db_proposals db \<Longrightarrow> art_ok db' = art_ok db"
  by (simp add: art_ok_def revisions_of_def)

lemma find_proposal_Some:
  "find_proposal db proposal_id pid = Some p
   \<Longrightarrow> p \<in> set (db_proposals db) \<and> ap_id p = proposal_id \<and> ap_project_id p = pid"
  by (auto simp: find_proposal_def find_Some_iff)

lemma find_channel_Some:
  "find_channel db cid pid = Some c
   \<Longrightarrow> c \<in> set (db_channels db) \<and> ch_id c = cid \<and> ch_project_id c = pid"
  by (auto simp: find_channel_def find_Some_iff)

lemma create_proposal_art_ok:
  assumes ok: "art_ok db"
    and step: "create_proposal_body L cfg env fs dr a pid request resources hashes db = Inr (v, ev, db')"
  shows "art_ok db'"
  using step
proof (cases rule: create_proposal_body_cases)
  case (1 c)
  have "ap_id v \<notin> rv_proposal_id ` set (db_revisions db)"
    using ok 1(4) by (auto simp: art_ok_def)
  with ok 1 show ?thesis by (auto simp: art_ok_def revisions_of_def)
qed

text \<open>Deciding a proposal keeps the ids.\<close>

lemma art_ok_map_proposals:
  assumes ok: "art_ok db"
    and same: "db_channels db' = db_channels db" "db_revisions db' = db_revisions db"
    and props: "db_proposals db' = map f (db_proposals db)"
    and id: "\<And>p. ap_id (f p) = ap_id p"
    and status: "\<And>p. p \<in> set (db_proposals db)
      \<Longrightarrow> ap_status (f p) \<in> {''open'', ''accepted'', ''rejected''}
        \<and> (ap_status (f p) = ''accepted'' \<longleftrightarrow> ap_status p = ''accepted'')"
  shows "art_ok db'"
proof -
  have ids: "map ap_id (db_proposals db') = map ap_id (db_proposals db)"
    unfolding props by (simp add: id)
  then have known: "ap_id ` set (db_proposals db') = ap_id ` set (db_proposals db)"
    by (metis list.set_map)
  have "\<forall>p \<in> set (db_proposals db'). ap_status p \<in> {''open'', ''accepted'', ''rejected''}
      \<and> (ap_status p = ''accepted'' \<longleftrightarrow> ap_id p \<in> rv_proposal_id ` set (db_revisions db))"
  proof
    fix p' assume "p' \<in> set (db_proposals db')"
    then obtain p where p: "p \<in> set (db_proposals db)" "p' = f p" unfolding props set_map by blast
    have "ap_status p = ''accepted'' \<longleftrightarrow> ap_id p \<in> rv_proposal_id ` set (db_revisions db)"
      using ok p(1) by (simp add: art_ok_def)
    with status [OF p(1)] show "ap_status p' \<in> {''open'', ''accepted'', ''rejected''}
        \<and> (ap_status p' = ''accepted'' \<longleftrightarrow> ap_id p' \<in> rv_proposal_id ` set (db_revisions db))"
      unfolding p(2) id by blast
  qed
  with ok [unfolded art_ok_def revisions_of_def] show ?thesis
    unfolding art_ok_def same revisions_of_def ids known
    by (elim conjE) (intro conjI; assumption)
qed

lemma reject_art_ok:
  assumes ok: "art_ok db" and step: "reject_body dr pid proposal_id reason db = Inr (v, ev, db')"
  shows "art_ok db'"
  using step
proof (cases rule: reject_body_cases)
  case 1
  show ?thesis
    by (rule art_ok_map_proposals [OF ok, of _ "rejected_row dr pid proposal_id"])
      (use ok 1 in \<open>auto simp: rejected_row_def art_ok_def\<close>)
qed

lemma accept_body_channel:
  assumes ok: "art_ok db"
    and step: "accept_body L cfg env fs dr a pid proposal_id expected_head db = Inr (v, ev, db')"
  obtains c where "c \<in> set (db_channels db)" "ch_id c = rv_channel_id v" "ch_project_id c = pid"
    "ch_head c = expected_head" "rv_parent_revision_id v = expected_head" "rv_project_id v = pid"
    "rv_proposal_id v = proposal_id"
    "db_revisions db' = db_revisions db @ [v]"
    "db_channels db' = map (\<lambda>x. if x = c then c\<lparr>ch_head := Some (rv_id v), ch_version := ch_version c + 1\<rparr>
       else x) (db_channels db)"
    "rv_id v \<notin> rv_id ` set (db_revisions db)"
    "proposal_id \<notin> rv_proposal_id ` set (db_revisions db)"
    "proposal_id \<in> ap_id ` set (db_proposals db)"
    "db_proposals db' = map (\<lambda>q. if ap_id q = proposal_id \<and> ap_status q = ''open''
           then q\<lparr>ap_status := ''accepted'', ap_accepted_revision_id := Some (rv_id v),
                  ap_updated_at := dr_now dr\<rparr> else q) (db_proposals db)"
    "\<And>q. q \<in> set (db_proposals db) \<Longrightarrow> ap_id q = proposal_id \<Longrightarrow> ap_status q = ''open''"
  using step
proof (cases rule: accept_body_cases)
  case (1 p head m f)
  note checks = accept_checks_ok [OF 1(1)]
  obtain c where c: "find_channel db (ap_channel_id p) pid = Some c" "ch_head c = head"
    using checks(3) by blast
  note known = find_channel_Some [OF c(1)]
  note prop_known = find_proposal_Some [OF checks(1)]
  have unique: "(ch_id x = ap_channel_id p \<and> ch_project_id x = pid \<and> ch_head x = head) \<longleftrightarrow> x = c"
    if "x \<in> set (db_channels db)" for x
  proof
    assume "ch_id x = ap_channel_id p \<and> ch_project_id x = pid \<and> ch_head x = head"
    then show "x = c"
      using that known ok by (intro distinct_key [of ch_id "db_channels db"]) (auto simp: art_ok_def)
  qed (use known c(2) in blast)
  have "map (\<lambda>x. if ch_id x = ap_channel_id p \<and> ch_project_id x = pid \<and> ch_head x = head
           then x\<lparr>ch_head := Some (rv_id v), ch_version := ch_version x + 1\<rparr> else x) (db_channels db)
      = map (\<lambda>x. if x = c then c\<lparr>ch_head := Some (rv_id v), ch_version := ch_version c + 1\<rparr>
       else x) (db_channels db)"
  proof (rule map_cong [OF refl])
    fix x assume x: "x \<in> set (db_channels db)"
    show "(if ch_id x = ap_channel_id p \<and> ch_project_id x = pid \<and> ch_head x = head
           then x\<lparr>ch_head := Some (rv_id v), ch_version := ch_version x + 1\<rparr> else x)
      = (if x = c then c\<lparr>ch_head := Some (rv_id v), ch_version := ch_version c + 1\<rparr> else x)"
      unfolding unique [OF x] by simp
  qed
  moreover have "ap_status q = ''open''" if "q \<in> set (db_proposals db)" "ap_id q = proposal_id" for q
    using that prop_known checks(2) ok unfolding art_ok_def distinct_map inj_on_def by blast
  ultimately show thesis
    using 1 known c(2) checks(4) prop_known by (intro that [of c]) (auto simp: new_revision_def)
qed

lemma accept_art_ok:
  assumes ok: "art_ok db"
    and step: "accept_body L cfg env fs dr a pid proposal_id expected_head db = Inr (v, ev, db')"
  shows "art_ok db'"
  using ok step
proof (cases rule: accept_body_channel)
  case (1 c)
  let ?g = "\<lambda>x. if x = c then c\<lparr>ch_head := Some (rv_id v), ch_version := ch_version c + 1\<rparr> else x"
  have log: "revisions_of db' q cid = revisions_of db q cid
      @ (if q = pid \<and> cid = ch_id c then [v] else [])" for q cid
    using 1(2,6) by (auto simp: revisions_of_def 1(8))
  have line: "linear_from None (revisions_of db (ch_project_id x) (ch_id x))"
    "ch_head x = last_revision (revisions_of db (ch_project_id x) (ch_id x))"
    if "x \<in> set (db_channels db)" for x
    using that ok by (auto simp: art_ok_def)
  have same_id: "x = c" if "x \<in> set (db_channels db)" "ch_id x = ch_id c" for x
    using that 1(1) ok unfolding art_ok_def distinct_map inj_on_def by blast
  have chan_ids: "ch_id (?g x) = ch_id x" "ch_project_id (?g x) = ch_project_id x" for x by simp_all
  have channel: "linear_from None (revisions_of db' (ch_project_id (?g x)) (ch_id (?g x)))
      \<and> ch_head (?g x) = last_revision (revisions_of db' (ch_project_id (?g x)) (ch_id (?g x)))"
    if x: "x \<in> set (db_channels db)" for x
  proof (cases "x = c")
    case True
    then show ?thesis
      using line [OF 1(1)] 1(3,4,5)
      by (auto simp: log linear_from_append last_revision_def)
  next
    case False
    then have "ch_id x \<noteq> ch_id c" using same_id x by blast
    then show ?thesis using False line [OF x] by (simp add: log)
  qed
  have chs: "map ch_id (db_channels db') = map ch_id (db_channels db)" unfolding 1(9) by simp
  have okd: "distinct (map ch_id (db_channels db))" "distinct (map ap_id (db_proposals db))"
    using ok by (simp_all add: art_ok_def)
  have "\<forall>c \<in> set (db_channels db').
      linear_from None (revisions_of db' (ch_project_id c) (ch_id c))
      \<and> ch_head c = last_revision (revisions_of db' (ch_project_id c) (ch_id c))"
  proof
    fix y assume "y \<in> set (db_channels db')"
    then obtain x where "x \<in> set (db_channels db)" and y: "y = ?g x" unfolding 1(9) set_map by blast
    from channel [OF this(1)] show "linear_from None (revisions_of db' (ch_project_id y) (ch_id y))
        \<and> ch_head y = last_revision (revisions_of db' (ch_project_id y) (ch_id y))"
      by (simp only: y)
  qed
  moreover have "\<forall>r \<in> set (db_revisions db'). \<exists>c \<in> set (db_channels db').
      ch_id c = rv_channel_id r \<and> ch_project_id c = rv_project_id r"
  proof
    fix r assume "r \<in> set (db_revisions db')"
    then have "\<exists>x \<in> set (db_channels db). ch_id x = rv_channel_id r \<and> ch_project_id x = rv_project_id r"
      using ok 1(1,2,3,6) unfolding 1(8) art_ok_def by auto
    then obtain x where "x \<in> set (db_channels db)" "ch_id (?g x) = rv_channel_id r"
      "ch_project_id (?g x) = rv_project_id r"
      unfolding chan_ids by blast
    then show "\<exists>c \<in> set (db_channels db'). ch_id c = rv_channel_id r \<and> ch_project_id c = rv_project_id r"
      unfolding 1(9) set_map by blast
  qed
  moreover have ids: "map ap_id (db_proposals db') = map ap_id (db_proposals db)"
    unfolding 1(13) by simp
  moreover from ids have known: "ap_id ` set (db_proposals db') = ap_id ` set (db_proposals db)"
    by (metis list.set_map)
  moreover have "\<forall>p \<in> set (db_proposals db'). ap_status p \<in> {''open'', ''accepted'', ''rejected''}
      \<and> (ap_status p = ''accepted'' \<longleftrightarrow> ap_id p \<in> rv_proposal_id ` set (db_revisions db'))"
  proof
    fix q' assume "q' \<in> set (db_proposals db')"
    then obtain q where q: "q \<in> set (db_proposals db)"
      and q': "q' = (if ap_id q = proposal_id \<and> ap_status q = ''open''
         then q\<lparr>ap_status := ''accepted'', ap_accepted_revision_id := Some (rv_id v),
                ap_updated_at := dr_now dr\<rparr> else q)"
      unfolding 1(13) set_map by blast
    have old: "ap_status q \<in> {''open'', ''accepted'', ''rejected''}"
      "ap_status q = ''accepted'' \<longleftrightarrow> ap_id q \<in> rv_proposal_id ` set (db_revisions db)"
      using ok q unfolding art_ok_def by blast+
    have revs: "rv_proposal_id ` set (db_revisions db')
        = insert proposal_id (rv_proposal_id ` set (db_revisions db))"
      by (simp add: 1(7,8))
    show "ap_status q' \<in> {''open'', ''accepted'', ''rejected''}
        \<and> (ap_status q' = ''accepted'' \<longleftrightarrow> ap_id q' \<in> rv_proposal_id ` set (db_revisions db'))"
    proof (cases "ap_id q = proposal_id")
      case True
      with 1(14) [OF q True] show ?thesis by (simp add: q' revs)
    next
      case False
      with old show ?thesis unfolding revs by (simp add: q')
    qed
  qed
  moreover have "\<forall>r \<in> set (db_revisions db'). rv_proposal_id r \<in> ap_id ` set (db_proposals db')"
    using ok 1(7,12) known unfolding 1(8) art_ok_def by auto
  moreover have "distinct (map rv_id (db_revisions db'))"
    using ok 1(10) unfolding 1(8) art_ok_def by simp
  moreover have "distinct (map ch_id (db_channels db'))" "distinct (map ap_id (db_proposals db'))"
    unfolding chs ids by (fact okd)+
  ultimately show ?thesis unfolding art_ok_def by - (intro conjI; assumption)
qed

lemma accept_refines_log:
  assumes ok: "art_ok db"
    and step: "accept_body L cfg env fs dr a pid proposal_id expected_head db = Inr (v, ev, db')"
  shows "last_revision (revisions_of db pid (rv_channel_id v)) = expected_head
    \<and> rv_parent_revision_id v = expected_head
    \<and> (\<forall>q cid. revisions_of db' q cid
        = revisions_of db q cid @ (if q = pid \<and> cid = rv_channel_id v then [v] else []))"
  using ok step
proof (cases rule: accept_body_channel)
  case (1 c)
  have "ch_head c = last_revision (revisions_of db pid (rv_channel_id v))"
    using ok 1(1) by (simp add: art_ok_def flip: 1(2,3))
  with 1(4,5,6) show ?thesis by (auto simp: revisions_of_def 1(8))
qed

section \<open>An acceptance\<close>

definition wit_digest :: "u8 list" where
  "wit_digest = replicate 32 0"

definition wit_art_lib :: hub_lib where
  "wit_art_lib = wit_hub_lib\<lparr>hl_blake3 := (\<lambda>_. wit_digest)\<rparr>"

definition wit_manifest :: canonical_art_manifest where
  "wit_manifest = \<lparr>cm_schema_version = ART_MANIFEST_SCHEMA, cm_project_id = ''prj_1'',
     cm_channel_id = ''ach_1'', cm_base_hub_revision_id = None, cm_base_state_root = None,
     cm_state_root = content_hash_display wit_digest, cm_source_session_id = ''ses_0000'',
     cm_local_revision_id = ''art_0000'', cm_changed_cell_ids = [''cell_0000''],
     cm_cells = [\<lparr>cc_cell_id = ''cell_0000'', cc_parent_path = ''/W'',
       cc_content_hash = content_hash_display wit_digest, cc_size_bytes = 1\<rparr>]\<rparr>"

definition wit_env :: "string art_env" where
  "wit_env = \<lparr>ae_uuid = \<lparr>parse_str = Some, hyphenated = id, get_version = (\<lambda>_. Some 4)\<rparr>,
     ae_parse_manifest = (\<lambda>_. Some wit_manifest), ae_jcs = (\<lambda>_. Some [0])\<rparr>"

definition wit_config :: hub_config where
  "wit_config = \<lparr>hc_object_dir = ''/o'', hc_transfer_key = [], hc_cursor_key = [],
     hc_public_base_url = []\<rparr>"

definition wit_proposal :: art_proposal where
  "wit_proposal = \<lparr>ap_id = ''apr_1'', ap_project_id = ''prj_1'', ap_channel_id = ''ach_1'',
     ap_base_revision_id = None, ap_state_hash = content_hash_display wit_digest,
     ap_title = ''t'', ap_description = [], ap_resource_ids = [''cell_0000''],
     ap_object_hashes = [content_hash_display wit_digest], ap_status = ''open'',
     ap_created_by = ''ada'', ap_accepted_revision_id = None, ap_created_at = 0, ap_updated_at = 0\<rparr>"

definition wit_proposed :: hub_db where
  "wit_proposed = wit_hub
     \<lparr>db_proposals := [wit_proposal], db_leases := [wit_lease\<lparr>le_resource_id := ''cell_0000''\<rparr>],
      db_objects := [\<lparr>ob_content_hash = content_hash_display wit_digest, ob_sha256 = ''h'',
        ob_size_bytes = 1, ob_media_type = ART_MANIFEST_MEDIA_TYPE,
        ob_integrity_status = ''verified'', ob_created_at = 0, ob_verified_at = 0,
        ob_storage_path = ''p''\<rparr>],
      db_project_objects := [\<lparr>po_project_id = ''prj_1'',
        po_content_hash = content_hash_display wit_digest, po_purpose = ''art'',
        po_referenced_by = ''r'', po_created_at = 0\<rparr>]\<rparr>"


lemmas wit_art_defs =
  wit_art_lib_def wit_manifest_def wit_env_def wit_config_def wit_proposal_def wit_proposed_def
  wit_lease_def

lemma wit_digest_32: "hash32 wit_digest"
  by (simp add: hash32_def wit_digest_def)

lemma wit_verified: "\<exists>r. verified_object wit_proposed ''prj_1'' (content_hash_display wit_digest) = Some r
    \<and> ob_media_type r = ART_MANIFEST_MEDIA_TYPE \<and> ob_size_bytes r = 1"
  by (simp add: verified_object_def wit_proposed_def)

lemma wit_state_root:
  "compute_state_root (\<lambda>_. wit_digest) (ae_uuid wit_env)
     [(''0000'', \<lparr>cell_id = ''0000'', snapshot_hash = wit_digest, slot_path = ''/W''\<rparr>)] = Inr wit_digest"
proof -
  have "length (content_hash_display wit_digest) = 59"
    by (rule content_hash_display_length [OF wit_digest_32])
  then have "short_pair (''cell/'' @ cell_id_display (ae_uuid wit_env) ''0000'', content_hash_display wit_digest)"
    by (simp add: short_pair_def cell_id_display_def wit_env_def)
  then have "art_leaf (\<lambda>_. wit_digest) (ae_uuid wit_env)
      (''0000'', \<lparr>cell_id = ''0000'', snapshot_hash = wit_digest, slot_path = ''/W''\<rparr>) = Inr wit_digest"
    by (simp add: art_leaf_ok)
  then show ?thesis by (simp add: compute_state_root_def merkle_levels.simps)
qed

lemma wit_cell_ok: "cell_shape_ok None (hd (cm_cells wit_manifest))"
  unfolding cell_shape_ok_def wit_manifest_def
  by (simp add: valid_scoped_id_def) code_simp

lemma wit_context_ok:
  "manifest_context_ok ''prj_1'' \<lparr>pq_channel_id = ''ach_1'', pq_base_revision_id = None,
     pq_state_hash = sh, pq_title = t, pq_description = d, pq_resource_ids = rs,
     pq_object_hashes = os\<rparr> None wit_manifest"
  unfolding manifest_context_ok_def wit_manifest_def by simp code_simp

lemma wit_validates:
  "validate_canonical_art_proposal wit_art_lib wit_config wit_env (\<lambda>_. Some [0]) wit_proposed ''prj_1''
     \<lparr>pq_channel_id = ''ach_1'', pq_base_revision_id = None,
      pq_state_hash = content_hash_display wit_digest, pq_title = t, pq_description = d,
      pq_resource_ids = [''cell_0000''], pq_object_hashes = [content_hash_display wit_digest]\<rparr> None
   = Inr wit_manifest"
proof -
  obtain r where r: "verified_object wit_proposed ''prj_1'' (content_hash_display wit_digest) = Some r"
    "ob_media_type r = ART_MANIFEST_MEDIA_TYPE" "ob_size_bytes r = 1" using wit_verified by blast
  have hash: "hub_content_hash wit_art_lib [0] = content_hash_display wit_digest"
    by (simp add: hub_content_hash_def hub_base32_lower_eq content_hash_display_def wit_art_lib_def)
  have digest: "strip_prefix ''b3-256:'' (content_hash_display wit_digest) = Some (encode_base32 wit_digest)"
    by (simp add: content_hash_display_def)
  have load: "load_manifest wit_art_lib wit_config wit_env (\<lambda>_. Some [0]) (content_hash_display wit_digest)
      = Inr wit_manifest"
    by (simp add: load_manifest_def hash digest MAX_ART_MANIFEST_BYTES_def wit_env_def)
  have cid: "cell_id_from_str (ae_uuid wit_env) ''cell_0000'' = Inr ''0000''"
    by (simp add: cell_id_from_str_def wit_env_def)
  have cells: "check_cells wit_env wit_proposed ''prj_1'' None (cm_cells wit_manifest)
      = Inr [(''0000'', \<lparr>cell_id = ''0000'', snapshot_hash = wit_digest, slot_path = ''/W''\<rparr>)]"
    using wit_cell_ok validate_content_hash_rendered [OF wit_digest_32]
      content_hash_parse_render [OF wit_digest_32] r cid
    by (simp add: wit_manifest_def)
  have fields: "cm_state_root wit_manifest = content_hash_display wit_digest"
      "cm_base_state_root wit_manifest = None" "cm_changed_cell_ids wit_manifest = [''cell_0000'']"
      "map cc_cell_id (cm_cells wit_manifest) = [''cell_0000'']"
      "map cc_content_hash (cm_cells wit_manifest) = [content_hash_display wit_digest]"
      "cc_content_hash ` set (cm_cells wit_manifest) = {content_hash_display wit_digest}"
    by (simp_all add: wit_manifest_def)
  have root: "compute_state_root (hl_blake3 wit_art_lib) (ae_uuid wit_env)
     [(''0000'', \<lparr>cell_id = ''0000'', snapshot_hash = wit_digest, slot_path = ''/W''\<rparr>)] = Inr wit_digest"
    using wit_state_root by (simp add: wit_art_lib_def)
  show ?thesis
    by (simp add: validate_canonical_art_proposal_def manifest_candidates_def load base_manifest_def
        derived_changed_def r wit_context_ok cells root fields)
qed

lemma wit_accept_checks:
  "accept_checks wit_art_lib wit_config wit_env (\<lambda>_. Some [0]) (wit_draws 2000 ''u'') (wit_actor ''ada'')
     ''prj_1'' ''apr_1'' None wit_proposed = Inr (wit_proposal, None, wit_manifest)"
proof -
  obtain r where r: "verified_object wit_proposed ''prj_1'' (content_hash_display wit_digest) = Some r"
    using wit_verified by blast
  have "find_proposal wit_proposed ''apr_1'' ''prj_1'' = Some wit_proposal"
    by (simp add: find_proposal_def wit_proposed_def wit_proposal_def)
  moreover obtain c where "find_channel wit_proposed ''ach_1'' ''prj_1'' = Some c" "ch_head c = None"
    by (simp add: find_channel_def wit_proposed_def wit_hub_defs)
  moreover have "membership_role wit_proposed (wit_actor ''ada'') ''prj_1'' AcceptArt = Inr Admin"
    by (simp add: membership_role_def wit_proposed_def wit_hub_defs role_allows_def)
  moreover have "\<exists>l \<in> set (db_leases wit_proposed). covers ''prj_1'' ''ach_1'' ''cell_0000'' l
      \<and> le_holder_principal_id l = ''ada'' \<and> lease_active 2000 l \<and> le_base_revision_id l = None"
    by (simp add: wit_proposed_def wit_lease_def covers_def lease_active_def)
  ultimately show ?thesis
    by (simp add: accept_checks_def wit_proposal_def r wit_validates wit_draws_def)
qed

lemma wit_accept:
  obtains v db' where "accept_art_proposal wit_art_lib wit_config wit_env (\<lambda>_. Some [0])
      (wit_draws 2000 ''u'') wit_proposed (wit_actor ''ada'') ''prj_1'' ''apr_1'' ''key'' None wit_proposed
    = Inr (v, db')" "rv_channel_id v = ''ach_1''"
proof -
  let ?v = "new_revision (wit_draws 2000 ''u'') (wit_actor ''ada'') ''prj_1'' wit_proposal None wit_manifest"
  have "\<exists>db1. insert_revision ?v wit_proposed = Inr db1 \<and> db_channels db1 = db_channels wit_proposed"
    by (simp add: insert_revision_ok new_revision_def wit_proposed_def wit_hub_defs wit_proposal_def)
  then obtain db1 where db1: "insert_revision ?v wit_proposed = Inr db1"
    "db_channels db1 = db_channels wit_proposed" by blast
  then have "\<exists>db2. advance_head ''ach_1'' ''prj_1'' None (rv_id ?v) db1 = Inr db2"
    by (simp add: advance_head_def wit_proposed_def wit_hub_defs)
  then obtain ev db' where body: "accept_body wit_art_lib wit_config wit_env (\<lambda>_. Some [0])
      (wit_draws 2000 ''u'') (wit_actor ''ada'') ''prj_1'' ''apr_1'' None wit_proposed = Inr (?v, ev, db')"
    using db1(1) by (auto simp: accept_body_def wit_accept_checks Let_def)
      (auto simp: wit_proposal_def)
  have role: "membership_role wit_proposed (wit_actor ''ada'') ''prj_1'' AcceptArt = Inr Admin"
    by (simp add: membership_role_def wit_proposed_def wit_hub_defs role_allows_def)
  have logs: "db_idempotency wit_proposed = []" "db_audit wit_proposed = []"
      "db_outbox wit_proposed = []" "ac_principal_id (wit_actor ''ada'') \<in> pr_id ` set (db_principals wit_proposed)"
    by (simp_all add: wit_proposed_def wit_hub_defs)
  have "\<exists>au n ox m ir. idempotent_mutation wit_art_lib (wit_draws 2000 ''u'') (wit_actor ''ada'')
      ''prj_1'' ''art_proposals.accept'' ''key''
      (canonical_request_hash wit_art_lib (accept_json None)) expect_revision RRevision
      (accept_body wit_art_lib wit_config wit_env (\<lambda>_. Some [0]) (wit_draws 2000 ''u'')
        (wit_actor ''ada'') ''prj_1'' ''apr_1'' None) wit_proposed = Inr (?v, relog au n ox m ir db')"
    by (rule accept_proposal.fresh_succeeds [OF body]) (use logs in simp_all)
  then have "\<exists>db2. accept_art_proposal wit_art_lib wit_config wit_env (\<lambda>_. Some [0])
      (wit_draws 2000 ''u'') wit_proposed (wit_actor ''ada'') ''prj_1'' ''apr_1'' ''key'' None
      wit_proposed = Inr (?v, db2)"
    by (auto simp: accept_art_proposal_def authorize_project_def role)
  then show thesis by (auto intro: that simp: new_revision_def wit_proposal_def)
qed

lemma wit_proposed_art_ok: "art_ok wit_proposed"
  by (simp add: art_ok_def wit_proposed_def wit_proposal_def wit_hub_defs revisions_of_def last_revision_def)

lemma accept_fresh:
  assumes "accept_art_proposal L cfg env fs dr db0 a pid proposal_id key expected_head db = Inr (v, db')"
    and "find (idempotency_match a pid ''art_proposals.accept'' key) (db_idempotency db) = None"
  obtains ev db1 au n ox m ir where
    "accept_body L cfg env fs dr a pid proposal_id expected_head db = Inr (v, ev, db1)"
    "db' = relog au n ox m ir db1"
proof -
  have "idempotent_mutation L dr a pid ''art_proposals.accept'' key
       (canonical_request_hash L (accept_json expected_head)) expect_revision RRevision
       (accept_body L cfg env fs dr a pid proposal_id expected_head) db = Inr (v, db')"
    using assms(1) by (auto simp: accept_art_proposal_def result_simps)
  from this assms(2) show thesis by (rule mutation_fresh_shape) (rule that)
qed

section \<open>Properties\<close>

text \<open>C15: Accepting a proposal under a new key refines appending to the channel's log of
  revisions with an expected length: it succeeds only on the head that was expected, appends one
  revision whose parent is that head, leaves every other channel's log as it is, and keeps every
  log a line that ends in its channel's head.\<close>

theorem acceptance_appends_to_log:
  assumes "art_ok db"
    and "accept_art_proposal L cfg env fs dr db0 a pid proposal_id key expected_head db = Inr (v, db')"
    and "find (idempotency_match a pid ''art_proposals.accept'' key) (db_idempotency db) = None"
  shows "last_revision (revisions_of db pid (rv_channel_id v)) = expected_head
    \<and> rv_parent_revision_id v = expected_head
    \<and> (\<forall>q cid. revisions_of db' q cid
        = revisions_of db q cid @ (if q = pid \<and> cid = rv_channel_id v then [v] else []))
    \<and> art_ok db'"
proof -
  obtain ev db1 au n ox m ir where
    body: "accept_body L cfg env fs dr a pid proposal_id expected_head db = Inr (v, ev, db1)"
    and db': "db' = relog au n ox m ir db1" using assms(2,3) by (rule accept_fresh)
  show ?thesis
    using accept_refines_log [OF assms(1) body] accept_art_ok [OF assms(1) body]
    by (simp add: db' revisions_of_def)
qed

lemma acceptance_appends_to_log_witness:
  "\<exists>v db'. accept_art_proposal wit_art_lib wit_config wit_env (\<lambda>_. Some [0])
      (wit_draws 2000 ''u'') wit_proposed (wit_actor ''ada'') ''prj_1'' ''apr_1'' ''key'' None
      wit_proposed = Inr (v, db')
    \<and> revisions_of db' ''prj_1'' ''ach_1'' = [v] \<and> rv_parent_revision_id v = None"
proof -
  obtain v db' where run: "accept_art_proposal wit_art_lib wit_config wit_env (\<lambda>_. Some [0])
      (wit_draws 2000 ''u'') wit_proposed (wit_actor ''ada'') ''prj_1'' ''apr_1'' ''key'' None
      wit_proposed = Inr (v, db')" and channel: "rv_channel_id v = ''ach_1''" by (rule wit_accept)
  have key: "find (idempotency_match (wit_actor ''ada'') ''prj_1'' ''art_proposals.accept'' ''key'')
      (db_idempotency wit_proposed) = None" and none: "revisions_of wit_proposed ''prj_1'' ''ach_1'' = []"
    by (simp_all add: wit_proposed_def wit_hub_defs revisions_of_def)
  have log: "rv_parent_revision_id v = None \<and> revisions_of db' ''prj_1'' ''ach_1''
      = revisions_of wit_proposed ''prj_1'' ''ach_1'' @ (if ''ach_1'' = rv_channel_id v then [v] else [])"
    using acceptance_appends_to_log [OF wit_proposed_art_ok run key] by simp
  then have "revisions_of db' ''prj_1'' ''ach_1'' = [v]" "rv_parent_revision_id v = None"
    using channel none by simp_all
  with run show ?thesis by blast
qed

lemma check_cells_ok:
  "check_cells env db pid previous cs = Inr state \<Longrightarrow>
   list_all2 (\<lambda>c (k, st). cell_id_from_str (ae_uuid env) (cc_cell_id c) = Inr k \<and> cell_id st = k
       \<and> content_hash_from_str (cc_content_hash c) = Inr (snapshot_hash st) \<and> slot_path st = cc_parent_path c) cs state
   \<and> (\<forall>c \<in> set cs. map_option ob_size_bytes (verified_object db pid (cc_content_hash c)) = Some (int (cc_size_bytes c)))"
proof (induction cs arbitrary: previous state)
  case (Cons c cs)
  then show ?case by (auto simp: result_simps split: if_splits)
qed simp

text \<open>C13: A proposal is only accepted by a member who may accept, when it was open and based on
  the head its channel has and the caller expected, which becomes the new revision's parent; when every
  object it names, and every cell's with the cell's size, is verified and readable by the project; when
  the state root it declares, and its manifest, is the one computed from the manifest's cells; when every
  changed resource is under an unexpired lease of its author on that base; and when a review approved
  it or the acceptor is an administrator.\<close>

theorem acceptance_conditions:
  assumes "accept_art_proposal L cfg env fs dr db0 a pid proposal_id key expected_head db = Inr (v, db')"
    and "find (idempotency_match a pid ''art_proposals.accept'' key) (db_idempotency db) = None"
  shows "\<exists>p role c. find_proposal db proposal_id pid = Some p \<and> ap_status p = ''open''
    \<and> find_channel db (ap_channel_id p) pid = Some c \<and> ch_head c = expected_head
    \<and> ap_base_revision_id p = expected_head \<and> rv_parent_revision_id v = expected_head
    \<and> cm_base_hub_revision_id (rv_state v) = expected_head
    \<and> membership_role db a pid AcceptArt = Inr role
    \<and> (role = Admin \<or> (\<exists>r \<in> set (db_reviews db). rw_proposal_id r = proposal_id
         \<and> rw_verdict r = ''approve''))
    \<and> (\<forall>hash \<in> set (ap_object_hashes p). verified_object db pid hash \<noteq> None)
    \<and> (\<forall>x \<in> set (cm_cells (rv_state v)).
         map_option ob_size_bytes (verified_object db pid (cc_content_hash x)) = Some (int (cc_size_bytes x)))
    \<and> (\<forall>resource \<in> set (ap_resource_ids p). \<exists>l \<in> set (db_leases db).
         covers pid (ap_channel_id p) resource l \<and> le_holder_principal_id l = ap_created_by p
         \<and> lease_active (dr_now dr) l \<and> le_base_revision_id l = expected_head)
    \<and> cm_changed_cell_ids (rv_state v) = ap_resource_ids p
    \<and> (\<exists>state root. list_all2 (\<lambda>x (k, st). cell_id_from_str (ae_uuid env) (cc_cell_id x) = Inr k \<and> cell_id st = k
            \<and> content_hash_from_str (cc_content_hash x) = Inr (snapshot_hash st) \<and> slot_path st = cc_parent_path x)
          (cm_cells (rv_state v)) state
        \<and> compute_state_root (hl_blake3 L) (ae_uuid env) state = Inr root
        \<and> ap_state_hash p = content_hash_display root \<and> cm_state_root (rv_state v) = content_hash_display root
        \<and> rv_state_hash v = content_hash_display root)"
proof -
  obtain ev db1 where
    body: "accept_body L cfg env fs dr a pid proposal_id expected_head db = Inr (v, ev, db1)"
    using assms by (rule accept_fresh)
  then obtain p head m where
    checks: "accept_checks L cfg env fs dr a pid proposal_id expected_head db = Inr (p, head, m)"
    and v: "v = new_revision dr a pid p head m" by (cases rule: accept_body_cases)
  note facts = accept_checks_ok [OF checks]
  obtain role where role: "membership_role db a pid AcceptArt = Inr role"
    using assms(1) by (auto simp: accept_art_proposal_def result_simps)
  obtain state root where cells: "check_cells env db pid None (cm_cells m) = Inr state"
    and root: "compute_state_root (hl_blake3 L) (ae_uuid env) state = Inr root"
      "cm_state_root m = content_hash_display root" "ap_state_hash p = content_hash_display root"
    and m: "cm_changed_cell_ids m = ap_resource_ids p" "cm_base_hub_revision_id m = head"
    using facts(9) unfolding validate_canonical_art_proposal_def
    by (auto simp: result_simps Let_def manifest_context_ok_def split: list.splits)
  note check_cells_ok [OF cells]
  with facts role root m show ?thesis
    unfolding v new_revision_def by simp blast
qed

lemma acceptance_conditions_witness:
  "\<exists>v db' p c. accept_art_proposal wit_art_lib wit_config wit_env (\<lambda>_. Some [0])
      (wit_draws 2000 ''u'') wit_proposed (wit_actor ''ada'') ''prj_1'' ''apr_1'' ''key'' None wit_proposed = Inr (v, db')
    \<and> find_proposal wit_proposed ''apr_1'' ''prj_1'' = Some p
    \<and> find_channel wit_proposed (ap_channel_id p) ''prj_1'' = Some c \<and> ch_head c = None
    \<and> rv_parent_revision_id v = None \<and> cm_state_root (rv_state v) = ap_state_hash p"
proof -
  obtain v db' where run: "accept_art_proposal wit_art_lib wit_config wit_env (\<lambda>_. Some [0])
      (wit_draws 2000 ''u'') wit_proposed (wit_actor ''ada'') ''prj_1'' ''apr_1'' ''key'' None
      wit_proposed = Inr (v, db')" by (rule wit_accept)
  have key: "find (idempotency_match (wit_actor ''ada'') ''prj_1'' ''art_proposals.accept'' ''key'')
      (db_idempotency wit_proposed) = None"
    by (simp add: wit_proposed_def wit_hub_defs)
  from acceptance_conditions [OF run key] show ?thesis
    by (elim exE conjE) (intro exI conjI, rule run, assumption+, simp)
qed

end
