(* ===== verification/HubReleases.thy ===== *)
theory HubReleases
  imports HubProjects
begin

text \<open>
  Build evidence and releases: recording builds and their attempts, creating a release with its
  immutable request hash, approving it, and the actions \<open>start\<close>, \<open>resume\<close> and \<open>rollback\<close>.
\<close>

section \<open>Requests\<close>

record create_build_request =
  cb_logical_hash :: string
  cb_evidence :: json

record build_attempt_request =
  bq_status :: string
  bq_evidence :: json

record create_release_request =
  cr_bundle_hash :: string
  cr_environment :: string
  cr_target :: json
  cr_evidence :: json

record approve_request =
  aa_request_hash :: string
  aa_evidence :: json

record release_action_request =
  rq_expected_request_hash :: string
  rq_evidence :: json

definition create_build_json :: "create_build_request \<Rightarrow> json" where
  "create_build_json r =
     JObj [(''logicalHash'', JStr (cb_logical_hash r)), (''evidence'', cb_evidence r)]"

definition build_attempt_json :: "build_attempt_request \<Rightarrow> json" where
  "build_attempt_json r = JObj [(''status'', JStr (bq_status r)), (''evidence'', bq_evidence r)]"

definition create_release_json :: "create_release_request \<Rightarrow> json" where
  "create_release_json r =
     JObj [(''bundleHash'', JStr (cr_bundle_hash r)), (''environment'', JStr (cr_environment r)),
           (''target'', cr_target r), (''evidence'', cr_evidence r)]"

definition approve_json :: "approve_request \<Rightarrow> json" where
  "approve_json r = JObj [(''requestHash'', JStr (aa_request_hash r)), (''evidence'', aa_evidence r)]"

definition release_action_json :: "release_action_request \<Rightarrow> json" where
  "release_action_json r =
     JObj [(''expectedRequestHash'', JStr (rq_expected_request_hash r)),
           (''evidence'', rq_evidence r)]"

definition expect_build :: "response \<Rightarrow> build_record option" where
  "expect_build r = (case r of RBuild b \<Rightarrow> Some b | _ \<Rightarrow> None)"

definition expect_attempt :: "response \<Rightarrow> build_attempt option" where
  "expect_attempt r = (case r of RAttempt b \<Rightarrow> Some b | _ \<Rightarrow> None)"

definition expect_release :: "response \<Rightarrow> hub_release option" where
  "expect_release r = (case r of RRelease x \<Rightarrow> Some x | _ \<Rightarrow> None)"

definition expect_approval :: "response \<Rightarrow> release_approval option" where
  "expect_approval r = (case r of RApproval x \<Rightarrow> Some x | _ \<Rightarrow> None)"

section \<open>Builds\<close>

definition insert_build :: "build_record \<Rightarrow> hub_db \<Rightarrow> hub_error + hub_db" where
  "insert_build r db =
     (if bd_id r \<in> bd_id ` set (db_builds db)
         \<or> bd_project_id r \<notin> hp_id ` set (db_projects db)
         \<or> bd_created_by r \<notin> pr_id ` set (db_principals db)
      then Inl hub_internal
      else Inr (db\<lparr>db_builds := db_builds db @ [r]\<rparr>))"

definition create_build_body ::
  "hub_draws \<Rightarrow> actor \<Rightarrow> string \<Rightarrow> create_build_request \<Rightarrow> hub_db
   \<Rightarrow> hub_error + build_record \<times> evidence \<times> hub_db" where
  "create_build_body dr a pid request db =
     (let build = \<lparr>bd_id = new_id ''bld'' (dr_uuid dr 0), bd_project_id = pid,
            bd_logical_hash = cb_logical_hash request, bd_status = ''queued'',
            bd_evidence = cb_evidence request, bd_created_by = ac_principal_id a,
            bd_created_at = dr_now dr, bd_updated_at = dr_now dr\<rparr>
      in bindE (insert_build build db) (\<lambda>db1.
         Inr (build,
           \<lparr>ev_project_id = pid, ev_action = ''build.created'', ev_aggregate_type = ''build'',
            ev_aggregate_id = bd_id build, ev_category = ''build'',
            ev_event_type = ''build.created'',
            ev_details = JObj [(''buildId'', JStr (bd_id build)),
                               (''logicalHash'', JStr (bd_logical_hash build))]\<rparr>, db1)))"

definition create_build ::
  "hub_lib \<Rightarrow> hub_draws \<Rightarrow> hub_db \<Rightarrow> actor \<Rightarrow> string \<Rightarrow> string \<Rightarrow> create_build_request \<Rightarrow> hub_db
   \<Rightarrow> hub_error + build_record \<times> hub_db" where
  "create_build L dr db0 a pid key request db =
     bindE (authorize_project db0 a pid Build) (\<lambda>_.
     bindE (validate_hash_label (cb_logical_hash request) ''logicalHash'') (\<lambda>_.
     bindE (membership_role db a pid Build) (\<lambda>_.
     idempotent_mutation L dr a pid ''builds.create'' key
       (canonical_request_hash L (create_build_json request)) expect_build RBuild
       (create_build_body dr a pid request) db)))"

definition get_build :: "hub_db \<Rightarrow> hub_db \<Rightarrow> actor \<Rightarrow> string \<Rightarrow> string \<Rightarrow> hub_error + build_record" where
  "get_build db0 db a pid build_id =
     bindE (authorize_project db0 a pid Read) (\<lambda>_.
     ok_or (find (\<lambda>b. bd_id b = build_id \<and> bd_project_id b = pid) (db_builds db))
       (not_found ''HUB_BUILD_NOT_FOUND''))"

definition insert_attempt :: "build_attempt \<Rightarrow> hub_db \<Rightarrow> hub_error + hub_db" where
  "insert_attempt r db =
     (if ba_id r \<in> ba_id ` set (db_attempts db)
         \<or> ba_build_id r \<notin> bd_id ` set (db_builds db)
         \<or> ba_created_by r \<notin> pr_id ` set (db_principals db)
      then Inl hub_internal
      else Inr (db\<lparr>db_attempts := db_attempts db @ [r]\<rparr>))"

definition add_attempt_body ::
  "hub_draws \<Rightarrow> actor \<Rightarrow> string \<Rightarrow> string \<Rightarrow> build_attempt_request \<Rightarrow> hub_db
   \<Rightarrow> hub_error + build_attempt \<times> evidence \<times> hub_db" where
  "add_attempt_body dr a pid build_id request db =
     (if \<not> (\<exists>b \<in> set (db_builds db). bd_id b = build_id \<and> bd_project_id b = pid)
      then Inl (not_found ''HUB_BUILD_NOT_FOUND'')
      else
        let attempt = \<lparr>ba_id = new_id ''bat'' (dr_uuid dr 0), ba_build_id = build_id,
              ba_status = bq_status request, ba_evidence = bq_evidence request,
              ba_created_by = ac_principal_id a, ba_created_at = dr_now dr\<rparr>
        in bindE (insert_attempt attempt db) (\<lambda>db1.
           Inr (attempt,
             \<lparr>ev_project_id = pid, ev_action = ''build.attempt_recorded'',
              ev_aggregate_type = ''build'', ev_aggregate_id = build_id, ev_category = ''build'',
              ev_event_type = ''build.status_changed'',
              ev_details = JObj [(''buildId'', JStr build_id), (''attemptId'', JStr (ba_id attempt)),
                                 (''status'', JStr (ba_status attempt))]\<rparr>,
             db1\<lparr>db_builds := map (\<lambda>b. if bd_id b = build_id \<and> bd_project_id b = pid
                    then b\<lparr>bd_status := ba_status attempt, bd_updated_at := ba_created_at attempt\<rparr>
                    else b) (db_builds db1)\<rparr>)))"

definition add_build_attempt ::
  "hub_lib \<Rightarrow> hub_draws \<Rightarrow> hub_db \<Rightarrow> actor \<Rightarrow> string \<Rightarrow> string \<Rightarrow> string \<Rightarrow> build_attempt_request
   \<Rightarrow> hub_db \<Rightarrow> hub_error + build_attempt \<times> hub_db" where
  "add_build_attempt L dr db0 a pid build_id key request db =
     bindE (authorize_project db0 a pid Build) (\<lambda>_.
     if bq_status request \<notin> {''running'', ''succeeded'', ''failed'', ''cancelled''}
     then Inl (hub_invalid ''Unknown build attempt status.'')
     else
       bindE (membership_role db a pid Build) (\<lambda>_.
       idempotent_mutation L dr a pid ''builds.attempt'' key
         (canonical_request_hash L (build_attempt_json request)) expect_attempt RAttempt
         (add_attempt_body dr a pid build_id request) db))"

section \<open>Releases\<close>

definition insert_release :: "hub_release \<Rightarrow> hub_db \<Rightarrow> hub_error + hub_db" where
  "insert_release r db =
     (if re_id r \<in> re_id ` set (db_releases db)
         \<or> re_project_id r \<notin> hp_id ` set (db_projects db)
         \<or> re_created_by r \<notin> pr_id ` set (db_principals db)
      then Inl hub_internal
      else Inr (db\<lparr>db_releases := db_releases db @ [r]\<rparr>))"

definition create_release_body ::
  "hub_draws \<Rightarrow> actor \<Rightarrow> string \<Rightarrow> string \<Rightarrow> create_release_request \<Rightarrow> hub_db
   \<Rightarrow> hub_error + hub_release \<times> evidence \<times> hub_db" where
  "create_release_body dr a pid immutable_hash request db =
     (let release = \<lparr>re_id = new_id ''rel'' (dr_uuid dr 0), re_project_id = pid,
            re_bundle_hash = cr_bundle_hash request, re_environment = cr_environment request,
            re_target = cr_target request, re_evidence = cr_evidence request,
            re_request_hash = immutable_hash, re_state = ''draft'',
            re_created_by = ac_principal_id a, re_created_at = dr_now dr,
            re_updated_at = dr_now dr\<rparr>
      in bindE (insert_release release db) (\<lambda>db1.
         Inr (release,
           \<lparr>ev_project_id = pid, ev_action = ''release.created'', ev_aggregate_type = ''release'',
            ev_aggregate_id = re_id release, ev_category = ''release'',
            ev_event_type = ''release.created'',
            ev_details = JObj [(''releaseId'', JStr (re_id release)),
                               (''requestHash'', JStr (re_request_hash release)),
                               (''environment'', JStr (re_environment release))]\<rparr>, db1)))"

definition create_hub_release ::
  "hub_lib \<Rightarrow> hub_draws \<Rightarrow> hub_db \<Rightarrow> actor \<Rightarrow> string \<Rightarrow> string \<Rightarrow> create_release_request \<Rightarrow> hub_db
   \<Rightarrow> hub_error + hub_release \<times> hub_db" where
  "create_hub_release L dr db0 a pid key request db =
     bindE (authorize_project db0 a pid ExecuteRelease) (\<lambda>_.
     bindE (validate_hash_label (cr_bundle_hash request) ''bundleHash'') (\<lambda>_.
     bindE (validate_name (cr_environment request) 1 64 ''environment'') (\<lambda>_.
     let immutable_hash = canonical_request_hash L (create_release_json request)
     in bindE (membership_role db a pid ExecuteRelease) (\<lambda>_.
        idempotent_mutation L dr a pid ''releases.create'' key immutable_hash expect_release RRelease
          (create_release_body dr a pid immutable_hash request) db))))"

definition get_release :: "hub_db \<Rightarrow> hub_db \<Rightarrow> actor \<Rightarrow> string \<Rightarrow> string \<Rightarrow> hub_error + hub_release" where
  "get_release db0 db a pid release_id =
     bindE (authorize_project db0 a pid Read) (\<lambda>_.
     ok_or (find (\<lambda>r. re_id r = release_id \<and> re_project_id r = pid) (db_releases db))
       (not_found ''HUB_RELEASE_NOT_FOUND''))"

definition insert_approval :: "release_approval \<Rightarrow> hub_db \<Rightarrow> hub_error + hub_db" where
  "insert_approval r db =
     (if ra_id r \<in> ra_id ` set (db_approvals db)
         \<or> (\<exists>x \<in> set (db_approvals db). ra_release_id x = ra_release_id r
              \<and> ra_principal_id x = ra_principal_id r \<and> ra_request_hash x = ra_request_hash r)
         \<or> ra_release_id r \<notin> re_id ` set (db_releases db)
         \<or> ra_principal_id r \<notin> pr_id ` set (db_principals db)
      then Inl hub_internal
      else Inr (db\<lparr>db_approvals := db_approvals db @ [r]\<rparr>))"

definition approve_release_body ::
  "hub_draws \<Rightarrow> actor \<Rightarrow> string \<Rightarrow> string \<Rightarrow> approve_request \<Rightarrow> hub_db
   \<Rightarrow> hub_error + release_approval \<times> evidence \<times> hub_db" where
  "approve_release_body dr a pid release_id request db =
     bindE (ok_or (find (\<lambda>r. re_id r = release_id \<and> re_project_id r = pid
                          \<and> re_state r \<in> {''draft'', ''approved''}) (db_releases db))
              (not_found ''HUB_RELEASE_NOT_FOUND'')) (\<lambda>release.
     if re_request_hash release \<noteq> aa_request_hash request
     then Inl (conflict ''HUB_VERSION_CONFLICT''
            ''Approval does not bind the release's immutable request hash.'')
     else
       let approval = \<lparr>ra_id = new_id ''app'' (dr_uuid dr 0), ra_release_id = release_id,
             ra_principal_id = ac_principal_id a, ra_request_hash = re_request_hash release,
             ra_evidence = aa_evidence request, ra_created_at = dr_now dr\<rparr>
       in bindE (insert_approval approval db) (\<lambda>db1.
          Inr (approval,
            \<lparr>ev_project_id = pid, ev_action = ''release.approved'', ev_aggregate_type = ''release'',
             ev_aggregate_id = release_id, ev_category = ''release'',
             ev_event_type = ''release.approved'',
             ev_details = JObj [(''releaseId'', JStr release_id),
                                (''approvalId'', JStr (ra_id approval)),
                                (''requestHash'', JStr (ra_request_hash approval))]\<rparr>,
            db1\<lparr>db_releases := map (\<lambda>r. if re_id r = release_id \<and> re_state r = ''draft''
                   then r\<lparr>re_state := ''approved'', re_updated_at := ra_created_at approval\<rparr>
                   else r) (db_releases db1)\<rparr>)))"

definition approve_release ::
  "hub_lib \<Rightarrow> hub_draws \<Rightarrow> hub_db \<Rightarrow> actor \<Rightarrow> string \<Rightarrow> string \<Rightarrow> string \<Rightarrow> approve_request \<Rightarrow> hub_db
   \<Rightarrow> hub_error + release_approval \<times> hub_db" where
  "approve_release L dr db0 a pid release_id key request db =
     bindE (authorize_project db0 a pid ApproveRelease) (\<lambda>_.
     bindE (membership_role db a pid ApproveRelease) (\<lambda>_.
     idempotent_mutation L dr a pid ''releases.approve'' key
       (canonical_request_hash L (approve_json request)) expect_approval RApproval
       (approve_release_body dr a pid release_id request) db))"

text \<open>The states an action starts from and the state it leads to.\<close>

definition action_states :: "string \<Rightarrow> hub_error + string list \<times> string" where
  "action_states action =
     (if action = ''start'' then Inr ([''approved''], ''running'')
      else if action = ''resume'' then Inr ([''failed'', ''rollback_required''], ''running'')
      else if action = ''rollback''
      then Inr ([''running'', ''failed'', ''rollback_required'', ''succeeded''], ''rolled_back'')
      else Inl (hub_invalid ''Unknown release action.''))"

definition release_action_body ::
  "hub_draws \<Rightarrow> string \<Rightarrow> string \<Rightarrow> string \<Rightarrow> string list \<Rightarrow> string \<Rightarrow> release_action_request \<Rightarrow> hub_db
   \<Rightarrow> hub_error + hub_release \<times> evidence \<times> hub_db" where
  "release_action_body dr pid release_id action required_states next_state request db =
     bindE (ok_or (find (\<lambda>r. re_id r = release_id \<and> re_project_id r = pid) (db_releases db))
              (not_found ''HUB_RELEASE_NOT_FOUND'')) (\<lambda>release.
     if re_request_hash release \<noteq> rq_expected_request_hash request
        \<or> re_state release \<notin> set required_states
     then Inl (conflict ''HUB_VERSION_CONFLICT''
            ''Release state or immutable request hash does not permit this action.'')
     else if action = ''start''
        \<and> length (filter (\<lambda>x. ra_release_id x = release_id
                    \<and> ra_request_hash x = re_request_hash release) (db_approvals db)) < 1
     then Inl (hub_error_new 412 ''HUB_APPROVAL_REQUIRED''
            ''Release start requires approval bound to the immutable request hash.'')
     else
       let db1 = db\<lparr>db_releases := map (\<lambda>r. if re_id r = release_id
                 then r\<lparr>re_state := next_state, re_updated_at := dr_now dr,
                        re_evidence := rq_evidence request\<rparr>
                 else r) (db_releases db)\<rparr>
       in bindE (ok_or (find (\<lambda>r. re_id r = release_id) (db_releases db1)) hub_internal) (\<lambda>updated.
          Inr (updated,
            \<lparr>ev_project_id = pid, ev_action = ''release.'' @ action,
             ev_aggregate_type = ''release'', ev_aggregate_id = release_id,
             ev_category = ''release'', ev_event_type = ''release.'' @ action,
             ev_details = JObj [(''releaseId'', JStr release_id), (''state'', JStr next_state),
                                (''requestHash'', JStr (re_request_hash release))]\<rparr>, db1)))"

definition release_action ::
  "hub_lib \<Rightarrow> hub_draws \<Rightarrow> hub_db \<Rightarrow> actor \<Rightarrow> string \<Rightarrow> string \<Rightarrow> string \<Rightarrow> string
   \<Rightarrow> release_action_request \<Rightarrow> hub_db \<Rightarrow> hub_error + hub_release \<times> hub_db" where
  "release_action L dr db0 a pid release_id action key request db =
     bindE (authorize_project db0 a pid ExecuteRelease) (\<lambda>_.
     bindE (action_states action) (\<lambda>(required_states, next_state).
     bindE (membership_role db a pid ExecuteRelease) (\<lambda>_.
     idempotent_mutation L dr a pid (''releases.'' @ action) key
       (canonical_request_hash L (release_action_json request)) expect_release RRelease
       (release_action_body dr pid release_id action required_states next_state request) db)))"

section \<open>The operations as mutations\<close>

lemma insert_build_ok:
  "insert_build r db = Inr db'
   \<longleftrightarrow> bd_id r \<notin> bd_id ` set (db_builds db) \<and> bd_project_id r \<in> hp_id ` set (db_projects db)
       \<and> bd_created_by r \<in> pr_id ` set (db_principals db)
       \<and> db' = db\<lparr>db_builds := db_builds db @ [r]\<rparr>"
  unfolding insert_build_def by auto

lemma insert_attempt_ok:
  "insert_attempt r db = Inr db'
   \<longleftrightarrow> ba_id r \<notin> ba_id ` set (db_attempts db) \<and> ba_build_id r \<in> bd_id ` set (db_builds db)
       \<and> ba_created_by r \<in> pr_id ` set (db_principals db)
       \<and> db' = db\<lparr>db_attempts := db_attempts db @ [r]\<rparr>"
  unfolding insert_attempt_def by auto

lemma insert_release_ok:
  "insert_release r db = Inr db'
   \<longleftrightarrow> re_id r \<notin> re_id ` set (db_releases db) \<and> re_project_id r \<in> hp_id ` set (db_projects db)
       \<and> re_created_by r \<in> pr_id ` set (db_principals db)
       \<and> db' = db\<lparr>db_releases := db_releases db @ [r]\<rparr>"
  unfolding insert_release_def by auto

lemma insert_approval_ok:
  "insert_approval r db = Inr db'
   \<longleftrightarrow> ra_id r \<notin> ra_id ` set (db_approvals db)
       \<and> (\<forall>x \<in> set (db_approvals db). ra_release_id x = ra_release_id r
            \<and> ra_principal_id x = ra_principal_id r \<longrightarrow> ra_request_hash x \<noteq> ra_request_hash r)
       \<and> ra_release_id r \<in> re_id ` set (db_releases db)
       \<and> ra_principal_id r \<in> pr_id ` set (db_principals db)
       \<and> db' = db\<lparr>db_approvals := db_approvals db @ [r]\<rparr>"
  unfolding insert_approval_def by auto

interpretation create_build:
  hub_mutation "create_build_body dr a pid request" expect_build RBuild for dr a pid request
  by unfold_locales
    (auto simp: create_build_body_def Let_def result_simps insert_build_ok same_log_def expect_build_def)

interpretation add_attempt:
  hub_mutation "add_attempt_body dr a pid build_id request" expect_attempt RAttempt
  for dr a pid build_id request
  by unfold_locales
    (auto simp: add_attempt_body_def Let_def result_simps insert_attempt_ok same_log_def
      expect_attempt_def split: if_splits)

lemma create_release_body_cases:
  assumes "create_release_body dr a pid h request db = Inr (v, ev, db')"
  obtains "db' = db\<lparr>db_releases := db_releases db @ [v]\<rparr>" "re_id v \<notin> re_id ` set (db_releases db)"
    "re_state v = ''draft''" "re_request_hash v = h" "re_project_id v = pid"
    "re_bundle_hash v = cr_bundle_hash request" "re_environment v = cr_environment request"
    "re_target v = cr_target request" "re_evidence v = cr_evidence request"
  using assms unfolding create_release_body_def Let_def
  by (auto simp: result_simps insert_release_ok)

interpretation create_release:
  hub_mutation "create_release_body dr a pid h request" expect_release RRelease
  for dr a pid h request
  by unfold_locales (auto simp: same_log_def expect_release_def elim!: create_release_body_cases)

definition approved_row :: "string \<Rightarrow> int \<Rightarrow> hub_release \<Rightarrow> hub_release" where
  "approved_row release_id now r =
     (if re_id r = release_id \<and> re_state r = ''draft''
      then r\<lparr>re_state := ''approved'', re_updated_at := now\<rparr> else r)"

lemma approve_release_body_cases:
  assumes "approve_release_body dr a pid release_id request db = Inr (v, ev, db')"
  obtains r where "r \<in> set (db_releases db)" "re_id r = release_id" "re_project_id r = pid"
    "re_state r \<in> {''draft'', ''approved''}" "re_request_hash r = aa_request_hash request"
    "ra_release_id v = release_id" "ra_request_hash v = re_request_hash r"
    "ra_principal_id v = ac_principal_id a"
    "db' = db\<lparr>db_approvals := db_approvals db @ [v],
             db_releases := map (approved_row release_id (dr_now dr)) (db_releases db)\<rparr>"
proof -
  obtain r where r: "find (\<lambda>r. re_id r = release_id \<and> re_project_id r = pid
      \<and> re_state r \<in> {''draft'', ''approved''}) (db_releases db) = Some r"
    using assms by (auto simp: approve_release_body_def result_simps)
  then have "r \<in> set (db_releases db)" "re_id r = release_id" "re_project_id r = pid"
    "re_state r \<in> {''draft'', ''approved''}"
    by (auto simp: find_Some_iff)
  then show thesis
    using assms r
    by (intro that)
      (auto simp: approve_release_body_def Let_def result_simps insert_approval_ok approved_row_def
        fun_eq_iff split: if_splits)
qed

interpretation approve_release:
  hub_mutation "approve_release_body dr a pid release_id request" expect_approval RApproval
  for dr a pid release_id request
  by unfold_locales (auto simp: same_log_def expect_approval_def elim!: approve_release_body_cases)

definition acted_row ::
  "string \<Rightarrow> string \<Rightarrow> int \<Rightarrow> json \<Rightarrow> hub_release \<Rightarrow> hub_release" where
  "acted_row release_id next_state now evidence_value r =
     (if re_id r = release_id
      then r\<lparr>re_state := next_state, re_updated_at := now, re_evidence := evidence_value\<rparr> else r)"

lemma release_action_body_cases:
  assumes "release_action_body dr pid release_id action states next_state request db = Inr (v, ev, db')"
  obtains r where "r \<in> set (db_releases db)" "re_id r = release_id" "re_project_id r = pid"
    "re_state r \<in> set states" "re_request_hash r = rq_expected_request_hash request"
    "action = ''start'' \<longrightarrow> (\<exists>x \<in> set (db_approvals db). ra_release_id x = release_id
        \<and> ra_request_hash x = re_request_hash r)"
    "db' = db\<lparr>db_releases := map (acted_row release_id next_state (dr_now dr) (rq_evidence request))
       (db_releases db)\<rparr>"
proof -
  obtain r where r: "find (\<lambda>r. re_id r = release_id \<and> re_project_id r = pid) (db_releases db) = Some r"
    using assms by (auto simp: release_action_body_def result_simps)
  then have known: "r \<in> set (db_releases db)" "re_id r = release_id" "re_project_id r = pid"
    by (auto simp: find_Some_iff)
  have step: "re_state r \<in> set states \<and> re_request_hash r = rq_expected_request_hash request
      \<and> (action = ''start'' \<longrightarrow> \<not> length (filter (\<lambda>x. ra_release_id x = release_id
           \<and> ra_request_hash x = re_request_hash r) (db_approvals db)) < 1)
      \<and> db' = db\<lparr>db_releases := map (acted_row release_id next_state (dr_now dr) (rq_evidence request))
           (db_releases db)\<rparr>"
    using assms r unfolding release_action_body_def Let_def
    by (auto simp: result_simps acted_row_def fun_eq_iff split: if_splits)
  have "\<exists>x \<in> set xs. P x" if "\<not> length (filter P xs) < 1" for P and xs :: "release_approval list"
    using that by (induction xs) (auto split: if_splits)
  with step known show thesis by (intro that) auto
qed

interpretation release_action:
  hub_mutation "release_action_body dr pid release_id action states next_state request"
    expect_release RRelease
  for dr pid release_id action states next_state request
  by unfold_locales (auto simp: same_log_def expect_release_def elim!: release_action_body_cases)

section \<open>What a release goes through\<close>

text \<open>The request a stored release still shows.\<close>

definition shown_request :: "hub_release \<Rightarrow> create_release_request" where
  "shown_request r = \<lparr>cr_bundle_hash = re_bundle_hash r, cr_environment = re_environment r,
     cr_target = re_target r, cr_evidence = re_evidence r\<rparr>"

definition bound_approval :: "hub_db \<Rightarrow> hub_release \<Rightarrow> bool" where
  "bound_approval db r \<longleftrightarrow>
     (\<exists>x \<in> set (db_approvals db). ra_release_id x = re_id r \<and> ra_request_hash x = re_request_hash r)"

definition release_row_ok :: "hub_lib \<Rightarrow> hub_db \<Rightarrow> hub_release \<Rightarrow> bool" where
  "release_row_ok L db r \<longleftrightarrow>
     re_state r \<in> {''draft'', ''approved'', ''running'', ''rolled_back''}
     \<and> (re_state r \<noteq> ''draft'' \<longrightarrow> bound_approval db r)
     \<and> (re_state r \<in> {''draft'', ''approved''} \<longrightarrow>
          canonical_request_hash L (create_release_json (shown_request r)) = re_request_hash r)"

definition releases_ok :: "hub_lib \<Rightarrow> hub_db \<Rightarrow> bool" where
  "releases_ok L db \<longleftrightarrow>
     distinct (map re_id (db_releases db)) \<and> (\<forall>r \<in> set (db_releases db). release_row_ok L db r)"

text \<open>What never changes of a release.\<close>

definition release_core :: "hub_release \<Rightarrow> (string \<times> string \<times> string) \<times> json \<times> string \<times> string" where
  "release_core r = ((re_id r, re_project_id r, re_bundle_hash r), re_target r, re_environment r,
     re_request_hash r)"

definition cores_kept :: "hub_db \<Rightarrow> hub_db \<Rightarrow> bool" where
  "cores_kept db db' \<longleftrightarrow>
     (\<exists>new. map release_core (db_releases db') = map release_core (db_releases db) @ new)"

lemma releases_ok_same:
  "db_releases db' = db_releases db \<Longrightarrow> db_approvals db' = db_approvals db
   \<Longrightarrow> releases_ok L db' = releases_ok L db \<and> cores_kept db db'"
  by (simp add: releases_ok_def release_row_ok_def bound_approval_def cores_kept_def)

lemma cores_kept_trans: "cores_kept a b \<Longrightarrow> cores_kept b c \<Longrightarrow> cores_kept a c"
  by (auto simp: cores_kept_def)

lemma create_release_body_ok:
  assumes "releases_ok L db"
    and "create_release_body dr a pid (canonical_request_hash L (create_release_json request)) request db
      = Inr (v, ev, db')"
  shows "releases_ok L db' \<and> cores_kept db db'"
  using assms(2)
proof (cases rule: create_release_body_cases)
  case 1
  have "release_row_ok L db' v"
    using 1 by (simp add: release_row_ok_def shown_request_def create_release_json_def)
  moreover have "release_row_ok L db' r" if "r \<in> set (db_releases db)" for r
    using that assms(1) 1(1) by (simp add: releases_ok_def release_row_ok_def bound_approval_def)
  ultimately show ?thesis
    using assms(1) 1(1,2) by (auto simp: releases_ok_def cores_kept_def)
qed

lemma map_unchanged: "(\<And>x. f (g x) = f x) \<Longrightarrow> map f (map g xs) = map f xs"
  by simp

lemma releases_ok_map:
  assumes "releases_ok L db" "db_releases db' = map f (db_releases db)"
    and "\<And>x. x \<in> set (db_releases db) \<Longrightarrow> release_row_ok L db' (f x)"
    and "\<And>x. re_id (f x) = re_id x" "\<And>x. release_core (f x) = release_core x"
  shows "releases_ok L db' \<and> cores_kept db db'"
proof -
  have ids: "map re_id (db_releases db') = map re_id (db_releases db)"
    and cores: "map release_core (db_releases db') = map release_core (db_releases db)"
    unfolding assms(2) by (rule map_unchanged, rule assms)+
  have "\<forall>r \<in> set (db_releases db'). release_row_ok L db' r" using assms(3) by (simp add: assms(2))
  with ids assms(1) have "releases_ok L db'" unfolding releases_ok_def by metis
  then show ?thesis using cores unfolding cores_kept_def by (metis append_Nil2)
qed

lemma approve_release_body_ok:
  assumes ok: "releases_ok L db"
    and step: "approve_release_body dr a pid release_id request db = Inr (v, ev, db')"
  shows "releases_ok L db' \<and> cores_kept db db'"
  using step
proof (cases rule: approve_release_body_cases)
  case (1 r)
  let ?f = "approved_row release_id (dr_now dr)"
  have core: "re_id (?f x) = re_id x" "release_core (?f x) = release_core x"
    "re_request_hash (?f x) = re_request_hash x" "shown_request (?f x) = shown_request x" for x
    by (simp_all add: approved_row_def release_core_def shown_request_def)
  have row: "release_row_ok L db' (?f x)" if x: "x \<in> set (db_releases db)" for x
  proof -
    have old: "release_row_ok L db x" using ok x by (simp add: releases_ok_def)
    have "bound_approval db' x" if "re_id x = release_id"
    proof -
      have "x = r"
        using x 1(1,2) that ok unfolding releases_ok_def distinct_map inj_on_def by blast
      then show ?thesis using 1 by (auto simp: bound_approval_def)
    qed
    moreover have "bound_approval db x \<Longrightarrow> bound_approval db' x"
      using 1(9) by (auto simp: bound_approval_def)
    ultimately show ?thesis
      using old unfolding release_row_ok_def bound_approval_def core
      by (auto simp: approved_row_def)
  qed
  have rel: "db_releases db' = map ?f (db_releases db)" using 1(9) by simp
  show ?thesis by (rule releases_ok_map [OF ok rel row core(1,2)])
qed

lemma release_action_body_ok:
  assumes ok: "releases_ok L db"
    and states: "action_states action = Inr (states, next_state)"
    and step: "release_action_body dr pid release_id action states next_state request db
      = Inr (v, ev, db')"
  shows "releases_ok L db' \<and> cores_kept db db'"
  using step
proof (cases rule: release_action_body_cases)
  case (1 r)
  let ?f = "acted_row release_id next_state (dr_now dr) (rq_evidence request)"
  have core: "re_id (?f x) = re_id x" "release_core (?f x) = release_core x"
    "re_request_hash (?f x) = re_request_hash x" for x
    by (simp_all add: acted_row_def release_core_def)
  have old_r: "release_row_ok L db r" using ok 1(1) by (simp add: releases_ok_def)
  have target: "next_state \<in> {''running'', ''rolled_back''}" "re_state r \<noteq> ''draft''"
    using states 1(4) by (auto simp: action_states_def split: if_splits)
  have approvals: "bound_approval db' x = bound_approval db x" for x
    using 1(7) by (simp add: bound_approval_def)
  have row: "release_row_ok L db' (?f x)" if x: "x \<in> set (db_releases db)" for x
  proof (cases "re_id x = release_id")
    case True
    then have "x = r"
      using x 1(1,2) ok unfolding releases_ok_def distinct_map inj_on_def by blast
    then have "bound_approval db x" using old_r target by (simp add: release_row_ok_def)
    then have "bound_approval db' (?f x)"
      using approvals by (simp add: bound_approval_def core)
    with True target show ?thesis by (auto simp: release_row_ok_def acted_row_def)
  next
    case False
    then have "?f x = x" by (simp add: acted_row_def)
    then show ?thesis using ok x by (simp add: releases_ok_def release_row_ok_def approvals)
  qed
  have rel: "db_releases db' = map ?f (db_releases db)" using 1(7) by simp
  show ?thesis by (rule releases_ok_map [OF ok rel row core(1,2)])
qed

lemma resume_impossible:
  assumes "releases_ok L db"
  shows "\<not> is_ok (release_action_body dr pid release_id ''resume'' [''failed'', ''rollback_required'']
    ''running'' request db)"
proof
  assume "is_ok (release_action_body dr pid release_id ''resume'' [''failed'', ''rollback_required'']
    ''running'' request db)"
  then obtain v ev db' where "release_action_body dr pid release_id ''resume''
      [''failed'', ''rollback_required''] ''running'' request db = Inr (v, ev, db')"
    by (auto simp: is_ok_iff)
  then show False
  proof (cases rule: release_action_body_cases)
    case (1 r)
    then show False using assms by (auto simp: releases_ok_def release_row_ok_def)
  qed
qed

end
