(* ===== verification/HubEvents.thy ===== *)
theory HubEvents
  imports HubProjects HubObjects
begin

text \<open>
  What the Hub does with its outbox and its expired rows: event and audit pages behind signed
  cursors, the latest event that is broadcast after a mutation, presence, and the maintenance
  run at startup and every minute.
\<close>

section \<open>Cursors\<close>

text \<open>\<open>str::parse::<i64>\<close>: an optional sign, at least one digit, in range.\<close>

definition parse_i64 :: "string \<Rightarrow> int option" where
  "parse_i64 s =
     (let (negative, digits) =
            (if s \<noteq> [] \<and> hd s = CHR ''-'' then (True, tl s)
             else if s \<noteq> [] \<and> hd s = CHR ''+'' then (False, tl s)
             else (False, s));
          value = (if negative then - int (decimal_value digits) else int (decimal_value digits))
      in if digits = [] \<or> \<not> list_all is_digit digits then None
         else if value < - (2 ^ 63) \<or> 2 ^ 63 \<le> value then None
         else Some value)"

definition sign_cursor :: "hub_lib \<Rightarrow> hub_config \<Rightarrow> int \<Rightarrow> string" where
  "sign_cursor L cfg sequence =
     (let payload = ''v1.'' @ show_int sequence;
          mac = hl_keyed_blake3 L (hc_cursor_key cfg) (as_bytes payload)
      in payload @ ''.'' @ take 32 (hl_hex L mac))"

definition parse_cursor :: "hub_lib \<Rightarrow> hub_config \<Rightarrow> string option \<Rightarrow> hub_error + int" where
  "parse_cursor L cfg header =
     (case header of
        None \<Rightarrow> Inr 0
      | Some cursor \<Rightarrow>
          let fields = split_on (CHR ''.'') cursor
          in if 3 < length fields \<or> hd fields \<noteq> ''v1''
             then Inl (hub_invalid ''Event cursor is invalid.'')
             else if length fields < 2 then Inl (hub_invalid ''Event cursor is invalid.'')
             else
               bindE (ok_or (parse_i64 (fields ! 1)) (hub_invalid ''Event cursor is invalid.''))
                 (\<lambda>sequence.
               let expected_mac = last (split_on (CHR ''.'') (sign_cursor L cfg sequence));
                   supplied_mac = (if length fields < 3 then [] else fields ! 2)
               in if supplied_mac \<noteq> expected_mac
                  then Inl (hub_invalid ''Event cursor signature is invalid.'')
                  else Inr sequence))"

definition page_limit :: "nat option \<Rightarrow> nat" where
  "page_limit limit = max 1 (min 200 (case limit of None \<Rightarrow> 50 | Some n \<Rightarrow> n))"

section \<open>Pages\<close>

record event_envelope =
  ee_id :: string
  ee_sequence :: int
  ee_cursor :: string
  ee_project_id :: string
  ee_category :: string
  ee_event_type :: string
  ee_aggregate_id :: string
  ee_payload :: json
  ee_occurred_at :: int

record event_page =
  ep_events :: "event_envelope list"
  ep_next_cursor :: "string option"

record audit_event =
  ae_sequence :: int
  ae_id :: string
  ae_project_id :: string
  ae_actor_principal_id :: string
  ae_action :: string
  ae_aggregate_type :: string
  ae_aggregate_id :: string
  ae_outcome :: string
  ae_details :: json
  ae_occurred_at :: int
  ae_previous_hash :: "string option"
  ae_event_hash :: string

record audit_page =
  ag_events :: "audit_event list"
  ag_next_cursor :: "string option"

definition envelope_from_row :: "hub_lib \<Rightarrow> hub_config \<Rightarrow> outbox_row \<Rightarrow> event_envelope" where
  "envelope_from_row L cfg r =
     \<lparr>ee_id = ox_id r, ee_sequence = int (ox_sequence r),
      ee_cursor = sign_cursor L cfg (int (ox_sequence r)), ee_project_id = ox_project_id r,
      ee_category = ox_category r, ee_event_type = ox_event_type r,
      ee_aggregate_id = ox_aggregate_id r, ee_payload = ox_payload r,
      ee_occurred_at = ox_occurred_at r\<rparr>"

definition outbox_of :: "hub_db \<Rightarrow> string \<Rightarrow> outbox_row list" where
  "outbox_of db pid = filter (\<lambda>r. ox_project_id r = pid) (db_outbox db)"

text \<open>\<open>MIN(sequence)\<close> of a project.\<close>

definition first_sequence :: "hub_db \<Rightarrow> string \<Rightarrow> nat option" where
  "first_sequence db pid =
     (case sort (map ox_sequence (outbox_of db pid)) of [] \<Rightarrow> None | n # ns \<Rightarrow> Some n)"

definition events_page ::
  "hub_lib \<Rightarrow> hub_config \<Rightarrow> hub_db \<Rightarrow> hub_db \<Rightarrow> actor \<Rightarrow> string \<Rightarrow> int \<Rightarrow> nat
   \<Rightarrow> hub_error + event_page" where
  "events_page L cfg db0 db a pid after limit =
     bindE (authorize_project db0 a pid Read) (\<lambda>_.
     if 0 < after \<and> (case first_sequence db pid of None \<Rightarrow> False | Some m \<Rightarrow> after < int m - 1)
     then Inl (hub_error_new 410 ''HUB_CURSOR_EXPIRED''
            ''The event cursor is outside retained history; fetch current state.'')
     else
       let events = map (envelope_from_row L cfg)
             (take limit (sort_key ox_sequence
               (filter (\<lambda>r. after < int (ox_sequence r)) (outbox_of db pid))))
       in Inr \<lparr>ep_events = events,
               ep_next_cursor = (if events = [] then None else Some (ee_cursor (last events)))\<rparr>)"

definition audit_from_row :: "(string \<Rightarrow> json option) \<Rightarrow> audit_row \<Rightarrow> audit_event" where
  "audit_from_row parse r =
     \<lparr>ae_sequence = int (au_sequence r), ae_id = au_id r, ae_project_id = au_project_id r,
      ae_actor_principal_id = au_actor_principal_id r, ae_action = au_action r,
      ae_aggregate_type = au_aggregate_type r, ae_aggregate_id = au_aggregate_id r,
      ae_outcome = au_outcome r,
      ae_details = (case parse (au_details_json r) of None \<Rightarrow> JNull | Some j \<Rightarrow> j),
      ae_occurred_at = au_occurred_at r, ae_previous_hash = au_previous_hash r,
      ae_event_hash = au_event_hash r\<rparr>"

definition audit_page_of ::
  "hub_lib \<Rightarrow> hub_config \<Rightarrow> (string \<Rightarrow> json option) \<Rightarrow> hub_db \<Rightarrow> hub_db \<Rightarrow> actor \<Rightarrow> string
   \<Rightarrow> int \<Rightarrow> nat \<Rightarrow> hub_error + audit_page" where
  "audit_page_of L cfg parse db0 db a pid after limit =
     bindE (authorize_project db0 a pid Read) (\<lambda>_.
     let events = map (audit_from_row parse) (take limit (sort_key au_sequence
           (filter (\<lambda>r. au_project_id r = pid \<and> after < int (au_sequence r)) (db_audit db))))
     in Inr \<lparr>ag_events = events,
             ag_next_cursor = (if events = [] then None
               else Some (sign_cursor L cfg (ae_sequence (last events))))\<rparr>)"

definition latest_event ::
  "hub_lib \<Rightarrow> hub_config \<Rightarrow> hub_db \<Rightarrow> string \<Rightarrow> event_envelope option" where
  "latest_event L cfg db pid =
     (case rev (sort_key ox_sequence (outbox_of db pid)) of
        [] \<Rightarrow> None
      | r # rs \<Rightarrow> Some (envelope_from_row L cfg r))"

text \<open>The broadcast channel, oldest event first; sending cannot fail for the sender.\<close>

definition publish_latest ::
  "hub_lib \<Rightarrow> hub_config \<Rightarrow> hub_db \<Rightarrow> string \<Rightarrow> event_envelope list \<Rightarrow> event_envelope list" where
  "publish_latest L cfg db pid events =
     (case latest_event L cfg db pid of None \<Rightarrow> events | Some e \<Rightarrow> events @ [e])"

section \<open>Maintenance\<close>

definition expiring :: "int \<Rightarrow> upload_row \<Rightarrow> bool" where
  "expiring now u \<longleftrightarrow> up_expires_at u \<le> now \<and> up_status u \<in> {''negotiated'', ''received''}"

text \<open>The rows whose rank in their project, newest first, is within the retention.\<close>

definition retained_rows :: "int \<Rightarrow> outbox_row list \<Rightarrow> outbox_row list" where
  "retained_rows retained rows =
     filter (\<lambda>r. int (length (filter (\<lambda>q. ox_project_id q = ox_project_id r
                                       \<and> ox_sequence r \<le> ox_sequence q) rows)) \<le> retained) rows"

definition maintenance_tx :: "int \<Rightarrow> int \<Rightarrow> hub_db \<Rightarrow> hub_error + (string list \<times> json) \<times> hub_db" where
  "maintenance_tx now event_retention db =
     (let temp_paths = map up_temp_path (filter (expiring now) (db_uploads db))
      in bindE (update_uploads (expiring now) (\<lambda>u. u\<lparr>up_status := ''expired''\<rparr>) db) (\<lambda>db1.
         let downloads = filter (\<lambda>d. \<not> dw_expires_at d \<le> now) (db_downloads db1);
             records = filter (\<lambda>r. \<not> ir_expires_at r \<le> now) (db_idempotency db1);
             outbox = retained_rows (max 1 event_retention) (db_outbox db1)
         in Inr ((temp_paths, JObj
              [(''expiredUploads'', JNum (int (length temp_paths))),
               (''expiredDownloads'', JNum (int (length (db_downloads db1)) - int (length downloads))),
               (''expiredIdempotencyRecords'',
                JNum (int (length (db_idempotency db1)) - int (length records))),
               (''prunedOutboxEvents'', JNum (int (length (db_outbox db1)) - int (length outbox)))]),
              db1\<lparr>db_downloads := downloads, db_idempotency := records, db_outbox := outbox\<rparr>)))"

text \<open>\<open>removable\<close> tells which removals succeed; a failure is only logged.\<close>

definition maintenance ::
  "int \<Rightarrow> int \<Rightarrow> (string \<Rightarrow> bool) \<Rightarrow> hub_db \<Rightarrow> fs \<Rightarrow> (hub_error + json \<times> hub_db) \<times> fs" where
  "maintenance now event_retention removable db fs =
     (case maintenance_tx now event_retention db of
        Inl e \<Rightarrow> (Inl e, fs)
      | Inr ((temp_paths, counts), db') \<Rightarrow>
          (Inr (counts, db'), \<lambda>p. if p \<in> set temp_paths \<and> removable p then None else fs p))"

section \<open>Presence\<close>

definition PRESENCE_TTL_MS :: int where
  "PRESENCE_TTL_MS = 45000"

record presence =
  ps_project_id :: string
  ps_principal_id :: string
  ps_display_name :: string
  ps_place_id :: "string option"
  ps_channel_id :: "string option"
  ps_mode :: string
  ps_selected_cell_ids :: "string list"
  ps_lock_ids :: "string list"
  ps_last_heartbeat :: int
  ps_expires_at :: int

record presence_request =
  pw_place_id :: "string option"
  pw_channel_id :: "string option"
  pw_mode :: string
  pw_selected_cell_ids :: "string list"
  pw_lock_ids :: "string list"
  pw_hide_selection :: bool

definition presence_of ::
  "int \<Rightarrow> actor \<Rightarrow> string \<Rightarrow> presence_request \<Rightarrow> hub_error + presence" where
  "presence_of now a pid request =
     bindE (guardE (pw_mode request \<in> {''editing'', ''reviewing'', ''building''})
              (hub_invalid ''Unknown presence mode.'')) (\<lambda>_.
     bindE (if pw_hide_selection request then Inr []
            else sorted_unique (pw_selected_cell_ids request) ''selectedCellIds'') (\<lambda>selected.
     bindE (sorted_unique (pw_lock_ids request) ''lockIds'') (\<lambda>locks.
     Inr \<lparr>ps_project_id = pid, ps_principal_id = ac_principal_id a,
          ps_display_name = ac_display_name a, ps_place_id = pw_place_id request,
          ps_channel_id = pw_channel_id request, ps_mode = pw_mode request,
          ps_selected_cell_ids = selected, ps_lock_ids = locks, ps_last_heartbeat = now,
          ps_expires_at = now + PRESENCE_TTL_MS\<rparr>)))"

text \<open>The map of presences in its iteration order.\<close>

definition presence_key :: "string \<Rightarrow> actor \<Rightarrow> string" where
  "presence_key pid a = pid @ '':'' @ ac_principal_id a @ '':'' @ ac_session_id a"

definition presence_heartbeat ::
  "int \<Rightarrow> hub_db \<Rightarrow> actor \<Rightarrow> string \<Rightarrow> presence_request \<Rightarrow> (string \<times> presence) list
   \<Rightarrow> hub_error + presence \<times> (string \<times> presence) list" where
  "presence_heartbeat now db0 a pid request present =
     bindE (authorize_project db0 a pid Read) (\<lambda>_.
     bindE (presence_of now a pid request) (\<lambda>p.
     Inr (p, (presence_key pid a, p) # filter (\<lambda>e. fst e \<noteq> presence_key pid a) present)))"

definition list_presence ::
  "int \<Rightarrow> hub_db \<Rightarrow> actor \<Rightarrow> string \<Rightarrow> (string \<times> presence) list
   \<Rightarrow> hub_error + presence list \<times> (string \<times> presence) list" where
  "list_presence now db0 a pid present =
     bindE (authorize_project db0 a pid Read) (\<lambda>_.
     let kept = filter (\<lambda>e. now < ps_expires_at (snd e)) present
     in Inr (sort_key ps_principal_id (filter (\<lambda>p. ps_project_id p = pid) (map snd kept)), kept))"

section \<open>Cursors are authentic\<close>

text \<open>What is documented of \<open>hex::encode\<close> and \<open>blake3::keyed_hash\<close>.\<close>

definition hex_contract :: "hub_lib \<Rightarrow> bool" where
  "hex_contract L \<longleftrightarrow>
     (\<forall>bs. length (hl_hex L bs) = 2 * length bs \<and> CHR ''.'' \<notin> set (hl_hex L bs))
     \<and> (\<forall>k m. length (hl_keyed_blake3 L k m) = 32)"

definition cursor_mac :: "hub_lib \<Rightarrow> hub_config \<Rightarrow> int \<Rightarrow> string" where
  "cursor_mac L cfg n =
     take 32 (hl_hex L (hl_keyed_blake3 L (hc_cursor_key cfg) (as_bytes (''v1.'' @ show_int n))))"

lemma sign_cursor_eq: "sign_cursor L cfg n = ''v1.'' @ show_int n @ ''.'' @ cursor_mac L cfg n"
  by (simp add: sign_cursor_def cursor_mac_def Let_def)

lemma cursor_mac_ok:
  assumes "hex_contract L"
  shows "cursor_mac L cfg n \<noteq> []" "CHR ''.'' \<notin> set (cursor_mac L cfg n)"
proof -
  let ?m = "hl_keyed_blake3 L (hc_cursor_key cfg) (as_bytes (''v1.'' @ show_int n))"
  have "length (hl_hex L ?m) = 64" "CHR ''.'' \<notin> set (hl_hex L ?m)"
    using assms by (simp_all add: hex_contract_def)
  then show "cursor_mac L cfg n \<noteq> []" "CHR ''.'' \<notin> set (cursor_mac L cfg n)"
    by (auto simp: cursor_mac_def dest: in_set_takeD)
qed

lemma parse_i64_no_dot: "parse_i64 s = Some n \<Longrightarrow> CHR ''.'' \<notin> set s"
  by (cases s) (auto simp: parse_i64_def Let_def list_all_iff is_digit_def byte_val_def split: if_splits)

lemma show_int_parses:
  assumes "- (2 ^ 63) \<le> n" "n < 2 ^ 63"
  shows "parse_i64 (show_int n) = Some n"
proof (cases "n < 0")
  case True
  then have "show_int n = CHR ''-'' # decimal (nat (- n))" by (simp add: show_int_def)
  moreover have "list_all is_digit (decimal (nat (- n)))" "decimal (nat (- n)) \<noteq> []"
    using decimal_digits by blast+
  ultimately show ?thesis
    using assms True by (simp add: parse_i64_def decimal_value_decimal)
next
  case False
  then have "show_int n = decimal (nat n)" by (simp add: show_int_def)
  moreover have digits: "list_all is_digit (decimal (nat n))" "decimal (nat n) \<noteq> []"
    using decimal_digits by blast+
  moreover have "hd (decimal (nat n)) \<noteq> CHR ''-''" "hd (decimal (nat n)) \<noteq> CHR ''+''"
    using digits by (cases "decimal (nat n)"; auto simp: is_digit_def byte_val_def)+
  ultimately show ?thesis
    using assms False by (simp add: parse_i64_def decimal_value_decimal)
qed

lemma expected_mac:
  assumes "hex_contract L"
  shows "last (split_on (CHR ''.'') (sign_cursor L cfg n)) = cursor_mac L cfg n"
proof -
  have "CHR ''.'' \<notin> set (show_int n)"
    using decimal_digits [of "nat n"] decimal_digits [of "nat (- n)"]
    by (auto simp: show_int_def list_all_iff is_digit_def byte_val_def)
  then have "split_on (CHR ''.'') (sign_cursor L cfg n) = [''v1'', show_int n, cursor_mac L cfg n]"
    using cursor_mac_ok(2) [OF assms, of cfg n]
      split_on_append [of "CHR ''.''" "''v1''" "show_int n @ CHR ''.'' # cursor_mac L cfg n"]
    by (simp add: sign_cursor_eq split_on_append split_on_single)
  then show ?thesis by simp
qed

lemma parse_cursor_iff:
  assumes "hex_contract L"
  shows "parse_cursor L cfg (Some c) = Inr n
    \<longleftrightarrow> (\<exists>s. parse_i64 s = Some n \<and> c = ''v1.'' @ s @ ''.'' @ cursor_mac L cfg n)"
proof
  assume parsed: "parse_cursor L cfg (Some c) = Inr n"
  define fields where "fields = split_on (CHR ''.'') c"
  have bounds: "length fields \<le> 3" "hd fields = ''v1''" "2 \<le> length fields"
    "parse_i64 (fields ! 1) = Some n"
    and mac: "(if length fields < 3 then [] else fields ! 2) = cursor_mac L cfg n"
    using parsed unfolding parse_cursor_def
    by (auto simp: Let_def result_simps expected_mac [OF assms] fields_def split: if_splits)
  from mac cursor_mac_ok(1) [OF assms, of cfg n] have "length fields = 3"
    using bounds(1,3) by (cases "length fields < 3") simp_all
  then obtain a b d where fields: "fields = [a, b, d]" by (auto simp: length_Suc_conv numeral_3_eq_3)
  then have "c = ''v1.'' @ b @ ''.'' @ cursor_mac L cfg n"
    using split_on_join [of c "CHR ''.''"] bounds(2) mac by (simp add: fields_def)
  with bounds(4) fields show "\<exists>s. parse_i64 s = Some n \<and> c = ''v1.'' @ s @ ''.'' @ cursor_mac L cfg n"
    by auto
next
  assume "\<exists>s. parse_i64 s = Some n \<and> c = ''v1.'' @ s @ ''.'' @ cursor_mac L cfg n"
  then obtain s where s: "parse_i64 s = Some n" and c: "c = ''v1.'' @ s @ ''.'' @ cursor_mac L cfg n"
    by blast
  have "split_on (CHR ''.'') c = [''v1'', s, cursor_mac L cfg n]"
    using parse_i64_no_dot [OF s] cursor_mac_ok(2) [OF assms, of cfg n]
      split_on_append [of "CHR ''.''" "''v1''" "s @ CHR ''.'' # cursor_mac L cfg n"]
    by (simp add: c split_on_append split_on_single)
  with s show "parse_cursor L cfg (Some c) = Inr n"
    by (simp add: parse_cursor_def expected_mac [OF assms])
qed

section \<open>Pages have no gaps\<close>

text \<open>
  \<open>H\<close> is every event ever appended, in order: the outbox holds, of each project that has any,
  a nonempty final part of its events.
\<close>

definition events_of :: "outbox_row list \<Rightarrow> string \<Rightarrow> outbox_row list" where
  "events_of H pid = filter (\<lambda>r. ox_project_id r = pid) H"

definition pruned_from :: "outbox_row list \<Rightarrow> hub_db \<Rightarrow> bool" where
  "pruned_from H db \<longleftrightarrow>
     sorted_wrt (<) (map ox_sequence H) \<and> sorted_wrt (<) (map ox_sequence (db_outbox db))
     \<and> (\<forall>r \<in> set H. ox_sequence r \<le> db_outbox_sequence db)
     \<and> (\<forall>pid. \<exists>k. outbox_of db pid = drop k (events_of H pid)
          \<and> (events_of H pid \<noteq> [] \<longrightarrow> k < length (events_of H pid)))"

lemma increasing_filter:
  "sorted_wrt (<) (map f xs) \<Longrightarrow> sorted_wrt (<) (map f (filter P xs))"
  for f :: "'a \<Rightarrow> nat"
  by (induction xs) auto

lemma newest_retained:
  fixes f :: "'a \<Rightarrow> nat"
  assumes "sorted_wrt (<) (map f xs)"
  shows "filter (\<lambda>r. int (length (filter (\<lambda>q. f r \<le> f q) xs)) \<le> n) xs
    = drop (nat (int (length xs) - n)) xs"
  using assms
proof (induction xs)
  case (Cons x xs)
  have all: "filter (\<lambda>q. f x \<le> f q) xs = xs"
    using Cons.prems by (intro filter_True) auto
  have "\<not> f r \<le> f x" if "r \<in> set xs" for r using Cons.prems that by auto
  then have "filter (\<lambda>r. int (length (filter (\<lambda>q. f r \<le> f q) (x # xs))) \<le> n) xs
      = filter (\<lambda>r. int (length (filter (\<lambda>q. f r \<le> f q) xs)) \<le> n) xs"
    by (intro filter_cong) auto
  moreover have "nat (1 + int (length xs) - n) - Suc 0 = nat (int (length xs) - n)" by simp
  ultimately show ?case
    using Cons all by (cases "int (length xs) + 1 \<le> n") (simp_all add: drop_Cons')
qed simp

lemma retained_of_project:
  assumes "sorted_wrt (<) (map ox_sequence rows)"
  shows "events_of (retained_rows n rows) pid
    = drop (nat (int (length (events_of rows pid)) - n)) (events_of rows pid)"
proof -
  have "events_of (retained_rows n rows) pid
      = filter (\<lambda>r. int (length (filter (\<lambda>q. ox_sequence r \<le> ox_sequence q) (events_of rows pid))) \<le> n)
          (events_of rows pid)"
    unfolding events_of_def retained_rows_def filter_filter by (intro filter_cong) auto
  also have "\<dots> = drop (nat (int (length (events_of rows pid)) - n)) (events_of rows pid)"
    by (intro newest_retained) (simp add: events_of_def increasing_filter assms)
  finally show ?thesis .
qed

lemma pruned_from_maintenance:
  assumes "pruned_from H db" and "maintenance_tx now retention db = Inr (v, db')"
  shows "pruned_from H db'"
proof -
  let ?n = "max 1 retention"
  have out: "db_outbox db' = retained_rows ?n (db_outbox db)"
    and count: "db_outbox_sequence db' = db_outbox_sequence db"
    using assms(2) by (auto simp: maintenance_tx_def Let_def result_simps update_uploads_def split: if_splits)
  have sorted: "sorted_wrt (<) (map ox_sequence (db_outbox db))"
    using assms(1) by (simp add: pruned_from_def)
  have suffix: "\<exists>k. outbox_of db' pid = drop k (events_of H pid)
      \<and> (events_of H pid \<noteq> [] \<longrightarrow> k < length (events_of H pid))" for pid
  proof -
    obtain k where k: "outbox_of db pid = drop k (events_of H pid)"
      "events_of H pid \<noteq> [] \<longrightarrow> k < length (events_of H pid)"
      using assms(1) unfolding pruned_from_def by blast
    let ?j = "nat (int (length (outbox_of db pid)) - ?n)"
    have "outbox_of db' pid = drop ?j (outbox_of db pid)"
      using retained_of_project [OF sorted, of ?n pid]
      by (simp add: outbox_of_def out flip: events_of_def)
    moreover have "?j < length (outbox_of db pid)" if "outbox_of db pid \<noteq> []"
      using that by (cases "outbox_of db pid") auto
    ultimately show ?thesis
      using k by (intro exI [of _ "?j + k"]) (auto simp: less_diff_conv)
  qed
  show ?thesis
    unfolding pruned_from_def
    using assms(1) suffix by (simp add: pruned_from_def out count retained_rows_def increasing_filter)
qed

lemma pruned_from_append:
  assumes "pruned_from H db" and "append_evidence L dr a ev db = Inr db'"
  shows "pruned_from (H @ [outbox_row_of dr ev db]) db'"
proof -
  let ?r = "outbox_row_of dr ev db"
  have out: "db_outbox db' = db_outbox db @ [?r]"
    and count: "db_outbox_sequence db' = Suc (db_outbox_sequence db)"
    using assms(2) by (auto simp: append_evidence_ok)
  have bound: "\<forall>r \<in> set H. ox_sequence r \<le> db_outbox_sequence db"
    using assms(1) by (simp add: pruned_from_def)
  have known: "r \<in> set H" if "r \<in> set (db_outbox db)" for r
  proof -
    obtain k where "outbox_of db (ox_project_id r) = drop k (events_of H (ox_project_id r))"
      using assms(1) unfolding pruned_from_def by blast
    moreover have "r \<in> set (outbox_of db (ox_project_id r))" using that by (simp add: outbox_of_def)
    ultimately show ?thesis using in_set_dropD by (fastforce simp: events_of_def)
  qed
  have suffix: "\<exists>k. outbox_of db' pid = drop k (events_of (H @ [?r]) pid)
      \<and> (events_of (H @ [?r]) pid \<noteq> [] \<longrightarrow> k < length (events_of (H @ [?r]) pid))" for pid
  proof -
    obtain k where k: "outbox_of db pid = drop k (events_of H pid)"
      "events_of H pid \<noteq> [] \<longrightarrow> k < length (events_of H pid)"
      using assms(1) unfolding pruned_from_def by blast
    show ?thesis
    proof (cases "events_of H pid = []")
      case True
      with k(1) have "outbox_of db pid = []" by simp
      with True show ?thesis by (intro exI [of _ 0]) (simp add: outbox_of_def out events_of_def)
    next
      case False
      with k show ?thesis
        by (intro exI [of _ k]) (simp add: outbox_of_def out events_of_def)
    qed
  qed
  show ?thesis
    unfolding pruned_from_def
    using assms(1) suffix bound known
    by (auto simp: pruned_from_def out count sorted_wrt_append less_Suc_eq_le intro: le_SucI)
qed

lemma pruned_from_same:
  "pruned_from H db \<Longrightarrow> db_outbox db' = db_outbox db
   \<Longrightarrow> db_outbox_sequence db' = db_outbox_sequence db \<Longrightarrow> pruned_from H db'"
  by (simp add: pruned_from_def outbox_of_def)

lemma first_sequence_sorted:
  assumes "sorted_wrt (<) (map ox_sequence (outbox_of db pid))"
  shows "first_sequence db pid
    = (case outbox_of db pid of [] \<Rightarrow> None | r # rs \<Rightarrow> Some (ox_sequence r))"
proof -
  have "sort (map ox_sequence (outbox_of db pid)) = map ox_sequence (outbox_of db pid)"
    by (rule sorted_sort_id) (rule strict_sorted_imp_sorted [OF assms])
  then show ?thesis by (simp add: first_sequence_def split: list.split)
qed

lemma page_rows:
  assumes "pruned_from H db" and "0 < after"
    and "\<not> (case first_sequence db pid of None \<Rightarrow> False | Some m \<Rightarrow> after < int m - 1)"
  shows "sort_key ox_sequence (filter (\<lambda>r. after < int (ox_sequence r)) (outbox_of db pid))
    = filter (\<lambda>r. after < int (ox_sequence r)) (events_of H pid)"
proof -
  let ?P = "\<lambda>r. after < int (ox_sequence r)"
  obtain k where k: "outbox_of db pid = drop k (events_of H pid)"
    "events_of H pid \<noteq> [] \<longrightarrow> k < length (events_of H pid)"
    using assms(1) unfolding pruned_from_def by blast
  have increasing: "sorted_wrt (<) (map ox_sequence (events_of H pid))"
    "sorted_wrt (<) (map ox_sequence (outbox_of db pid))"
    using assms(1) by (simp_all add: pruned_from_def events_of_def outbox_of_def increasing_filter)
  have "filter ?P (take k (events_of H pid)) = []"
  proof (cases "events_of H pid = []")
    case False
    with k(2) obtain r rs where rest: "drop k (events_of H pid) = r # rs"
      by (metis drop_eq_Nil list.exhaust not_le)
    then have first: "int (ox_sequence r) - 1 \<le> after"
      using assms(3) by (simp add: first_sequence_sorted [OF increasing(2)] k(1))
    have "sorted_wrt (<) (map ox_sequence (take k (events_of H pid) @ r # rs))"
      using increasing(1) by (metis append_take_drop_id rest)
    then have "\<forall>q \<in> set (take k (events_of H pid)). ox_sequence q < ox_sequence r"
      by (simp add: sorted_wrt_append)
    with first show ?thesis by (auto simp: filter_empty_conv)
  qed simp
  then have rows: "filter ?P (events_of H pid) = filter ?P (outbox_of db pid)"
    unfolding k(1) by (metis append_self_conv2 append_take_drop_id filter_append)
  have "sorted (map ox_sequence (filter ?P (outbox_of db pid)))"
    by (rule strict_sorted_imp_sorted) (rule increasing_filter [OF increasing(2)])
  then show ?thesis by (simp add: rows sort_key_id_if_sorted)
qed

section \<open>Maintenance keeps the rest\<close>

lemma maintenance_tx_ok:
  assumes "maintenance_tx now retention db = Inr ((paths, v), db')"
  shows "db' = db\<lparr>db_uploads := map (\<lambda>u. if expiring now u then u\<lparr>up_status := ''expired''\<rparr> else u)
        (db_uploads db),
      db_downloads := filter (\<lambda>d. \<not> dw_expires_at d \<le> now) (db_downloads db),
      db_idempotency := filter (\<lambda>r. \<not> ir_expires_at r \<le> now) (db_idempotency db),
      db_outbox := retained_rows (max 1 retention) (db_outbox db)\<rparr>
    \<and> paths = map up_temp_path (filter (expiring now) (db_uploads db))"
  using assms by (auto simp: maintenance_tx_def Let_def result_simps update_uploads_def split: if_splits)

lemma maintenance_store_ok:
  assumes ok: "store_ok L cfg db fs"
    and step: "maintenance now retention removable db fs = (Inr (v, db'), fs')"
  shows "store_ok L cfg db' fs'"
proof -
  obtain paths where tx: "maintenance_tx now retention db = Inr ((paths, v), db')"
    and fs': "fs' = (\<lambda>p. if p \<in> set paths \<and> removable p then None else fs p)"
    using step by (auto simp: maintenance_def split: sum.splits prod.splits)
  note shape = maintenance_tx_ok [OF tx]
  have "\<forall>p \<in> set paths. starts_with (hc_object_dir cfg @ ''/tmp/'') p"
    using ok shape by (auto simp: store_ok_def)
  then have "p \<notin> set paths" if "starts_with (hc_object_dir cfg @ ''/cas/'') p" for p
    using that cas_tmp_apart by blast
  then show ?thesis
    using ok shape by (intro store_ok_outside [OF ok]) (auto simp: store_ok_def fs')
qed

lemma maintenance_audit_ok:
  "audit_ok L db \<Longrightarrow> maintenance_tx now retention db = Inr ((paths, v), db') \<Longrightarrow> audit_ok L db'"
  by (drule maintenance_tx_ok) (simp add: audit_ok_def project_log_def)

text \<open>
  Two upload rows of one project and content hash cannot both be expired, so a second
  negotiation that was never completed makes every later run fail.
\<close>

lemma two_expired_conflict:
  assumes "u \<in> set (db_uploads db)" "w \<in> set (db_uploads db)" "u \<noteq> w"
    and "up_project_id u = up_project_id w" "up_expected_hash u = up_expected_hash w"
    and "up_status u = ''expired''" "expiring now w" "now \<le> now'"
  shows "maintenance_tx now' retention db = Inl hub_internal"
proof -
  let ?f = "\<lambda>u. if expiring now' u then u\<lparr>up_status := ''expired''\<rparr> else u"
  let ?key = "\<lambda>u. (up_project_id u, up_expected_hash u, up_status u)"
  have w: "expiring now' w" using assms(7,8) by (simp add: expiring_def)
  have u: "\<not> expiring now' u" using assms(6) by (simp add: expiring_def)
  have "?key (?f u) = ?key (?f w)" using u w assms(4-6) by simp
  then have "\<not> inj_on (\<lambda>u. ?key (?f u)) (set (db_uploads db))"
    using assms(1-3) by (meson inj_onD)
  then have "\<not> distinct (map (\<lambda>u. ?key (?f u)) (db_uploads db))" by (simp add: distinct_map)
  then have "\<not> upload_keys_distinct (map ?f (db_uploads db))"
    by (simp add: upload_keys_distinct_def comp_def)
  then show ?thesis by (simp add: maintenance_tx_def update_uploads_def Let_def)
qed

section \<open>Properties\<close>

text \<open>C27: An event cursor cannot be forged or altered: it is accepted, as the number \<open>n\<close>,
  exactly when it carries the keyed hash of \<open>n\<close>'s own cursor, so that every cursor the Hub
  signs reads back, and nothing else does but another spelling of the same number.\<close>

theorem cursors_authentic:
  assumes "hex_contract L"
  shows "(parse_cursor L cfg (Some c) = Inr n
      \<longleftrightarrow> (\<exists>s. parse_i64 s = Some n \<and> c = ''v1.'' @ s @ ''.'' @ cursor_mac L cfg n))
    \<and> (- (2 ^ 63) \<le> m \<and> m < 2 ^ 63 \<longrightarrow> parse_cursor L cfg (Some (sign_cursor L cfg m)) = Inr m)"
  using show_int_parses by (auto simp: parse_cursor_iff [OF assms] sign_cursor_eq)

definition wit_hex_lib :: hub_lib where
  "wit_hex_lib = \<lparr>hl_hex = (\<lambda>bs. concat (map (\<lambda>_. ''00'') bs)), hl_sha256 = id, hl_blake3 = id,
     hl_keyed_blake3 = (\<lambda>k m. replicate 32 0), hl_json_text = (\<lambda>_. ''j'')\<rparr>"

lemma wit_hex_contract: "hex_contract wit_hex_lib"
  by (simp add: hex_contract_def wit_hex_lib_def length_concat comp_def sum_list_triv)

lemma cursors_authentic_witness:
  "\<forall>cfg. parse_cursor wit_hex_lib cfg (Some (sign_cursor wit_hex_lib cfg 7)) = Inr 7"
proof
  fix cfg
  show "parse_cursor wit_hex_lib cfg (Some (sign_cursor wit_hex_lib cfg 7)) = Inr 7"
    using cursors_authentic [OF wit_hex_contract, of cfg "''x''" 0 7] by simp
qed

text \<open>Maintenance can stop for good: a negotiation that expires while an earlier one for the
  same content already has violates the key of the uploads table, and from then on every run
  fails and changes nothing, so that no expired transfer, idempotency record or event is ever
  removed again (and the startup, which runs maintenance first, fails as well).\<close>

theorem maintenance_blocked:
  assumes "u \<in> set (db_uploads db)" "w \<in> set (db_uploads db)" "u \<noteq> w"
    and "up_project_id u = up_project_id w" "up_expected_hash u = up_expected_hash w"
    and "up_status u = ''expired''" "expiring now w" "now \<le> later"
  shows "maintenance later retention removable db fs = (Inl hub_internal, fs)"
  using two_expired_conflict [OF assms] by (simp add: maintenance_def)

definition wit_upload :: "string \<Rightarrow> string \<Rightarrow> upload_row" where
  "wit_upload u status = \<lparr>up_id = u, up_project_id = ''prj_1'', up_expected_hash = ''x'',
     up_expected_size = 1, up_media_type = ''a/b'', up_token_hash = ''h'', up_temp_path = ''t'',
     up_status = status, up_actual_sha256 = None, up_expires_at = 5, up_created_by = ''ada'',
     up_created_at = 0\<rparr>"

lemma maintenance_blocked_witness:
  "let db = wit_hub\<lparr>db_uploads := [wit_upload ''u1'' ''expired'', wit_upload ''u2'' ''negotiated'']\<rparr>
   in maintenance 6 100 (\<lambda>_. True) db Map.empty = (Inl hub_internal, Map.empty)
     \<and> maintenance 9000 100 (\<lambda>_. True) db Map.empty = (Inl hub_internal, Map.empty)"
proof -
  let ?db = "wit_hub\<lparr>db_uploads := [wit_upload ''u1'' ''expired'', wit_upload ''u2'' ''negotiated'']\<rparr>"
  have "maintenance later 100 (\<lambda>_. True) ?db Map.empty = (Inl hub_internal, Map.empty)" if "6 \<le> later"
    for later
    by (rule maintenance_blocked [of "wit_upload ''u1'' ''expired''" _ "wit_upload ''u2'' ''negotiated''" 6])
      (use that in \<open>simp_all add: wit_upload_def expiring_def\<close>)
  then show ?thesis by (simp add: Let_def)
qed

text \<open>An event can miss the broadcast: only the latest event of a project is published after
  a mutation, so when a second mutation commits before the first one publishes, both publish the
  second event and the first is never sent to the connected streams.\<close>

theorem concurrent_event_unpublished:
  assumes "pruned_from H db"
    and "append_evidence L dr a ev db = Inr db1" "append_evidence L dr' a' ev' db1 = Inr db2"
    and "ev_project_id ev = pid" "ev_project_id ev' = pid"
  shows "\<exists>e. publish_latest L cfg db2 pid (publish_latest L cfg db2 pid sent) = sent @ [e, e]
    \<and> ee_id e = new_id ''evt'' (dr_event_uuid dr')
    \<and> ee_id e \<noteq> new_id ''evt'' (dr_event_uuid dr)"
proof -
  let ?r = "outbox_row_of dr' ev' db1"
  have out: "db_outbox db2 = db_outbox db1 @ [?r]"
    and fresh: "new_id ''evt'' (dr_event_uuid dr') \<notin> ox_id ` set (db_outbox db1)"
    using assms(3) by (auto simp: append_evidence_ok)
  have first: "outbox_row_of dr ev db \<in> set (db_outbox db1)"
    using assms(2) by (auto simp: append_evidence_ok)
  have "sorted_wrt (<) (map ox_sequence (db_outbox db2))"
    using pruned_from_append [OF pruned_from_append [OF assms(1,2)] assms(3)]
    by (simp add: pruned_from_def)
  then have "sorted (map ox_sequence (outbox_of db2 pid))"
    unfolding outbox_of_def by (intro strict_sorted_imp_sorted increasing_filter)
  then have "sort_key ox_sequence (outbox_of db2 pid) = outbox_of db1 pid @ [?r]"
    using assms(5) by (simp add: sort_key_id_if_sorted) (simp add: outbox_of_def out)
  then have "latest_event L cfg db2 pid = Some (envelope_from_row L cfg ?r)"
    by (simp add: latest_event_def)
  moreover have "new_id ''evt'' (dr_event_uuid dr') \<noteq> new_id ''evt'' (dr_event_uuid dr)"
    using fresh first by (metis image_eqI outbox_row_of_simps(2))
  ultimately show ?thesis
    by (intro exI [of _ "envelope_from_row L cfg ?r"]) (simp add: publish_latest_def envelope_from_row_def)
qed

definition wit_evidence :: evidence where
  "wit_evidence = \<lparr>ev_project_id = ''prj_1'', ev_action = ''a'', ev_aggregate_type = ''t'',
     ev_aggregate_id = ''i'', ev_category = ''c'', ev_event_type = ''e'', ev_details = JNull\<rparr>"

lemma wit_hub_pruned: "pruned_from [] wit_hub"
  by (simp add: pruned_from_def wit_hub_defs outbox_of_def events_of_def)

lemma concurrent_event_unpublished_witness:
  "\<forall>cfg. \<exists>db1 db2 e. append_evidence wit_hex_lib (wit_draws 1 ''u'') (wit_actor ''ada'') wit_evidence wit_hub
       = Inr db1
     \<and> append_evidence wit_hex_lib (wit_draws 2 ''v'') (wit_actor ''bob'') wit_evidence db1 = Inr db2
     \<and> publish_latest wit_hex_lib cfg db2 ''prj_1'' (publish_latest wit_hex_lib cfg db2 ''prj_1'' [])
       = [e, e] \<and> ee_id e = ''evt_v''"
proof
  fix cfg
  have "\<exists>db1. append_evidence wit_hex_lib (wit_draws 1 ''u'') (wit_actor ''ada'') wit_evidence wit_hub
      = Inr db1"
    by (simp add: append_evidence_ok wit_hub_defs)
  then obtain db1 where db1: "append_evidence wit_hex_lib (wit_draws 1 ''u'') (wit_actor ''ada'')
      wit_evidence wit_hub = Inr db1" ..
  then have "\<exists>db2. append_evidence wit_hex_lib (wit_draws 2 ''v'') (wit_actor ''bob'') wit_evidence db1
      = Inr db2"
    by (auto simp: append_evidence_ok wit_draws_def wit_hub_def empty_hub_def new_id_def)
  then obtain db2 where db2: "append_evidence wit_hex_lib (wit_draws 2 ''v'') (wit_actor ''bob'')
      wit_evidence db1 = Inr db2" ..
  have "ev_project_id wit_evidence = ''prj_1''" by (simp add: wit_evidence_def)
  note sent = concurrent_event_unpublished [OF wit_hub_pruned db1 db2 this this, of cfg "[]"]
  have "new_id ''evt'' (dr_event_uuid (wit_draws 2 ''v'')) = ''evt_v''"
    by (simp add: new_id_def wit_draws_def)
  with db1 db2 sent show "\<exists>db1 db2 e.
      append_evidence wit_hex_lib (wit_draws 1 ''u'') (wit_actor ''ada'') wit_evidence wit_hub = Inr db1
     \<and> append_evidence wit_hex_lib (wit_draws 2 ''v'') (wit_actor ''bob'') wit_evidence db1 = Inr db2
     \<and> publish_latest wit_hex_lib cfg db2 ''prj_1'' (publish_latest wit_hex_lib cfg db2 ''prj_1'' [])
       = [e, e] \<and> ee_id e = ''evt_v''" by auto
qed

end
