(* ===== verification/HubRun.thy ===== *)
theory HubRun
  imports HubArt HubReleases HubEvents
begin

text \<open>
  The Hub as a whole: every operation of the repository as a step on database and file system,
  runs of such steps from the empty schema, and the invariants all of them keep.

  A step is one completed transaction. The operation's separate authorization read an earlier
  database (\<open>db0\<close>), about which nothing is assumed, and the actor is any: what is shown here
  does not rest on authentication.
\<close>

section \<open>The operations' own effects\<close>

text \<open>What the operations do besides writing the log tables, at a clock reading \<open>now\<close>.\<close>

inductive domain_step ::
  "hub_lib \<Rightarrow> quotas \<Rightarrow> hub_config \<Rightarrow> 'u art_env \<Rightarrow> int \<Rightarrow> hub_db \<times> fs \<Rightarrow> hub_db \<times> fs \<Rightarrow> bool"
  for L Q cfg env now where
  dom_none: "domain_step L Q cfg env now (db, fs) (db, fs)"
| dom_bootstrap: "bootstrap_development_principal L dr token name db = Inr (v, db')
    \<Longrightarrow> domain_step L Q cfg env now (db, fs) (db', fs)"
| dom_create_project: "create_project_body dr a request db = Inr (v, ev, db')
    \<Longrightarrow> domain_step L Q cfg env now (db, fs) (db', fs)"
| dom_upsert_member: "upsert_member_body Q dr pid request db = Inr (v, ev, db')
    \<Longrightarrow> domain_step L Q cfg env now (db, fs) (db', fs)"
| dom_remove_member: "remove_member_body pid u db = Inr (v, ev, db')
    \<Longrightarrow> domain_step L Q cfg env now (db, fs) (db', fs)"
| dom_patch_project: "patch_project_body dr pid request db = Inr (v, ev, db')
    \<Longrightarrow> domain_step L Q cfg env now (db, fs) (db', fs)"
| dom_archive_project: "archive_project_body dr pid db = Inr (v, ev, db')
    \<Longrightarrow> domain_step L Q cfg env now (db, fs) (db', fs)"
| dom_acquire: "acquire_batch_body Q dr a pid request resources db = Inr (v, ev, db')
    \<Longrightarrow> distinct resources \<Longrightarrow> dr_now dr = now \<Longrightarrow> domain_step L Q cfg env now (db, fs) (db', fs)"
| dom_renew: "renew_lease_body dr a pid lease_id request db = Inr (v, ev, db')
    \<Longrightarrow> dr_now dr = now \<Longrightarrow> domain_step L Q cfg env now (db, fs) (db', fs)"
| dom_release: "domain_step L Q cfg env now (db, fs)
    (update_leases (releasable a pid lease_id force) (released t reason) db, fs)"
| dom_negotiate: "insert_upload (new_upload L cfg dr a pid request) db = Inr db'
    \<Longrightarrow> domain_step L Q cfg env now (db, fs) (db', fs)"
| dom_receive: "receive_upload L io now upload_id tok bytes db fs = (r, fs')
    \<Longrightarrow> db' = (case r of Inl e \<Rightarrow> db | Inr (v, db1) \<Rightarrow> db1)
    \<Longrightarrow> domain_step L Q cfg env now (db, fs) (db', fs')"
| dom_complete: "complete_body L cfg io dr pid upload_id request fs db = (r, fs')
    \<Longrightarrow> db' = db \<or> (\<exists>v ev. r = Inr (v, ev, db')) \<Longrightarrow> domain_step L Q cfg env now (db, fs) (db', fs')"
| dom_download: "insert_download row db = Inr db' \<Longrightarrow> domain_step L Q cfg env now (db, fs) (db', fs)"
| dom_create_build: "create_build_body dr a pid request db = Inr (v, ev, db')
    \<Longrightarrow> domain_step L Q cfg env now (db, fs) (db', fs)"
| dom_attempt: "add_attempt_body dr a pid build_id request db = Inr (v, ev, db')
    \<Longrightarrow> domain_step L Q cfg env now (db, fs) (db', fs)"
| dom_create_release: "create_release_body dr a pid
      (canonical_request_hash L (create_release_json request)) request db = Inr (v, ev, db')
    \<Longrightarrow> domain_step L Q cfg env now (db, fs) (db', fs)"
| dom_approve: "approve_release_body dr a pid release_id request db = Inr (v, ev, db')
    \<Longrightarrow> domain_step L Q cfg env now (db, fs) (db', fs)"
| dom_action: "action_states action = Inr (states, next_state)
    \<Longrightarrow> release_action_body dr pid release_id action states next_state request db = Inr (v, ev, db')
    \<Longrightarrow> domain_step L Q cfg env now (db, fs) (db', fs)"
| dom_propose: "create_proposal_body L cfg env fs dr a pid request resources hashes db = Inr (v, ev, db')
    \<Longrightarrow> domain_step L Q cfg env now (db, fs) (db', fs)"
| dom_review: "review_body dr a pid proposal_id request db = Inr (v, ev, db')
    \<Longrightarrow> domain_step L Q cfg env now (db, fs) (db', fs)"
| dom_accept: "accept_body L cfg env fs dr a pid proposal_id expected_head db = Inr (v, ev, db')
    \<Longrightarrow> domain_step L Q cfg env now (db, fs) (db', fs)"
| dom_reject: "reject_body dr pid proposal_id reason db = Inr (v, ev, db')
    \<Longrightarrow> domain_step L Q cfg env now (db, fs) (db', fs)"

section \<open>The operations of the repository\<close>

inductive repo_step ::
  "hub_lib \<Rightarrow> quotas \<Rightarrow> hub_config \<Rightarrow> 'u art_env \<Rightarrow> int \<Rightarrow> hub_db \<times> fs \<Rightarrow> hub_db \<times> fs \<Rightarrow> bool"
  for L Q cfg env now where
  op_bootstrap: "bootstrap_development_principal L dr token name db = Inr (v, db')
    \<Longrightarrow> repo_step L Q cfg env now (db, fs) (db', fs)"
| op_create_project: "create_project L dr a key request db = Inr (v, db')
    \<Longrightarrow> repo_step L Q cfg env now (db, fs) (db', fs)"
| op_upsert_member: "upsert_member L Q dr db0 a pid key request db = Inr (v, db')
    \<Longrightarrow> repo_step L Q cfg env now (db, fs) (db', fs)"
| op_remove_member: "remove_member L dr db0 a pid u key db = Inr (v, db')
    \<Longrightarrow> repo_step L Q cfg env now (db, fs) (db', fs)"
| op_patch_project: "patch_project L dr db0 a pid key request db = Inr (v, db')
    \<Longrightarrow> repo_step L Q cfg env now (db, fs) (db', fs)"
| op_archive_project: "archive_project L dr db0 a pid key db = Inr (v, db')
    \<Longrightarrow> repo_step L Q cfg env now (db, fs) (db', fs)"
| op_acquire: "acquire_lease_batch L Q dr db0 a pid key request route db = Inr (v, db')
    \<Longrightarrow> dr_now dr = now \<Longrightarrow> repo_step L Q cfg env now (db, fs) (db', fs)"
| op_acquire_one: "acquire_lease L Q dr db0 a pid key single db = Inr (v, db')
    \<Longrightarrow> dr_now dr = now \<Longrightarrow> repo_step L Q cfg env now (db, fs) (db', fs)"
| op_renew: "renew_lease L dr db0 a pid lease_id key request db = Inr (v, db')
    \<Longrightarrow> dr_now dr = now \<Longrightarrow> repo_step L Q cfg env now (db, fs) (db', fs)"
| op_release: "release_lease L dr db0 a pid lease_id reason force db = Inr (v, db')
    \<Longrightarrow> repo_step L Q cfg env now (db, fs) (db', fs)"
| op_negotiate_upload: "negotiate_upload L Q cfg dr db0 a pid key request db = Inr (v, db')
    \<Longrightarrow> repo_step L Q cfg env now (db, fs) (db', fs)"
| op_receive: "receive_upload L io now upload_id tok bytes db fs = (r, fs')
    \<Longrightarrow> db' = (case r of Inl e \<Rightarrow> db | Inr (v, db1) \<Rightarrow> db1)
    \<Longrightarrow> repo_step L Q cfg env now (db, fs) (db', fs')"
| op_complete: "complete_upload L cfg io dr db0 a pid upload_id key request db fs = (r, fs')
    \<Longrightarrow> db' = (case r of Inl e \<Rightarrow> db | Inr (v, db1) \<Rightarrow> db1)
    \<Longrightarrow> repo_step L Q cfg env now (db, fs) (db', fs')"
| op_download: "negotiate_download L cfg dr secret db0 db1 a pid hash db = Inr (v, db')
    \<Longrightarrow> repo_step L Q cfg env now (db, fs) (db', fs)"
| op_create_build: "create_build L dr db0 a pid key request db = Inr (v, db')
    \<Longrightarrow> repo_step L Q cfg env now (db, fs) (db', fs)"
| op_attempt: "add_build_attempt L dr db0 a pid build_id key request db = Inr (v, db')
    \<Longrightarrow> repo_step L Q cfg env now (db, fs) (db', fs)"
| op_create_release: "create_hub_release L dr db0 a pid key request db = Inr (v, db')
    \<Longrightarrow> repo_step L Q cfg env now (db, fs) (db', fs)"
| op_approve: "approve_release L dr db0 a pid release_id key request db = Inr (v, db')
    \<Longrightarrow> repo_step L Q cfg env now (db, fs) (db', fs)"
| op_action: "release_action L dr db0 a pid release_id action key request db = Inr (v, db')
    \<Longrightarrow> repo_step L Q cfg env now (db, fs) (db', fs)"
| op_propose: "create_art_proposal L cfg env fs dr db0 a pid key request db = Inr (v, db')
    \<Longrightarrow> repo_step L Q cfg env now (db, fs) (db', fs)"
| op_review: "review_art_proposal L dr db0 a pid proposal_id key request db = Inr (v, db')
    \<Longrightarrow> repo_step L Q cfg env now (db, fs) (db', fs)"
| op_accept: "accept_art_proposal L cfg env fs dr db0 a pid proposal_id key expected_head db = Inr (v, db')
    \<Longrightarrow> repo_step L Q cfg env now (db, fs) (db', fs)"
| op_reject: "reject_art_proposal L dr db0 a pid proposal_id key reason db = Inr (v, db')
    \<Longrightarrow> repo_step L Q cfg env now (db, fs) (db', fs)"

section \<open>What an operation does to the log\<close>

definition log_step :: "hub_lib \<Rightarrow> hub_db \<Rightarrow> hub_db \<Rightarrow> bool" where
  "log_step L db db' \<longleftrightarrow>
     (audit_ok L db \<longrightarrow> audit_ok L db') \<and> log_extends db db'
     \<and> (\<exists>new. db_outbox db' = db_outbox db @ new
          \<and> (\<forall>H. pruned_from H db \<longrightarrow> pruned_from (H @ new) db'))"

definition relogged :: "hub_db \<Rightarrow> hub_db \<Rightarrow> bool" where
  "relogged db db' \<longleftrightarrow> (\<exists>au n ox m ir. db' = relog au n ox m ir db)"

lemma relogged_refl: "relogged db db"
  unfolding relogged_def by (intro exI [of _ "db_audit db"] exI [of _ "db_audit_sequence db"]
      exI [of _ "db_outbox db"] exI [of _ "db_outbox_sequence db"] exI [of _ "db_idempotency db"])
    (simp add: relog_def)

lemma log_stepI:
  assumes "audit_ok L db \<Longrightarrow> audit_ok L db'" "log_extends db db'" "db_outbox db' = db_outbox db @ new"
    and "\<And>H. pruned_from H db \<Longrightarrow> pruned_from (H @ new) db'"
  shows "log_step L db db'"
  unfolding log_step_def using assms by blast

lemma audit_ok_same:
  "db_audit db' = db_audit db \<Longrightarrow> db_audit_sequence db' = db_audit_sequence db
   \<Longrightarrow> audit_ok L db \<Longrightarrow> audit_ok L db'"
  by (simp add: audit_ok_def project_log_def)

lemma log_step_same:
  assumes "same_log db db'"
  shows "log_step L db db'"
proof (rule log_stepI [where new = "[]"])
  have eqs: "db_audit db' = db_audit db" "db_audit_sequence db' = db_audit_sequence db"
    "db_outbox db' = db_outbox db" "db_outbox_sequence db' = db_outbox_sequence db"
    "db_idempotency db' = db_idempotency db"
    using assms unfolding same_log_def by blast+
  show "audit_ok L db \<Longrightarrow> audit_ok L db'" by (rule audit_ok_same) (rule eqs, rule eqs, assumption)
  show "log_extends db db'" by (simp add: log_extends_def eqs(1,5))
  show "db_outbox db' = db_outbox db @ []" by (simp add: eqs(3))
  show "pruned_from (H @ []) db'" if "pruned_from H db" for H
    using pruned_from_same [OF that eqs(3,4)] by simp
qed

lemma log_step_trans:
  assumes "log_step L a b" "log_step L b c"
  shows "log_step L a c"
proof -
  obtain m n where out: "db_outbox b = db_outbox a @ m" "db_outbox c = db_outbox b @ n"
    and m: "\<And>H. pruned_from H a \<Longrightarrow> pruned_from (H @ m) b"
    and n: "\<And>H. pruned_from H b \<Longrightarrow> pruned_from (H @ n) c"
    using assms unfolding log_step_def by blast
  show ?thesis
  proof (rule log_stepI [where new = "m @ n"])
    show "pruned_from (H @ m @ n) c" if "pruned_from H a" for H using n [OF m [OF that]] by simp
  qed (use assms out in \<open>auto simp: log_step_def intro: log_extends_trans\<close>)
qed

lemma log_step_append:
  assumes "append_evidence L dr a ev db = Inr db'"
  shows "log_step L db db'"
proof (rule log_stepI [where new = "[outbox_row_of dr ev db]"])
  show "db_outbox db' = db_outbox db @ [outbox_row_of dr ev db]"
    using assms by (simp add: append_evidence_ok)
qed (use assms pruned_from_append append_evidence_audit_ok append_evidence_extends in blast)+

lemma log_step_store:
  assumes "store_idempotency dr a scope route key h answer db = Inr db'"
  shows "log_step L db db'"
proof (rule log_stepI [where new = "[]"])
  show out: "db_outbox db' = db_outbox db @ []"
    using assms by (simp add: store_idempotency_ok)
  show "pruned_from (H @ []) db'" if "pruned_from H db" for H
    using pruned_from_same [OF that] assms by (simp add: store_idempotency_ok)
  show "log_extends db db'" using assms by (simp add: store_idempotency_ok log_extends_def)
  show "audit_ok L db \<Longrightarrow> audit_ok L db'" using store_idempotency_audit_ok [OF assms] by blast
qed

context hub_mutation
begin

lemma log_step:
  assumes "idempotent_mutation L dr a scope route key h expect answer body db = Inr (v, db')"
  shows "log_step L db db'"
  using assms
proof (cases rule: mutation_cases)
  case replay
  then show ?thesis by (simp add: log_step_same same_log_def)
next
  case (fresh ev db1 db2)
  show ?thesis
    using log_step_same [OF body_same_log [OF fresh(1)]] log_step_append [OF fresh(3)]
      log_step_store [OF fresh(4)] log_step_trans by metis
qed

text \<open>A mutation is its own effect, or nothing, with new log tables.\<close>

lemma effect:
  assumes "idempotent_mutation L dr a scope route key h expect answer body db = Inr (v, db')"
    and "\<And>v ev db1. body db = Inr (v, ev, db1) \<Longrightarrow> D db1" and "D db"
  shows "log_step L db db' \<and> (\<exists>db1. D db1 \<and> relogged db1 db')"
  using assms(1)
proof (cases rule: mutation_shape)
  case replay
  then show ?thesis using assms(3) log_step [OF assms(1)] relogged_refl by blast
next
  case (fresh ev db1 au n ox m ir)
  then have "relogged db1 db'" unfolding relogged_def by blast
  with assms(2) [OF fresh(1)] log_step [OF assms(1)] show ?thesis by blast
qed

end

lemma bootstrap_cases:
  assumes "bootstrap_development_principal L dr token name db = Inr (v, db')"
  obtains "db' = db"
  | p t where "db' = db\<lparr>db_principals := db_principals db @ [p], db_tokens := db_tokens db @ [t]\<rparr>"
  using assms by (auto simp: bootstrap_development_principal_def Let_def split: if_splits option.splits)

lemma log_step_bootstrap:
  assumes "bootstrap_development_principal L dr token name db = Inr (v, db')"
  shows "log_step L db db'"
  using assms
proof (cases rule: bootstrap_cases)
  case 1
  then show ?thesis by (simp add: log_step_same same_log_def)
next
  case (2 p t)
  then show ?thesis
    by (intro log_stepI [where new = "[]"])
      (auto simp: audit_ok_def project_log_def log_extends_def intro: pruned_from_same)
qed

lemma relogged_append: "append_evidence L dr a ev db = Inr db' \<Longrightarrow> relogged db db'"
  unfolding relogged_def
  by (intro exI [of _ "db_audit db'"] exI [of _ "db_audit_sequence db'"] exI [of _ "db_outbox db'"]
      exI [of _ "db_outbox_sequence db'"] exI [of _ "db_idempotency db'"])
    (auto simp: append_evidence_ok relog_def)

lemma relogged_store: "store_idempotency dr a scope route key h answer db = Inr db' \<Longrightarrow> relogged db db'"
  unfolding relogged_def
  by (intro exI [of _ "db_audit db'"] exI [of _ "db_audit_sequence db'"] exI [of _ "db_outbox db'"]
      exI [of _ "db_outbox_sequence db'"] exI [of _ "db_idempotency db'"])
    (auto simp: store_idempotency_ok relog_def)

lemma relog_relog [simp]: "relog au n ox m ir (relog au' n' ox' m' ir' db) = relog au n ox m ir db"
  by (simp add: relog_def)

lemma relogged_trans: "relogged a b \<Longrightarrow> relogged b c \<Longrightarrow> relogged a c"
  unfolding relogged_def by (elim exE) (simp only: relog_relog, blast)

lemma negotiate_effect:
  assumes "negotiate_tx L Q cfg dr a pid key h request db = Inr (v, db')"
  shows "log_step L db db' \<and> (\<exists>db1. domain_step L Q cfg env now (db, fs) (db1, fs) \<and> relogged db1 db')"
  using assms
proof (cases rule: negotiate_tx_cases)
  case replay
  then show ?thesis using relogged_refl by (auto simp: log_step_same same_log_def intro: dom_none)
next
  case (present r)
  from present(2) show ?thesis using log_step_store relogged_store by (blast intro: dom_none)
next
  case (upload row db1 db2)
  have "log_step L db db1"
    using upload(2) by (intro log_step_same) (auto simp: insert_upload_ok same_log_def)
  moreover have "log_step L db1 db'"
    by (rule log_step_trans [OF log_step_append [OF upload(3)] log_step_store [OF upload(4)]])
  moreover have "relogged db1 db'"
    by (rule relogged_trans [OF relogged_append [OF upload(3)] relogged_store [OF upload(4)]])
  moreover have "domain_step L Q cfg env now (db, fs) (db1, fs)"
    using upload(1,2) by (blast intro: dom_negotiate)
  ultimately show ?thesis using log_step_trans by blast
qed

lemma release_effect:
  assumes "release_lease L dr db0 a pid lease_id reason force db = Inr (v, db')"
  shows "log_step L db db' \<and> (\<exists>db1. domain_step L Q cfg env now (db, fs) (db1, fs) \<and> relogged db1 db')"
  using assms
proof (cases rule: release_lease_cases)
  case (1 role)
  let ?db1 = "update_leases (releasable a pid lease_id force) (released (dr_now dr) reason) db"
  have "log_step L db ?db1" by (intro log_step_same) simp
  then have "log_step L db db'" using log_step_append [OF 1(1)] by (rule log_step_trans)
  moreover have "domain_step L Q cfg env now (db, fs) (?db1, fs)" by (rule dom_release)
  ultimately show ?thesis using relogged_append [OF 1(1)] by blast
qed

lemma receive_effect:
  assumes "receive_upload L io now upload_id tok bytes db fs = (r, fs')"
    and "db' = (case r of Inl e \<Rightarrow> db | Inr (v, db1) \<Rightarrow> db1)"
  shows "log_step L db db' \<and> (\<exists>db1. domain_step L Q cfg env now (db, fs) (db1, fs') \<and> relogged db1 db')"
proof -
  have "same_log db db'"
    using assms by (auto simp: receive_upload_def Let_def update_uploads_ok result_simps same_log_def
        split: sum.splits option.splits if_splits)
  moreover have "domain_step L Q cfg env now (db, fs) (db', fs')" using assms by (rule dom_receive)
  ultimately show ?thesis using log_step_same relogged_refl by blast
qed

lemma complete_effect:
  assumes step: "complete_upload L cfg io dr db0 a pid upload_id key request db fs = (r, fs')"
    and db': "db' = (case r of Inl e \<Rightarrow> db | Inr (v, db1) \<Rightarrow> db1)"
  shows "log_step L db db' \<and> (\<exists>db1. domain_step L Q cfg env now (db, fs) (db1, fs') \<and> relogged db1 db')"
proof -
  let ?h = "canonical_request_hash L (complete_json request)"
  let ?body = "complete_body L cfg io dr pid upload_id request fs db"
  obtain res fs1 where body: "?body = (res, fs1)" by fastforce
  have fs': "fs' = fs1 \<or> fs' = fs"
    using step body by (auto simp: complete_upload_def Let_def split: if_splits)
  have unchanged: "domain_step L Q cfg env now (db, fs) (db, fs')"
    using fs' dom_none dom_complete [OF body] by blast
  show ?thesis
  proof (cases r)
    case (Inl e)
    then show ?thesis
      using unchanged relogged_refl by (auto simp: db' log_step_same same_log_def)
  next
    case (Inr p)
    then have r: "r = Inr (fst p, db')" by (simp add: db' split: prod.splits)
    have mut: "idempotent_mutation L dr a pid ''uploads.complete'' key ?h expect_object RObject
        (\<lambda>db. fst (complete_body L cfg io dr pid upload_id request fs db)) db = Inr (fst p, db')"
      using step r by (auto simp: complete_upload_def Let_def result_simps)
    then have log: "log_step L db db'" by (rule complete_upload.log_step)
    from mut show ?thesis
    proof (cases rule: mutation_cases)
      case replay
      then show ?thesis using log unchanged relogged_refl by blast
    next
      case (fresh ev db1 db2)
      have "check_idempotency db a pid ''uploads.complete'' key ?h expect_object = Inr None"
        using fresh(2) by (simp add: check_idempotency_None)
      then have "fs' = fs1"
        using step r body by (auto simp: complete_upload_def Let_def is_ok_iff result_simps split: if_splits)
      moreover have "\<exists>v ev. res = Inr (v, ev, db1)" using fresh(1) body by auto
      ultimately have "domain_step L Q cfg env now (db, fs) (db1, fs')"
        using dom_complete [OF body, of db1] by blast
      moreover have "relogged db1 db'"
        using fresh(3,4) relogged_append relogged_store relogged_trans by blast
      ultimately show ?thesis using log by blast
    qed
  qed
qed

lemma acquire_effect:
  assumes "acquire_lease_batch L Q dr db0 a pid key request route db = Inr (v, db')" "dr_now dr = now"
  shows "log_step L db db' \<and> (\<exists>db1. domain_step L Q cfg env now (db, fs) (db1, fs) \<and> relogged db1 db')"
proof -
  obtain resources where "sorted_unique (aq_resource_ids request) ''resourceIds'' = Inr resources"
    and mut: "idempotent_mutation L dr a pid route key
         (canonical_request_hash L (acquire_batch_json request)) expect_leases RLeases
         (acquire_batch_body Q dr a pid request resources) db = Inr (v, db')"
    using assms(1) by (auto simp: acquire_lease_batch_def result_simps split: if_splits)
  then have "distinct resources" by (auto simp: sorted_unique_ok)
  then show ?thesis
    by (intro acquire_batch.effect [OF mut]) (use assms(2) in \<open>blast intro: dom_acquire dom_none\<close>)+
qed

lemma repo_step_effect:
  assumes "repo_step L Q cfg env now (db, fs) (db', fs')"
  shows "log_step L db db' \<and> (\<exists>db1. domain_step L Q cfg env now (db, fs) (db1, fs') \<and> relogged db1 db')"
  using assms
proof (cases rule: repo_step.cases)
  case (op_bootstrap dr token name v)
  then show ?thesis
    using log_step_bootstrap [OF op_bootstrap(2)] dom_bootstrap [OF op_bootstrap(2)] relogged_refl by blast
next
  case (op_acquire dr db0 a pid key request route v)
  then show ?thesis using acquire_effect [OF op_acquire(2,3)] by simp
next
  case (op_acquire_one dr db0 a pid key single v)
  then show ?thesis using acquire_effect [OF op_acquire_one(2) [unfolded acquire_lease_def] op_acquire_one(3)] by simp
next
  case (op_release dr db0 a pid lease_id reason force v)
  then show ?thesis using release_effect [OF op_release(2)] by simp
next
  case (op_negotiate_upload dr db0 a pid key request v)
  then have "negotiate_tx L Q cfg dr a pid key (canonical_request_hash L (negotiate_json request)) request db
      = Inr (v, db')"
    by (auto simp: negotiate_upload_def result_simps split: if_splits)
  from negotiate_effect [OF this] show ?thesis by (simp add: op_negotiate_upload(1))
next
  case (op_receive io upload_id tok bytes r)
  then show ?thesis by (rule receive_effect)
next
  case (op_complete io dr db0 a pid upload_id key request r)
  then show ?thesis by (rule complete_effect)
next
  case (op_download dr secret db0 db1 a pid hash v)
  then obtain row where row: "insert_download row db = Inr db'"
    by (auto simp: negotiate_download_def Let_def result_simps)
  have "same_log db db'" using row by (auto simp: insert_download_def same_log_def split: if_splits)
  then show ?thesis
    using log_step_same relogged_refl dom_download [OF row] by (metis op_download(1))
next
  case (op_create_project dr a key request v)
  then show ?thesis
    unfolding create_project_def
    by (clarsimp simp only: result_simps Let_def split: if_splits)
      (erule create_project.effect;
        blast intro: domain_step.intros)
next
  case (op_upsert_member dr db0 a pid key request v)
  then show ?thesis
    unfolding upsert_member_def
    by (clarsimp simp only: result_simps Let_def split: if_splits)
      (erule upsert_member.effect;
        blast intro: domain_step.intros)
next
  case (op_remove_member dr db0 a pid u key v)
  then show ?thesis
    unfolding remove_member_def
    by (clarsimp simp only: result_simps Let_def split: if_splits)
      (erule remove_member.effect;
        blast intro: domain_step.intros)
next
  case (op_patch_project dr db0 a pid key request v)
  then show ?thesis
    unfolding patch_project_def
    by (clarsimp simp only: result_simps Let_def split: if_splits)
      (erule patch_project.effect;
        blast intro: domain_step.intros)
next
  case (op_archive_project dr db0 a pid key v)
  then show ?thesis
    unfolding archive_project_def
    by (clarsimp simp only: result_simps Let_def split: if_splits)
      (erule archive_project.effect;
        blast intro: domain_step.intros)
next
  case (op_renew dr db0 a pid lease_id key request v)
  then show ?thesis
    unfolding renew_lease_def
    by (clarsimp simp only: result_simps Let_def split: if_splits)
      (erule renew_lease.effect;
        blast intro: domain_step.intros)
next
  case (op_create_build dr db0 a pid key request v)
  then show ?thesis
    unfolding create_build_def
    by (clarsimp simp only: result_simps Let_def split: if_splits)
      (erule create_build.effect;
        blast intro: domain_step.intros)
next
  case (op_attempt dr db0 a pid build_id key request v)
  then show ?thesis
    unfolding add_build_attempt_def
    by (clarsimp simp only: result_simps Let_def split: if_splits)
      (erule add_attempt.effect;
        blast intro: domain_step.intros)
next
  case (op_create_release dr db0 a pid key request v)
  then show ?thesis
    unfolding create_hub_release_def
    by (clarsimp simp only: result_simps Let_def split: if_splits)
      (erule create_release.effect;
        blast intro: domain_step.intros)
next
  case (op_approve dr db0 a pid release_id key request v)
  then show ?thesis
    unfolding approve_release_def
    by (clarsimp simp only: result_simps Let_def split: if_splits)
      (erule approve_release.effect;
        blast intro: domain_step.intros)
next
  case (op_action dr db0 a pid release_id action key request v)
  then show ?thesis
    unfolding release_action_def
    by (clarsimp simp only: result_simps Let_def split: if_splits)
      (erule release_action.effect;
        blast intro: domain_step.intros)
next
  case (op_propose dr db0 a pid key request v)
  then show ?thesis
    unfolding create_art_proposal_def
    by (clarsimp simp only: result_simps Let_def split: if_splits)
      (erule create_proposal.effect;
        blast intro: domain_step.intros)
next
  case (op_review dr db0 a pid proposal_id key request v)
  then show ?thesis
    unfolding review_art_proposal_def
    by (clarsimp simp only: result_simps Let_def split: if_splits)
      (erule review_proposal.effect;
        blast intro: domain_step.intros)
next
  case (op_accept dr db0 a pid proposal_id key expected_head v)
  then show ?thesis
    unfolding accept_art_proposal_def
    by (clarsimp simp only: result_simps Let_def split: if_splits)
      (erule accept_proposal.effect;
        blast intro: domain_step.intros)
next
  case (op_reject dr db0 a pid proposal_id key reason v)
  then show ?thesis
    unfolding reject_art_proposal_def
    by (clarsimp simp only: result_simps Let_def split: if_splits)
      (erule reject_proposal.effect;
        blast intro: domain_step.intros)
qed

section \<open>Which tables each operation touches\<close>

abbreviation people :: "hub_db \<Rightarrow> project_row list \<times> membership_row list \<times> principal_row list" where
  "people db \<equiv> (db_projects db, db_memberships db, db_principals db)"

abbreviation art_tables :: "hub_db \<Rightarrow> channel_row list \<times> hub_revision list \<times> art_proposal list" where
  "art_tables db \<equiv> (db_channels db, db_revisions db, db_proposals db)"

abbreviation release_tables :: "hub_db \<Rightarrow> hub_release list \<times> release_approval list" where
  "release_tables db \<equiv> (db_releases db, db_approvals db)"

named_theorems shapes "the record update an operation's body amounts to"

lemma bootstrap_shape [shapes]:
  "bootstrap_development_principal L dr token name db = Inr (v, db')
   \<Longrightarrow> \<exists>p t. db' = db\<lparr>db_principals := db_principals db @ p, db_tokens := t\<rparr>"
  by (erule bootstrap_cases)
    ((intro exI [of _ "[]"] exI [of _ "db_tokens db"], simp), blast)

lemma create_project_shape [shapes]:
  "create_project_body dr a request db = Inr (v, ev, db')
   \<Longrightarrow> \<exists>p c m. db' = db\<lparr>db_projects := p, db_channels := c, db_memberships := m\<rparr>"
  by (erule create_project_body_cases)
    (auto simp: insert_channel_def insert_membership_def split: if_splits)

lemma upsert_member_shape [shapes]:
  "upsert_member_body Q dr pid request db = Inr (v, ev, db') \<Longrightarrow> \<exists>m. db' = db\<lparr>db_memberships := m\<rparr>"
  by (auto simp: upsert_member_body_def upsert_membership_def insert_membership_def Let_def result_simps
      split: if_splits option.splits)

lemma remove_member_shape [shapes]:
  "remove_member_body pid u db = Inr (v, ev, db') \<Longrightarrow> \<exists>m. db' = db\<lparr>db_memberships := m\<rparr>"
  by (auto simp: remove_member_body_def Let_def result_simps split: if_splits)

lemma update_project_shape [shapes]:
  "update_project hit change text pid db = Inr (v, db')
   \<Longrightarrow> db' = db\<lparr>db_projects := map (\<lambda>p. if hit p then change p else p) (db_projects db)\<rparr>"
  by (auto simp: update_project_def Let_def result_simps split: if_splits)

lemma patch_project_shape [shapes]:
  "patch_project_body dr pid request db = Inr (v, ev, db') \<Longrightarrow> \<exists>p. db' = db\<lparr>db_projects := p\<rparr>"
  by (auto simp: patch_project_body_def result_simps dest!: update_project_shape)

lemma archive_project_shape [shapes]:
  "archive_project_body dr pid db = Inr (v, ev, db') \<Longrightarrow> \<exists>p. db' = db\<lparr>db_projects := p\<rparr>"
  by (auto simp: archive_project_body_def result_simps Let_def dest!: update_project_shape)

lemma acquire_batch_shape [shapes]:
  "acquire_batch_body Q dr a pid request resources db = Inr (v, ev, db')
   \<Longrightarrow> \<exists>l. db' = db\<lparr>db_leases := l\<rparr>"
  by (erule acquire_batch_body_cases) blast

lemma renew_lease_shape [shapes]:
  "renew_lease_body dr a pid lease_id request db = Inr (v, ev, db') \<Longrightarrow> \<exists>l. db' = db\<lparr>db_leases := l\<rparr>"
  by (erule renew_lease_body_cases) (auto simp: update_leases_def)

lemma insert_upload_shape [shapes]:
  "insert_upload r db = Inr db' \<Longrightarrow> db' = db\<lparr>db_uploads := db_uploads db @ [r]\<rparr>"
  by (auto simp: insert_upload_def split: if_splits)

lemma receive_shape [shapes]:
  "receive_upload L io now upload_id tok bytes db fs = (Inr (v, db'), fs')
   \<Longrightarrow> \<exists>u. db' = db\<lparr>db_uploads := u\<rparr>"
  by (auto simp: receive_upload_def Let_def update_uploads_def result_simps
      split: sum.splits option.splits if_splits)

lemma complete_shape [shapes]:
  "complete_body L cfg io dr pid upload_id request fs db = (Inr (v, ev, db'), fs')
   \<Longrightarrow> \<exists>ob u po. db' = db\<lparr>db_objects := ob, db_project_objects := po, db_uploads := u\<rparr>"
  by (erule complete_body_cases, erule record_object_cases,
      intro exI [of _ "db_objects db'"] exI [of _ "db_uploads db'"] exI [of _ "db_project_objects db'"])
    (simp add: insert_object_or_ignore_def)

lemma insert_download_shape [shapes]:
  "insert_download row db = Inr db' \<Longrightarrow> db' = db\<lparr>db_downloads := db_downloads db @ [row]\<rparr>"
  by (auto simp: insert_download_def split: if_splits)

lemma create_build_shape [shapes]:
  "create_build_body dr a pid request db = Inr (v, ev, db') \<Longrightarrow> \<exists>b. db' = db\<lparr>db_builds := b\<rparr>"
  by (auto simp: create_build_body_def insert_build_def Let_def result_simps split: if_splits)

lemma add_attempt_shape [shapes]:
  "add_attempt_body dr a pid build_id request db = Inr (v, ev, db')
   \<Longrightarrow> \<exists>b t. db' = db\<lparr>db_attempts := t, db_builds := b\<rparr>"
  by (auto simp: add_attempt_body_def insert_attempt_def Let_def result_simps split: if_splits)

lemma create_release_shape [shapes]:
  "create_release_body dr a pid h request db = Inr (v, ev, db') \<Longrightarrow> \<exists>r. db' = db\<lparr>db_releases := r\<rparr>"
  by (erule create_release_body_cases) blast

lemma approve_release_shape [shapes]:
  "approve_release_body dr a pid release_id request db = Inr (v, ev, db')
   \<Longrightarrow> \<exists>r x. db' = db\<lparr>db_approvals := x, db_releases := r\<rparr>"
  by (erule approve_release_body_cases) blast

lemma release_action_shape [shapes]:
  "release_action_body dr pid release_id action states next_state request db = Inr (v, ev, db')
   \<Longrightarrow> \<exists>r. db' = db\<lparr>db_releases := r\<rparr>"
  by (erule release_action_body_cases) blast

lemma create_proposal_shape [shapes]:
  "create_proposal_body L cfg env fs dr a pid request resources hashes db = Inr (v, ev, db')
   \<Longrightarrow> \<exists>p. db' = db\<lparr>db_proposals := p\<rparr>"
  by (erule create_proposal_body_cases) blast

lemma review_shape [shapes]:
  "review_body dr a pid proposal_id request db = Inr (v, ev, db') \<Longrightarrow> \<exists>r. db' = db\<lparr>db_reviews := r\<rparr>"
  by (erule review_body_cases) blast

lemma accept_shape [shapes]:
  "accept_body L cfg env fs dr a pid proposal_id expected_head db = Inr (v, ev, db')
   \<Longrightarrow> \<exists>r c p l. db' = db\<lparr>db_revisions := r, db_channels := c, db_proposals := p, db_leases := l\<rparr>"
  by (erule accept_body_cases) blast

lemma reject_shape [shapes]:
  "reject_body dr pid proposal_id reason db = Inr (v, ev, db') \<Longrightarrow> \<exists>p. db' = db\<lparr>db_proposals := p\<rparr>"
  by (erule reject_body_cases) blast

section \<open>Each operation keeps the invariants\<close>

subsection \<open>Members\<close>

lemma members_ok_people: "people db' = people db \<Longrightarrow> members_ok db' = members_ok db"
  by (simp add: members_ok_def)

lemma patch_project_members_ok:
  "members_ok db \<Longrightarrow> patch_project_body dr pid request db = Inr (v, ev, db') \<Longrightarrow> members_ok db'"
  by (auto simp: patch_project_body_def result_simps intro: update_project_members_ok)

lemma archive_project_members_ok:
  "members_ok db \<Longrightarrow> archive_project_body dr pid db = Inr (v, ev, db') \<Longrightarrow> members_ok db'"
  by (auto simp: archive_project_body_def result_simps Let_def intro: update_project_members_ok)

lemma domain_step_members_ok:
  assumes "domain_step L Q cfg env now (db, fs) (db', fs')" and "members_ok db"
  shows "members_ok db'"
  using assms(1)
proof (cases rule: domain_step.cases)
  case (dom_bootstrap dr token name v)
  with assms(2) show ?thesis by (auto simp: members_ok_def image_Un dest!: shapes)
next
  case (dom_create_project dr a request v ev)
  then show ?thesis using create_project_body_members_ok assms(2) by blast
next
  case (dom_upsert_member dr pid request v ev)
  then show ?thesis using upsert_member_body_members_ok assms(2) by blast
next
  case (dom_remove_member pid u v ev)
  then show ?thesis using remove_member_body_members_ok assms(2) by blast
next
  case (dom_patch_project dr pid request v ev)
  then show ?thesis using patch_project_members_ok assms(2) by blast
next
  case (dom_archive_project dr pid v ev)
  then show ?thesis using archive_project_members_ok assms(2) by blast
qed ((rule members_ok_people [THEN iffD2, OF _ assms(2)]; auto simp: update_leases_def dest!: shapes split: sum.splits)+)

subsection \<open>Art\<close>

lemma create_project_art_ok:
  assumes ok: "art_ok db" and step: "create_project_body dr a request db = Inr (v, ev, db')"
  shows "art_ok db'"
  using step
proof (cases rule: create_project_body_cases)
  case (1 row c db2 r)
  then have same: "db_revisions db' = db_revisions db" "db_proposals db' = db_proposals db"
    and channels: "db_channels db' = db_channels db @ [c]"
    and fresh: "ch_id c \<notin> ch_id ` set (db_channels db)"
    by (auto simp: insert_channel_def insert_membership_def split: if_splits)
  have owned: "\<forall>x \<in> set (db_revisions db). rv_channel_id x \<in> ch_id ` set (db_channels db)"
    using ok unfolding art_ok_def by force
  with fresh have "rv_channel_id x \<noteq> ch_id c" if "x \<in> set (db_revisions db)" for x
    using that by metis
  then have none: "revisions_of db (ch_project_id c) (ch_id c) = []"
    by (simp add: revisions_of_def filter_empty_conv)
  have revs: "revisions_of db' = revisions_of db" by (intro ext) (simp add: revisions_of_def same)
  note ok = ok [unfolded art_ok_def]
  show ?thesis
    unfolding art_ok_def channels same revs
  proof (intro conjI)
    show "distinct (map ch_id (db_channels db @ [c]))" using ok fresh by simp
    show "\<forall>d \<in> set (db_channels db @ [c]). linear_from None (revisions_of db (ch_project_id d) (ch_id d))
        \<and> ch_head d = last_revision (revisions_of db (ch_project_id d) (ch_id d))"
      using ok none \<open>ch_head c = None\<close> by (simp add: last_revision_def)
    show "\<forall>r \<in> set (db_revisions db). \<exists>d \<in> set (db_channels db @ [c]).
        ch_id d = rv_channel_id r \<and> ch_project_id d = rv_project_id r"
      using ok by auto
  qed ((insert ok, elim conjE, assumption)+)
qed

lemma art_ok_tables: "art_tables db' = art_tables db \<Longrightarrow> art_ok db' = art_ok db"
  by (rule art_ok_same) simp_all

lemma domain_step_art_ok:
  assumes "domain_step L Q cfg env now (db, fs) (db', fs')" and "art_ok db"
  shows "art_ok db'"
  using assms(1)
proof (cases rule: domain_step.cases)
  case (dom_create_project dr a request v ev)
  then show ?thesis using create_project_art_ok assms(2) by blast
next
  case (dom_propose dr a pid request resources hashes v ev)
  then show ?thesis using create_proposal_art_ok assms(2) by blast
next
  case (dom_accept dr a pid proposal_id expected_head v ev)
  then show ?thesis using accept_art_ok assms(2) by blast
next
  case (dom_reject dr pid proposal_id reason v ev)
  then show ?thesis using reject_art_ok assms(2) by blast
qed ((rule art_ok_tables [THEN iffD2, OF _ assms(2)]; auto simp: update_leases_def dest!: shapes split: sum.splits)+)

subsection \<open>Releases\<close>

lemma releases_ok_relog [simp]: "releases_ok L (relog au n ox m ir db) = releases_ok L db"
  using releases_ok_same [of "relog au n ox m ir db" db L] by (simp add: relog_def)

lemma releases_ok_tables:
  "release_tables db' = release_tables db \<Longrightarrow> releases_ok L db \<Longrightarrow> releases_ok L db' \<and> cores_kept db db'"
  using releases_ok_same [of db' db L] by simp

lemma domain_step_releases_ok:
  assumes "domain_step L Q cfg env now (db, fs) (db', fs')" and "releases_ok L db"
  shows "releases_ok L db' \<and> cores_kept db db'"
  using assms(1)
proof (cases rule: domain_step.cases)
  case (dom_create_release dr a pid request v ev)
  then show ?thesis using create_release_body_ok assms(2) by blast
next
  case (dom_approve dr a pid release_id request v ev)
  then show ?thesis using approve_release_body_ok assms(2) by blast
next
  case (dom_action action states next_state dr pid release_id request v ev)
  then show ?thesis using release_action_body_ok assms(2) by blast
qed ((rule releases_ok_tables [OF _ assms(2)]; auto simp: update_leases_def dest!: shapes split: sum.splits)+)

subsection \<open>Stored objects\<close>

lemma store_ok_relog [simp]: "store_ok L cfg (relog au n ox m ir db) fs = store_ok L cfg db fs"
  by (simp add: store_ok_def relog_def)

lemma store_ok_tables:
  "(db_objects db', db_uploads db', fs') = (db_objects db, db_uploads db, fs)
   \<Longrightarrow> store_ok L cfg db' fs' = store_ok L cfg db fs"
  by (simp add: store_ok_def)

lemma insert_upload_store_ok:
  assumes ok: "store_ok L cfg db fs"
    and step: "insert_upload (new_upload L cfg dr a pid request) db = Inr db'"
  shows "store_ok L cfg db' fs"
proof -
  have "starts_with (hc_object_dir cfg @ ''/tmp/'') (up_temp_path (new_upload L cfg dr a pid request))"
    by (simp add: new_upload_def Let_def temp_path_def starts_with_iff)
  then show ?thesis using ok by (simp add: insert_upload_shape [OF step] store_ok_def)
qed

lemma domain_step_store_ok:
  assumes "domain_step L Q cfg env now (db, fs) (db', fs')" and "store_ok L cfg db fs"
  shows "store_ok L cfg db' fs'"
  using assms(1)
proof (cases rule: domain_step.cases)
  case (dom_negotiate dr a pid request)
  then show ?thesis using insert_upload_store_ok [OF assms(2) dom_negotiate(2)] by blast
next
  case (dom_receive io upload_id tok bytes r)
  from receive_upload_store_ok [OF assms(2) this(1)] show ?thesis
    by (simp add: dom_receive(2) split: sum.splits)
next
  case (dom_complete io dr pid upload_id request r)
  from complete_body_store_ok [OF assms(2) this(1)] dom_complete(2) show ?thesis by blast
qed ((rule store_ok_tables [THEN iffD2, OF _ assms(2)];
    auto simp: update_leases_def dest!: shapes split: sum.splits)+)

subsection \<open>Leases\<close>

lemma accept_exclusive:
  assumes "no_double_lease now (db_leases db)"
    and "accept_body L cfg env fs dr a pid proposal_id expected_head db = Inr (v, ev, db')"
  shows "no_double_lease now (db_leases db')"
  using assms(2)
proof (cases rule: accept_body_cases)
  case (1 p head m f)
  have "no_double_lease now (map f (db_leases db))"
  proof (rule no_double_lease_map [OF assms(1)])
    fix l m
    show "le_id (f l) = le_id l" using 1(5) by blast
    show "same_slot (f l) (f m) = same_slot l m" using 1(5) [of l] 1(5) [of m] by (simp add: same_slot_def)
    show "lease_active now l" if "lease_active now (f l)"
      using that 1(5) [of l] by (auto simp: lease_active_def)
  qed
  with 1(6) show ?thesis by simp
qed

lemma domain_step_exclusive:
  assumes step: "domain_step L Q cfg env now (db, fs) (db', fs')"
    and ok: "no_double_lease t (db_leases db)" and t: "t \<le> now"
  shows "no_double_lease now (db_leases db')"
proof -
  have later: "no_double_lease now (db_leases db)" by (rule no_double_lease_later [OF ok t])
  have kept: "no_double_lease now (db_leases db')" if "db_leases db' = db_leases db"
    by (simp add: that later)
  from step show ?thesis
  proof (cases rule: domain_step.cases)
    case (dom_acquire dr a pid request resources v ev)
    from acquire_batch_exclusive [OF ok _ this(3,2)] t show ?thesis by (simp add: dom_acquire)
  next
    case (dom_renew dr a pid lease_id request v ev)
    from renew_lease_exclusive [OF ok _ this(2)] t show ?thesis by (simp add: dom_renew)
  next
    case (dom_release a pid lease_id force r reason)
    then show ?thesis by (simp add: update_leases_def no_double_lease_released later)
  next
    case (dom_accept dr a pid proposal_id expected_head v ev)
    then show ?thesis using accept_exclusive [OF later] by blast
  qed ((rule kept; auto dest!: shapes split: sum.splits)+)
qed

section \<open>Runs\<close>

text \<open>
  Completed operations and maintenance runs, from the empty schema. The run carries the clock
  reading of its last step and the history of all events ever written, which the code does not
  keep. With \<open>steady\<close> the clock never goes back; without it, it may.
\<close>

inductive hub_run ::
  "hub_lib \<Rightarrow> quotas \<Rightarrow> hub_config \<Rightarrow> 'u art_env \<Rightarrow> bool \<Rightarrow> int \<Rightarrow> outbox_row list \<Rightarrow> hub_db \<times> fs \<Rightarrow> bool"
  for L Q cfg env steady where
  run_start: "hub_run L Q cfg env steady t [] (empty_hub, \<lambda>_. None)"
| run_operation: "hub_run L Q cfg env steady t H (db, fs)
    \<Longrightarrow> repo_step L Q cfg env now (db, fs) (db', fs') \<Longrightarrow> (steady \<longrightarrow> t \<le> now)
    \<Longrightarrow> hub_run L Q cfg env steady now (H @ drop (length (db_outbox db)) (db_outbox db')) (db', fs')"
| run_maintenance: "hub_run L Q cfg env steady t H (db, fs)
    \<Longrightarrow> maintenance now retention removable db fs = (Inr (v, db'), fs') \<Longrightarrow> (steady \<longrightarrow> t \<le> now)
    \<Longrightarrow> hub_run L Q cfg env steady now H (db', fs')"

definition hub_ok :: "hub_lib \<Rightarrow> hub_config \<Rightarrow> hub_db \<times> fs \<Rightarrow> bool" where
  "hub_ok L cfg s \<longleftrightarrow>
     audit_ok L (fst s) \<and> members_ok (fst s) \<and> art_ok (fst s) \<and> releases_ok L (fst s)
     \<and> store_ok L cfg (fst s) (snd s)"

lemma hub_okI:
  "audit_ok L db \<Longrightarrow> members_ok db \<Longrightarrow> art_ok db \<Longrightarrow> releases_ok L db \<Longrightarrow> store_ok L cfg db fs
   \<Longrightarrow> hub_ok L cfg (db, fs)"
  by (simp add: hub_ok_def)

lemma hub_okD:
  assumes "hub_ok L cfg (db, fs)"
  shows "audit_ok L db" "members_ok db" "art_ok db" "releases_ok L db" "store_ok L cfg db fs"
  using assms by (simp_all add: hub_ok_def)

lemma leases_relogged: "relogged db db' \<Longrightarrow> db_leases db' = db_leases db"
  by (auto simp: relogged_def relog_def)

lemma repo_step_ok:
  assumes step: "repo_step L Q cfg env now (db, fs) (db', fs')" and ok: "hub_ok L cfg (db, fs)"
  shows "hub_ok L cfg (db', fs')"
proof -
  obtain db1 where log: "log_step L db db'"
    and dom: "domain_step L Q cfg env now (db, fs) (db1, fs')" and rel: "relogged db1 db'"
    using repo_step_effect [OF step] by blast
  have "audit_ok L db'" using log hub_okD(1) [OF ok] by (simp add: log_step_def)
  moreover have "members_ok db'" "art_ok db'" "releases_ok L db'" "store_ok L cfg db' fs'"
    using domain_step_members_ok [OF dom hub_okD(2) [OF ok]] domain_step_art_ok [OF dom hub_okD(3) [OF ok]]
      domain_step_releases_ok [OF dom hub_okD(4) [OF ok]] domain_step_store_ok [OF dom hub_okD(5) [OF ok]] rel
    by (auto simp: relogged_def)
  ultimately show ?thesis by (rule hub_okI)
qed

lemma maintenance_ok:
  assumes step: "maintenance now retention removable db fs = (Inr (v, db'), fs')"
    and ok: "hub_ok L cfg (db, fs)"
  shows "hub_ok L cfg (db', fs')"
proof -
  obtain paths where tx: "maintenance_tx now retention db = Inr ((paths, v), db')"
    using step by (auto simp: maintenance_def split: sum.splits prod.splits)
  note shape = conjunct1 [OF maintenance_tx_ok [OF tx]]
  have "releases_ok L db'"
    using releases_ok_tables [OF _ hub_okD(4) [OF ok], of db'] by (simp add: shape)
  moreover have "people db' = people db" "art_tables db' = art_tables db" by (simp_all add: shape)
  then have "members_ok db'" "art_ok db'"
    using members_ok_people art_ok_tables hub_okD [OF ok] by blast+
  ultimately show ?thesis
    using maintenance_audit_ok [OF hub_okD(1) [OF ok] tx] maintenance_store_ok [OF hub_okD(5) [OF ok] step]
    by (intro hub_okI)
qed

lemma empty_hub_ok: "hub_ok L cfg (empty_hub, \<lambda>_. None)"
  by (rule hub_okI) (simp_all add: empty_hub_def audit_ok_def project_log_def members_ok_def art_ok_def
      releases_ok_def store_ok_def)

lemma hub_run_ok: "hub_run L Q cfg env steady t H s \<Longrightarrow> hub_ok L cfg s"
proof (induction rule: hub_run.induct)
  case (run_start t)
  show ?case by (rule empty_hub_ok)
next
  case (run_operation t H db fs now db' fs')
  from repo_step_ok [OF run_operation(2,4)] show ?case .
next
  case (run_maintenance t H db fs now retention removable v db' fs')
  from maintenance_ok [OF run_maintenance(2,4)] show ?case .
qed

lemma hub_run_history: "hub_run L Q cfg env steady t H s \<Longrightarrow> pruned_from H (fst s)"
proof (induction rule: hub_run.induct)
  case (run_start t)
  show ?case by (simp add: pruned_from_def empty_hub_def outbox_of_def events_of_def)
next
  case (run_operation t H db fs now db' fs')
  then show ?case using repo_step_effect [OF run_operation(2)] by (auto simp: log_step_def)
next
  case (run_maintenance t H db fs now retention removable v db' fs')
  then obtain paths where "maintenance_tx now retention db = Inr ((paths, v), db')"
    by (auto simp: maintenance_def split: sum.splits prod.splits)
  from pruned_from_maintenance [OF _ this] run_maintenance(4) show ?case by simp
qed

lemma hub_run_exclusive:
  "hub_run L Q cfg env True t H s \<Longrightarrow> no_double_lease t (db_leases (fst s))"
proof (induction t H s rule: hub_run.induct)
  case (run_start t)
  show ?case by (simp add: no_double_lease_def empty_hub_def)
next
  case (run_operation t H db fs now db' fs')
  then obtain db1 where "domain_step L Q cfg env now (db, fs) (db1, fs')" "relogged db1 db'"
    using repo_step_effect by blast
  from domain_step_exclusive [OF this(1)] leases_relogged [OF this(2)] run_operation(3,4)
  show ?case by simp
next
  case (run_maintenance t H db fs now retention removable v db' fs')
  then obtain paths where "maintenance_tx now retention db = Inr ((paths, v), db')"
    by (auto simp: maintenance_def split: sum.splits prod.splits)
  from maintenance_tx_ok [OF this] no_double_lease_later run_maintenance(3,4) show ?case by auto
qed

end
