(* ===== verification/HubGuarantees.thy ===== *)
theory HubGuarantees
  imports HubRun
begin

text \<open>
  What holds of the Hub in every run of its operations (\<open>HubRun\<close>), and one concrete run that
  reaches a lease, an approved release and a stored object, as an instance of every guarantee.
\<close>

section \<open>A concrete run\<close>

text \<open>
  An operator is bootstrapped, creates a project, leases a resource, creates and approves a
  release, and uploads an object. \<open>stage\<close> is what the following operation needs of the
  database: the tables of people and the routes and event ids used so far.
\<close>

definition wit_ada :: actor where
  "wit_ada = wit_actor ''prn_a''"

definition wit_started :: hub_db where
  "wit_started = snd (projr (bootstrap_development_principal wit_art_lib (wit_draws 1 ''a'')
     (replicate 16 CHR ''t'') ''Ada'' empty_hub))"

definition stage :: "string list \<Rightarrow> string list \<Rightarrow> hub_db \<Rightarrow> bool" where
  "stage routes ids db \<longleftrightarrow>
     map pr_id (db_principals db) = [''prn_a'']
     \<and> map (\<lambda>p. (hp_id p, hp_archived_at p)) (db_projects db) = [(''prj_b'', None)]
     \<and> db_channels db = [\<lparr>ch_id = ''ach_bi'', ch_project_id = ''prj_b'', ch_name = ''accepted'',
          ch_head = None, ch_version = 1\<rparr>]
     \<and> db_memberships db = [\<lparr>mb_project_id = ''prj_b'', mb_principal_id = ''prn_a'', mb_role = ''admin'',
          mb_version = 1, mb_created_at = 2, mb_updated_at = 2\<rparr>]
     \<and> map ir_route (db_idempotency db) = routes
     \<and> map au_id (db_audit db) = map ((@) ''aud_'') ids
     \<and> map ox_id (db_outbox db) = map ((@) ''evt_'') ids
     \<and> db_outbox_sequence db = length ids \<and> map ox_sequence (db_outbox db) = [1 ..< Suc (length ids)]
     \<and> (\<forall>x \<in> set (db_outbox db). ox_project_id x = ''prj_b'')"

abbreviation work ::
  "hub_db \<Rightarrow> lease_row list \<times> hub_release list \<times> release_approval list \<times> upload_row list
   \<times> object_row list \<times> project_object_row list" where
  "work db \<equiv> (db_leases db, db_releases db, db_approvals db, db_uploads db, db_objects db,
     db_project_objects db)"

lemmas wit_run_defs =
  wit_ada_def wit_art_lib_def wit_hub_defs Let_def result_simps new_id_def

lemma wit_start:
  "\<exists>v. bootstrap_development_principal wit_art_lib (wit_draws 1 ''a'') (replicate 16 CHR ''t'') ''Ada''
      empty_hub = Inr (v, wit_started)"
  by (simp add: wit_started_def bootstrap_development_principal_def wit_run_defs)

lemma wit_started_tables:
  "db_principals wit_started = [\<lparr>pr_id = ''prn_a'', pr_display_name = ''Ada'', pr_is_operator = True,
     pr_created_at = 1\<rparr>]"
  "db_projects wit_started = []" "db_channels wit_started = []" "db_memberships wit_started = []"
  "db_audit wit_started = []" "db_outbox wit_started = []" "db_outbox_sequence wit_started = 0" "db_idempotency wit_started = []"
  "work wit_started = ([], [], [], [], [], [])"
  by (simp_all add: wit_started_def bootstrap_development_principal_def wit_run_defs)

lemma wit_texts:
  "validate_name ''Game'' 1 120 ''Project name'' = Inr ()"
  "validate_slug ''game'' = Inr ()"
  "validate_name ''w'' 1 128 ''workstream'' = Inr ()"
  "validate_name ''edit'' 1 128 ''intendedAction'' = Inr ()"
  "str_trim ''Game'' = ''Game''"
proof -
  show "validate_name ''Game'' 1 120 ''Project name'' = Inr ()" by code_simp
  show "validate_slug ''game'' = Inr ()" by code_simp
  show "validate_name ''w'' 1 128 ''workstream'' = Inr ()" by code_simp
  show "validate_name ''edit'' 1 128 ''intendedAction'' = Inr ()" by code_simp
  show "str_trim ''Game'' = ''Game''" by code_simp
qed

lemmas wit_names = wit_texts [unfolded One_nat_def]

lemma wit_create:
  "\<exists>v db. create_project wit_art_lib (wit_draws 2 ''b'') wit_ada ''key''
        \<lparr>cp_name = ''Game'', cp_slug = ''game''\<rparr> wit_started = Inr (v, db)
      \<and> stage [''projects.create''] [''b''] db \<and> work db = ([], [], [], [], [], [])"
  using wit_started_tables
  by (simp add: create_project_def idempotent_mutation_def check_idempotency_def stage_def
      create_project_body_def store_idempotency_def append_evidence_def insert_channel_def
      insert_membership_def project_key_taken_def wit_names wit_run_defs
      audit_row_of_def outbox_row_of_def hub_project.defs project_row.defs)

text \<open>A mutation with a route and an event id not used so far runs through.\<close>

lemma stage_log:
  assumes db: "stage routes ids db" and route: "route \<notin> set routes" and u: "u \<notin> set ids"
    and project: "ev_project_id ev = ''prj_b''"
  shows "\<exists>db2 db'. append_evidence L (wit_draws t u) wit_ada ev db = Inr db2
    \<and> store_idempotency (wit_draws t u) wit_ada scope route key h answer db2 = Inr db'
    \<and> stage (routes @ [route]) (ids @ [u]) db' \<and> work db' = work db"
proof -
  have log: "map ir_route (db_idempotency db) = routes" "map au_id (db_audit db) = map ((@) ''aud_'') ids"
    "map ox_id (db_outbox db) = map ((@) ''evt_'') ids" "map pr_id (db_principals db) = [''prn_a'']"
    using db unfolding stage_def by blast+
  have sets: "au_id ` set (db_audit db) = (@) ''aud_'' ` set ids"
    "ox_id ` set (db_outbox db) = (@) ''evt_'' ` set ids" "pr_id ` set (db_principals db) = {''prn_a''}"
    using arg_cong [OF log(2), of set] arg_cong [OF log(3), of set] arg_cong [OF log(4), of set] by simp_all
  have "ir_route r \<noteq> route" if "r \<in> set (db_idempotency db)" for r
    using that route log(1) by (metis image_eqI set_map)
  then have fresh: "\<not> list_ex (idempotency_match wit_ada scope route key) (db_idempotency db)"
    by (auto simp: list_ex_iff idempotency_match_def)
  show ?thesis
    using db u fresh project
    by (auto simp: append_evidence_def store_idempotency_def stage_def sets wit_run_defs
        audit_row_of_def outbox_row_of_def image_iff le_SucI)
qed

lemma stage_fresh:
  assumes "stage routes ids db" and "route \<notin> set routes"
  shows "check_idempotency db wit_ada scope route key h expect = Inr None"
proof -
  have "map ir_route (db_idempotency db) = routes" using assms(1) unfolding stage_def by blast
  then have "ir_route r \<noteq> route" if "r \<in> set (db_idempotency db)" for r
    using that assms(2) by (metis image_eqI set_map)
  then have "find (idempotency_match wit_ada scope route key) (db_idempotency db) = None"
    by (auto simp: find_None_iff idempotency_match_def)
  then show ?thesis by (simp add: check_idempotency_def)
qed

lemma stage_mutation:
  assumes "stage routes ids db" "body db = Inr (v, ev, db1)" "stage routes ids db1"
    and "route \<notin> set routes" "u \<notin> set ids" "ev_project_id ev = ''prj_b''"
  shows "\<exists>db'. idempotent_mutation L (wit_draws t u) wit_ada scope route key h expect answer body db
      = Inr (v, db') \<and> stage (routes @ [route]) (ids @ [u]) db' \<and> work db' = work db1"
  using stage_log [OF assms(3-6), of L t scope key h "answer v"]
  by (auto simp: idempotent_mutation_def stage_fresh [OF assms(1,4)] assms(2))

lemma stage_people:
  assumes "stage routes ids db"
  shows "pr_id ` set (db_principals db) = {''prn_a''}" "hp_id ` set (db_projects db) = {''prj_b''}"
    "ch_id ` set (db_channels db) = {''ach_bi''}"
    "role_allows Admin permission
       \<Longrightarrow> membership_role db wit_ada ''prj_b'' permission = Inr Admin"
    "find (\<lambda>c. ch_id c = ''ach_bi'' \<and> ch_project_id c = ''prj_b'') (db_channels db)
       = Some \<lparr>ch_id = ''ach_bi'', ch_project_id = ''prj_b'', ch_name = ''accepted'', ch_head = None, ch_version = 1\<rparr>"
  using assms
  by (auto simp: stage_def map_eq_Cons_conv membership_role_def role_parse_def wit_ada_def wit_actor_def)


subsection \<open>The steps\<close>

definition wit_lease_request :: acquire_request where
  "wit_lease_request = \<lparr>ar_channel_id = ''ach_bi'', ar_resource_id = ''door'', ar_base_revision_id = None,
     ar_workstream = ''w'', ar_intended_action = ''edit'', ar_cell_hash = None\<rparr>"

definition wit_release_request :: create_release_request where
  "wit_release_request = \<lparr>cr_bundle_hash = replicate 16 (CHR ''b''), cr_environment = ''edit'',
     cr_target = JNull, cr_evidence = JNull\<rparr>"

definition wit_content :: string where
  "wit_content = content_hash_display wit_digest"

lemma wit_content_hash: "hub_content_hash wit_art_lib bytes = wit_content"
  by (simp add: wit_content_def hub_content_hash_def hub_base32_lower_eq content_hash_display_def
      wit_art_lib_def)

lemma wit_content_valid: "validate_content_hash wit_content = Inr ()"
  unfolding wit_content_def by (rule validate_content_hash_rendered [OF wit_digest_32])

lemma wit_object_path: "\<exists>path. object_path wit_config wit_content = Inr path"
  using wit_content_valid by (simp add: object_path_def wit_content_def content_hash_display_def)

lemma wit_lease_step:
  assumes "stage routes ids db" "db_leases db = []" "''leases.acquire'' \<notin> set routes" "''c'' \<notin> set ids"
  shows "\<exists>v db' l. acquire_lease wit_art_lib wit_quotas (wit_draws 3 ''c'') db wit_ada ''prj_b'' ''key''
      wit_lease_request db = Inr (v, db')
    \<and> stage (routes @ [''leases.acquire'']) (ids @ [''c'']) db'
    \<and> work db' = work (db\<lparr>db_leases := [l]\<rparr>)
    \<and> le_released_at l = None \<and> le_expires_at l = 3 + LEASE_DURATION_MS"
proof -
  have one: "sorted_unique [''door''] ''resourceIds'' = Inr [''door'']" by code_simp
  let ?q = "\<lparr>aq_channel_id = ''ach_bi'', aq_resource_ids = [''door''], aq_base_revision_id = None,
      aq_workstream = ''w'', aq_intended_action = ''edit'', aq_cell_hashes = []\<rparr>"
  let ?l = "new_lease (wit_draws 3 ''c'') wit_ada ''prj_b'' ?q 0 ''door''"
  let ?db = "db\<lparr>db_leases := [?l]\<rparr>"
  obtain v ev where body: "acquire_batch_body wit_quotas (wit_draws 3 ''c'') wit_ada ''prj_b'' ?q [''door''] db
      = Inr (v, ev, ?db)" and ev: "ev_project_id ev = ''prj_b''"
    using assms(2) by (auto simp: acquire_batch_body_def stage_people [OF assms(1)] insert_lease_def
        new_lease_def wit_run_defs)
  have "stage routes ids ?db" using assms(1) by (simp add: stage_def)
  from stage_mutation [where body = "acquire_batch_body wit_quotas (wit_draws 3 ''c'') wit_ada ''prj_b'' ?q [''door'']"
      and L = wit_art_lib and t = 3 and scope = "''prj_b''" and key = "''key''"
      and h = "canonical_request_hash wit_art_lib (acquire_batch_json ?q)" and expect = expect_leases
      and answer = RLeases, OF assms(1) body this assms(3,4) ev]
  obtain db' where db': "acquire_lease wit_art_lib wit_quotas (wit_draws 3 ''c'') db wit_ada ''prj_b'' ''key''
      wit_lease_request db = Inr (v, db')" "stage (routes @ [''leases.acquire'']) (ids @ [''c'']) db'"
    "work db' = work ?db"
    by (auto simp: acquire_lease_def acquire_lease_batch_def authorize_project_def wit_lease_request_def
        one wit_names stage_people [OF assms(1)] role_allows_def)
  have "le_released_at ?l = None" "le_expires_at ?l = 3 + LEASE_DURATION_MS"
    by (simp_all add: new_lease_def wit_draws_def)
  with db' show ?thesis by (intro exI [of _ v] exI [of _ db'] exI [of _ ?l]) simp
qed

lemma wit_release_step:
  assumes "stage routes ids db" "db_releases db = []" "''releases.create'' \<notin> set routes" "''d'' \<notin> set ids"
  shows "\<exists>v db' r. create_hub_release wit_art_lib (wit_draws 4 ''d'') db wit_ada ''prj_b'' ''key''
      wit_release_request db = Inr (v, db')
    \<and> stage (routes @ [''releases.create'']) (ids @ [''d'']) db'
    \<and> work db' = work (db\<lparr>db_releases := [r]\<rparr>)
    \<and> re_id r = ''rel_d'' \<and> re_project_id r = ''prj_b'' \<and> re_state r = ''draft''"
proof -
  let ?h = "canonical_request_hash wit_art_lib (create_release_json wit_release_request)"
  obtain v ev r where body: "create_release_body (wit_draws 4 ''d'') wit_ada ''prj_b'' ?h
      wit_release_request db = Inr (v, ev, db\<lparr>db_releases := [r]\<rparr>)"
    and r: "re_id r = ''rel_d''" "re_project_id r = ''prj_b''" "re_state r = ''draft''"
    using assms(2) by (auto simp: create_release_body_def insert_release_def stage_people [OF assms(1)]
        wit_run_defs)
  from body have ev: "ev_project_id ev = ''prj_b''" by (auto simp: create_release_body_def result_simps Let_def)
  have "stage routes ids (db\<lparr>db_releases := [r]\<rparr>)" using assms(1) by (simp add: stage_def)
  note mut = stage_mutation [where body = "create_release_body (wit_draws 4 ''d'') wit_ada ''prj_b'' ?h
      wit_release_request", OF assms(1) body this assms(3,4) ev]
  have "validate_hash_label (cr_bundle_hash wit_release_request) ''bundleHash'' = Inr ()"
    "validate_name (cr_environment wit_release_request) 1 64 ''environment'' = Inr ()"
    subgoal by code_simp
    subgoal by code_simp
    done
  with mut r show ?thesis
    by (simp add: create_hub_release_def authorize_project_def stage_people [OF assms(1)] role_allows_def
        Let_def) blast
qed

lemma wit_approve_step:
  assumes "stage routes ids db" "db_releases db = [r]" "db_approvals db = []"
    and "re_id r = ''rel_d''" "re_project_id r = ''prj_b''" "re_state r = ''draft''"
    and "''releases.approve'' \<notin> set routes" "''e'' \<notin> set ids"
  shows "\<exists>v db' r' x. approve_release wit_art_lib (wit_draws 5 ''e'') db wit_ada ''prj_b'' ''rel_d'' ''key''
      \<lparr>aa_request_hash = re_request_hash r, aa_evidence = JNull\<rparr> db = Inr (v, db')
    \<and> stage (routes @ [''releases.approve'']) (ids @ [''e'']) db'
    \<and> work db' = work (db\<lparr>db_approvals := [x], db_releases := [r']\<rparr>) \<and> re_state r' = ''approved''"
proof -
  let ?q = "\<lparr>aa_request_hash = re_request_hash r, aa_evidence = JNull\<rparr>"
  obtain v ev r' x where body: "approve_release_body (wit_draws 5 ''e'') wit_ada ''prj_b'' ''rel_d'' ?q db
      = Inr (v, ev, db\<lparr>db_approvals := [x], db_releases := [r']\<rparr>)" and r': "re_state r' = ''approved''"
    using assms(2-6) by (auto simp: approve_release_body_def insert_approval_def stage_people [OF assms(1)]
        wit_run_defs)
  from body have ev: "ev_project_id ev = ''prj_b''"
    by (auto simp: approve_release_body_def result_simps Let_def split: if_splits)
  have "stage routes ids (db\<lparr>db_approvals := [x], db_releases := [r']\<rparr>)"
    using assms(1) by (simp add: stage_def)
  note mut = stage_mutation [where body = "approve_release_body (wit_draws 5 ''e'') wit_ada ''prj_b'' ''rel_d'' ?q",
      OF assms(1) body this assms(7,8) ev]
  with r' show ?thesis
    by (simp add: approve_release_def authorize_project_def stage_people [OF assms(1)] role_allows_def) blast
qed

lemma wit_negotiate_step:
  assumes "stage routes ids db" "db_uploads db = []" "db_objects db = []" "db_project_objects db = []"
    and "''objects.negotiate_upload'' \<notin> set routes" "''f'' \<notin> set ids"
  shows "\<exists>v db' u. negotiate_upload wit_art_lib wit_quotas wit_config (wit_draws 6 ''f'') db wit_ada ''prj_b''
      ''key'' \<lparr>ng_expected_hash = wit_content, ng_expected_size = 1, ng_media_type = ''a/b''\<rparr> db = Inr (v, db')
    \<and> stage (routes @ [''objects.negotiate_upload'']) (ids @ [''f'']) db'
    \<and> work db' = work (db\<lparr>db_uploads := [u]\<rparr>)
    \<and> u = new_upload wit_art_lib wit_config (wit_draws 6 ''f'') wit_ada ''prj_b''
         \<lparr>ng_expected_hash = wit_content, ng_expected_size = 1, ng_media_type = ''a/b''\<rparr>"
proof -
  let ?q = "\<lparr>ng_expected_hash = wit_content, ng_expected_size = 1, ng_media_type = ''a/b''\<rparr>"
  let ?u = "new_upload wit_art_lib wit_config (wit_draws 6 ''f'') wit_ada ''prj_b'' ?q"
  have ins: "insert_upload ?u db = Inr (db\<lparr>db_uploads := [?u]\<rparr>)"
    using assms(2) by (simp add: insert_upload_def new_upload_def Let_def stage_people [OF assms(1)]
        wit_ada_def wit_actor_def)
  have staged: "stage routes ids (db\<lparr>db_uploads := [?u]\<rparr>)" using assms(1) by (simp add: stage_def)
  have ev: "ev_project_id (negotiate_evidence ''prj_b'' ?u) = ''prj_b''" by (simp add: negotiate_evidence_def)
  from stage_log [OF staged assms(5,6) ev]
  obtain db2 db' where logs: "append_evidence wit_art_lib (wit_draws 6 ''f'') wit_ada
        (negotiate_evidence ''prj_b'' ?u) (db\<lparr>db_uploads := [?u]\<rparr>) = Inr db2"
      "store_idempotency (wit_draws 6 ''f'') wit_ada ''prj_b'' ''objects.negotiate_upload'' ''key''
        (canonical_request_hash wit_art_lib (negotiate_json ?q))
        (RUpload ((negotiation_of wit_art_lib wit_config ?u)\<lparr>un_transfer_token := None\<rparr>)) db2 = Inr db'"
    and db': "stage (routes @ [''objects.negotiate_upload'']) (ids @ [''f'']) db'"
      "work db' = work (db\<lparr>db_uploads := [?u]\<rparr>)"
    by blast
  have none: "authorized_object db ''prj_b'' wit_content = None"
    using assms(3) by (simp add: authorized_object_def)
  have used: "used_bytes db ''prj_b'' = 0" using assms(4) by (simp add: used_bytes_def)
  have media: "validate_media_type ''a/b'' = Inr ()" by code_simp
  have "negotiate_upload wit_art_lib wit_quotas wit_config (wit_draws 6 ''f'') db wit_ada ''prj_b''
      ''key'' ?q db = Inr (negotiation_of wit_art_lib wit_config ?u, db')"
    using ins logs assms(3)
    by (simp add: negotiate_upload_def authorize_project_def stage_people [OF assms(1)] role_allows_def
        wit_content_valid media negotiate_tx_def stage_fresh [OF assms(1,5)] none fresh_upload_def used
        Let_def wit_quotas_def)
  with db' show ?thesis by blast
qed

definition wit_io :: io_outcome where
  "wit_io = \<lparr>io_write = None, io_rename = True, io_read = True, io_create_dir = True,
     io_read_existing = True, io_remove = True\<rparr>"

lemma wit_receive_step:
  assumes "stage routes ids db" "db_uploads db = [new_upload wit_art_lib wit_config (wit_draws 6 ''f'') wit_ada
      ''prj_b'' \<lparr>ng_expected_hash = wit_content, ng_expected_size = 1, ng_media_type = ''a/b''\<rparr>]"
  shows "\<exists>db' u fs'. receive_upload wit_art_lib wit_io 7 ''upl_f'' ''t'' [0] db (\<lambda>_. None) = (Inr ((), db'), fs')
    \<and> stage routes ids db' \<and> work db' = work (db\<lparr>db_uploads := [u]\<rparr>)
    \<and> up_id u = ''upl_f'' \<and> up_project_id u = ''prj_b'' \<and> up_expected_hash u = wit_content
    \<and> up_expected_size u = 1 \<and> up_status u = ''received'' \<and> up_expires_at u = 6 + TRANSFER_TTL_MS
    \<and> up_actual_sha256 u = Some ''h'' \<and> fs' (up_temp_path u) = Some [0]
    \<and> (\<forall>p. starts_with ''/o/cas/'' p \<longrightarrow> fs' p = None)"
proof -
  let ?u = "new_upload wit_art_lib wit_config (wit_draws 6 ''f'') wit_ada ''prj_b''
      \<lparr>ng_expected_hash = wit_content, ng_expected_size = 1, ng_media_type = ''a/b''\<rparr>"
  let ?w = "?u\<lparr>up_status := ''received'', up_actual_sha256 := Some ''h''\<rparr>"
  have u: "up_id ?u = ''upl_f''" "up_project_id ?u = ''prj_b''" "up_expected_hash ?u = wit_content"
    "up_expected_size ?u = 1" "up_status ?u = ''negotiated''" "up_expires_at ?u = 6 + TRANSFER_TTL_MS"
    "up_token_hash ?u = ''h''" "up_temp_path ?u = ''/o/tmp/upl_f''"
    by (simp_all add: new_upload_def Let_def wit_draws_def new_id_def token_hash_def sha256_hex_def
        wit_art_lib_def wit_hub_lib_def temp_path_def wit_config_def)
  have hash: "token_hash wit_art_lib t = ''h''" "sha256_hex wit_art_lib t' = ''h''" for t t'
    by (simp_all add: token_hash_def sha256_hex_def wit_art_lib_def wit_hub_lib_def)
  have checks: "receive_checks wit_art_lib 7 ''upl_f'' ''t'' [0] db = Inr ?u"
    by (simp add: receive_checks_def assms(2) u hash wit_content_hash TRANSFER_TTL_MS_def)
  have upd: "update_uploads (\<lambda>v. up_id v = ''upl_f'' \<and> up_status v = ''negotiated'')
      (\<lambda>v. v\<lparr>up_status := ''received'', up_actual_sha256 := Some ''h''\<rparr>) db = Inr (db\<lparr>db_uploads := [?w]\<rparr>)"
    by (simp add: update_uploads_def assms(2) u upload_keys_distinct_def)
  define fs' where "fs' = ((\<lambda>_. None)(with_extension ''stage'' ''/o/tmp/upl_f'' := None))(''/o/tmp/upl_f'' \<mapsto> [0 :: u8])"
  have "receive_upload wit_art_lib wit_io 7 ''upl_f'' ''t'' [0] db (\<lambda>_. None)
      = (Inr ((), db\<lparr>db_uploads := [?w]\<rparr>), fs')"
    by (simp add: receive_upload_def checks upd hash u wit_io_def fs'_def)
  moreover have "stage routes ids (db\<lparr>db_uploads := [?w]\<rparr>)" using assms(1) by (simp add: stage_def)
  moreover have "fs' (up_temp_path ?w) = Some [0]" by (simp add: fs'_def u)
  moreover have "fs' p = None" if "starts_with ''/o/cas/'' p" for p
    using that by (auto simp: fs'_def starts_with_iff)
  ultimately show ?thesis
    by (intro exI [of _ "db\<lparr>db_uploads := [?w]\<rparr>"] exI [of _ ?w] exI [of _ fs']) (simp add: u)
qed

lemma wit_complete_step:
  assumes "stage routes ids db" "db_uploads db = [u]" "db_objects db = []" "db_project_objects db = []"
    and u: "up_id u = ''upl_f''" "up_project_id u = ''prj_b''" "up_expected_hash u = wit_content"
      "up_expected_size u = 1" "up_status u = ''received''" "up_expires_at u = 6 + TRANSFER_TTL_MS"
      "up_actual_sha256 u = Some ''h''"
    and fs: "fs (up_temp_path u) = Some [0]" "\<forall>p. starts_with ''/o/cas/'' p \<longrightarrow> fs p = None"
    and "''uploads.complete'' \<notin> set routes" "''g'' \<notin> set ids"
  shows "\<exists>v db' fs' w. complete_upload wit_art_lib wit_config wit_io (wit_draws 8 ''g'') db wit_ada ''prj_b''
      ''upl_f'' ''key'' \<lparr>cu_purpose = ''w'', cu_referenced_by = ''w''\<rparr> db fs = (Inr (v, db'), fs')
    \<and> stage (routes @ [''uploads.complete'']) (ids @ [''g'']) db'
    \<and> work db' = work (db\<lparr>db_uploads := [w], db_objects := db_objects db', db_project_objects := db_project_objects db'\<rparr>)
    \<and> map ob_content_hash (db_objects db') = [wit_content]"
proof -
  let ?q = "\<lparr>cu_purpose = ''w'', cu_referenced_by = ''w''\<rparr>"
  let ?body = "\<lambda>db. fst (complete_body wit_art_lib wit_config wit_io (wit_draws 8 ''g'') ''prj_b'' ''upl_f'' ?q fs db)"
  obtain path where path: "object_path wit_config wit_content = Inr path" using wit_object_path by blast
  have free: "fs path = None"
    using fs(2) object_path_ok [OF path] by (simp add: wit_config_def)
  have "sha256_hex wit_art_lib t = ''h''" for t
    by (simp add: sha256_hex_def wit_art_lib_def wit_hub_lib_def)
  then have checks: "complete_checks wit_art_lib wit_io (wit_draws 8 ''g'') ''prj_b'' ''upl_f'' db fs = Inr (u, [0])"
    by (simp add: complete_checks_def assms(2) u fs(1) wit_io_def wit_draws_def wit_content_hash TRANSFER_TTL_MS_def)
  let ?row = "completed_object (wit_draws 8 ''g'') u path"
  let ?po = "\<lparr>po_project_id = ''prj_b'', po_content_hash = wit_content, po_purpose = ''w'',
      po_referenced_by = ''w'', po_created_at = 8\<rparr>"
  let ?db = "db\<lparr>db_objects := [?row], db_project_objects := [?po], db_uploads := [u\<lparr>up_status := ''completed''\<rparr>]\<rparr>"
  have row: "ob_content_hash ?row = wit_content" by (simp add: completed_object_def u)
  have place: "place_object wit_art_lib wit_io u path [0] fs
      = (Inr (), (fs(up_temp_path u := None))(path \<mapsto> [0]))"
    by (simp add: place_object_def wit_io_def free)
  have now: "dr_now (wit_draws 8 ''g'') = 8" by (simp add: wit_draws_def)
  obtain v ev where "record_object (wit_draws 8 ''g'') ''prj_b'' ?q u path db = Inr (v, ev, ?db)"
    and ev: "ev_project_id ev = ''prj_b''"
    using assms(2-4) by (auto simp: record_object_def row insert_object_or_ignore_def now Let_def
        insert_project_object_def stage_people [OF assms(1)] update_uploads_def upload_keys_distinct_def u)
  then have body: "?body db = Inr (v, ev, ?db)"
    by (simp add: complete_body_def checks u path place)
  have "stage routes ids ?db" using assms(1) by (simp add: stage_def)
  from stage_mutation [where body = ?body and L = wit_art_lib and t = 8 and scope = "''prj_b''"
      and key = "''key''" and h = "canonical_request_hash wit_art_lib (complete_json ?q)"
      and expect = expect_object and answer = RObject, OF assms(1) body this assms(14,15) ev]
  obtain db' where mut: "idempotent_mutation wit_art_lib (wit_draws 8 ''g'') wit_ada ''prj_b'' ''uploads.complete''
      ''key'' (canonical_request_hash wit_art_lib (complete_json ?q)) expect_object RObject ?body db
      = Inr (v, db')" and db': "work db' = work ?db"
      "stage (routes @ [''uploads.complete'']) (ids @ [''g'']) db'"
    by blast
  have names: "validate_name ''w'' 1 128 ''purpose'' = Inr ()" "validate_name ''w'' 1 256 ''referencedBy'' = Inr ()"
    subgoal by code_simp
    subgoal by code_simp
    done
  have "\<exists>fs'. complete_upload wit_art_lib wit_config wit_io (wit_draws 8 ''g'') db wit_ada ''prj_b''
      ''upl_f'' ''key'' ?q db fs = (Inr (v, db'), fs')"
    by (simp add: complete_upload_def authorize_project_def stage_people [OF assms(1)] role_allows_def
        names [unfolded One_nat_def] Let_def mut)
  then show ?thesis using db' row by (elim exE) (intro exI conjI, assumption, simp_all)
qed

subsection \<open>The run\<close>

lemma run_step:
  "\<exists>H. hub_run L Q cfg env True t H s \<Longrightarrow> repo_step L Q cfg env now s s' \<Longrightarrow> t \<le> now
   \<Longrightarrow> \<exists>H. hub_run L Q cfg env True now H s'"
  by (cases s; cases s') (blast intro: run_operation)

definition run_facts :: "hub_db \<Rightarrow> bool" where
  "run_facts db \<longleftrightarrow>
     (\<exists>l. db_leases db = [l] \<and> lease_active 8 l)
     \<and> (\<exists>r. db_releases db = [r] \<and> re_state r = ''approved'')
     \<and> map ob_content_hash (db_objects db) = [wit_content]
     \<and> stage [''projects.create'', ''leases.acquire'', ''releases.create'', ''releases.approve'',
          ''objects.negotiate_upload'', ''uploads.complete''] [''b'', ''c'', ''d'', ''e'', ''f'', ''g''] db"

lemma wit_run:
  obtains H db fs db' fs' where
    "hub_run wit_art_lib wit_quotas wit_config wit_env True 7 H (db, fs)"
    "repo_step wit_art_lib wit_quotas wit_config wit_env 8 (db, fs) (db', fs')" "run_facts db'"
proof -
  let ?reach = "\<lambda>t s. \<exists>H. hub_run wit_art_lib wit_quotas wit_config wit_env True t H s"
  let ?fs = "\<lambda>_. None :: u8 list option"
  have r0: "?reach 1 (empty_hub, ?fs)" by (rule exI, rule run_start)
  obtain v where s1: "bootstrap_development_principal wit_art_lib (wit_draws 1 ''a'')
      (replicate 16 CHR ''t'') ''Ada'' empty_hub = Inr (v, wit_started)"
    using wit_start by blast
  have r1: "?reach 1 (wit_started, ?fs)" by (rule run_step [OF r0 op_bootstrap [OF s1]]) simp
  obtain v db1 where s2: "create_project wit_art_lib (wit_draws 2 ''b'') wit_ada ''key''
      \<lparr>cp_name = ''Game'', cp_slug = ''game''\<rparr> wit_started = Inr (v, db1)"
    and st1: "stage [''projects.create''] [''b''] db1" and w1: "work db1 = ([], [], [], [], [], [])"
    using wit_create by blast
  have r2: "?reach 2 (db1, ?fs)" by (rule run_step [OF r1 op_create_project [OF s2]]) simp
  obtain v db2 l where s3: "acquire_lease wit_art_lib wit_quotas (wit_draws 3 ''c'') db1 wit_ada
      ''prj_b'' ''key'' wit_lease_request db1 = Inr (v, db2)"
    and st2: "stage [''projects.create'', ''leases.acquire''] [''b'', ''c''] db2"
    and w2: "work db2 = work (db1\<lparr>db_leases := [l]\<rparr>)"
    and l: "le_released_at l = None" "le_expires_at l = 3 + LEASE_DURATION_MS"
    using wit_lease_step [OF st1] w1 by auto
  have "dr_now (wit_draws 3 ''c'') = 3" by (simp add: wit_draws_def)
  then have r3: "?reach 3 (db2, ?fs)" by (intro run_step [OF r2 op_acquire_one [OF s3]]) simp_all
  obtain v db3 r where s4: "create_hub_release wit_art_lib (wit_draws 4 ''d'') db2 wit_ada ''prj_b'' ''key''
      wit_release_request db2 = Inr (v, db3)"
    and st3: "stage [''projects.create'', ''leases.acquire'', ''releases.create''] [''b'', ''c'', ''d''] db3"
    and w3: "work db3 = work (db2\<lparr>db_releases := [r]\<rparr>)"
    and r: "re_id r = ''rel_d''" "re_project_id r = ''prj_b''" "re_state r = ''draft''"
    using wit_release_step [OF st2] w1 w2 by auto
  have r4: "?reach 4 (db3, ?fs)" by (rule run_step [OF r3 op_create_release [OF s4]]) simp
  have t3: "db_releases db3 = [r]" "db_approvals db3 = []" using w1 w2 w3 by simp_all
  obtain v db4 r' x where s5: "approve_release wit_art_lib (wit_draws 5 ''e'') db3 wit_ada ''prj_b'' ''rel_d'' ''key''
      \<lparr>aa_request_hash = re_request_hash r, aa_evidence = JNull\<rparr> db3 = Inr (v, db4)"
    and st4: "stage [''projects.create'', ''leases.acquire'', ''releases.create'', ''releases.approve'']
      [''b'', ''c'', ''d'', ''e''] db4"
    and w4: "work db4 = work (db3\<lparr>db_approvals := [x], db_releases := [r']\<rparr>)" "re_state r' = ''approved''"
    using wit_approve_step [OF st3 t3 r] by auto
  have r5: "?reach 5 (db4, ?fs)" by (rule run_step [OF r4 op_approve [OF s5]]) simp
  have t4: "db_uploads db4 = []" "db_objects db4 = []" "db_project_objects db4 = []"
    using w1 w2 w3 w4 by simp_all
  let ?q = "\<lparr>ng_expected_hash = wit_content, ng_expected_size = 1, ng_media_type = ''a/b''\<rparr>"
  obtain v db5 u where s6: "negotiate_upload wit_art_lib wit_quotas wit_config (wit_draws 6 ''f'') db4 wit_ada
      ''prj_b'' ''key'' ?q db4 = Inr (v, db5)"
    and st5: "stage [''projects.create'', ''leases.acquire'', ''releases.create'', ''releases.approve'',
      ''objects.negotiate_upload''] [''b'', ''c'', ''d'', ''e'', ''f''] db5"
    and w5: "work db5 = work (db4\<lparr>db_uploads := [u]\<rparr>)"
    and u: "u = new_upload wit_art_lib wit_config (wit_draws 6 ''f'') wit_ada ''prj_b'' ?q"
    using wit_negotiate_step [OF st4 t4] by auto
  have r6: "?reach 6 (db5, ?fs)" by (rule run_step [OF r5 op_negotiate_upload [OF s6]]) simp
  have "db_uploads db5 = [new_upload wit_art_lib wit_config (wit_draws 6 ''f'') wit_ada ''prj_b'' ?q]"
    using w5 u by simp
  from wit_receive_step [OF st5 this] obtain db6 u' fs6 where
    s7: "receive_upload wit_art_lib wit_io 7 ''upl_f'' ''t'' [0] db5 ?fs = (Inr ((), db6), fs6)"
    and st6: "stage [''projects.create'', ''leases.acquire'', ''releases.create'', ''releases.approve'',
      ''objects.negotiate_upload''] [''b'', ''c'', ''d'', ''e'', ''f''] db6"
    and w6: "work db6 = work (db5\<lparr>db_uploads := [u']\<rparr>)"
    and u': "up_id u' = ''upl_f''" "up_project_id u' = ''prj_b''" "up_expected_hash u' = wit_content"
      "up_expected_size u' = 1" "up_status u' = ''received''" "up_expires_at u' = 6 + TRANSFER_TTL_MS"
      "up_actual_sha256 u' = Some ''h''"
    and fs6: "fs6 (up_temp_path u') = Some [0]" "\<forall>p. starts_with ''/o/cas/'' p \<longrightarrow> fs6 p = None"
    by blast
  have r7: "?reach 7 (db6, fs6)" by (rule run_step [OF r6 op_receive [OF s7]]) simp_all
  have t6: "db_uploads db6 = [u']" "db_objects db6 = []" "db_project_objects db6 = []"
    using w5 w6 t4 by simp_all
  obtain v db7 fs7 w where s8: "complete_upload wit_art_lib wit_config wit_io (wit_draws 8 ''g'') db6 wit_ada
      ''prj_b'' ''upl_f'' ''key'' \<lparr>cu_purpose = ''w'', cu_referenced_by = ''w''\<rparr> db6 fs6 = (Inr (v, db7), fs7)"
    and st7: "stage [''projects.create'', ''leases.acquire'', ''releases.create'', ''releases.approve'',
      ''objects.negotiate_upload'', ''uploads.complete''] [''b'', ''c'', ''d'', ''e'', ''f'', ''g''] db7"
    and w7: "work db7 = work (db6\<lparr>db_uploads := [w], db_objects := db_objects db7,
      db_project_objects := db_project_objects db7\<rparr>)" "map ob_content_hash (db_objects db7) = [wit_content]"
    using wit_complete_step [OF st6 t6 u' fs6] by auto
  obtain H where "hub_run wit_art_lib wit_quotas wit_config wit_env True 7 H (db6, fs6)" using r7 by blast
  moreover have "repo_step wit_art_lib wit_quotas wit_config wit_env 8 (db6, fs6) (db7, fs7)"
    by (rule op_complete [OF s8]) simp
  moreover have "db_leases db7 = [l]" "db_releases db7 = [r']" using w2 w3 w4 w5 w6 w7 by simp_all
  moreover have "lease_active 8 l" by (simp add: lease_active_def l LEASE_DURATION_MS_def)
  moreover from calculation have "run_facts db7"
    unfolding run_facts_def using w4(2) w7(2) st7 by (intro conjI exI) assumption+
  ultimately show thesis by (intro that)
qed

lemma wit_run_end:
  obtains H db fs where "hub_run wit_art_lib wit_quotas wit_config wit_env True 8 H (db, fs)" "run_facts db"
  by (rule wit_run) (drule (1) run_operation, simp, erule (1) that)

section \<open>Properties\<close>

text \<open>C19: In whatever order operations complete and maintenance runs, with whatever clock, every
  membership names a project and a principal that exist, spells one of the six roles, and no
  principal is a member of a project twice.\<close>

theorem run_memberships_typed:
  assumes "hub_run L Q cfg env steady t H (db, fs)"
  shows "members_ok db"
  using hub_okD(2) [OF hub_run_ok [OF assms]] .

lemma run_memberships_typed_witness:
  "\<exists>db. members_ok db \<and> map mb_role (db_memberships db) = [''admin'']"
proof -
  obtain H db fs where run: "hub_run wit_art_lib wit_quotas wit_config wit_env True 8 H (db, fs)"
    and facts: "run_facts db" by (rule wit_run_end)
  from facts have "map mb_role (db_memberships db) = [''admin'']"
    unfolding run_facts_def stage_def by (elim conjE) simp
  with run_memberships_typed [OF run] show ?thesis by (intro exI conjI)
qed

text \<open>C16: The invariant of the audit log in every run: sequence numbers increase, event ids are
  unique, every project's rows form one hash chain from its first row, and no operation alters or
  drops a row.\<close>

theorem run_audit_chained:
  assumes "hub_run L Q cfg env steady t H (db, fs)" and "repo_step L Q cfg env now (db, fs) (db', fs')"
  shows "audit_ok L db \<and> audit_ok L db' \<and> (\<exists>new. db_audit db' = db_audit db @ new)"
proof -
  have ok: "audit_ok L db" using hub_okD(1) [OF hub_run_ok [OF assms(1)]] .
  then show ?thesis
    using repo_step_effect [OF assms(2)] by (auto simp: log_step_def log_extends_def)
qed

lemma run_audit_chained_witness:
  "\<exists>db db' fs fs'. repo_step wit_art_lib wit_quotas wit_config wit_env 8 (db, fs) (db', fs')
    \<and> audit_ok wit_art_lib db \<and> audit_ok wit_art_lib db' \<and> (\<exists>new. db_audit db' = db_audit db @ new)
    \<and> length (db_audit db') = 6"
proof -
  obtain H db fs db' fs' where run: "hub_run wit_art_lib wit_quotas wit_config wit_env True 7 H (db, fs)"
    and step: "repo_step wit_art_lib wit_quotas wit_config wit_env 8 (db, fs) (db', fs')"
    and facts: "run_facts db'" by (rule wit_run)
  from facts have "map au_id (db_audit db') = map ((@) ''aud_'') [''b'', ''c'', ''d'', ''e'', ''f'', ''g'']"
    unfolding run_facts_def stage_def by (elim conjE)
  from arg_cong [OF this, of length] have "length (db_audit db') = 6" by simp
  with run_audit_chained [OF run step] step show ?thesis
    by (intro exI [of _ db] exI [of _ db'] exI [of _ fs] exI [of _ fs']) simp
qed

text \<open>C12: As long as the clock does not go back, no two active leases ever cover the same resource
  of the same channel.\<close>

theorem run_leases_exclusive:
  assumes "hub_run L Q cfg env True t H (db, fs)"
    and "l \<in> set (db_leases db)" "m \<in> set (db_leases db)" "same_slot l m"
    and "lease_active t l" "lease_active t m"
  shows "l = m"
  using hub_run_exclusive [OF assms(1)] assms(2-6) by (simp add: no_double_lease_def)

lemma run_leases_exclusive_witness:
  "\<exists>db l. l \<in> set (db_leases db) \<and> lease_active 8 l
    \<and> (\<exists>H fs. hub_run wit_art_lib wit_quotas wit_config wit_env True 8 H (db, fs))"
proof -
  obtain H db fs where run: "hub_run wit_art_lib wit_quotas wit_config wit_env True 8 H (db, fs)"
    and facts: "run_facts db" by (rule wit_run_end)
  then obtain l where l: "db_leases db = [l]" "lease_active 8 l" unfolding run_facts_def by blast
  have "l = l"
    by (rule run_leases_exclusive [OF run]) (simp_all add: l same_slot_def)
  moreover have "l \<in> set (db_leases db)" by (simp add: l)
  ultimately show ?thesis using run l(2) by (intro exI conjI)
qed

text \<open>C14: Every object the database lists is in the content-addressed store, at the path of its
  hash, with bytes of exactly that hash, whatever uploads failed half way, and whatever
  maintenance removed.\<close>

theorem run_objects_intact:
  assumes "hub_run L Q cfg env steady t H (db, fs)" and "r \<in> set (db_objects db)"
  shows "\<exists>bytes. fs (ob_storage_path r) = Some bytes \<and> hub_content_hash L bytes = ob_content_hash r
    \<and> object_path cfg (ob_content_hash r) = Inr (ob_storage_path r)"
  using hub_okD(5) [OF hub_run_ok [OF assms(1)]] assms(2) by (auto simp: store_ok_def)

lemma run_objects_intact_witness:
  "\<exists>(db :: hub_db) fs r bytes. r \<in> set (db_objects db) \<and> fs (ob_storage_path r) = Some bytes
    \<and> hub_content_hash wit_art_lib bytes = wit_content"
proof -
  obtain H db fs where run: "hub_run wit_art_lib wit_quotas wit_config wit_env True 8 H (db, fs)"
    and facts: "run_facts db" by (rule wit_run_end)
  then obtain r where r: "db_objects db = [r]" "ob_content_hash r = wit_content"
    unfolding run_facts_def by (auto simp: map_eq_Cons_conv)
  then have "r \<in> set (db_objects db)" by simp
  moreover from run_objects_intact [OF run this] obtain bytes where
    "fs (ob_storage_path r) = Some bytes" "hub_content_hash wit_art_lib bytes = wit_content"
    using r by auto
  ultimately show ?thesis by (intro exI conjI)
qed

text \<open>C17: A release that is no longer a draft has an approval bound to its request hash, in every
  run.\<close>

theorem run_release_approved:
  assumes "hub_run L Q cfg env steady t H (db, fs)" and "r \<in> set (db_releases db)"
    and "re_state r \<noteq> ''draft''"
  shows "\<exists>x \<in> set (db_approvals db). ra_release_id x = re_id r \<and> ra_request_hash x = re_request_hash r"
  using hub_okD(4) [OF hub_run_ok [OF assms(1)]] assms(2,3)
  by (auto simp: releases_ok_def release_row_ok_def bound_approval_def)

lemma run_release_approved_witness:
  "\<exists>(db :: hub_db) r. r \<in> set (db_releases db) \<and> re_state r = ''approved''
    \<and> (\<exists>x \<in> set (db_approvals db). ra_release_id x = re_id r \<and> ra_request_hash x = re_request_hash r)"
proof -
  obtain H db fs where run: "hub_run wit_art_lib wit_quotas wit_config wit_env True 8 H (db, fs)"
    and facts: "run_facts db" by (rule wit_run_end)
  then obtain r where r: "db_releases db = [r]" "re_state r = ''approved''" unfolding run_facts_def by blast
  then have "r \<in> set (db_releases db)" "re_state r \<noteq> ''draft''" by simp_all
  with run_release_approved [OF run this] r(2) show ?thesis by (intro exI conjI)
qed



end
