(* ===== verification/CoreManifest.thy ===== *)
theory CoreManifest
  imports ReleaseLifecycle RustText "HOL-Library.List_Lexorder" "HOL-Library.Char_ord"
    "HOL-Library.Product_Lexorder" "HOL-Library.Option_ord"
begin

text \<open>
  The project manifest \<open>neuman.project.yaml\<close> (first part of \<open>core.rs\<close>): its structs, the bounded
  parser and the cross-field validation every command runs first.

  A \<open>BTreeMap\<close> with text keys is the list of its entries in key order. The YAML parser, the URL
  parser and the canonical hash are arguments; \<open>Path\<close> is that of Unix.
\<close>

section \<open>The manifest\<close>

type_synonym 'v btree = "(string \<times> 'v) list"

definition btree_has :: "'v btree \<Rightarrow> string \<Rightarrow> bool" where
  "btree_has m k \<longleftrightarrow> k \<in> fst ` set m"

record project_config =
  pc_slug :: string
  pc_display_name :: string
  pc_description :: "string option"
  pc_allow_nested :: bool
  pc_default_place :: "string option"
  pc_default_art_channel :: "string option"

record repository_config =
  rc_provider :: string
  rc_remote :: "string option"
  rc_github_repository_id :: "string option"
  rc_default_branch :: string
  rc_release_branch :: "string option"
  rc_object_format :: git_object_format
  rc_project_file :: string
  rc_require_clean_worktree :: bool
  rc_allow_submodules :: bool
  rc_allow_git_hooks :: bool

record toolchain_config =
  tc_neuman :: string
  tc_rojo :: json
  tc_studio :: json
  tc_api_schema :: json
  tc_helpers :: "json btree"

record provider_config =
  pv_art_store :: json
  pv_hub :: "json option"
  pv_git_hub :: "json option"
  pv_roblox :: "json option"

record art_channel_config =
  cc_display_name :: string
  cc_protected :: bool
  cc_authoring_place :: string
  cc_acceptance_policy :: string
  cc_lock_policy :: string
  cc_allow_offline_capture :: bool
  cc_allow_offline_acceptance :: bool

record environment_config =
  en_kind :: string
  en_production_impact :: bool
  en_required_for :: "string list"
  en_approvals :: "string option"

record base_template =
  bt_kind :: string
  bt_path :: string
  bt_sha256 :: "u8 list option"

record target_config =
  tg_universe_id :: string
  tg_place_id :: string
  tg_creator :: creator
  tg_publication :: string

record ownership_config =
  ow_id :: string
  ow_path :: string
  ow_owner :: string
  ow_allow_owned_descendants :: bool
  ow_unknown_instances :: "string option"
  ow_options :: "json btree"

record place_config =
  pl_display_name :: string
  pl_base_template :: base_template
  pl_authoring :: "roblox_target option"
  pl_targets :: "target_config btree"
  pl_ownership :: "ownership_config list"
  pl_validation_profile :: string
  pl_release_policy :: string

record project_manifest =
  pm_schema_version :: string
  pm_project :: project_config
  pm_repository :: repository_config
  pm_toolchain :: toolchain_config
  pm_providers :: provider_config
  pm_art_channels :: "art_channel_config btree"
  pm_places :: "place_config btree"
  pm_environments :: "environment_config btree"
  pm_policies :: "json btree"
  pm_validation :: "json btree"
  pm_extensions :: "json btree"

record validation_issue =
  vi_code :: string
  vi_path :: string
  vi_message :: string

record validation_report =
  vr_valid :: bool
  vr_errors :: "validation_issue list"
  vr_warnings :: "validation_issue list"
  vr_manifest_hash :: "string option"

definition issue :: "string \<Rightarrow> string \<Rightarrow> string \<Rightarrow> validation_issue" where
  "issue code path message = \<lparr>vi_code = code, vi_path = path, vi_message = message\<rparr>"

text \<open>What the \<open>url\<close> crate parses out of a remote.\<close>

record parsed_url =
  url_scheme :: string
  url_username :: string
  url_password :: "string option"

section \<open>Text checks\<close>

definition valid_slug :: "string \<Rightarrow> bool" where
  "valid_slug value \<longleftrightarrow>
     3 \<le> length value \<and> length value \<le> 63 \<and> \<not> starts_with ''-'' value
     \<and> last value \<noteq> CHR ''-''
     \<and> list_all (\<lambda>c. is_lower c \<or> is_digit c \<or> c = CHR ''-'') value"

definition valid_key :: "string \<Rightarrow> bool" where
  "valid_key value \<longleftrightarrow>
     2 \<le> length value \<and> length value \<le> 32 \<and> is_lower (hd value)
     \<and> list_all (\<lambda>c. is_lower c \<or> is_digit c \<or> c = CHR ''-'') value"

definition is_absolute_or_parent_escape :: "string \<Rightarrow> bool" where
  "is_absolute_or_parent_escape value \<longleftrightarrow>
     starts_with ''/'' value \<or> ''..'' \<in> set (split_on (CHR ''/'') value)"

text \<open>The scan of a segment's \<open>~0\<close> and \<open>~1\<close>.\<close>

fun escapes_ok :: "string \<Rightarrow> bool" where
  "escapes_ok [] = True"
| "escapes_ok [c] = (c \<noteq> CHR ''~'')"
| "escapes_ok (c # d # s) =
     (if c = CHR ''~'' then d \<in> {CHR ''0'', CHR ''1''} \<and> escapes_ok s else escapes_ok (d # s))"

definition normalize_data_model_path :: "string \<Rightarrow> string option" where
  "normalize_data_model_path value =
     (if \<not> starts_with ''/'' value \<or> last value = CHR ''/'' \<or> contains_text ''//'' value then None
      else if list_ex (\<lambda>segment. segment = [] \<or> \<not> escapes_ok segment)
                (split_on (CHR ''/'') (tl value)) then None
      else Some value)"

definition ownership_overlaps :: "string \<Rightarrow> string \<Rightarrow> bool" where
  "ownership_overlaps left right \<longleftrightarrow>
     left = right
     \<or> (case strip_prefix left right of None \<Rightarrow> False | Some rest \<Rightarrow> starts_with ''/'' rest)
     \<or> (case strip_prefix right left of None \<Rightarrow> False | Some rest \<Rightarrow> starts_with ''/'' rest)"

definition secret_terms :: "string list" where
  "secret_terms = [''secret'', ''token'', ''password'', ''apikey'', ''api_key'', ''cookie'',
     ''.roblosecurity'']"

definition secret_like :: "string \<Rightarrow> bool" where
  "secret_like key \<longleftrightarrow> list_ex (\<lambda>term. contains_text term (to_ascii_lowercase key)) secret_terms"

fun reject_secret_values :: "string \<Rightarrow> json \<Rightarrow> validation_issue list"
  and reject_secret_fields :: "string \<Rightarrow> (string \<times> json) list \<Rightarrow> validation_issue list"
  and reject_secret_items :: "string \<Rightarrow> nat \<Rightarrow> json list \<Rightarrow> validation_issue list" where
  "reject_secret_values path (JObj entries) = reject_secret_fields path entries"
| "reject_secret_values path (JArr values) = reject_secret_items path 0 values"
| "reject_secret_values path JNull = []"
| "reject_secret_values path (JBool b) = []"
| "reject_secret_values path (JNum n) = []"
| "reject_secret_values path (JStr s) = []"
| "reject_secret_fields path [] = []"
| "reject_secret_fields path ((key, child) # rest) =
     (let child_path = path @ ''.'' @ key
      in (if secret_like key
          then [issue ''SECRET_IN_MANIFEST'' child_path ''credential-like provider key is forbidden'']
          else [])
         @ reject_secret_values child_path child @ reject_secret_fields path rest)"
| "reject_secret_items path index [] = []"
| "reject_secret_items path index (child # rest) =
     reject_secret_values (path @ ''['' @ decimal index @ '']'') child
     @ reject_secret_items path (index + 1) rest"

section \<open>Validation\<close>

text \<open>Each check that may push one issue is the list of the issues it pushes.\<close>

definition issue_if :: "bool \<Rightarrow> validation_issue \<Rightarrow> validation_issue list" where
  "issue_if b i = (if b then [i] else [])"

text \<open>\<open>serde_json::to_value\<close> of the providers, whose map orders its keys.\<close>

definition json_or_null :: "json option \<Rightarrow> json" where
  "json_or_null v = (case v of None \<Rightarrow> JNull | Some j \<Rightarrow> j)"

definition providers_json :: "provider_config \<Rightarrow> json" where
  "providers_json p =
     JObj [(''artStore'', pv_art_store p), (''gitHub'', json_or_null (pv_git_hub p)),
           (''hub'', json_or_null (pv_hub p)), (''roblox'', json_or_null (pv_roblox p))]"

definition remote_safe :: "(string \<Rightarrow> parsed_url option) \<Rightarrow> string \<Rightarrow> bool" where
  "remote_safe parse_url remote =
     (case parse_url remote of
        None \<Rightarrow> False
      | Some url \<Rightarrow> url_username url = [] \<and> url_password url = None
          \<and> url_scheme url \<in> {''https'', ''ssh''})"

definition project_issues ::
  "(string \<Rightarrow> parsed_url option) \<Rightarrow> project_manifest \<Rightarrow> validation_issue list" where
  "project_issues parse_url m =
     issue_if (pm_schema_version m \<noteq> ''1.0'')
       (issue ''SCHEMA_UNSUPPORTED'' ''schemaVersion'' ''only schemaVersion 1.0 is supported'')
     @ issue_if (\<not> valid_slug (pc_slug (pm_project m)))
       (issue ''PROJECT_SLUG_INVALID'' ''project.slug''
          ''slug must be 3..63 lowercase letters, digits, or internal hyphens'')
     @ issue_if (pc_display_name (pm_project m) = [] \<or> 100 < chars_count (pc_display_name (pm_project m)))
       (issue ''PROJECT_NAME_INVALID'' ''project.displayName''
          ''display name must contain 1..100 characters'')
     @ issue_if (case pc_default_place (pm_project m) of None \<Rightarrow> False
                 | Some place \<Rightarrow> \<not> btree_has (pm_places m) place)
       (issue ''DEFAULT_PLACE_UNKNOWN'' ''project.defaultPlace'' ''default place does not exist'')
     @ issue_if (case pc_default_art_channel (pm_project m) of None \<Rightarrow> False
                 | Some channel \<Rightarrow> \<not> btree_has (pm_art_channels m) channel)
       (issue ''DEFAULT_ART_CHANNEL_UNKNOWN'' ''project.defaultArtChannel''
          ''default art channel does not exist'')
     @ issue_if (rc_allow_git_hooks (pm_repository m))
       (issue ''GIT_HOOKS_FORBIDDEN'' ''repository.allowGitHooks''
          ''repository-supplied hooks are not supported by this implementation'')
     @ issue_if (case rc_remote (pm_repository m) of None \<Rightarrow> False
                 | Some remote \<Rightarrow> \<not> remote_safe parse_url remote)
       (issue ''GIT_REMOTE_UNSAFE'' ''repository.remote''
          ''remote must use https/ssh and contain no embedded credentials'')
     @ issue_if (is_absolute_or_parent_escape (rc_project_file (pm_repository m)))
       (issue ''REPOSITORY_PATH_UNSAFE'' ''repository.projectFile''
          ''path must remain inside the repository'')
     @ reject_secret_values ''providers'' (providers_json (pm_providers m))"

definition OWNER_KINDS :: "string list" where
  "OWNER_KINDS = [''git-code'', ''studio-art'', ''terrain'', ''service-state'', ''generated'',
     ''external-package'']"

fun root_issues :: "string \<Rightarrow> string set \<Rightarrow> ownership_config list \<Rightarrow> validation_issue list" where
  "root_issues place_key root_ids [] = []"
| "root_issues place_key root_ids (root # roots) =
     (let at = ''places.'' @ place_key @ ''.ownership''
      in issue_if (ow_id root \<in> root_ids)
           (issue ''OWNERSHIP_ID_DUPLICATE'' at (''duplicate ownership id '' @ ow_id root))
         @ issue_if (normalize_data_model_path (ow_path root) = None)
           (issue ''OWNERSHIP_PATH_INVALID'' (at @ ''.'' @ ow_id root @ ''.path'')
              ''path must be absolute and use valid ~0/~1 escapes'')
         @ issue_if (ow_owner root \<notin> set OWNER_KINDS)
           (issue ''OWNERSHIP_OWNER_INVALID'' (at @ ''.'' @ ow_id root @ ''.owner'') ''unknown owner kind'')
         @ root_issues place_key (insert (ow_id root) root_ids) roots)"

definition legal_delegation :: "ownership_config \<Rightarrow> ownership_config \<Rightarrow> bool" where
  "legal_delegation parent child \<longleftrightarrow>
     ow_path parent \<noteq> ow_path child \<and> ow_allow_owned_descendants parent
     \<and> ow_unknown_instances parent \<noteq> Some ''capture''"

primrec overlap_issues :: "string \<Rightarrow> ownership_config list \<Rightarrow> validation_issue list" where
  "overlap_issues place_key [] = []"
| "overlap_issues place_key (parent # children) =
     concat (map (\<lambda>child. issue_if
         (ownership_overlaps (ow_path parent) (ow_path child) \<and> \<not> legal_delegation parent child)
         (issue ''OWNERSHIP_OVERLAP'' (''places.'' @ place_key @ ''.ownership'')
            (ow_id parent @ '' overlaps '' @ ow_id child))) children)
     @ overlap_issues place_key children"

definition sorted_roots :: "place_config \<Rightarrow> ownership_config list" where
  "sorted_roots place = sort_key (\<lambda>root. normalize_data_model_path (ow_path root)) (pl_ownership place)"

definition target_issues ::
  "project_manifest \<Rightarrow> string \<Rightarrow> place_config \<Rightarrow> string \<times> target_config \<Rightarrow> validation_issue list" where
  "target_issues m place_key place = (\<lambda>(environment, target).
     let at = ''places.'' @ place_key @ ''.targets.'' @ environment
     in issue_if (\<not> btree_has (pm_environments m) environment)
          (issue ''TARGET_ENVIRONMENT_UNKNOWN'' at ''environment is not declared'')
        @ issue_if (tg_publication target \<notin> {''studio-assisted'', ''open-cloud'', ''manual-handoff''})
          (issue ''PUBLICATION_MODE_INVALID'' (at @ ''.publication'') ''unknown publication mode'')
        @ issue_if (case pl_authoring place of None \<Rightarrow> False
              | Some authoring \<Rightarrow>
                  rt_universe_id authoring = tg_universe_id target
                  \<and> rt_place_id authoring = tg_place_id target
                  \<and> (case map_of (pm_environments m) environment of None \<Rightarrow> False
                       | Some env \<Rightarrow> en_production_impact env))
          (issue ''PRODUCTION_IS_AUTHORING'' at
             ''production-impact target cannot be the authoring target''))"

definition place_issues ::
  "project_manifest \<Rightarrow> string \<times> place_config \<Rightarrow> validation_issue list" where
  "place_issues m = (\<lambda>(place_key, place).
     issue_if (\<not> valid_key place_key)
       (issue ''PLACE_KEY_INVALID'' (''places.'' @ place_key) ''place key is invalid'')
     @ issue_if (is_absolute_or_parent_escape (bt_path (pl_base_template place)))
       (issue ''BASE_TEMPLATE_PATH_UNSAFE'' (''places.'' @ place_key @ ''.baseTemplate.path'')
          ''path must remain inside repository'')
     @ issue_if (\<not> btree_has (pm_policies m) (pl_release_policy place))
       (issue ''RELEASE_POLICY_UNKNOWN'' (''places.'' @ place_key @ ''.releasePolicy'')
          ''named release policy is missing'')
     @ root_issues place_key {} (sorted_roots place)
     @ overlap_issues place_key (sorted_roots place)
     @ concat (map (target_issues m place_key place) (pl_targets place)))"

text \<open>The set \<open>target_ids\<close> in its order, and the groups of \<open>by_target\<close>.\<close>

definition place_target_ids :: "string \<times> place_config \<Rightarrow> (string \<times> string \<times> string) list" where
  "place_target_ids = (\<lambda>(place_key, place).
     (case pl_authoring place of None \<Rightarrow> []
      | Some a \<Rightarrow> [(rt_universe_id a, rt_place_id a, place_key @ ''.authoring'')])
     @ map (\<lambda>(environment, t). (tg_universe_id t, tg_place_id t, place_key @ ''.'' @ environment))
         (pl_targets place))"

definition target_ids :: "project_manifest \<Rightarrow> (string \<times> string \<times> string) list" where
  "target_ids m = sort (remdups (concat (map place_target_ids (pm_places m))))"

definition duplicate_target_issues :: "project_manifest \<Rightarrow> validation_issue list" where
  "duplicate_target_issues m =
     concat (map (\<lambda>(universe, place).
       let locations = [l. (u, p, l) \<leftarrow> target_ids m, u = universe \<and> p = place]
       in issue_if (1 < length locations)
            (issue ''TARGET_DUPLICATE'' ''places''
               (''target '' @ universe @ ''/'' @ place @ '' appears at '' @ join_texts '', '' locations)))
       (sort (remdups (map (\<lambda>(u, p, l). (u, p)) (target_ids m)))))"

definition art_channel_issues ::
  "project_manifest \<Rightarrow> string \<times> art_channel_config \<Rightarrow> validation_issue list" where
  "art_channel_issues m = (\<lambda>(key, channel).
     issue_if (\<not> btree_has (pm_places m) (cc_authoring_place channel))
       (issue ''ART_AUTHORING_PLACE_UNKNOWN'' (''artChannels.'' @ key @ ''.authoringPlace'')
          ''place does not exist'')
     @ issue_if (cc_protected channel \<and> cc_allow_offline_acceptance channel)
       (issue ''PROTECTED_OFFLINE_ACCEPTANCE'' (''artChannels.'' @ key)
          ''protected channels cannot accept revisions offline''))"

definition manifest_issues ::
  "(string \<Rightarrow> parsed_url option) \<Rightarrow> project_manifest \<Rightarrow> validation_issue list" where
  "manifest_issues parse_url m =
     project_issues parse_url m @ concat (map (place_issues m) (pm_places m))
     @ duplicate_target_issues m @ concat (map (art_channel_issues m) (pm_art_channels m))"

definition validate_manifest ::
  "(string \<Rightarrow> parsed_url option) \<Rightarrow> (project_manifest \<Rightarrow> string option) \<Rightarrow> project_manifest
   \<Rightarrow> validation_report" where
  "validate_manifest parse_url canonical_hash m =
     (let errors = manifest_issues parse_url m
      in \<lparr>vr_valid = (errors = []), vr_errors = errors, vr_warnings = [],
          vr_manifest_hash = canonical_hash m\<rparr>)"

section \<open>Reading a manifest\<close>

text \<open>\<open>str::from_utf8\<close> accepts the well-formed byte sequences of the Unicode standard.\<close>

definition tail_byte :: "char \<Rightarrow> bool" where
  "tail_byte c \<longleftrightarrow> 0x80 \<le> byte_val c \<and> byte_val c \<le> 0xBF"

definition utf8_second :: "nat \<Rightarrow> nat \<Rightarrow> bool" where
  "utf8_second b c \<longleftrightarrow>
     (if b = 0xE0 then 0xA0 \<le> c \<and> c \<le> 0xBF else if b = 0xED then 0x80 \<le> c \<and> c \<le> 0x9F
      else if b = 0xF0 then 0x90 \<le> c \<and> c \<le> 0xBF else if b = 0xF4 then 0x80 \<le> c \<and> c \<le> 0x8F
      else 0x80 \<le> c \<and> c \<le> 0xBF)"

fun from_utf8 :: "string \<Rightarrow> bool" where
  "from_utf8 [] = True"
| "from_utf8 (b # s) =
     (if byte_val b < 0x80 then from_utf8 s
      else case s of [] \<Rightarrow> False
      | c # t \<Rightarrow>
          if 0xC2 \<le> byte_val b \<and> byte_val b \<le> 0xDF then tail_byte c \<and> from_utf8 t
          else case t of [] \<Rightarrow> False
          | d # u \<Rightarrow>
              if 0xE0 \<le> byte_val b \<and> byte_val b \<le> 0xEF
              then utf8_second (byte_val b) (byte_val c) \<and> tail_byte d \<and> from_utf8 u
              else case u of [] \<Rightarrow> False
              | e # v \<Rightarrow>
                  if 0xF0 \<le> byte_val b \<and> byte_val b \<le> 0xF4
                  then utf8_second (byte_val b) (byte_val c) \<and> tail_byte d \<and> tail_byte e \<and> from_utf8 v
                  else False)"

definition alias_line :: "string \<Rightarrow> bool" where
  "alias_line line \<longleftrightarrow>
     (let code = hd (split_on (CHR ''#'') line)
      in list_ex (\<lambda>token. starts_with ''&'' token \<or> starts_with ''*'' token) (split_whitespace code))"

primrec alias_issues :: "nat \<Rightarrow> string list \<Rightarrow> validation_issue list" where
  "alias_issues line_number [] = []"
| "alias_issues line_number (line # rest) =
     issue_if (alias_line line)
       (issue ''YAML_ALIAS_FORBIDDEN'' (''line '' @ decimal (line_number + 1))
          ''YAML anchors and aliases are forbidden'')
     @ alias_issues (line_number + 1) rest"

definition failed_report :: "validation_issue list \<Rightarrow> validation_report" where
  "failed_report errors = \<lparr>vr_valid = False, vr_errors = errors, vr_warnings = [], vr_manifest_hash = None\<rparr>"

definition parse_errors :: "string \<Rightarrow> validation_issue list" where
  "parse_errors bytes =
     issue_if (1048576 < length bytes) (issue ''MANIFEST_TOO_LARGE'' ''$'' ''manifest exceeds 1 MiB'')
     @ (if from_utf8 bytes then alias_issues 0 (text_lines bytes) else [])"

text \<open>\<open>yaml\<close> is \<open>serde_yaml::from_slice\<close>, an error text or the manifest.\<close>

definition parse_manifest ::
  "(string \<Rightarrow> parsed_url option) \<Rightarrow> (project_manifest \<Rightarrow> string option)
   \<Rightarrow> (string \<Rightarrow> string + project_manifest) \<Rightarrow> string
   \<Rightarrow> validation_report + project_manifest \<times> validation_report" where
  "parse_manifest parse_url canonical_hash yaml bytes =
     (if parse_errors bytes \<noteq> [] then Inl (failed_report (parse_errors bytes))
      else case yaml bytes of
        Inl error \<Rightarrow> Inl (failed_report [issue ''MANIFEST_PARSE_FAILED'' ''$'' error])
      | Inr manifest \<Rightarrow>
          let report = validate_manifest parse_url canonical_hash manifest
          in if vr_valid report then Inr (manifest, report) else Inl report)"

text \<open>\<open>read\<close> is \<open>fs::read\<close> of the manifest file.\<close>

definition load_project ::
  "(string \<Rightarrow> parsed_url option) \<Rightarrow> (project_manifest \<Rightarrow> string option)
   \<Rightarrow> (string \<Rightarrow> string + project_manifest) \<Rightarrow> string + string
   \<Rightarrow> validation_report + project_manifest \<times> validation_report" where
  "load_project parse_url canonical_hash yaml read =
     (case read of
        Inr bytes \<Rightarrow> parse_manifest parse_url canonical_hash yaml bytes
      | Inl error \<Rightarrow> Inl (failed_report [issue ''MANIFEST_READ_FAILED'' ''neuman.project.yaml'' error]))"

text \<open>
  A directory is the list of its components, innermost first; \<open>pop\<close> fails at the root.
  \<open>canonical\<close> is the canonical start, with whether it is a file.
\<close>

fun discover_loop :: "(string list \<Rightarrow> bool) \<Rightarrow> (string list \<Rightarrow> bool) \<Rightarrow> string list \<Rightarrow> string list option" where
  "discover_loop is_file exists current =
     (if is_file (''neuman.project.yaml'' # current) then Some current
      else if exists (''.git'' # current) then None
      else case current of [] \<Rightarrow> None | _ # parent \<Rightarrow> discover_loop is_file exists parent)"

definition discover_project ::
  "(string list \<Rightarrow> bool) \<Rightarrow> (string list \<Rightarrow> bool) \<Rightarrow> string list option \<Rightarrow> core_error + string list" where
  "discover_project is_file exists canonical =
     (case canonical of
        None \<Rightarrow> Inl (core_error ''PROJECT_PATH_INVALID'')
      | Some start \<Rightarrow>
          (case discover_loop is_file exists (if is_file start then tl start else start) of
             None \<Rightarrow> Inl (core_error ''PROJECT_NOT_FOUND'')
           | Some directory \<Rightarrow> Inr directory))"

section \<open>Paths of the data model\<close>

text \<open>A name becomes a segment by escaping as in a JSON pointer.\<close>

primrec escape_name :: "string \<Rightarrow> string" where
  "escape_name [] = []"
| "escape_name (c # s) =
     (if c = CHR ''~'' then ''~0'' else if c = CHR ''/'' then ''~1'' else [c]) @ escape_name s"

definition render_path :: "string list \<Rightarrow> string" where
  "render_path names = concat (map (\<lambda>n. ''/'' @ escape_name n) names)"

lemma escape_name_segment [simp]: "CHR ''/'' \<notin> set (escape_name n)"
  by (induction n) auto

lemma escape_name_Nil [simp]: "escape_name n = [] \<longleftrightarrow> n = []"
  by (cases n) auto

lemma escape_name_ok: "escapes_ok (escape_name n)"
proof (induction n)
  case (Cons c n)
  then show ?case by (cases "escape_name n") auto
qed simp

lemma escapes_ok_image: "escapes_ok s \<Longrightarrow> CHR ''/'' \<notin> set s \<Longrightarrow> \<exists>n. s = escape_name n"
proof (induction s rule: escapes_ok.induct)
  case 1
  show ?case by (rule exI [of _ "[]"]) simp
next
  case (2 c)
  then show ?case by (intro exI [of _ "[c]"]) simp
next
  case (3 c d s)
  show ?case
  proof (cases "c = CHR ''~''")
    case True
    with 3 obtain n where "s = escape_name n" by auto
    with True 3(3) show ?thesis
      by (intro exI [of _ "(if d = CHR ''0'' then CHR ''~'' else CHR ''/'') # n"]) auto
  next
    case False
    with 3 obtain n where "d # s = escape_name n" by auto
    with False 3(4) show ?thesis by (intro exI [of _ "c # n"]) auto
  qed
qed

lemma render_path_Cons: "render_path (n # ns) = CHR ''/'' # escape_name n @ render_path ns"
  by (simp add: render_path_def)

lemma render_path_start: "render_path ns = [] \<or> (\<exists>t. render_path ns = CHR ''/'' # t)"
  by (cases ns) (auto simp: render_path_def)

lemma no_double_slash: "CHR ''/'' \<notin> set n \<Longrightarrow> contains_text ''//'' (n @ t) = contains_text ''//'' t"
  by (induction n) (auto simp: starts_with_iff)

lemma render_path_single_slashes:
  "[] \<notin> set ns \<Longrightarrow> \<not> contains_text ''//'' (render_path ns)"
proof (induction ns)
  case (Cons n ns)
  then obtain c m where e: "escape_name n = c # m" by (cases "escape_name n") auto
  then have "c \<noteq> CHR ''/''" using escape_name_segment [of n] by auto
  with e Cons show ?case
    using no_double_slash [OF escape_name_segment, of n "render_path ns"]
    by (auto simp: render_path_Cons starts_with_iff)
qed (simp add: render_path_def)

lemma render_path_last:
  "ns \<noteq> [] \<Longrightarrow> [] \<notin> set ns \<Longrightarrow> last (render_path ns) \<noteq> CHR ''/''"
proof (induction ns)
  case (Cons n ns)
  then have n: "escape_name n \<noteq> []" by auto
  then have end_n: "last (escape_name n) \<noteq> CHR ''/''"
    using escape_name_segment [of n] last_in_set by metis
  show ?case
  proof (cases "ns = []")
    case True
    with n end_n show ?thesis by (simp add: render_path_def)
  next
    case False
    then have "render_path ns \<noteq> []" by (cases ns) (auto simp: render_path_def)
    with Cons False show ?thesis by (simp add: render_path_Cons)
  qed
qed simp

lemma split_render_path:
  "ns \<noteq> [] \<Longrightarrow> split_on (CHR ''/'') (tl (render_path ns)) = map escape_name ns"
proof (induction ns)
  case (Cons n ns)
  show ?case
  proof (cases ns)
    case Nil
    then show ?thesis by (simp add: render_path_def split_on_single)
  next
    case (Cons m ms)
    then have "render_path ns = CHR ''/'' # tl (render_path ns)" by (simp add: render_path_Cons)
    then have "escape_name n @ render_path ns = escape_name n @ CHR ''/'' # tl (render_path ns)" by simp
    then have "split_on (CHR ''/'') (escape_name n @ render_path ns)
        = escape_name n # split_on (CHR ''/'') (tl (render_path ns))"
      using split_on_append [OF escape_name_segment] by metis
    with Cons.IH Cons show ?thesis by (simp add: render_path_Cons)
  qed
qed simp

lemma split_on_free: "x \<in> set (split_on c s) \<Longrightarrow> c \<notin> set x"
proof (induction s arbitrary: x)
  case (Cons a s)
  have "hd (split_on c s) \<in> set (split_on c s)" by simp
  moreover have "set (tl (split_on c s)) \<subseteq> set (split_on c s)" by (meson list.set_sel(2) split_on_not_Nil subsetI)
  ultimately show ?case using Cons by (auto split: if_splits)
qed simp

lemma normalize_iff:
  "normalize_data_model_path s = Some t
   \<longleftrightarrow> t = s \<and> (\<exists>names. names \<noteq> [] \<and> [] \<notin> set names \<and> s = render_path names)"
proof -
  have "normalize_data_model_path s = Some t" if s: "s = render_path names" "names \<noteq> []" "[] \<notin> set names" "t = s" for names
  proof -
    have "starts_with ''/'' s" using s by (cases names) (auto simp: render_path_Cons starts_with_iff)
    moreover have "\<not> list_ex (\<lambda>segment. segment = [] \<or> \<not> escapes_ok segment) (split_on (CHR ''/'') (tl s))"
      using s escape_name_ok by (auto simp: split_render_path list_ex_iff)
    ultimately show ?thesis
      using s render_path_last render_path_single_slashes by (simp add: normalize_data_model_path_def)
  qed
  moreover have "\<exists>names. names \<noteq> [] \<and> [] \<notin> set names \<and> s = render_path names"
    if norm: "normalize_data_model_path s = Some t"
  proof -
    let ?f = "split_on (CHR ''/'') (tl s)"
    have start: "starts_with ''/'' s" and ok: "\<forall>f \<in> set ?f. f \<noteq> [] \<and> escapes_ok f"
      using norm by (auto simp: normalize_data_model_path_def list_ex_iff split: if_splits)
    then have "\<forall>f \<in> set ?f. \<exists>n. f = escape_name n" using escapes_ok_image split_on_free by blast
    then obtain unescape where un: "\<forall>f \<in> set ?f. f = escape_name (unescape f)" by metis
    define names where "names = map unescape ?f"
    have "concat (map (\<lambda>f. CHR ''/'' # f) ?f) = CHR ''/'' # tl s"
      using split_on_join [of "tl s" "CHR ''/''"] by (cases ?f) auto
    moreover have "s = CHR ''/'' # tl s" using start by (auto simp: starts_with_iff)
    moreover have "render_path names = concat (map (\<lambda>f. CHR ''/'' # f) ?f)"
      using un unfolding render_path_def names_def by (simp cong: map_cong)
    ultimately have "s = render_path names" by simp
    moreover have "[] \<notin> set names" using ok un by (force simp: names_def)
    moreover have "names \<noteq> []" by (simp add: names_def)
    ultimately show ?thesis by blast
  qed
  moreover have "t = s" if "normalize_data_model_path s = Some t"
    using that by (simp add: normalize_data_model_path_def split: if_splits)
  ultimately show ?thesis by blast
qed

section \<open>Ownership\<close>

text \<open>A root covers its own path and everything below it.\<close>

definition covers_path :: "string \<Rightarrow> string \<Rightarrow> bool" where
  "covers_path root x \<longleftrightarrow> x = root \<or> starts_with (root @ ''/'') x"

lemma ownership_overlaps_iff:
  "ownership_overlaps a b \<longleftrightarrow> a = b \<or> starts_with (a @ ''/'') b \<or> starts_with (b @ ''/'') a"
  by (auto simp: ownership_overlaps_def strip_prefix_eq_Some starts_with_iff split: option.splits)

lemma ownership_overlaps_sym: "ownership_overlaps a b = ownership_overlaps b a"
  by (auto simp: ownership_overlaps_iff)

lemma both_cover_overlap:
  assumes "covers_path a x" "covers_path b x"
  shows "ownership_overlaps a b"
proof -
  have cover: "\<exists>u. x = c @ u \<and> (u = [] \<or> hd u = CHR ''/'')" if "covers_path c x" for c
    using that by (auto simp: covers_path_def starts_with_iff)
  obtain u v where u: "x = a @ u" "u = [] \<or> hd u = CHR ''/''" and v: "x = b @ v" "v = [] \<or> hd v = CHR ''/''"
    using cover [OF assms(1)] cover [OF assms(2)] by blast
  then obtain w where "(a = b @ w \<and> w @ u = v) \<or> (a @ w = b \<and> u = w @ v)"
    by (metis append_eq_append_conv2)
  then show ?thesis
    using u(2) v(2) by (cases w) (auto simp: ownership_overlaps_iff starts_with_iff)
qed

lemma longer_not_le: "\<not> (a @ c # r :: string) \<le> a"
  by (induction a) auto

lemma overlap_issues_Nil:
  assumes "overlap_issues place_key rs = []" "r \<in> set rs" "s \<in> set rs" "r \<noteq> s"
    and "sorted (map (\<lambda>x. normalize_data_model_path (ow_path x)) rs)"
    and "ownership_overlaps (ow_path r) (ow_path s)"
  shows "(normalize_data_model_path (ow_path r) \<le> normalize_data_model_path (ow_path s) \<and> legal_delegation r s)
    \<or> (normalize_data_model_path (ow_path s) \<le> normalize_data_model_path (ow_path r) \<and> legal_delegation s r)"
  using assms
proof (induction rs)
  case (Cons p ps)
  have head: "legal_delegation p c" if "c \<in> set ps" "ownership_overlaps (ow_path p) (ow_path c)" for c
    using Cons.prems(1) that by (auto simp: issue_if_def split: if_splits)
  from Cons show ?case
    using head ownership_overlaps_sym by (auto simp: issue_if_def)
qed simp

lemma root_issues_Nil:
  "root_issues place_key ids rs = []
   \<Longrightarrow> (\<forall>r \<in> set rs. normalize_data_model_path (ow_path r) \<noteq> None \<and> ow_owner r \<in> set OWNER_KINDS)
     \<and> distinct (map ow_id rs) \<and> ow_id ` set rs \<inter> ids = {}"
  by (induction place_key ids rs rule: root_issues.induct) (auto simp: Let_def issue_if_def split: if_splits)

lemma delegates_below:
  assumes "normalize_data_model_path (ow_path r) \<le> normalize_data_model_path (ow_path s)"
    and "legal_delegation r s" and "ownership_overlaps (ow_path r) (ow_path s)"
    and "normalize_data_model_path (ow_path r) \<noteq> None" "normalize_data_model_path (ow_path s) \<noteq> None"
  shows "starts_with (ow_path r @ ''/'') (ow_path s)"
proof -
  have "normalize_data_model_path (ow_path r) = Some (ow_path r)"
    "normalize_data_model_path (ow_path s) = Some (ow_path s)"
    using assms(4,5) by (auto simp: normalize_data_model_path_def split: if_splits)
  with assms(1) have "ow_path r \<le> ow_path s" by simp
  then have "\<not> starts_with (ow_path s @ ''/'') (ow_path r)"
    using longer_not_le by (auto simp: starts_with_iff)
  then show ?thesis using assms(2,3) by (auto simp: ownership_overlaps_iff legal_delegation_def)
qed

lemma validate_manifest_valid:
  "vr_valid (validate_manifest parse_url h m) \<longleftrightarrow> manifest_issues parse_url m = []"
  by (simp add: validate_manifest_def Let_def)

lemma valid_place:
  assumes "vr_valid (validate_manifest parse_url h m)" "(k, place) \<in> set (pm_places m)"
  shows "place_issues m (k, place) = []"
  using assms by (auto simp: validate_manifest_valid manifest_issues_def)

section \<open>Targets and secrets\<close>

fun json_keys :: "json \<Rightarrow> string list"
  and field_keys :: "(string \<times> json) list \<Rightarrow> string list"
  and item_keys :: "json list \<Rightarrow> string list" where
  "json_keys (JObj entries) = field_keys entries"
| "json_keys (JArr values) = item_keys values"
| "json_keys JNull = []"
| "json_keys (JBool b) = []"
| "json_keys (JNum n) = []"
| "json_keys (JStr s) = []"
| "field_keys [] = []"
| "field_keys ((key, child) # rest) = key # json_keys child @ field_keys rest"
| "item_keys [] = []"
| "item_keys (child # rest) = json_keys child @ item_keys rest"

lemma reject_secrets_iff:
  "reject_secret_values path v = [] \<longleftrightarrow> (\<forall>k \<in> set (json_keys v). \<not> secret_like k)"
  "reject_secret_fields path es = [] \<longleftrightarrow> (\<forall>k \<in> set (field_keys es). \<not> secret_like k)"
  "reject_secret_items path i vs = [] \<longleftrightarrow> (\<forall>k \<in> set (item_keys vs). \<not> secret_like k)"
  by (induction path v and path es and path i vs
      rule: reject_secret_values_reject_secret_fields_reject_secret_items.induct) (auto simp: Let_def)

lemma target_ids_set: "set (target_ids m) = (\<Union>p \<in> set (pm_places m). set (place_target_ids p))"
  by (simp add: target_ids_def)

lemma duplicate_target_issues_Nil:
  assumes "duplicate_target_issues m = []" "(u, p, l) \<in> set (target_ids m)" "(u, p, l') \<in> set (target_ids m)"
  shows "l = l'"
proof (rule ccontr)
  assume "l \<noteq> l'"
  let ?ls = "[l. (a, b, l) \<leftarrow> target_ids m, a = u \<and> b = p]"
  have "{l, l'} \<subseteq> set ?ls" using assms(2,3) by force
  then have "card {l, l'} \<le> length ?ls" by (meson card_length card_mono finite_set order_trans)
  then have "1 < length ?ls" using \<open>l \<noteq> l'\<close> by simp
  moreover have "(u, p) \<in> set (sort (remdups (map (\<lambda>(u, p, l). (u, p)) (target_ids m))))"
    using assms(2) by force
  ultimately show False using assms(1) unfolding duplicate_target_issues_def by (fastforce simp: issue_if_def)
qed

section \<open>A concrete manifest\<close>

definition wit_root :: "string \<Rightarrow> string \<Rightarrow> string \<Rightarrow> bool \<Rightarrow> ownership_config" where
  "wit_root i path owner delegates = \<lparr>ow_id = i, ow_path = path, ow_owner = owner,
     ow_allow_owned_descendants = delegates, ow_unknown_instances = None, ow_options = []\<rparr>"

definition wit_target :: "string \<Rightarrow> target_config" where
  "wit_target place = \<lparr>tg_universe_id = ''1'', tg_place_id = place,
     tg_creator = \<lparr>creator_kind = ''user'', creator_id = ''7''\<rparr>, tg_publication = ''open-cloud''\<rparr>"

definition wit_place :: "(string \<times> target_config) list \<Rightarrow> place_config" where
  "wit_place targets = \<lparr>pl_display_name = ''Main'',
     pl_base_template = \<lparr>bt_kind = ''repository-file'', bt_path = ''base.rbxl'', bt_sha256 = None\<rparr>,
     pl_authoring = Some \<lparr>rt_universe_id = ''1'', rt_place_id = ''2'',
        rt_creator = \<lparr>creator_kind = ''user'', creator_id = ''7''\<rparr>\<rparr>,
     pl_targets = targets,
     pl_ownership = [wit_root ''scripts'' ''/Workspace/Art/Scripts'' ''git-code'' False,
        wit_root ''art'' ''/Workspace/Art'' ''studio-art'' True],
     pl_validation_profile = ''p'', pl_release_policy = ''r''\<rparr>"

definition wit_project :: "(string \<times> target_config) list \<Rightarrow> project_manifest" where
  "wit_project targets = \<lparr>pm_schema_version = ''1.0'',
     pm_project = \<lparr>pc_slug = ''game'', pc_display_name = ''Game'', pc_description = None,
        pc_allow_nested = False, pc_default_place = Some ''main'', pc_default_art_channel = Some ''art''\<rparr>,
     pm_repository = \<lparr>rc_provider = ''local'', rc_remote = None, rc_github_repository_id = None,
        rc_default_branch = ''main'', rc_release_branch = None, rc_object_format = Sha1,
        rc_project_file = ''default.project.json'', rc_require_clean_worktree = True,
        rc_allow_submodules = False, rc_allow_git_hooks = False\<rparr>,
     pm_toolchain = \<lparr>tc_neuman = ''1'', tc_rojo = JNull, tc_studio = JNull, tc_api_schema = JNull,
        tc_helpers = []\<rparr>,
     pm_providers = \<lparr>pv_art_store = JObj [(''kind'', JStr ''local'')], pv_hub = None, pv_git_hub = None,
        pv_roblox = None\<rparr>,
     pm_art_channels = [(''art'', \<lparr>cc_display_name = ''Art'', cc_protected = False,
        cc_authoring_place = ''main'', cc_acceptance_policy = ''a'', cc_lock_policy = ''l'',
        cc_allow_offline_capture = True, cc_allow_offline_acceptance = True\<rparr>)],
     pm_places = [(''main'', wit_place targets)],
     pm_environments = [(''authoring'', \<lparr>en_kind = ''e'', en_production_impact = False,
        en_required_for = [], en_approvals = None\<rparr>), (''staging'', \<lparr>en_kind = ''e'',
        en_production_impact = True, en_required_for = [], en_approvals = None\<rparr>)],
     pm_policies = [(''a'', JNull), (''r'', JNull)], pm_validation = [], pm_extensions = []\<rparr>"

lemma wit_project_valid:
  "vr_valid (validate_manifest (\<lambda>_. None) (\<lambda>_. None) (wit_project [(''staging'', wit_target ''3'')]))"
  by code_simp

text \<open>
  An environment named \<open>authoring\<close> spells the location of the authoring place, so the set of
  targets merges the two and their identity goes unnoticed, while any other name is refused.
\<close>

lemma authoring_environment_hides_duplicate:
  "vr_valid (validate_manifest (\<lambda>_. None) (\<lambda>_. None) (wit_project [(''authoring'', wit_target ''2'')]))"
  by code_simp

text \<open>The scan for aliases sees only tokens that begin with one: in a flow sequence it sees none.\<close>

lemma flow_alias_unnoticed: "alias_line ''a: *x'' \<and> \<not> alias_line ''a: [*x]''"
  by code_simp

section \<open>Properties\<close>

text \<open>The data model paths the manifest and captures may name are exactly the renderings of
  non-empty lists of non-empty names, escaped as in a JSON pointer, and the check never rewrites
  one.\<close>

theorem data_model_paths_exact:
  "normalize_data_model_path s = Some t
   \<longleftrightarrow> t = s \<and> (\<exists>names. names \<noteq> [] \<and> [] \<notin> set names \<and> s = render_path names)"
  by (rule normalize_iff)

text \<open>C25: In a manifest that validates, two ownership roots of a place that both cover some path
  of the data model are the same root, or one lies strictly below the other, which allows owned
  descendants and does not capture unknown instances.\<close>

theorem manifest_ownership_unambiguous:
  assumes "vr_valid (validate_manifest parse_url h m)" "(k, place) \<in> set (pm_places m)"
    and "r \<in> set (pl_ownership place)" "s \<in> set (pl_ownership place)"
    and "covers_path (ow_path r) x" "covers_path (ow_path s) x"
  shows "r = s
    \<or> (starts_with (ow_path r @ ''/'') (ow_path s) \<and> legal_delegation r s)
    \<or> (starts_with (ow_path s @ ''/'') (ow_path r) \<and> legal_delegation s r)"
proof (cases "r = s")
  case False
  let ?rs = "sorted_roots place"
  have none: "root_issues k {} ?rs = []" "overlap_issues k ?rs = []"
    using valid_place [OF assms(1,2)] by (auto simp: place_issues_def)
  have mem: "r \<in> set ?rs" "s \<in> set ?rs" using assms(3,4) by (simp_all add: sorted_roots_def)
  have paths: "normalize_data_model_path (ow_path r) \<noteq> None" "normalize_data_model_path (ow_path s) \<noteq> None"
    using root_issues_Nil [OF none(1)] mem by auto
  have overlap: "ownership_overlaps (ow_path r) (ow_path s)" by (rule both_cover_overlap [OF assms(5,6)])
  have "sorted (map (\<lambda>x. normalize_data_model_path (ow_path x)) ?rs)" by (simp add: sorted_roots_def)
  from overlap_issues_Nil [OF none(2) mem False this overlap] show ?thesis
    using delegates_below [OF _ _ overlap paths]
      delegates_below [OF _ _ overlap [unfolded ownership_overlaps_sym [of "ow_path r"]] paths(2,1)] by blast
qed simp

lemma manifest_ownership_unambiguous_witness:
  "\<exists>r s. starts_with (ow_path r @ ''/'') (ow_path s) \<and> legal_delegation r s
    \<and> covers_path (ow_path r) ''/Workspace/Art/Scripts/Main'' \<and> ow_owner s = ''git-code''"
proof -
  let ?place = "wit_place [(''staging'', wit_target ''3'')]"
  let ?r = "wit_root ''art'' ''/Workspace/Art'' ''studio-art'' True"
  let ?s = "wit_root ''scripts'' ''/Workspace/Art/Scripts'' ''git-code'' False"
  have covers: "covers_path (ow_path ?r) ''/Workspace/Art/Scripts/Main''"
    "covers_path (ow_path ?s) ''/Workspace/Art/Scripts/Main''"
    by (simp_all add: covers_path_def wit_root_def)
  have place: "(''main'', ?place) \<in> set (pm_places (wit_project [(''staging'', wit_target ''3'')]))"
    by (simp add: wit_project_def)
  have mem: "?r \<in> set (pl_ownership ?place)" "?s \<in> set (pl_ownership ?place)" by (simp_all add: wit_place_def)
  have "\<not> starts_with (ow_path ?s @ ''/'') (ow_path ?r)" "?r \<noteq> ?s" by (simp_all add: wit_root_def)
  with manifest_ownership_unambiguous [OF wit_project_valid place mem covers] covers
  show ?thesis by (intro exI [of _ ?r] exI [of _ ?s]) (simp add: wit_root_def)
qed

text \<open>C26: In a manifest that validates no two publication targets, of the same or of different
  places, name the same place of the same universe.\<close>

theorem manifest_targets_distinct:
  assumes "vr_valid (validate_manifest parse_url h m)"
    and "(k, place) \<in> set (pm_places m)" "(k', place') \<in> set (pm_places m)"
    and "(e, t) \<in> set (pl_targets place)" "(e', t') \<in> set (pl_targets place')"
    and "tg_universe_id t = tg_universe_id t'" "tg_place_id t = tg_place_id t'"
  shows "k = k' \<and> e = e'"
proof -
  have loc: "(tg_universe_id t, tg_place_id t, k @ ''.'' @ e) \<in> set (target_ids m)"
    if "(k, place) \<in> set (pm_places m)" "(e, t) \<in> set (pl_targets place)" for k place e t
    unfolding target_ids_set using that by (force simp: place_target_ids_def)
  have "duplicate_target_issues m = []" using assms(1) by (simp add: validate_manifest_valid manifest_issues_def)
  from duplicate_target_issues_Nil [OF this loc [OF assms(2,4)] loc [OF assms(3,5), folded assms(6,7)]]
  have eq: "k @ CHR ''.'' # e = k' @ CHR ''.'' # e'" by simp
  have "CHR ''.'' \<notin> set k" if "(k, place) \<in> set (pm_places m)" for k place
  proof -
    have "valid_key k" using valid_place [OF assms(1) that] by (auto simp: place_issues_def issue_if_def split: if_splits)
    then show ?thesis by (auto simp: valid_key_def list_all_iff is_lower_def is_digit_def byte_val_def)
  qed
  then have "CHR ''.'' \<notin> set k" "CHR ''.'' \<notin> set k'" using assms(2,3) by blast+
  with eq show ?thesis
    by (metis split_on_append [of "CHR ''.''"] append_same_eq list.inject split_on_append append_eq_append_conv)
qed

lemma manifest_targets_distinct_witness:
  "(''main'', ''staging'') = (''main'', ''staging'')
   \<and> vr_valid (validate_manifest (\<lambda>_. None) (\<lambda>_. None) (wit_project [(''staging'', wit_target ''3'')]))"
proof -
  let ?place = "wit_place [(''staging'', wit_target ''3'')]"
  have place: "(''main'', ?place) \<in> set (pm_places (wit_project [(''staging'', wit_target ''3'')]))"
    by (simp add: wit_project_def)
  have target: "(''staging'', wit_target ''3'') \<in> set (pl_targets ?place)" by (simp add: wit_place_def)
  from manifest_targets_distinct [OF wit_project_valid place place target target refl refl] wit_project_valid
  show ?thesis by (simp only: prod.inject simp_thms)
qed

text \<open>In a manifest that validates no object at any depth of the provider settings has a key
  that contains a credential-like word, in upper or lower case.\<close>

theorem manifest_carries_no_secret:
  assumes "vr_valid (validate_manifest parse_url h m)"
    and "key \<in> set (json_keys (providers_json (pm_providers m)))"
  shows "\<not> secret_like key"
  using assms by (auto simp: validate_manifest_valid manifest_issues_def project_issues_def reject_secrets_iff)

lemma manifest_carries_no_secret_witness:
  "\<not> secret_like ''kind'' \<and> secret_like ''ApiKey''"
proof -
  have "''kind'' \<in> set (json_keys (providers_json (pm_providers (wit_project [(''staging'', wit_target ''3'')]))))"
    by (simp add: wit_project_def providers_json_def)
  from manifest_carries_no_secret [OF wit_project_valid this] show ?thesis by code_simp
qed

end
