(* ===== verification/CoreLedger.thy ===== *)
theory CoreLedger
  imports CoreManifest ArtState "HOL-Library.Sublist"
begin

text \<open>
  The local ledger of \<open>core.rs\<close>: the tables for art, Studio transfers and captures, Hub imports and
  stream cursors, and the statements \<open>Ledger\<close> runs on them. (The release table is in
  \<open>ReleaseLifecycle\<close>.)

  A row that stores a canonical JSON document holds the document. Ids are held decoded; where a
  query orders by the text of an id, \<open>id_text\<close> is its \<open>Display\<close>. Every method opens its own
  connection, so a method that runs several statements outside a transaction takes the database
  each of them sees.
\<close>

section \<open>Tables\<close>

fun art_status_text :: "art_revision_status \<Rightarrow> string" where
  "art_status_text Capturing = ''capturing''"
| "art_status_text Proposed = ''proposed''"
| "art_status_text Validating = ''validating''"
| "art_status_text ReviewRequired = ''review-required''"
| "art_status_text Accepted = ''accepted''"
| "art_status_text Rejected = ''rejected''"
| "art_status_text Failed = ''failed''"
| "art_status_text Superseded = ''superseded''"

lemma art_status_text_inj [simp]: "art_status_text s = art_status_text t \<longleftrightarrow> s = t"
  by (cases s; cases t) simp_all

record 'u revision_row =
  av_id :: 'u
  av_project_id :: 'u
  av_channel_id :: string
  av_state_root :: content_hash
  av_status :: string
  av_revision :: "'u art_revision"
  av_created_at :: string

record 'u head_row =
  hd_project_id :: 'u
  hd_channel_id :: string
  hd_revision_id :: 'u
  hd_state_root :: content_hash
  hd_updated_at :: string

record studio_transfer_record =
  sx_session_id :: string
  sx_transfer_id :: string
  sx_content_hash :: content_hash
  sx_size_bytes :: nat
  sx_created_at :: string

record 'u transfer_row = studio_transfer_record +
  sx_consumed_by :: "'u option"

record 'u capture_receipt =
  kr_session_id :: string
  kr_transfer_id :: string
  kr_revision_id :: 'u
  kr_mutation_epoch :: nat
  kr_created_at :: string

record 'u hub_receipt =
  hr_authority_id :: string
  hr_remote_revision_id :: string
  hr_event_id :: string
  hr_local_revision_id :: 'u
  hr_created_at :: string

record cursor_row =
  cq_authority_id :: string
  cq_sequence :: int
  cq_cursor :: string
  cq_updated_at :: string

record 'u core_db =
  cd_revisions :: "'u revision_row list"
  cd_heads :: "'u head_row list"
  cd_transfers :: "'u transfer_row list"
  cd_captures :: "'u capture_receipt list"
  cd_hub_receipts :: "'u hub_receipt list"
  cd_cursors :: "cursor_row list"

section \<open>Art revisions\<close>

definition row_of_revision :: "'u art_revision \<Rightarrow> 'u revision_row" where
  "row_of_revision r =
     \<lparr>av_id = art_revision_id r, av_project_id = project_id r, av_channel_id = channel_id r,
      av_state_root = state_root_hash r, av_status = art_status_text (art_status r),
      av_revision = r, av_created_at = created_at r\<rparr>"

definition find_revision :: "'u core_db \<Rightarrow> 'u \<Rightarrow> 'u revision_row option" where
  "find_revision db i = find (\<lambda>r. av_id r = i) (cd_revisions db)"

definition insert_revision_row :: "'u revision_row \<Rightarrow> 'u core_db \<Rightarrow> core_error + 'u core_db" where
  "insert_revision_row r db =
     (if av_id r \<in> av_id ` set (cd_revisions db) then Inl (core_error ''LEDGER_WRITE_FAILED'')
      else Inr (db\<lparr>cd_revisions := cd_revisions db @ [r]\<rparr>))"

definition put_art_revision ::
  "hash_fun \<Rightarrow> 'u uuid_lib \<Rightarrow> 'u art_revision \<Rightarrow> 'u core_db \<Rightarrow> 'u core_db \<Rightarrow> core_error + 'u core_db" where
  "put_art_revision blake3 lib revision seen db =
     bindE (mapE (\<lambda>_. core_error ''ART_REVISION_INVALID'') (art_validate blake3 lib revision)) (\<lambda>_.
     case find_revision seen (art_revision_id revision) of
       Some existing \<Rightarrow>
         if av_revision existing = revision then Inr db
         else Inl (core_error ''ART_REVISION_IMMUTABLE'')
     | None \<Rightarrow> insert_revision_row (row_of_revision revision) db)"

definition art_revision_of :: "'u core_db \<Rightarrow> 'u \<Rightarrow> 'u art_revision option" where
  "art_revision_of db i = map_option av_revision (find_revision db i)"

definition newest_first :: "('u \<Rightarrow> string) \<Rightarrow> 'u revision_row list \<Rightarrow> 'u revision_row list" where
  "newest_first id_text rows = rev (sort_key (\<lambda>r. (av_created_at r, id_text (av_id r))) rows)"

definition art_revisions_of :: "('u \<Rightarrow> string) \<Rightarrow> 'u core_db \<Rightarrow> 'u art_revision list" where
  "art_revisions_of id_text db = map av_revision (newest_first id_text (cd_revisions db))"

definition find_head :: "'u core_db \<Rightarrow> 'u \<Rightarrow> string \<Rightarrow> 'u head_row option" where
  "find_head db pid channel = find (\<lambda>h. hd_project_id h = pid \<and> hd_channel_id h = channel) (cd_heads db)"

definition newest_accepted :: "('u \<Rightarrow> string) \<Rightarrow> 'u core_db \<Rightarrow> 'u \<Rightarrow> string \<Rightarrow> 'u option" where
  "newest_accepted id_text db pid channel =
     (case newest_first id_text (filter (\<lambda>r. av_project_id r = pid \<and> av_channel_id r = channel
                                           \<and> av_status r = ''accepted'') (cd_revisions db)) of
        [] \<Rightarrow> None
      | r # rs \<Rightarrow> Some (av_id r))"

text \<open>The head by the head table, else by the newest accepted revision.\<close>

definition head_id :: "('u \<Rightarrow> string) \<Rightarrow> 'u core_db \<Rightarrow> 'u core_db \<Rightarrow> 'u \<Rightarrow> string \<Rightarrow> 'u option" where
  "head_id id_text db1 db2 pid channel =
     (case find_head db1 pid channel of
        Some h \<Rightarrow> Some (hd_revision_id h)
      | None \<Rightarrow> newest_accepted id_text db2 pid channel)"

definition accepted_art_head ::
  "('u \<Rightarrow> string) \<Rightarrow> 'u core_db \<Rightarrow> 'u core_db \<Rightarrow> 'u core_db \<Rightarrow> 'u \<Rightarrow> string \<Rightarrow> 'u art_revision option" where
  "accepted_art_head id_text db1 db2 db3 pid channel =
     Option.bind (head_id id_text db1 db2 pid channel) (art_revision_of db3)"

definition set_head :: "'u art_revision \<Rightarrow> 'u core_db \<Rightarrow> 'u core_db" where
  "set_head r db =
     (let row = \<lparr>hd_project_id = project_id r, hd_channel_id = channel_id r,
            hd_revision_id = art_revision_id r, hd_state_root = state_root_hash r,
            hd_updated_at = created_at r\<rparr>
      in db\<lparr>cd_heads := (if find_head db (project_id r) (channel_id r) = None then cd_heads db @ [row]
            else map (\<lambda>h. if hd_project_id h = project_id r \<and> hd_channel_id h = channel_id r
                          then row else h) (cd_heads db))\<rparr>)"

section \<open>Studio transfers and captures\<close>

definition is_transfer :: "string \<Rightarrow> string \<Rightarrow> 'u transfer_row \<Rightarrow> bool" where
  "is_transfer session transfer t \<longleftrightarrow> sx_session_id t = session \<and> sx_transfer_id t = transfer"

definition find_transfer :: "'u core_db \<Rightarrow> string \<Rightarrow> string \<Rightarrow> 'u transfer_row option" where
  "find_transfer db session transfer = find (is_transfer session transfer) (cd_transfers db)"

definition transfer_row_of :: "studio_transfer_record \<Rightarrow> 'u transfer_row" where
  "transfer_row_of t = studio_transfer_record.extend t (transfer_row.fields None)"

definition put_studio_transfer ::
  "studio_transfer_record \<Rightarrow> 'u core_db \<Rightarrow> 'u core_db \<Rightarrow> core_error + 'u core_db" where
  "put_studio_transfer transfer seen db =
     (case find_transfer seen (sx_session_id transfer) (sx_transfer_id transfer) of
        Some existing \<Rightarrow>
          if sx_content_hash existing = sx_content_hash transfer
             \<and> sx_size_bytes existing = sx_size_bytes transfer then Inr db
          else Inl (core_error ''STUDIO_TRANSFER_IMMUTABLE'')
      | None \<Rightarrow>
          if find_transfer db (sx_session_id transfer) (sx_transfer_id transfer) \<noteq> None
             \<or> 2 ^ 63 \<le> sx_size_bytes transfer
          then Inl (core_error ''LEDGER_WRITE_FAILED'')
          else Inr (db\<lparr>cd_transfers := cd_transfers db @ [transfer_row_of transfer]\<rparr>))"

definition studio_transfer :: "'u core_db \<Rightarrow> string \<Rightarrow> string \<Rightarrow> studio_transfer_record option" where
  "studio_transfer db session transfer =
     map_option studio_transfer_record.truncate (find_transfer db session transfer)"

definition find_capture :: "'u core_db \<Rightarrow> string \<Rightarrow> string \<Rightarrow> 'u option" where
  "find_capture db session transfer =
     map_option kr_revision_id
       (find (\<lambda>k. kr_session_id k = session \<and> kr_transfer_id k = transfer) (cd_captures db))"

definition studio_capture_revision ::
  "'u core_db \<Rightarrow> 'u core_db \<Rightarrow> string \<Rightarrow> string \<Rightarrow> 'u art_revision option" where
  "studio_capture_revision db1 db2 session transfer =
     Option.bind (find_capture db1 session transfer) (art_revision_of db2)"

definition insert_capture_receipt :: "'u capture_receipt \<Rightarrow> 'u core_db \<Rightarrow> core_error + 'u core_db" where
  "insert_capture_receipt k db =
     (if find_capture db (kr_session_id k) (kr_transfer_id k) \<noteq> None
         \<or> kr_revision_id k \<in> kr_revision_id ` set (cd_captures db) \<or> 2 ^ 63 \<le> kr_mutation_epoch k
      then Inl (core_error ''LEDGER_WRITE_FAILED'')
      else Inr (db\<lparr>cd_captures := cd_captures db @ [k]\<rparr>))"

definition consumable :: "string \<Rightarrow> string \<Rightarrow> 'u transfer_row \<Rightarrow> bool" where
  "consumable session transfer t \<longleftrightarrow> is_transfer session transfer t \<and> sx_consumed_by t = None"

text \<open>One immediate transaction.\<close>

definition commit_studio_capture ::
  "hash_fun \<Rightarrow> 'u uuid_lib \<Rightarrow> ('u \<Rightarrow> string) \<Rightarrow> 'u art_revision \<Rightarrow> string \<Rightarrow> string \<Rightarrow> nat \<Rightarrow> 'u option
   \<Rightarrow> 'u core_db \<Rightarrow> core_error + 'u core_db" where
  "commit_studio_capture blake3 lib id_text revision session transfer epoch expected_head db =
     bindE (mapE (\<lambda>_. core_error ''ART_REVISION_INVALID'') (art_validate blake3 lib revision)) (\<lambda>_.
     case find_capture db session transfer of
       Some existing \<Rightarrow>
         if existing = art_revision_id revision then Inr db
         else Inl (core_error ''STUDIO_CAPTURE_ALREADY_COMMITTED'')
     | None \<Rightarrow>
         if \<not> list_ex (consumable session transfer) (cd_transfers db)
         then Inl (core_error ''STUDIO_TRANSFER_NOT_AVAILABLE'')
         else if art_status revision = Accepted
            \<and> head_id id_text db db (project_id revision) (channel_id revision) \<noteq> expected_head
         then Inl (core_error ''ART_HEAD_CONFLICT'')
         else
           bindE (insert_revision_row (row_of_revision revision) db) (\<lambda>db1.
           let db2 = (if art_status revision = Accepted then set_head revision db1 else db1)
           in bindE (insert_capture_receipt
                \<lparr>kr_session_id = session, kr_transfer_id = transfer,
                 kr_revision_id = art_revision_id revision, kr_mutation_epoch = epoch,
                 kr_created_at = created_at revision\<rparr> db2) (\<lambda>db3.
              if length (filter (consumable session transfer) (cd_transfers db3)) \<noteq> 1
              then Inl (core_error ''STUDIO_TRANSFER_CONSUME_CONFLICT'')
              else Inr (db3\<lparr>cd_transfers := map (\<lambda>t. if consumable session transfer t
                     then t\<lparr>sx_consumed_by := Some (art_revision_id revision)\<rparr> else t)
                   (cd_transfers db3)\<rparr>))))"

section \<open>Hub imports and stream cursors\<close>

definition hub_revision_local_id :: "'u core_db \<Rightarrow> string \<Rightarrow> string \<Rightarrow> 'u option" where
  "hub_revision_local_id db authority remote =
     map_option hr_local_revision_id
       (find (\<lambda>r. hr_authority_id r = authority \<and> hr_remote_revision_id r = remote) (cd_hub_receipts db))"

definition insert_hub_receipt :: "'u hub_receipt \<Rightarrow> 'u core_db \<Rightarrow> core_error + 'u core_db" where
  "insert_hub_receipt r db =
     (if hub_revision_local_id db (hr_authority_id r) (hr_remote_revision_id r) \<noteq> None
         \<or> hr_event_id r \<in> hr_event_id ` set (cd_hub_receipts db)
      then Inl (core_error ''LEDGER_WRITE_FAILED'')
      else Inr (db\<lparr>cd_hub_receipts := cd_hub_receipts db @ [r]\<rparr>))"

definition commit_hub_revision ::
  "hash_fun \<Rightarrow> 'u uuid_lib \<Rightarrow> 'u art_revision \<Rightarrow> string \<Rightarrow> string \<Rightarrow> string \<Rightarrow> 'u option
   \<Rightarrow> 'u core_db \<Rightarrow> core_error + 'u \<times> 'u core_db" where
  "commit_hub_revision blake3 lib revision authority remote event expected_head db =
     bindE (mapE (\<lambda>_. core_error ''ART_REVISION_INVALID'') (art_validate blake3 lib revision)) (\<lambda>_.
     if art_status revision \<noteq> Accepted then Inl (core_error ''HUB_REVISION_INVALID'')
     else case hub_revision_local_id db authority remote of
       Some existing \<Rightarrow> Inr (existing, db)
     | None \<Rightarrow>
         if map_option hd_revision_id (find_head db (project_id revision) (channel_id revision))
            \<noteq> expected_head
         then Inl (core_error ''HUB_HEAD_CONFLICT'')
         else
           bindE (insert_revision_row (row_of_revision revision) db) (\<lambda>db1.
           bindE (insert_hub_receipt
             \<lparr>hr_authority_id = authority, hr_remote_revision_id = remote, hr_event_id = event,
              hr_local_revision_id = art_revision_id revision, hr_created_at = created_at revision\<rparr>
             (set_head revision db1)) (\<lambda>db2.
           Inr (art_revision_id revision, db2))))"

definition hub_stream_cursor :: "'u core_db \<Rightarrow> string \<Rightarrow> (int \<times> string) option" where
  "hub_stream_cursor db authority =
     map_option (\<lambda>r. (cq_sequence r, cq_cursor r))
       (find (\<lambda>r. cq_authority_id r = authority) (cd_cursors db))"

definition put_hub_stream_cursor ::
  "string \<Rightarrow> string \<Rightarrow> int \<Rightarrow> string \<Rightarrow> 'u core_db \<Rightarrow> core_error + 'u core_db" where
  "put_hub_stream_cursor now authority sequence cursor db =
     (if sequence < 1 \<or> cursor = [] \<or> 1024 < length cursor then Inl (core_error ''HUB_CURSOR_INVALID'')
      else
        let row = \<lparr>cq_authority_id = authority, cq_sequence = sequence, cq_cursor = cursor,
              cq_updated_at = now\<rparr>
        in Inr (db\<lparr>cd_cursors :=
             (if hub_stream_cursor db authority = None then cd_cursors db @ [row]
              else map (\<lambda>r. if cq_authority_id r = authority \<and> cq_sequence r < sequence then row else r)
                     (cd_cursors db))\<rparr>))"

definition clear_hub_stream_cursor :: "string \<Rightarrow> 'u core_db \<Rightarrow> 'u core_db" where
  "clear_hub_stream_cursor authority db =
     db\<lparr>cd_cursors := filter (\<lambda>r. cq_authority_id r \<noteq> authority) (cd_cursors db)\<rparr>"

section \<open>Consistency\<close>

text \<open>
  Ids are unique, a row repeats its document, a head names an accepted revision of its own
  channel, a transfer is marked consumed exactly by the capture that has its receipt, and a Hub
  revision is imported once.
\<close>

definition revisions_consistent :: "'u core_db \<Rightarrow> bool" where
  "revisions_consistent db \<longleftrightarrow>
     distinct (map av_id (cd_revisions db))
     \<and> (\<forall>r \<in> set (cd_revisions db). r = row_of_revision (av_revision r))"

definition heads_consistent :: "'u core_db \<Rightarrow> bool" where
  "heads_consistent db \<longleftrightarrow>
     distinct (map (\<lambda>h. (hd_project_id h, hd_channel_id h)) (cd_heads db))
     \<and> (\<forall>h \<in> set (cd_heads db). \<exists>r \<in> set (cd_revisions db). av_id r = hd_revision_id h
          \<and> av_project_id r = hd_project_id h \<and> av_channel_id r = hd_channel_id h
          \<and> av_status r = ''accepted'' \<and> av_state_root r = hd_state_root h)"

definition captures_consistent :: "'u core_db \<Rightarrow> bool" where
  "captures_consistent db \<longleftrightarrow>
     distinct (map (\<lambda>t. (sx_session_id t, sx_transfer_id t)) (cd_transfers db))
     \<and> distinct (map kr_revision_id (cd_captures db))
     \<and> (\<forall>t \<in> set (cd_transfers db). sx_consumed_by t = find_capture db (sx_session_id t) (sx_transfer_id t))
     \<and> (\<forall>k \<in> set (cd_captures db). kr_revision_id k \<in> av_id ` set (cd_revisions db)
          \<and> find_transfer db (kr_session_id k) (kr_transfer_id k) \<noteq> None)"

definition imports_consistent :: "'u core_db \<Rightarrow> bool" where
  "imports_consistent db \<longleftrightarrow>
     distinct (map (\<lambda>r. (hr_authority_id r, hr_remote_revision_id r)) (cd_hub_receipts db))
     \<and> distinct (map hr_event_id (cd_hub_receipts db))
     \<and> (\<forall>r \<in> set (cd_hub_receipts db). hr_local_revision_id r \<in> av_id ` set (cd_revisions db))
     \<and> distinct (map cq_authority_id (cd_cursors db)) \<and> (\<forall>c \<in> set (cd_cursors db). 1 \<le> cq_sequence c)"

definition ledger_consistent :: "'u core_db \<Rightarrow> bool" where
  "ledger_consistent db \<longleftrightarrow>
     revisions_consistent db \<and> heads_consistent db \<and> captures_consistent db \<and> imports_consistent db"

lemma find_eq_None_iff: "find P xs = None \<longleftrightarrow> (\<forall>x \<in> set xs. \<not> P x)"
  by (auto simp: find_None_iff)

lemma insert_revision_row_ok:
  "insert_revision_row r db = Inr db'
   \<longleftrightarrow> av_id r \<notin> av_id ` set (cd_revisions db) \<and> db' = db\<lparr>cd_revisions := cd_revisions db @ [r]\<rparr>"
  by (auto simp: insert_revision_row_def)

lemma row_of_revision_simps [simp]:
  "av_id (row_of_revision r) = art_revision_id r" "av_project_id (row_of_revision r) = project_id r"
  "av_channel_id (row_of_revision r) = channel_id r" "av_state_root (row_of_revision r) = state_root_hash r"
  "av_status (row_of_revision r) = art_status_text (art_status r)" "av_revision (row_of_revision r) = r"
  by (simp_all add: row_of_revision_def)

text \<open>Adding a revision keeps everything.\<close>

lemma insert_revision_consistent:
  assumes "ledger_consistent db" "insert_revision_row (row_of_revision r) db = Inr db'"
  shows "ledger_consistent db'"
proof -
  have db': "db' = db\<lparr>cd_revisions := cd_revisions db @ [row_of_revision r]\<rparr>"
    and fresh: "art_revision_id r \<notin> av_id ` set (cd_revisions db)"
    using assms(2) by (auto simp: insert_revision_row_ok)
  have "revisions_consistent db'"
    using assms(1) fresh by (auto simp: ledger_consistent_def revisions_consistent_def db')
  moreover have "heads_consistent db'"
    using assms(1) unfolding ledger_consistent_def heads_consistent_def db' by auto
  moreover have "captures_consistent db'"
    using assms(1) by (auto simp: ledger_consistent_def captures_consistent_def db' find_capture_def find_transfer_def)
  moreover have "imports_consistent db'"
    using assms(1) by (auto simp: ledger_consistent_def imports_consistent_def db')
  ultimately show ?thesis by (simp add: ledger_consistent_def)
qed

text \<open>Setting a head to an accepted revision of the ledger.\<close>

lemma set_head_tables [simp]:
  "cd_revisions (set_head r db) = cd_revisions db" "cd_transfers (set_head r db) = cd_transfers db"
  "cd_captures (set_head r db) = cd_captures db" "cd_hub_receipts (set_head r db) = cd_hub_receipts db"
  "cd_cursors (set_head r db) = cd_cursors db"
  by (simp_all add: set_head_def Let_def)

lemma find_head_set_head:
  "find_head (set_head r db) pid channel
   = (if pid = project_id r \<and> channel = channel_id r
      then Some \<lparr>hd_project_id = project_id r, hd_channel_id = channel_id r,
        hd_revision_id = art_revision_id r, hd_state_root = state_root_hash r, hd_updated_at = created_at r\<rparr>
      else find_head db pid channel)"
proof -
  define row where "row = \<lparr>hd_project_id = project_id r, hd_channel_id = channel_id r,
      hd_revision_id = art_revision_id r, hd_state_root = state_root_hash r, hd_updated_at = created_at r\<rparr>"
  have row: "hd_project_id row = project_id r" "hd_channel_id row = channel_id r" by (simp_all add: row_def)
  let ?P = "\<lambda>pid channel h. hd_project_id h = pid \<and> hd_channel_id h = channel"
  have append: "find (?P pid channel) (hs @ [row])
      = (if pid = project_id r \<and> channel = channel_id r then Some row else find (?P pid channel) hs)"
    if "find (?P (project_id r) (channel_id r)) hs = None" for hs
    using that by (induction hs) (auto simp: row split: if_splits)
  have replace: "find (?P pid channel) (map (\<lambda>h. if ?P (project_id r) (channel_id r) h then row else h) hs)
      = (if pid = project_id r \<and> channel = channel_id r
         then (if find (?P (project_id r) (channel_id r)) hs = None then None else Some row)
         else find (?P pid channel) hs)" for hs
    by (induction hs) (auto simp: row)
  show ?thesis
    unfolding set_head_def row_def [symmetric] Let_def find_head_def using append replace by auto
qed

lemma find_head_Some_iff:
  assumes "distinct (map (\<lambda>h. (hd_project_id h, hd_channel_id h)) (cd_heads db))"
  shows "find_head db pid channel = Some h
    \<longleftrightarrow> h \<in> set (cd_heads db) \<and> hd_project_id h = pid \<and> hd_channel_id h = channel"
proof -
  have "find (\<lambda>h. hd_project_id h = pid \<and> hd_channel_id h = channel) hs = Some h
    \<longleftrightarrow> h \<in> set hs \<and> hd_project_id h = pid \<and> hd_channel_id h = channel"
    if "distinct (map (\<lambda>h. (hd_project_id h, hd_channel_id h)) hs)" for hs
    using that by (induction hs) (auto simp: image_iff)
  with assms show ?thesis by (simp add: find_head_def)
qed

lemma set_head_distinct:
  assumes "distinct (map (\<lambda>h. (hd_project_id h, hd_channel_id h)) (cd_heads db))"
  shows "distinct (map (\<lambda>h. (hd_project_id h, hd_channel_id h)) (cd_heads (set_head r db)))"
proof (cases "find_head db (project_id r) (channel_id r)")
  case None
  with assms show ?thesis by (auto simp: set_head_def Let_def find_head_def find_eq_None_iff)
next
  case (Some h)
  let ?f = "\<lambda>h. if hd_project_id h = project_id r \<and> hd_channel_id h = channel_id r
      then \<lparr>hd_project_id = project_id r, hd_channel_id = channel_id r, hd_revision_id = art_revision_id r,
        hd_state_root = state_root_hash r, hd_updated_at = created_at r\<rparr> else h"
  have "cd_heads (set_head r db) = map ?f (cd_heads db)" using Some by (simp add: set_head_def Let_def)
  moreover have "map (\<lambda>h. (hd_project_id h, hd_channel_id h)) (map ?f hs) = map (\<lambda>h. (hd_project_id h, hd_channel_id h)) hs"
    for hs by (induction hs) auto
  ultimately show ?thesis using assms by (simp only:)
qed

lemma set_head_consistent:
  assumes ok: "ledger_consistent db" and "row_of_revision r \<in> set (cd_revisions db)" "art_status r = Accepted"
  shows "ledger_consistent (set_head r db)"
proof -
  have d: "distinct (map (\<lambda>h. (hd_project_id h, hd_channel_id h)) (cd_heads db))"
    using ok by (simp add: ledger_consistent_def heads_consistent_def)
  have "\<exists>x \<in> set (cd_revisions db). av_id x = hd_revision_id h \<and> av_project_id x = hd_project_id h
      \<and> av_channel_id x = hd_channel_id h \<and> av_status x = ''accepted'' \<and> av_state_root x = hd_state_root h"
    if "h \<in> set (cd_heads (set_head r db))" for h
  proof -
    have "find_head (set_head r db) (hd_project_id h) (hd_channel_id h) = Some h"
      using that by (simp add: find_head_Some_iff [OF set_head_distinct [OF d]])
    then show ?thesis
      using assms ok unfolding find_head_set_head
      by (auto simp: ledger_consistent_def heads_consistent_def find_head_Some_iff [OF d]
          split: if_splits intro!: bexI [of _ "row_of_revision r"])
  qed
  then have "heads_consistent (set_head r db)"
    using set_head_distinct [OF d] by (simp add: heads_consistent_def)
  moreover have "revisions_consistent (set_head r db)" "captures_consistent (set_head r db)"
      "imports_consistent (set_head r db)"
    using ok by (simp_all add: ledger_consistent_def revisions_consistent_def captures_consistent_def
        imports_consistent_def find_capture_def find_transfer_def)
  ultimately show ?thesis by (simp add: ledger_consistent_def)
qed

text \<open>Transfers and captures.\<close>

lemma find_append_case:
  "find P (xs @ ys) = (case find P xs of None \<Rightarrow> find P ys | Some x \<Rightarrow> Some x)"
  by (induction xs) auto

lemma find_capture_append:
  "find_capture (db\<lparr>cd_captures := cd_captures db @ [k]\<rparr>) session transfer
   = (case find_capture db session transfer of
        None \<Rightarrow> if kr_session_id k = session \<and> kr_transfer_id k = transfer then Some (kr_revision_id k) else None
      | Some i \<Rightarrow> Some i)"
  by (simp add: find_capture_def find_append_case split: option.splits)

lemma find_capture_tables:
  "cd_captures db' = cd_captures db \<Longrightarrow> find_capture db' session transfer = find_capture db session transfer"
  by (simp add: find_capture_def)

lemma find_capture_None:
  "find_capture db session transfer = None
   \<longleftrightarrow> (\<forall>k \<in> set (cd_captures db). kr_session_id k = session \<longrightarrow> kr_transfer_id k \<noteq> transfer)"
  by (simp add: find_capture_def find_eq_None_iff)

lemma find_transfer_None:
  "find_transfer db session transfer = None
   \<longleftrightarrow> (session, transfer) \<notin> (\<lambda>t. (sx_session_id t, sx_transfer_id t)) ` set (cd_transfers db)"
  by (auto simp: find_transfer_def find_eq_None_iff is_transfer_def)

definition capture_row :: "'u art_revision \<Rightarrow> string \<Rightarrow> string \<Rightarrow> nat \<Rightarrow> 'u capture_receipt" where
  "capture_row revision session transfer epoch =
     \<lparr>kr_session_id = session, kr_transfer_id = transfer, kr_revision_id = art_revision_id revision,
      kr_mutation_epoch = epoch, kr_created_at = created_at revision\<rparr>"

definition consume_transfer :: "'u \<Rightarrow> string \<Rightarrow> string \<Rightarrow> 'u core_db \<Rightarrow> 'u core_db" where
  "consume_transfer i session transfer db =
     db\<lparr>cd_transfers := map (\<lambda>t. if consumable session transfer t then t\<lparr>sx_consumed_by := Some i\<rparr> else t)
          (cd_transfers db)\<rparr>"

text \<open>What a fresh commit does, and when it may.\<close>

lemma commit_studio_capture_ok:
  assumes "commit_studio_capture blake3 lib id_text revision session transfer epoch expected db = Inr db'"
    and "find_capture db session transfer = None"
  obtains db1 where
    "art_validate blake3 lib revision = Inr ()"
    "list_ex (consumable session transfer) (cd_transfers db)"
    "art_status revision = Accepted \<Longrightarrow>
       head_id id_text db db (project_id revision) (channel_id revision) = expected"
    "insert_revision_row (row_of_revision revision) db = Inr db1"
    "art_revision_id revision \<notin> kr_revision_id ` set (cd_captures db)"
    "db' = consume_transfer (art_revision_id revision) session transfer
       ((if art_status revision = Accepted then set_head revision db1 else db1)
          \<lparr>cd_captures := cd_captures db @ [capture_row revision session transfer epoch]\<rparr>)"
proof -
  have tables: "cd_captures db1 = cd_captures db" if "insert_revision_row x db = Inr db1" for x db1
    using that by (auto simp: insert_revision_row_ok)
  show thesis
    using assms that tables unfolding commit_studio_capture_def Let_def
    by (auto simp: bindE_def mapE_def insert_capture_receipt_def capture_row_def consume_transfer_def
        split: sum.splits if_splits)
qed

lemma consume_transfer_tables [simp]:
  "cd_revisions (consume_transfer i session transfer db) = cd_revisions db"
  "cd_heads (consume_transfer i session transfer db) = cd_heads db"
  "cd_captures (consume_transfer i session transfer db) = cd_captures db"
  "cd_hub_receipts (consume_transfer i session transfer db) = cd_hub_receipts db"
  "cd_cursors (consume_transfer i session transfer db) = cd_cursors db"
  "cd_transfers (consume_transfer i session transfer db)
   = map (\<lambda>t. if consumable session transfer t then t\<lparr>sx_consumed_by := Some i\<rparr> else t) (cd_transfers db)"
  by (simp_all add: consume_transfer_def)

lemma capture_row_simps [simp]:
  "kr_session_id (capture_row r session transfer epoch) = session"
  "kr_transfer_id (capture_row r session transfer epoch) = transfer"
  "kr_revision_id (capture_row r session transfer epoch) = art_revision_id r"
  by (simp_all add: capture_row_def)

lemma consumed_captures_consistent:
  assumes ok: "captures_consistent db" and none: "find_capture db session transfer = None"
    and some: "list_ex (consumable session transfer) (cd_transfers db)"
    and fresh: "art_revision_id r \<notin> kr_revision_id ` set (cd_captures db)"
    and known: "art_revision_id r \<in> av_id ` set (cd_revisions db)"
  shows "captures_consistent (consume_transfer (art_revision_id r) session transfer
      (db\<lparr>cd_captures := cd_captures db @ [capture_row r session transfer epoch]\<rparr>))"
    (is "captures_consistent ?db")
proof -
  let ?f = "\<lambda>t. if consumable session transfer t then t\<lparr>sx_consumed_by := Some (art_revision_id r)\<rparr> else t"
  let ?key = "\<lambda>t. (sx_session_id t, sx_transfer_id t)"
  have key: "?key (?f t) = ?key t" for t by simp
  have keys: "map ?key (cd_transfers ?db) = map ?key (cd_transfers db)" by (simp add: key)
  have find: "find_capture ?db a b = (case find_capture db a b of
      None \<Rightarrow> if session = a \<and> transfer = b then Some (art_revision_id r) else None | Some i \<Rightarrow> Some i)" for a b
    by (simp add: find_capture_def find_append_case split: option.splits)
  have marked: "sx_consumed_by t = find_capture ?db (sx_session_id t) (sx_transfer_id t)"
    if "t \<in> set (cd_transfers ?db)" for t
  proof -
    from that obtain u where u: "u \<in> set (cd_transfers db)" "t = ?f u" by auto
    then have "sx_consumed_by u = find_capture db (sx_session_id u) (sx_transfer_id u)"
      using ok by (simp add: captures_consistent_def)
    then show ?thesis using none u by (auto simp: find consumable_def is_transfer_def split: option.splits)
  qed
  have "find_transfer ?db a b = None \<longleftrightarrow> find_transfer db a b = None" for a b
    unfolding find_transfer_None by (simp only: set_map [symmetric] keys)
  moreover have "find_transfer db session transfer \<noteq> None"
    using some by (auto simp: find_transfer_def find_eq_None_iff list_ex_iff consumable_def)
  ultimately have "\<forall>k \<in> set (cd_captures ?db). kr_revision_id k \<in> av_id ` set (cd_revisions ?db)
      \<and> find_transfer ?db (kr_session_id k) (kr_transfer_id k) \<noteq> None"
    using ok known by (simp add: captures_consistent_def)
  moreover have "distinct (map kr_revision_id (cd_captures ?db))"
    using ok fresh by (simp add: captures_consistent_def)
  moreover have "distinct (map ?key (cd_transfers ?db))"
    using ok unfolding keys by (simp add: captures_consistent_def)
  ultimately show ?thesis using marked unfolding captures_consistent_def by blast
qed

text \<open>One capture.\<close>

lemma commit_studio_capture_consistent:
  assumes ok: "ledger_consistent db"
    and commit: "commit_studio_capture blake3 lib id_text r session transfer epoch expected db = Inr db'"
  shows "ledger_consistent db'"
proof (cases "find_capture db session transfer")
  case (Some i)
  with commit ok show ?thesis by (auto simp: commit_studio_capture_def result_simps split: if_splits)
next
  case None
  from commit_studio_capture_ok [OF commit None] obtain db1 where
    some: "list_ex (consumable session transfer) (cd_transfers db)"
    and ins: "insert_revision_row (row_of_revision r) db = Inr db1"
    and fresh: "art_revision_id r \<notin> kr_revision_id ` set (cd_captures db)"
    and db': "db' = consume_transfer (art_revision_id r) session transfer
       ((if art_status r = Accepted then set_head r db1 else db1)
          \<lparr>cd_captures := cd_captures db @ [capture_row r session transfer epoch]\<rparr>)"
    by metis
  define db2 where "db2 = (if art_status r = Accepted then set_head r db1 else db1)"
  have db1: "cd_revisions db1 = cd_revisions db @ [row_of_revision r]" "cd_captures db1 = cd_captures db"
      "cd_transfers db1 = cd_transfers db"
    using ins by (auto simp: insert_revision_row_ok)
  have same: "cd_revisions db2 = cd_revisions db1" "cd_captures db2 = cd_captures db"
      "cd_transfers db2 = cd_transfers db"
    by (simp_all add: db2_def db1)
  have "ledger_consistent db1" by (rule insert_revision_consistent [OF ok ins])
  then have ok2: "ledger_consistent db2"
    by (auto simp: db2_def db1 intro!: set_head_consistent)
  have "captures_consistent db'"
    unfolding db' db2_def [symmetric] same(2) [symmetric]
    by (rule consumed_captures_consistent)
      (use ok2 None some fresh in \<open>auto simp: ledger_consistent_def same db1 find_capture_def\<close>)
  then show ?thesis
    using ok2 unfolding db' db2_def [symmetric]
    by (simp add: ledger_consistent_def revisions_consistent_def heads_consistent_def imports_consistent_def)
qed

text \<open>The other statements.\<close>

lemma put_art_revision_consistent:
  assumes "ledger_consistent db" "put_art_revision blake3 lib r seen db = Inr db'"
  shows "ledger_consistent db'"
  using assms insert_revision_consistent [OF assms(1), of r db']
  by (auto simp: put_art_revision_def result_simps split: option.splits if_splits)

lemma transfer_row_of_simps [simp]:
  "sx_session_id (transfer_row_of t) = sx_session_id t" "sx_transfer_id (transfer_row_of t) = sx_transfer_id t"
  "sx_content_hash (transfer_row_of t) = sx_content_hash t" "sx_size_bytes (transfer_row_of t) = sx_size_bytes t"
  "sx_consumed_by (transfer_row_of t) = None"
  by (simp_all add: transfer_row_of_def studio_transfer_record.defs transfer_row.defs)

lemma put_studio_transfer_ok:
  assumes "put_studio_transfer t seen db = Inr db'"
  shows "db' = db \<or> find_transfer db (sx_session_id t) (sx_transfer_id t) = None
    \<and> db' = db\<lparr>cd_transfers := cd_transfers db @ [transfer_row_of t]\<rparr>"
  using assms by (auto simp: put_studio_transfer_def split: option.splits if_splits)

lemma put_studio_transfer_consistent:
  fixes db db' :: "'a core_db"
  assumes ok: "ledger_consistent db" and put: "put_studio_transfer t seen db = Inr db'"
  shows "ledger_consistent db'"
proof -
  let ?row = "transfer_row_of t :: 'a transfer_row"
  consider "db' = db" | "find_transfer db (sx_session_id t) (sx_transfer_id t) = None"
      "db' = db\<lparr>cd_transfers := cd_transfers db @ [?row]\<rparr>"
    using put_studio_transfer_ok [OF put] by (elim disjE conjE)
  then show ?thesis
  proof cases
    case 2
    have unknown: "find_capture db (sx_session_id t) (sx_transfer_id t) = None"
      using ok 2(1) by (auto simp: ledger_consistent_def captures_consistent_def find_capture_None)
    have find: "find_transfer db' a b \<noteq> None" if "find_transfer db a b \<noteq> None" for a b
      using that by (auto simp: 2(2) find_transfer_def find_append_case split: option.splits)
    have same: "cd_captures db' = cd_captures db" "cd_revisions db' = cd_revisions db"
        "cd_transfers db' = cd_transfers db @ [?row]" "\<And>a b. find_capture db' a b = find_capture db a b"
      by (simp_all add: 2(2) find_capture_def)
    have "distinct (map (\<lambda>t. (sx_session_id t, sx_transfer_id t)) (cd_transfers db'))"
      using ok 2(1) by (simp add: same ledger_consistent_def captures_consistent_def find_transfer_None)
    moreover have "\<forall>t \<in> set (cd_transfers db'). sx_consumed_by t = find_capture db' (sx_session_id t) (sx_transfer_id t)"
      using ok unknown by (simp add: same ledger_consistent_def captures_consistent_def)
    moreover have "\<forall>k \<in> set (cd_captures db'). kr_revision_id k \<in> av_id ` set (cd_revisions db')
        \<and> find_transfer db' (kr_session_id k) (kr_transfer_id k) \<noteq> None"
      using ok find unfolding same ledger_consistent_def captures_consistent_def by blast
    ultimately have "captures_consistent db'"
      using ok unfolding captures_consistent_def ledger_consistent_def same by blast
    then show ?thesis
      using ok by (simp add: 2(2) ledger_consistent_def revisions_consistent_def heads_consistent_def
          imports_consistent_def)
  qed (simp add: ok)
qed

lemma commit_hub_revision_ok:
  assumes "commit_hub_revision blake3 lib r authority remote event expected db = Inr (i, db')"
  shows "hub_revision_local_id db authority remote = Some i \<and> db' = db
    \<or> art_status r = Accepted \<and> i = art_revision_id r
      \<and> hub_revision_local_id db authority remote = None
      \<and> map_option hd_revision_id (find_head db (project_id r) (channel_id r)) = expected
      \<and> event \<notin> hr_event_id ` set (cd_hub_receipts db)
      \<and> (\<exists>db1. insert_revision_row (row_of_revision r) db = Inr db1
           \<and> db' = (set_head r db1)\<lparr>cd_hub_receipts := cd_hub_receipts db @
               [\<lparr>hr_authority_id = authority, hr_remote_revision_id = remote, hr_event_id = event,
                 hr_local_revision_id = art_revision_id r, hr_created_at = created_at r\<rparr>]\<rparr>)"
proof -
  have tables: "cd_hub_receipts db1 = cd_hub_receipts db" if "insert_revision_row x db = Inr db1" for x db1
    using that by (auto simp: insert_revision_row_ok)
  show ?thesis
    using assms tables unfolding commit_hub_revision_def
    by (auto simp: result_simps insert_hub_receipt_def split: option.splits if_splits)
qed

lemma hub_revision_local_id_None:
  "hub_revision_local_id db authority remote = None
   \<longleftrightarrow> (authority, remote) \<notin> (\<lambda>r. (hr_authority_id r, hr_remote_revision_id r)) ` set (cd_hub_receipts db)"
  by (auto simp: hub_revision_local_id_def find_eq_None_iff)

lemma commit_hub_revision_consistent:
  assumes ok: "ledger_consistent db"
    and commit: "commit_hub_revision blake3 lib r authority remote event expected db = Inr (i, db')"
  shows "ledger_consistent db'"
  using commit_hub_revision_ok [OF commit]
proof (elim disjE conjE exE)
  fix db1
  let ?row = "\<lparr>hr_authority_id = authority, hr_remote_revision_id = remote, hr_event_id = event,
      hr_local_revision_id = art_revision_id r, hr_created_at = created_at r\<rparr>"
  assume acc: "art_status r = Accepted" and none: "hub_revision_local_id db authority remote = None"
    and event: "event \<notin> hr_event_id ` set (cd_hub_receipts db)"
    and ins: "insert_revision_row (row_of_revision r) db = Inr db1"
    and db': "db' = (set_head r db1)\<lparr>cd_hub_receipts := cd_hub_receipts db @ [?row]\<rparr>"
  have db1: "cd_revisions db1 = cd_revisions db @ [row_of_revision r]" "cd_cursors db1 = cd_cursors db"
    using ins by (auto simp: insert_revision_row_ok)
  have ok2: "ledger_consistent (set_head r db1)"
    using insert_revision_consistent [OF ok ins] by (rule set_head_consistent) (simp_all add: db1 acc)
  have "imports_consistent db'"
    using ok none event unfolding hub_revision_local_id_None
    by (simp add: ledger_consistent_def imports_consistent_def db' db1)
  with ok2 show ?thesis
    by (simp add: db' ledger_consistent_def revisions_consistent_def heads_consistent_def
        captures_consistent_def find_capture_def find_transfer_def)
qed (simp add: ok)

lemma cursors_consistent:
  assumes "ledger_consistent db" "distinct (map cq_authority_id cs)" "\<forall>c \<in> set cs. 1 \<le> cq_sequence c"
  shows "ledger_consistent (db\<lparr>cd_cursors := cs\<rparr>)"
  using assms by (simp add: ledger_consistent_def revisions_consistent_def heads_consistent_def
      captures_consistent_def imports_consistent_def find_capture_def find_transfer_def)

lemma put_hub_stream_cursor_consistent:
  assumes ok: "ledger_consistent db" and put: "put_hub_stream_cursor now authority sequence cursor db = Inr db'"
  shows "ledger_consistent db'"
proof -
  let ?row = "\<lparr>cq_authority_id = authority, cq_sequence = sequence, cq_cursor = cursor, cq_updated_at = now\<rparr>"
  let ?f = "\<lambda>r. if cq_authority_id r = authority \<and> cq_sequence r < sequence then ?row else r"
  have keys: "map cq_authority_id (map ?f cs) = map cq_authority_id cs" for cs by simp
  have old: "distinct (map cq_authority_id (cd_cursors db))" "\<forall>c \<in> set (cd_cursors db). 1 \<le> cq_sequence c"
    using ok by (simp_all add: ledger_consistent_def imports_consistent_def)
  have seq: "1 \<le> sequence"
    and db': "db' = db\<lparr>cd_cursors := (if hub_stream_cursor db authority = None then cd_cursors db @ [?row]
        else map ?f (cd_cursors db))\<rparr>"
    using put by (auto simp: put_hub_stream_cursor_def Let_def split: if_splits)
  have fresh: "authority \<notin> cq_authority_id ` set (cd_cursors db)" if "hub_stream_cursor db authority = None"
    using that by (auto simp: hub_stream_cursor_def find_eq_None_iff)
  show ?thesis
    unfolding db'
    by (rule cursors_consistent [OF ok]) (use old seq fresh keys in \<open>auto simp del: map_map\<close>)
qed

lemma clear_hub_stream_cursor_consistent:
  "ledger_consistent db \<Longrightarrow> ledger_consistent (clear_hub_stream_cursor authority db)"
  unfolding clear_hub_stream_cursor_def
  by (rule cursors_consistent) (auto simp: ledger_consistent_def imports_consistent_def distinct_map_filter)

section \<open>Runs\<close>

text \<open>
  The statements that change the ledger, with the database the read before them saw; one that
  fails leaves the ledger as it is.
\<close>

datatype 'u ledger_op =
    PutArtRevision "'u art_revision" "'u core_db"
  | PutStudioTransfer studio_transfer_record "'u core_db"
  | CommitStudioCapture "'u art_revision" string string nat "'u option"
  | CommitHubRevision "'u art_revision" string string string "'u option"
  | PutHubStreamCursor string string int string
  | ClearHubStreamCursor string

fun ledger_step ::
  "hash_fun \<Rightarrow> 'u uuid_lib \<Rightarrow> ('u \<Rightarrow> string) \<Rightarrow> 'u ledger_op \<Rightarrow> 'u core_db \<Rightarrow> 'u core_db" where
  "ledger_step blake3 lib id_text (PutArtRevision r seen) db =
     case_sum (\<lambda>_. db) (\<lambda>db'. db') (put_art_revision blake3 lib r seen db)"
| "ledger_step blake3 lib id_text (PutStudioTransfer t seen) db =
     case_sum (\<lambda>_. db) (\<lambda>db'. db') (put_studio_transfer t seen db)"
| "ledger_step blake3 lib id_text (CommitStudioCapture r session transfer epoch expected) db =
     case_sum (\<lambda>_. db) (\<lambda>db'. db')
       (commit_studio_capture blake3 lib id_text r session transfer epoch expected db)"
| "ledger_step blake3 lib id_text (CommitHubRevision r authority remote event expected) db =
     case_sum (\<lambda>_. db) snd (commit_hub_revision blake3 lib r authority remote event expected db)"
| "ledger_step blake3 lib id_text (PutHubStreamCursor now authority sequence cursor) db =
     case_sum (\<lambda>_. db) (\<lambda>db'. db') (put_hub_stream_cursor now authority sequence cursor db)"
| "ledger_step blake3 lib id_text (ClearHubStreamCursor authority) db =
     clear_hub_stream_cursor authority db"

lemma ledger_step_consistent:
  "ledger_consistent db \<Longrightarrow> ledger_consistent (ledger_step blake3 lib id_text op db)"
  by (cases op)
    (auto split: sum.split intro: put_art_revision_consistent put_studio_transfer_consistent
      commit_studio_capture_consistent commit_hub_revision_consistent put_hub_stream_cursor_consistent
      clear_hub_stream_cursor_consistent)

interpretation ledger: invariant_steps "ledger_step blake3 lib id_text" ledger_consistent
  by unfold_locales (rule ledger_step_consistent)

text \<open>Revisions, capture receipts, import receipts and transfers (up to their consumption) are only
  ever appended.\<close>

definition ledger_grows :: "'u core_db \<Rightarrow> 'u core_db \<Rightarrow> bool" where
  "ledger_grows db db' \<longleftrightarrow>
     prefix (cd_revisions db) (cd_revisions db') \<and> prefix (cd_captures db) (cd_captures db')
     \<and> prefix (cd_hub_receipts db) (cd_hub_receipts db')
     \<and> prefix (map studio_transfer_record.truncate (cd_transfers db))
         (map studio_transfer_record.truncate (cd_transfers db'))"

lemma ledger_grows_refl [simp]: "ledger_grows db db"
  by (simp add: ledger_grows_def)

lemma ledger_grows_trans: "ledger_grows a b \<Longrightarrow> ledger_grows b c \<Longrightarrow> ledger_grows a c"
  unfolding ledger_grows_def by (meson prefix_order.trans)

lemma insert_revision_grows: "insert_revision_row r db = Inr db' \<Longrightarrow> ledger_grows db db'"
  by (auto simp: insert_revision_row_ok ledger_grows_def)

lemma ledger_grows_tables:
  "cd_revisions db' = cd_revisions db \<Longrightarrow> cd_captures db' = cd_captures db
   \<Longrightarrow> cd_hub_receipts db' = cd_hub_receipts db
   \<Longrightarrow> prefix (map studio_transfer_record.truncate (cd_transfers db))
         (map studio_transfer_record.truncate (cd_transfers db')) \<Longrightarrow> ledger_grows db db'"
  by (simp add: ledger_grows_def)

lemma truncate_consumed [simp]:
  "studio_transfer_record.truncate (t\<lparr>sx_consumed_by := i\<rparr>) = studio_transfer_record.truncate t"
  by (simp add: studio_transfer_record.defs)

lemma consumed_truncated [simp]:
  "map (studio_transfer_record.truncate \<circ> (\<lambda>t. if consumable a b t then t\<lparr>sx_consumed_by := i\<rparr> else t)) ts
   = map studio_transfer_record.truncate ts"
  by simp

lemma commit_studio_capture_grows:
  assumes "commit_studio_capture blake3 lib id_text r session transfer epoch expected db = Inr db'"
  shows "ledger_grows db db'"
proof (cases "find_capture db session transfer")
  case None
  show ?thesis
    by (rule commit_studio_capture_ok [OF assms None])
      (simp add: insert_revision_row_ok ledger_grows_def)
next
  case (Some i)
  with assms show ?thesis by (auto simp: commit_studio_capture_def result_simps split: if_splits)
qed

lemma ledger_step_grows: "ledger_grows db (ledger_step blake3 lib id_text op db)"
proof (cases op)
  case (PutArtRevision r seen)
  then show ?thesis
    by (auto simp: put_art_revision_def result_simps split: sum.splits option.splits if_splits
        intro: insert_revision_grows)
next
  case (PutStudioTransfer t seen)
  then show ?thesis
    by (auto split: sum.split dest!: put_studio_transfer_ok intro: ledger_grows_tables)
next
  case (CommitHubRevision r authority remote event expected)
  then show ?thesis
    by (auto split: sum.split dest!: commit_hub_revision_ok simp: insert_revision_row_ok ledger_grows_def)
next
  case (PutHubStreamCursor now authority sequence cursor)
  then show ?thesis
    by (auto simp: put_hub_stream_cursor_def Let_def intro: ledger_grows_tables)
qed (auto split: sum.split simp: clear_hub_stream_cursor_def intro: commit_studio_capture_grows ledger_grows_tables)

lemma find_prefix: "find P xs = Some x \<Longrightarrow> prefix xs ys \<Longrightarrow> find P ys = Some x"
  by (auto simp: prefix_def find_append_case)

lemma find_revision_grows:
  "ledger_grows db db' \<Longrightarrow> find_revision db i = Some r \<Longrightarrow> find_revision db' i = Some r"
  by (auto simp: ledger_grows_def find_revision_def intro: find_prefix)

lemma art_revision_of_grows:
  "ledger_grows db db' \<Longrightarrow> art_revision_of db i = Some r \<Longrightarrow> art_revision_of db' i = Some r"
  by (auto simp: art_revision_of_def dest: find_revision_grows)

lemma find_capture_grows:
  "ledger_grows db db' \<Longrightarrow> find_capture db session transfer = Some i \<Longrightarrow> find_capture db' session transfer = Some i"
  by (auto simp: ledger_grows_def find_capture_def dest: find_prefix)

lemma studio_transfer_truncated:
  "studio_transfer db session transfer
   = find (\<lambda>t. sx_session_id t = session \<and> sx_transfer_id t = transfer)
       (map studio_transfer_record.truncate (cd_transfers db))"
proof -
  have "map_option studio_transfer_record.truncate (find (is_transfer session transfer) ts)
    = find (\<lambda>t. sx_session_id t = session \<and> sx_transfer_id t = transfer) (map studio_transfer_record.truncate ts)"
    for ts :: "'a transfer_row list"
    by (induction ts) (auto simp: is_transfer_def studio_transfer_record.defs)
  then show ?thesis by (simp add: studio_transfer_def find_transfer_def)
qed

lemma studio_transfer_grows:
  "ledger_grows db db' \<Longrightarrow> studio_transfer db session transfer = Some t \<Longrightarrow> studio_transfer db' session transfer = Some t"
  by (auto simp: ledger_grows_def studio_transfer_truncated intro: find_prefix)

lemma hub_revision_local_id_grows:
  "ledger_grows db db' \<Longrightarrow> hub_revision_local_id db a r = Some i \<Longrightarrow> hub_revision_local_id db' a r = Some i"
  by (auto simp: ledger_grows_def hub_revision_local_id_def dest: find_prefix)

interpretation ledger_growth: invariant_steps "ledger_step blake3 lib id_text" "ledger_grows db"
  by unfold_locales (rule ledger_grows_trans [OF _ ledger_step_grows])

text \<open>A fresh accepted commit moves the head from the expected one and can be read back.\<close>

lemma find_SomeD: "find P xs = Some x \<Longrightarrow> x \<in> set xs \<and> P x"
  by (induction xs) (auto split: if_splits)

lemma find_revision_append:
  assumes "art_revision_id r \<notin> av_id ` set (cd_revisions db)"
    and "cd_revisions db' = cd_revisions db @ [row_of_revision r]"
  shows "art_revision_of db' (art_revision_id r) = Some r"
proof -
  have "find (\<lambda>x. av_id x = art_revision_id r) (cd_revisions db) = None"
    using assms(1) by (force simp: find_eq_None_iff)
  then show ?thesis by (simp add: art_revision_of_def find_revision_def find_append_case assms(2))
qed

lemma find_head_tables: "cd_heads db' = cd_heads db \<Longrightarrow> find_head db' pid channel = find_head db pid channel"
  by (simp add: find_head_def)

lemma committed_capture:
  assumes "commit_studio_capture blake3 lib id_text r session transfer epoch expected db = Inr db'"
    and "find_capture db session transfer = None"
  shows "studio_capture_revision db' db' session transfer = Some r"
    and "art_status r = Accepted \<Longrightarrow> head_id id_text db db (project_id r) (channel_id r) = expected"
    and "art_status r = Accepted
      \<Longrightarrow> accepted_art_head id_text db' db' db' (project_id r) (channel_id r) = Some r"
proof -
  obtain db1 where head: "art_status r = Accepted \<Longrightarrow> head_id id_text db db (project_id r) (channel_id r) = expected"
    and ins: "insert_revision_row (row_of_revision r) db = Inr db1"
    and db': "db' = consume_transfer (art_revision_id r) session transfer
       ((if art_status r = Accepted then set_head r db1 else db1)
          \<lparr>cd_captures := cd_captures db @ [capture_row r session transfer epoch]\<rparr>)"
    using commit_studio_capture_ok [OF assms] by metis
  have found: "art_revision_of db' (art_revision_id r) = Some r"
    by (rule find_revision_append [of r db]) (use ins in \<open>auto simp: insert_revision_row_ok db'\<close>)
  have "find_capture db' session transfer = Some (art_revision_id r)"
    using assms(2) by (simp add: db' find_capture_def find_append_case)
  with found show "studio_capture_revision db' db' session transfer = Some r"
    by (simp add: studio_capture_revision_def)
  show "art_status r = Accepted \<Longrightarrow> head_id id_text db db (project_id r) (channel_id r) = expected" by (rule head)
  assume acc: "art_status r = Accepted"
  have "find_head db' (project_id r) (channel_id r) = find_head (set_head r db1) (project_id r) (channel_id r)"
    by (rule find_head_tables) (simp add: db' acc)
  with found show "accepted_art_head id_text db' db' db' (project_id r) (channel_id r) = Some r"
    by (simp add: accepted_art_head_def head_id_def find_head_set_head)
qed

section \<open>Properties\<close>

definition empty_core_db :: "'u core_db" where
  "empty_core_db = \<lparr>cd_revisions = [], cd_heads = [], cd_transfers = [], cd_captures = [],
     cd_hub_receipts = [], cd_cursors = []\<rparr>"

lemma empty_core_db_consistent: "ledger_consistent empty_core_db"
  by (simp add: empty_core_db_def ledger_consistent_def revisions_consistent_def heads_consistent_def
      captures_consistent_def imports_consistent_def)

text \<open>C23: Whatever statements run on a new local ledger, in any order, with stale reads before
  them and whether they fail or not: revision ids are unique and every row repeats its document, a
  head names an accepted revision of its own channel with its root, a transfer is marked consumed
  exactly when its capture has a receipt, each revision has at most one capture receipt, and no
  Hub revision or event is imported twice.\<close>

theorem local_ledger_consistent:
  "ledger_consistent (fold (ledger_step blake3 lib id_text) ops empty_core_db)"
  by (rule ledger.run_inv) (rule empty_core_db_consistent)

text \<open>C24: Once a capture has a receipt, the same session and transfer name the same revision, with
  the same content, after any further statements: neither the receipt nor the revision changes.\<close>

theorem captured_revision_permanent:
  assumes "studio_capture_revision db db session transfer = Some r"
  shows "studio_capture_revision (fold (ledger_step blake3 lib id_text) ops db)
    (fold (ledger_step blake3 lib id_text) ops db) session transfer = Some r"
proof -
  have "ledger_grows db (fold (ledger_step blake3 lib id_text) ops db)"
    by (rule ledger_growth.run_inv) simp
  with assms show ?thesis
    by (auto simp: studio_capture_revision_def bind_eq_Some_conv
        dest: find_capture_grows art_revision_of_grows)
qed

definition wit_revision :: "nat \<Rightarrow> art_revision_status \<Rightarrow> nat art_revision" where
  "wit_revision i status = \<lparr>art_revision_id = i, project_id = 7, channel_id = ''art'', parents = [],
     cells = [], state_root_hash = [1], author = ''ann'', message = ''m'', created_at = ''2026'',
     art_status = status\<rparr>"

definition wit_ledger :: "nat core_db" where
  "wit_ledger = empty_core_db\<lparr>cd_revisions := [row_of_revision (wit_revision 5 Accepted)],
     cd_captures := [capture_row (wit_revision 5 Accepted) ''ses'' ''op'' 1]\<rparr>"

lemma captured_revision_permanent_witness:
  "\<forall>blake3 lib id_text r. studio_capture_revision
     (fold (ledger_step blake3 lib id_text) [CommitStudioCapture r ''ses'' ''op'' 2 None] wit_ledger)
     (fold (ledger_step blake3 lib id_text) [CommitStudioCapture r ''ses'' ''op'' 2 None] wit_ledger)
     ''ses'' ''op'' = Some (wit_revision 5 Accepted)"
proof -
  have "studio_capture_revision wit_ledger wit_ledger ''ses'' ''op'' = Some (wit_revision 5 Accepted)"
    by (simp add: studio_capture_revision_def wit_ledger_def find_capture_def art_revision_of_def
        find_revision_def wit_revision_def empty_core_db_def)
  then show ?thesis by (intro allI captured_revision_permanent)
qed

end
