(* ===== verification/CoreStore.thy ===== *)
theory CoreStore
  imports ReleaseLifecycle ArtState
begin

text \<open>
  The content-addressed store of \<open>core.rs\<close> (\<open>ContentStore\<close>). An object is reached by a path that is
  an injective function of its hash, so the store is a map from hashes to file contents; every file
  system call may fail, and another writer may win the rename.
\<close>


type_synonym object_store = "content_hash \<Rightarrow> u8 list option"

definition cas_object_path :: "content_hash \<Rightarrow> string list" where
  "cas_object_path h =
     (let text = content_hash_display h;
          digest = (case strip_prefix ''b3-256:'' text of Some d \<Rightarrow> d | None \<Rightarrow> text)
      in [''objects'', ''b3-256'', take 2 digest, drop 2 digest])"

lemma cas_object_path_inj:
  assumes "hash32 a" "hash32 b" "cas_object_path a = cas_object_path b"
  shows "a = b"
proof -
  have digest: "strip_prefix ''b3-256:'' (content_hash_display h) = Some (encode_base32 h)" for h
    by (simp add: content_hash_display_def)
  have "take 2 (encode_base32 a) @ drop 2 (encode_base32 a) = take 2 (encode_base32 b) @ drop 2 (encode_base32 b)"
    using assms(3) by (simp add: cas_object_path_def digest Let_def)
  then have "content_hash_display a = content_hash_display b" by (simp add: content_hash_display_def)
  then show ?thesis using assms(1,2) by (rule content_hash.render_inj [rotated 2])
qed

text \<open>\<open>Raced\<close> is a rename that failed because an object with these contents appeared meanwhile.\<close>

datatype rename_outcome = Renamed | Raced "u8 list" | NotRenamed

record cas_io =
  ci_directory :: bool
  ci_written :: bool
  ci_rename :: rename_outcome
  ci_readable :: bool

definition cas_get :: "hash_fun \<Rightarrow> bool \<Rightarrow> object_store \<Rightarrow> content_hash \<Rightarrow> core_error + u8 list" where
  "cas_get blake3 readable store h =
     (case store h of
        None \<Rightarrow> Inl (core_error ''CAS_OBJECT_MISSING'')
      | Some bytes \<Rightarrow>
          if \<not> readable then Inl (core_error ''CAS_OBJECT_MISSING'')
          else if blake3 bytes \<noteq> h then Inl (core_error ''CAS_HASH_MISMATCH'')
          else Inr bytes)"

definition cas_verify :: "hash_fun \<Rightarrow> bool \<Rightarrow> object_store \<Rightarrow> content_hash \<Rightarrow> core_error + unit" where
  "cas_verify blake3 readable store h = bindE (cas_get blake3 readable store h) (\<lambda>_. Inr ())"

definition cas_put ::
  "hash_fun \<Rightarrow> cas_io \<Rightarrow> u8 list \<Rightarrow> object_store \<Rightarrow> (core_error + content_hash) \<times> object_store" where
  "cas_put blake3 io bytes store =
     (let h = blake3 bytes;
          checked = (\<lambda>s. (bindE (cas_verify blake3 (ci_readable io) s h) (\<lambda>_. Inr h), s))
      in if store h \<noteq> None then checked store
         else if \<not> ci_directory io then (Inl (core_error ''CAS_DIRECTORY_FAILED''), store)
         else if \<not> ci_written io then (Inl (core_error ''CAS_WRITE_FAILED''), store)
         else case ci_rename io of
             Renamed \<Rightarrow> checked (store(h \<mapsto> bytes))
           | Raced other \<Rightarrow> checked (store(h \<mapsto> other))
           | NotRenamed \<Rightarrow> (Inl (core_error ''CAS_COMMIT_FAILED''), store))"

lemma cas_get_ok:
  "cas_get blake3 readable store h = Inr bytes \<longleftrightarrow> store h = Some bytes \<and> readable \<and> blake3 bytes = h"
  by (auto simp: cas_get_def split: option.splits)

text \<open>A successful write names the bytes and leaves under their hash an object with that hash.\<close>

lemma cas_put_ok:
  assumes "cas_put blake3 io bytes store = (Inr h, store')"
  shows "h = blake3 bytes \<and> (\<exists>stored. store' h = Some stored \<and> blake3 stored = h)"
  using assms by (auto simp: cas_put_def Let_def cas_verify_def result_simps cas_get_ok
      split: if_splits rename_outcome.splits)

text \<open>No write touches an object that is there, nor any other hash.\<close>

lemma cas_put_frame:
  assumes "cas_put blake3 io bytes store = (r, store')" "store k \<noteq> None \<or> k \<noteq> blake3 bytes"
  shows "store' k = store k"
  using assms by (auto simp: cas_put_def Let_def split: if_splits rename_outcome.splits)

end
