(* ===== verification/RustMap.thy ===== *)
theory RustMap
  imports NM_Prelude
begin

text \<open>
  \<open>BTreeMap\<close> as the list of its entries in key order, the way the code iterates it.
\<close>

fun btree_put :: "'k::linorder \<Rightarrow> 'v \<Rightarrow> ('k \<times> 'v) list \<Rightarrow> ('k \<times> 'v) list" where
  "btree_put k v [] = [(k, v)]"
| "btree_put k v ((a, x) # es) =
     (if k < a then (k, v) # (a, x) # es
      else if k = a then (k, v) # es
      else (a, x) # btree_put k v es)"

definition btree_remove :: "'k \<Rightarrow> ('k \<times> 'v) list \<Rightarrow> ('k \<times> 'v) list" where
  "btree_remove k es = filter (\<lambda>e. fst e \<noteq> k) es"

abbreviation btree_ordered :: "('k::linorder \<times> 'v) list \<Rightarrow> bool" where
  "btree_ordered es \<equiv> sorted_wrt (<) (map fst es)"

lemma map_of_btree_put [simp]: "map_of (btree_put k v es) = (map_of es)(k \<mapsto> v)"
  by (induction es) auto

lemma btree_put_keys: "set (map fst (btree_put k v es)) = insert k (set (map fst es))"
  by (induction k v es rule: btree_put.induct) (simp_all add: insert_commute)

lemma btree_put_sorted: "btree_ordered es \<Longrightarrow> btree_ordered (btree_put k v es)"
proof (induction es)
  case (Cons e es)
  obtain a x where e: "e = (a, x)" by (cases e)
  have "\<forall>y \<in> set (map fst (btree_put k v es)). a < y" if "a < k"
    using that Cons.prems unfolding btree_put_keys by (simp add: e)
  with Cons show ?case by (auto simp: e simp del: set_map)
qed simp

lemma btree_ordered_distinct: "btree_ordered es \<Longrightarrow> distinct (map fst es)"
  by (metis strict_sorted_iff)

lemma btree_put_entries:
  "btree_ordered es \<Longrightarrow> set (btree_put k v es) = insert (k, v) {e \<in> set es. fst e \<noteq> k}"
proof (induction es)
  case (Cons e es)
  obtain a x where e: "e = (a, x)" by (cases e)
  from Cons have rest: "\<forall>y \<in> set es. a < fst y" and ih: "set (btree_put k v es) = insert (k, v) {e \<in> set es. fst e \<noteq> k}"
    by (auto simp: e)
  show ?case using rest ih by (auto simp: e)
qed simp

lemma btree_remove_ordered: "btree_ordered es \<Longrightarrow> btree_ordered (btree_remove k es)"
  unfolding btree_remove_def by (induction es) auto

lemma btree_remove_entries [simp]: "set (btree_remove k es) = {e \<in> set es. fst e \<noteq> k}"
  by (auto simp: btree_remove_def)

end
