(* ===== verification/CoreOrchestrator.thy ===== *)
theory CoreOrchestrator
  imports CoreLedger CoreStore RustMap
begin

text \<open>
  The workspace adapter \<open>LocalStudioOrchestrator\<close> of \<open>core.rs\<close>: transfers into the content store,
  captures on the accepted head, and the import of accepted Hub revisions, with the checks of the
  slot, the labels and the tokens.

  Every ledger call opens a connection of its own, so between two of them other processes may
  write: \<open>ev_seen k\<close> is the ledger the k-th read of a call sees, \<open>db\<close> the one its transaction finds.
  Fresh ids, the clock and the file system calls are in the environment too.
\<close>

section \<open>Data\<close>

record 'u studio_orchestrator =
  lo_manifest :: project_manifest
  lo_project_id :: 'u
  lo_channel :: string

record 'u call_env =
  ev_seen :: "nat \<Rightarrow> 'u core_db"
  ev_fresh :: 'u
  ev_now :: "string option"
  ev_readable :: bool
  ev_io :: "nat \<Rightarrow> cas_io"

record 'u capture_request =
  rq_session_id :: string
  rq_transfer_id :: string
  rq_cell_id :: 'u
  rq_slot_path :: string
  rq_base_revision :: "'u option"
  rq_mutation_epoch :: nat
  rq_author :: string
  rq_message :: string

record 'u accepted_cell =
  sc_cell_id :: 'u
  sc_slot_path :: string
  sc_content_hash :: content_hash
  sc_bytes :: "u8 list"

record 'u capture_outcome =
  co_revision :: "'u art_revision"
  co_changed_cell :: "'u accepted_cell"
  co_locally_accepted :: bool

record 'u hub_import_request =
  hq_authority_id :: string
  hq_event_id :: string
  hq_revision_id :: string
  hq_base_state_root :: "content_hash option"
  hq_state_root :: content_hash
  hq_replace_state :: bool
  hq_author :: string
  hq_message :: string
  hq_changed_cells :: "'u accepted_cell list"

record 'u hub_import_outcome =
  ho_revision :: "'u art_revision"
  ho_duplicate :: bool

section \<open>Text checks\<close>

definition validate_remote_label :: "string \<Rightarrow> string \<Rightarrow> core_error + unit" where
  "validate_remote_label val code =
     guardE (\<not> (length val < 4 \<or> 256 < length val
        \<or> \<not> list_all (\<lambda>c. is_alphanumeric c \<or> c \<in> {CHR ''_'', CHR ''-'', CHR '':'', CHR ''.''}) val))
       (core_error code)"

definition validate_bridge_token :: "string \<Rightarrow> string \<Rightarrow> core_error + unit" where
  "validate_bridge_token val pre =
     guardE (\<not> (length val < length pre + 4 \<or> 128 < length val \<or> \<not> starts_with pre val
        \<or> \<not> list_all (\<lambda>c. is_alphanumeric c \<or> c \<in> {CHR ''_'', CHR ''-''}) val))
       (core_error ''STUDIO_ID_INVALID'')"

section \<open>Opening a workspace\<close>

text \<open>\<open>loaded\<close> is the result of \<open>ProjectManifest::load\<close>, \<open>id_file\<close> the text of the project id file.\<close>

definition open_orchestrator ::
  "'u uuid_lib \<Rightarrow> validation_report + project_manifest \<times> validation_report \<Rightarrow> string option
   \<Rightarrow> core_error + unit \<Rightarrow> core_error + unit \<Rightarrow> core_error + 'u studio_orchestrator" where
  "open_orchestrator lib loaded id_file ledger_open store_open =
     bindE (mapE (\<lambda>_. core_error ''STUDIO_PROJECT_INVALID'') loaded) (\<lambda>(manifest, _).
     bindE (ok_or id_file (core_error ''PROJECT_ID_READ_FAILED'')) (\<lambda>content.
     bindE (mapE (\<lambda>_. core_error ''PROJECT_ID_INVALID'')
              (uuid_v7_from_str lib ''prj_'' ''project ID'' (str_trim content))) (\<lambda>pid.
     bindE (ok_or (pc_default_art_channel (pm_project manifest)) (core_error ''ART_CHANNEL_REQUIRED'')) (\<lambda>channel.
     bindE (guardE (btree_has (pm_art_channels manifest) channel) (core_error ''ART_CHANNEL_UNKNOWN'')) (\<lambda>_.
     bindE ledger_open (\<lambda>_. bindE store_open (\<lambda>_.
     Inr \<lparr>lo_manifest = manifest, lo_project_id = pid, lo_channel = channel\<rparr>)))))))"

text \<open>The channel of an open workspace is in its manifest, so looking it up does not panic; a panic
  would be the error \<open>PANIC\<close>.\<close>

definition active_channel :: "'u studio_orchestrator \<Rightarrow> core_error + art_channel_config" where
  "active_channel w = ok_or (map_of (pm_art_channels (lo_manifest w)) (lo_channel w)) (core_error ''PANIC'')"

definition root_allows_slot :: "string \<Rightarrow> string \<Rightarrow> ownership_config \<Rightarrow> bool" where
  "root_allows_slot channel slot root \<longleftrightarrow>
     ow_owner root = ''studio-art''
     \<and> (case Option.bind (map_of (ow_options root) ''channel'') json_str of
          None \<Rightarrow> True | Some configured \<Rightarrow> configured = channel)
     \<and> (case normalize_data_model_path (ow_path root) of None \<Rightarrow> False
        | Some root_path \<Rightarrow> slot = root_path
            \<or> (case strip_prefix root_path slot of None \<Rightarrow> False | Some rest \<Rightarrow> starts_with ''/'' rest))"

definition validate_studio_slot :: "'u studio_orchestrator \<Rightarrow> string \<Rightarrow> core_error + unit" where
  "validate_studio_slot w path =
     bindE (ok_or (normalize_data_model_path path) (core_error ''ART_SLOT_INVALID'')) (\<lambda>slot.
     bindE (active_channel w) (\<lambda>channel.
     bindE (ok_or (map_of (pm_places (lo_manifest w)) (cc_authoring_place channel))
              (core_error ''ART_AUTHORING_PLACE_UNKNOWN'')) (\<lambda>place.
     guardE (list_ex (root_allows_slot (lo_channel w) slot) (pl_ownership place))
       (core_error ''ART_OWNERSHIP_VIOLATION''))))"

section \<open>Transfers\<close>

text \<open>
  \<open>metadata\<close> (a size) and \<open>content\<close> are what \<open>fs::metadata\<close> and \<open>fs::read\<close> of the quarantined file give;
  \<open>file\<close> is the file itself, whose removal at the end fails unless \<open>removable\<close>, and is not reported.
\<close>

definition ingest_verified_transfer ::
  "hash_fun \<Rightarrow> 'u call_env \<Rightarrow> string \<Rightarrow> string \<Rightarrow> content_hash \<Rightarrow> nat \<Rightarrow> nat option \<Rightarrow> u8 list option
   \<Rightarrow> bool \<Rightarrow> u8 list option \<Rightarrow> object_store \<Rightarrow> 'u core_db
   \<Rightarrow> (core_error + studio_transfer_record) \<times> u8 list option \<times> object_store \<times> 'u core_db" where
  "ingest_verified_transfer blake3 ev session transfer declared_hash declared_size metadata content removable file store db =
     (case studio_transfer (ev_seen ev 0) session transfer of
        Some existing \<Rightarrow>
          (if sx_content_hash existing = declared_hash \<and> sx_size_bytes existing = declared_size
           then Inr existing else Inl (core_error ''STUDIO_TRANSFER_IMMUTABLE''), file, store, db)
      | None \<Rightarrow>
          (case metadata of
             None \<Rightarrow> (Inl (core_error ''STUDIO_TRANSFER_MISSING''), file, store, db)
           | Some n \<Rightarrow>
          if n \<noteq> declared_size then (Inl (core_error ''STUDIO_TRANSFER_SIZE_MISMATCH''), file, store, db)
          else case content of
             None \<Rightarrow> (Inl (core_error ''STUDIO_TRANSFER_READ_FAILED''), file, store, db)
           | Some bytes \<Rightarrow>
          if blake3 bytes \<noteq> declared_hash
          then (Inl (core_error ''STUDIO_TRANSFER_HASH_MISMATCH''), file, store, db)
          else case cas_put blake3 (ev_io ev 0) bytes store of
             (Inl e, store') \<Rightarrow> (Inl e, file, store', db)
           | (Inr cas_hash, store') \<Rightarrow>
          if cas_hash \<noteq> declared_hash
          then (Inl (core_error ''STUDIO_TRANSFER_CAS_MISMATCH''), file, store', db)
          else case ev_now ev of
             None \<Rightarrow> (Inl (core_error ''CLOCK_FORMAT_FAILED''), file, store', db)
           | Some now \<Rightarrow>
               let record = \<lparr>sx_session_id = session, sx_transfer_id = transfer, sx_content_hash = cas_hash,
                     sx_size_bytes = declared_size, sx_created_at = now\<rparr>
               in case put_studio_transfer record (ev_seen ev 1) db of
                    Inl e \<Rightarrow> (Inl e, file, store', db)
                  | Inr db' \<Rightarrow> (Inr record, if removable then None else file, store', db')))"

section \<open>Captures\<close>

definition policy_approvals :: "project_manifest \<Rightarrow> art_channel_config \<Rightarrow> nat" where
  "policy_approvals m channel =
     (case Option.bind (Option.bind (map_of (pm_policies m) (cc_acceptance_policy channel))
             (\<lambda>policy. json_get policy ''approvals'')) json_u64 of
        None \<Rightarrow> 1 | Some n \<Rightarrow> n)"

definition locally_accepts :: "project_manifest \<Rightarrow> art_channel_config \<Rightarrow> bool" where
  "locally_accepts m channel \<longleftrightarrow>
     \<not> cc_protected channel \<and> (cc_allow_offline_acceptance channel \<or> policy_approvals m channel = 0)"

definition existing_capture ::
  "hash_fun \<Rightarrow> 'u call_env \<Rightarrow> 'u capture_request \<Rightarrow> 'u art_revision \<Rightarrow> object_store
   \<Rightarrow> core_error + 'u capture_outcome" where
  "existing_capture blake3 ev rq existing store =
     bindE (ok_or (map_of (cells existing) (rq_cell_id rq)) (core_error ''LEDGER_CORRUPT'')) (\<lambda>cell.
     bindE (cas_get blake3 (ev_readable ev) store (snapshot_hash cell)) (\<lambda>bytes.
     Inr \<lparr>co_revision = existing,
          co_changed_cell = \<lparr>sc_cell_id = rq_cell_id rq, sc_slot_path = slot_path cell,
             sc_content_hash = snapshot_hash cell, sc_bytes = bytes\<rparr>,
          co_locally_accepted = (art_status existing = Accepted)\<rparr>))"

definition capture_text_checks :: "'u studio_orchestrator \<Rightarrow> 'u capture_request \<Rightarrow> core_error + unit" where
  "capture_text_checks w rq =
     bindE (validate_bridge_token (rq_session_id rq) ''ses_'') (\<lambda>_.
     bindE (validate_bridge_token (rq_transfer_id rq) ''op_'') (\<lambda>_.
     bindE (guardE (\<not> (str_trim (rq_author rq) = [] \<or> 200 < length (rq_author rq)))
              (core_error ''ART_AUTHOR_INVALID'')) (\<lambda>_.
     bindE (guardE (\<not> (str_trim (rq_message rq) = [] \<or> 500 < length (rq_message rq)))
              (core_error ''ART_MESSAGE_INVALID'')) (\<lambda>_.
     validate_studio_slot w (rq_slot_path rq)))))"

text \<open>The base the request names, if any, which must be an accepted revision of the channel.\<close>

definition requested_base ::
  "'u studio_orchestrator \<Rightarrow> 'u capture_request \<Rightarrow> 'u core_db \<Rightarrow> core_error + 'u art_revision option" where
  "requested_base w rq seen =
     (case rq_base_revision rq of
        None \<Rightarrow> Inr None
      | Some i \<Rightarrow>
          bindE (ok_or (art_revision_of seen i) (core_error ''ART_BASE_NOT_FOUND'')) (\<lambda>base.
          bindE (guardE (project_id base = lo_project_id w \<and> channel_id base = lo_channel w
                   \<and> art_status base = Accepted) (core_error ''ART_BASE_INVALID'')) (\<lambda>_.
          Inr (Some base))))"

definition capture_base_checks ::
  "'u capture_request \<Rightarrow> 'u option \<Rightarrow> core_error + unit" where
  "capture_base_checks rq current_id =
     bindE (guardE (\<not> (current_id \<noteq> None \<and> rq_base_revision rq = None)) (core_error ''ART_BASE_REQUIRED'')) (\<lambda>_.
     guardE (\<not> (rq_base_revision rq \<noteq> None \<and> rq_base_revision rq \<noteq> current_id)) (core_error ''ART_BASE_STALE''))"

definition captured_state ::
  "'u::linorder capture_request \<Rightarrow> content_hash \<Rightarrow> 'u art_revision option \<Rightarrow> ('u \<times> 'u art_cell_state) list" where
  "captured_state rq content base =
     btree_put (rq_cell_id rq)
       \<lparr>cell_id = rq_cell_id rq, snapshot_hash = content, slot_path = rq_slot_path rq\<rparr>
       (case base of None \<Rightarrow> [] | Some r \<Rightarrow> cells r)"

definition captured_revision ::
  "'u::linorder studio_orchestrator \<Rightarrow> 'u call_env \<Rightarrow> 'u capture_request \<Rightarrow> art_channel_config
   \<Rightarrow> content_hash \<Rightarrow> 'u art_revision option \<Rightarrow> content_hash \<Rightarrow> string \<Rightarrow> 'u art_revision" where
  "captured_revision w ev rq channel content base root now =
     \<lparr>art_revision_id = ev_fresh ev, project_id = lo_project_id w, channel_id = lo_channel w,
      parents = (case base of None \<Rightarrow> [] | Some r \<Rightarrow> [art_revision_id r]),
      cells = captured_state rq content base, state_root_hash = root, author = rq_author rq,
      message = rq_message rq, created_at = now,
      art_status = (if locally_accepts (lo_manifest w) channel then Accepted else Proposed)\<rparr>"

text \<open>Everything before the transaction: the transfer, the head the transaction expects, and the
  new revision.\<close>

definition prepare_capture ::
  "hash_fun \<Rightarrow> 'u uuid_lib \<Rightarrow> ('u \<Rightarrow> string) \<Rightarrow> 'u::linorder studio_orchestrator \<Rightarrow> 'u call_env
   \<Rightarrow> 'u capture_request \<Rightarrow> core_error + studio_transfer_record \<times> 'u option \<times> 'u art_revision" where
  "prepare_capture blake3 lib id_text w ev rq =
     bindE (capture_text_checks w rq) (\<lambda>_.
     bindE (ok_or (studio_transfer (ev_seen ev 2) (rq_session_id rq) (rq_transfer_id rq))
              (core_error ''STUDIO_TRANSFER_NOT_FOUND'')) (\<lambda>transfer.
     let current = accepted_art_head id_text (ev_seen ev 3) (ev_seen ev 4) (ev_seen ev 5)
           (lo_project_id w) (lo_channel w);
         current_id = map_option art_revision_id current
     in bindE (requested_base w rq (ev_seen ev 6)) (\<lambda>requested.
     bindE (active_channel w) (\<lambda>channel.
     bindE (capture_base_checks rq current_id) (\<lambda>_.
     let base = (case requested of Some r \<Rightarrow> Some r | None \<Rightarrow> current)
     in bindE (mapE (\<lambda>_. core_error ''ART_STATE_HASH_FAILED'')
                 (compute_state_root blake3 lib (captured_state rq (sx_content_hash transfer) base))) (\<lambda>root.
     bindE (ok_or (ev_now ev) (core_error ''CLOCK_FORMAT_FAILED'')) (\<lambda>now.
     Inr (transfer, current_id,
       captured_revision w ev rq channel (sx_content_hash transfer) base root now))))))))"

definition commit_capture ::
  "hash_fun \<Rightarrow> 'u uuid_lib \<Rightarrow> ('u \<Rightarrow> string) \<Rightarrow> 'u::linorder studio_orchestrator \<Rightarrow> 'u call_env
   \<Rightarrow> 'u capture_request \<Rightarrow> object_store \<Rightarrow> 'u core_db
   \<Rightarrow> (core_error + 'u capture_outcome) \<times> 'u core_db" where
  "commit_capture blake3 lib id_text w ev rq store db =
     (case studio_capture_revision (ev_seen ev 0) (ev_seen ev 1) (rq_session_id rq) (rq_transfer_id rq) of
        Some existing \<Rightarrow> (existing_capture blake3 ev rq existing store, db)
      | None \<Rightarrow>
          (case prepare_capture blake3 lib id_text w ev rq of
             Inl e \<Rightarrow> (Inl e, db)
           | Inr (transfer, expected, revision) \<Rightarrow>
               (case commit_studio_capture blake3 lib id_text revision (rq_session_id rq)
                       (rq_transfer_id rq) (rq_mutation_epoch rq) expected db of
                  Inl e \<Rightarrow> (Inl e, db)
                | Inr db' \<Rightarrow>
                    (bindE (cas_get blake3 (ev_readable ev) store (sx_content_hash transfer)) (\<lambda>bytes.
                       Inr \<lparr>co_revision = revision,
                         co_changed_cell = \<lparr>sc_cell_id = rq_cell_id rq, sc_slot_path = rq_slot_path rq,
                           sc_content_hash = sx_content_hash transfer, sc_bytes = bytes\<rparr>,
                         co_locally_accepted = (art_status revision = Accepted)\<rparr>), db'))))"

primrec materialize_cells ::
  "hash_fun \<Rightarrow> bool \<Rightarrow> object_store \<Rightarrow> ('u \<times> 'u art_cell_state) list \<Rightarrow> core_error + 'u accepted_cell list" where
  "materialize_cells blake3 readable store [] = Inr []"
| "materialize_cells blake3 readable store (e # es) =
     bindE (cas_get blake3 readable store (snapshot_hash (snd e))) (\<lambda>bytes.
     bindE (materialize_cells blake3 readable store es) (\<lambda>cs.
     Inr (\<lparr>sc_cell_id = cell_id (snd e), sc_slot_path = slot_path (snd e),
           sc_content_hash = snapshot_hash (snd e), sc_bytes = bytes\<rparr> # cs)))"

definition materialize_revision_cells ::
  "hash_fun \<Rightarrow> bool \<Rightarrow> 'u studio_orchestrator \<Rightarrow> object_store \<Rightarrow> 'u art_revision
   \<Rightarrow> core_error + 'u accepted_cell list" where
  "materialize_revision_cells blake3 readable w store revision =
     (if project_id revision \<noteq> lo_project_id w \<or> channel_id revision \<noteq> lo_channel w
      then Inl (core_error ''ART_REVISION_CONTEXT_MISMATCH'')
      else materialize_cells blake3 readable store (cells revision))"

section \<open>Hub imports\<close>

fun import_cells ::
  "hash_fun \<Rightarrow> 'u::linorder studio_orchestrator \<Rightarrow> (nat \<Rightarrow> cas_io) \<Rightarrow> nat \<Rightarrow> 'u set
   \<Rightarrow> ('u \<times> 'u art_cell_state) list \<Rightarrow> 'u accepted_cell list \<Rightarrow> object_store
   \<Rightarrow> (core_error + ('u \<times> 'u art_cell_state) list) \<times> object_store" where
  "import_cells blake3 w io k seen state [] store = (Inr state, store)"
| "import_cells blake3 w io k seen state (c # cs) store =
     (if sc_cell_id c \<in> seen then (Inl (core_error ''HUB_REVISION_INVALID''), store)
      else case validate_studio_slot w (sc_slot_path c) of
        Inl e \<Rightarrow> (Inl e, store)
      | Inr _ \<Rightarrow>
          if blake3 (sc_bytes c) \<noteq> sc_content_hash c
          then (Inl (core_error ''HUB_CELL_HASH_MISMATCH''), store)
          else (case cas_put blake3 (io k) (sc_bytes c) store of
              (Inl e, store') \<Rightarrow> (Inl e, store')
            | (Inr stored, store') \<Rightarrow>
                if stored \<noteq> sc_content_hash c then (Inl (core_error ''HUB_CELL_CAS_MISMATCH''), store')
                else import_cells blake3 w io (k + 1) (insert (sc_cell_id c) seen)
                  (btree_put (sc_cell_id c) \<lparr>cell_id = sc_cell_id c, snapshot_hash = sc_content_hash c,
                     slot_path = sc_slot_path c\<rparr> state) cs store'))"

definition import_text_checks :: "'u hub_import_request \<Rightarrow> core_error + unit" where
  "import_text_checks rq =
     bindE (validate_remote_label (hq_authority_id rq) ''HUB_AUTHORITY_INVALID'') (\<lambda>_.
     bindE (validate_remote_label (hq_event_id rq) ''HUB_EVENT_INVALID'') (\<lambda>_.
     bindE (validate_remote_label (hq_revision_id rq) ''HUB_REVISION_INVALID'') (\<lambda>_.
     bindE (guardE (\<not> (hq_changed_cells rq = [] \<or> 128 < length (hq_changed_cells rq)))
              (core_error ''HUB_REVISION_INVALID'')) (\<lambda>_.
     guardE (\<not> (str_trim (hq_author rq) = [] \<or> 200 < length (hq_author rq)
                 \<or> str_trim (hq_message rq) = [] \<or> 500 < length (hq_message rq)))
       (core_error ''HUB_REVISION_INVALID'')))))"

text \<open>The revision an import commits, from the overlaid state.\<close>

definition import_revision ::
  "hash_fun \<Rightarrow> 'u uuid_lib \<Rightarrow> 'u studio_orchestrator \<Rightarrow> 'u call_env \<Rightarrow> 'u hub_import_request
   \<Rightarrow> 'u art_revision option \<Rightarrow> ('u \<times> 'u art_cell_state) list \<Rightarrow> core_error + 'u art_revision" where
  "import_revision blake3 lib w ev rq current state =
     bindE (mapE (\<lambda>_. core_error ''ART_STATE_HASH_FAILED'') (compute_state_root blake3 lib state)) (\<lambda>root.
     bindE (guardE (root = hq_state_root rq) (core_error ''HUB_STATE_ROOT_MISMATCH'')) (\<lambda>_.
     bindE (ok_or (ev_now ev) (core_error ''CLOCK_FORMAT_FAILED'')) (\<lambda>now.
     Inr \<lparr>art_revision_id = ev_fresh ev, project_id = lo_project_id w, channel_id = lo_channel w,
          parents = (case current of None \<Rightarrow> [] | Some r \<Rightarrow> [art_revision_id r]), cells = state,
          state_root_hash = root, author = hq_author rq, message = hq_message rq, created_at = now,
          art_status = Accepted\<rparr>)))"

definition replayed_import ::
  "'u hub_import_request \<Rightarrow> 'u art_revision option \<Rightarrow> core_error + 'u hub_import_outcome" where
  "replayed_import rq found =
     bindE (ok_or found (core_error ''LEDGER_CORRUPT'')) (\<lambda>revision.
     bindE (guardE (state_root_hash revision = hq_state_root rq) (core_error ''HUB_REVISION_IMMUTABLE'')) (\<lambda>_.
     Inr \<lparr>ho_revision = revision, ho_duplicate = True\<rparr>))"

text \<open>\<open>after\<close> is the ledger the read after the transaction sees.\<close>

definition import_hub_accepted_revision ::
  "hash_fun \<Rightarrow> 'u uuid_lib \<Rightarrow> ('u \<Rightarrow> string) \<Rightarrow> 'u::linorder studio_orchestrator \<Rightarrow> 'u call_env
   \<Rightarrow> 'u hub_import_request \<Rightarrow> ('u core_db \<Rightarrow> 'u core_db) \<Rightarrow> object_store \<Rightarrow> 'u core_db
   \<Rightarrow> (core_error + 'u hub_import_outcome) \<times> object_store \<times> 'u core_db" where
  "import_hub_accepted_revision blake3 lib id_text w ev rq after store db =
     (case import_text_checks rq of Inl e \<Rightarrow> (Inl e, store, db) | Inr _ \<Rightarrow>
      case hub_revision_local_id (ev_seen ev 0) (hq_authority_id rq) (hq_revision_id rq) of
        Some existing_id \<Rightarrow> (replayed_import rq (art_revision_of (ev_seen ev 1) existing_id), store, db)
      | None \<Rightarrow>
          let current = accepted_art_head id_text (ev_seen ev 2) (ev_seen ev 3) (ev_seen ev 4)
                (lo_project_id w) (lo_channel w)
          in if \<not> hq_replace_state rq \<and> map_option state_root_hash current \<noteq> hq_base_state_root rq
          then (Inl (core_error ''HUB_BASE_STALE''), store, db)
          else case import_cells blake3 w (ev_io ev) 0 {}
                 (if hq_replace_state rq then [] else (case current of None \<Rightarrow> [] | Some r \<Rightarrow> cells r))
                 (hq_changed_cells rq) store of
            (Inl e, store') \<Rightarrow> (Inl e, store', db)
          | (Inr state, store') \<Rightarrow>
              (case import_revision blake3 lib w ev rq current state of
                 Inl e \<Rightarrow> (Inl e, store', db)
               | Inr revision \<Rightarrow>
                   (case commit_hub_revision blake3 lib revision (hq_authority_id rq) (hq_revision_id rq)
                           (hq_event_id rq) (map_option art_revision_id current) db of
                      Inl e \<Rightarrow> (Inl e, store', db)
                    | Inr (committed_id, db') \<Rightarrow>
                        (bindE (ok_or (art_revision_of (after db') committed_id) (core_error ''LEDGER_CORRUPT''))
                           (\<lambda>committed. Inr \<lparr>ho_revision = committed,
                              ho_duplicate = (art_revision_id committed \<noteq> art_revision_id revision)\<rparr>),
                         store', db'))))"

definition orchestrator_hub_cursor :: "string \<Rightarrow> 'u core_db \<Rightarrow> core_error + (int \<times> string) option" where
  "orchestrator_hub_cursor authority db =
     bindE (validate_remote_label authority ''HUB_AUTHORITY_INVALID'') (\<lambda>_. Inr (hub_stream_cursor db authority))"

definition orchestrator_put_cursor ::
  "string \<Rightarrow> string \<Rightarrow> int \<Rightarrow> string \<Rightarrow> 'u core_db \<Rightarrow> core_error + 'u core_db" where
  "orchestrator_put_cursor now authority sequence cursor db =
     bindE (validate_remote_label authority ''HUB_AUTHORITY_INVALID'')
       (\<lambda>_. put_hub_stream_cursor now authority sequence cursor db)"

definition orchestrator_clear_cursor :: "string \<Rightarrow> 'u core_db \<Rightarrow> core_error + 'u core_db" where
  "orchestrator_clear_cursor authority db =
     bindE (validate_remote_label authority ''HUB_AUTHORITY_INVALID'')
       (\<lambda>_. Inr (clear_hub_stream_cursor authority db))"

section \<open>Captures of an import tool\<close>

record 'u captured_cell =
  kc_cell_id :: 'u
  kc_slot_path :: string
  kc_bytes :: "u8 list"

fun capture_cells ::
  "hash_fun \<Rightarrow> (nat \<Rightarrow> cas_io) \<Rightarrow> nat \<Rightarrow> ('u::linorder \<times> 'u art_cell_state) list \<Rightarrow> 'u captured_cell list
   \<Rightarrow> object_store \<Rightarrow> (core_error + ('u \<times> 'u art_cell_state) list) \<times> object_store" where
  "capture_cells blake3 io k state [] store = (Inr state, store)"
| "capture_cells blake3 io k state (c # cs) store =
     (if normalize_data_model_path (kc_slot_path c) = None
      then (Inl (core_error ''ART_SLOT_INVALID''), store)
      else case cas_put blake3 (io k) (kc_bytes c) store of
        (Inl e, store') \<Rightarrow> (Inl e, store')
      | (Inr h, store') \<Rightarrow>
          if kc_cell_id c \<in> fst ` set state then (Inl (core_error ''ART_CELL_DUPLICATE''), store')
          else capture_cells blake3 io (k + 1)
            (btree_put (kc_cell_id c)
               \<lparr>cell_id = kc_cell_id c, snapshot_hash = h, slot_path = kc_slot_path c\<rparr> state) cs store')"

definition capture_art_revision ::
  "hash_fun \<Rightarrow> 'u uuid_lib \<Rightarrow> 'u::linorder call_env \<Rightarrow> 'u \<Rightarrow> string \<Rightarrow> 'u list \<Rightarrow> 'u captured_cell list
   \<Rightarrow> string \<Rightarrow> string \<Rightarrow> string \<Rightarrow> bool \<Rightarrow> object_store \<Rightarrow> 'u core_db
   \<Rightarrow> (core_error + 'u art_revision) \<times> object_store \<times> 'u core_db" where
  "capture_art_revision blake3 lib ev pid channel parent_ids cs author_label text_message created accepted store db =
     (if cs = [] then (Inl (core_error ''ART_CAPTURE_EMPTY''), store, db)
      else case capture_cells blake3 (ev_io ev) 0 [] cs store of
        (Inl e, store') \<Rightarrow> (Inl e, store', db)
      | (Inr state, store') \<Rightarrow>
          (case compute_state_root blake3 lib state of
             Inl _ \<Rightarrow> (Inl (core_error ''ART_STATE_HASH_FAILED''), store', db)
           | Inr root \<Rightarrow>
               let revision = \<lparr>art_revision_id = ev_fresh ev, project_id = pid, channel_id = channel,
                     parents = parent_ids, cells = state, state_root_hash = root, author = author_label,
                     message = text_message, created_at = created,
                     art_status = (if accepted then Accepted else Proposed)\<rparr>
               in case put_art_revision blake3 lib revision (ev_seen ev 0) db of
                    Inl e \<Rightarrow> (Inl e, store', db)
                  | Inr db' \<Rightarrow> (Inr revision, store', db')))"

section \<open>What the operations do\<close>

lemma opened_channel_known:
  assumes "open_orchestrator lib loaded id_file ledger_open store_open = Inr w"
  shows "\<exists>channel. active_channel w = Inr channel"
proof -
  have "btree_has (pm_art_channels (lo_manifest w)) (lo_channel w)"
    using assms by (auto simp: open_orchestrator_def result_simps ok_or_def guardE_def
        split: if_splits option.splits prod.splits)
  then have "map_of (pm_art_channels (lo_manifest w)) (lo_channel w) \<noteq> None"
    by (simp add: btree_has_def map_of_eq_None_iff)
  then show ?thesis by (auto simp: active_channel_def ok_or_def)
qed

text \<open>A prepared capture: the head the transaction will expect, the base and the new state.\<close>

lemma prepare_capture_ok:
  assumes "prepare_capture blake3 lib id_text w ev rq = Inr (transfer, expected, revision)"
  obtains current base where
    "studio_transfer (ev_seen ev 2) (rq_session_id rq) (rq_transfer_id rq) = Some transfer"
    "current = accepted_art_head id_text (ev_seen ev 3) (ev_seen ev 4) (ev_seen ev 5) (lo_project_id w) (lo_channel w)"
    "expected = map_option art_revision_id current"
    "rq_base_revision rq = None \<longrightarrow> expected = None \<and> base = None"
    "\<forall>i. rq_base_revision rq = Some i \<longrightarrow> expected = Some i \<and> base = art_revision_of (ev_seen ev 6) i \<and> base \<noteq> None"
    "parents revision = (case base of None \<Rightarrow> [] | Some r \<Rightarrow> [art_revision_id r])"
    "cells revision = captured_state rq (sx_content_hash transfer) base"
    "art_revision_id revision = ev_fresh ev" "project_id revision = lo_project_id w"
    "channel_id revision = lo_channel w"
    "validate_studio_slot w (rq_slot_path rq) = Inr ()"
proof -
  let ?current = "accepted_art_head id_text (ev_seen ev 3) (ev_seen ev 4) (ev_seen ev 5) (lo_project_id w) (lo_channel w)"
  obtain requested channel root now where
    texts: "capture_text_checks w rq = Inr ()"
    and transfer: "studio_transfer (ev_seen ev 2) (rq_session_id rq) (rq_transfer_id rq) = Some transfer"
    and requested: "requested_base w rq (ev_seen ev 6) = Inr requested"
    and checks: "capture_base_checks rq (map_option art_revision_id ?current) = Inr ()"
    and expected: "expected = map_option art_revision_id ?current"
    and revision: "revision = captured_revision w ev rq channel (sx_content_hash transfer)
        (case requested of Some r \<Rightarrow> Some r | None \<Rightarrow> ?current) root now"
    using assms unfolding prepare_capture_def Let_def result_simps by auto
  have slot: "validate_studio_slot w (rq_slot_path rq) = Inr ()"
    using texts by (auto simp: capture_text_checks_def result_simps)
  have none: "?current = None \<and> requested = None" if "rq_base_revision rq = None"
    using that checks requested by (auto simp: capture_base_checks_def requested_base_def result_simps guardE_def split: if_splits)
  have some: "expected = Some i \<and> requested = art_revision_of (ev_seen ev 6) i \<and> requested \<noteq> None"
    if "rq_base_revision rq = Some i" for i
    using checks [folded expected, unfolded capture_base_checks_def that]
      requested [unfolded requested_base_def that] by (auto simp: result_simps)
  show thesis
  proof (cases "rq_base_revision rq")
    case None
    with none [OF this] show thesis using transfer expected slot that [of ?current None] by (simp add: revision captured_revision_def)
  next
    case (Some i)
    have *: "expected = Some i" "requested = art_revision_of (ev_seen ev 6) i" "requested \<noteq> None"
      using some [OF Some] by blast+
    then obtain r where "requested = Some r" by auto
    then have rev: "revision = captured_revision w ev rq channel (sx_content_hash transfer) requested root now"
      by (simp add: revision)
    show thesis
      by (rule that [OF transfer refl expected, of requested])
        (use Some * slot in \<open>auto simp: rev captured_revision_def\<close>)
  qed
qed

text \<open>A capture that had no receipt went through the transaction.\<close>

lemma commit_capture_fresh:
  assumes "commit_capture blake3 lib id_text w ev rq store db = (Inr out, db')"
    and "ledger_grows (ev_seen ev 0) db"
    and "find_capture db (rq_session_id rq) (rq_transfer_id rq) = None"
  obtains transfer expected bytes where
    "prepare_capture blake3 lib id_text w ev rq = Inr (transfer, expected, co_revision out)"
    "commit_studio_capture blake3 lib id_text (co_revision out) (rq_session_id rq) (rq_transfer_id rq)
       (rq_mutation_epoch rq) expected db = Inr db'"
    "cas_get blake3 (ev_readable ev) store (sx_content_hash transfer) = Inr bytes"
    "co_changed_cell out = \<lparr>sc_cell_id = rq_cell_id rq, sc_slot_path = rq_slot_path rq,
       sc_content_hash = sx_content_hash transfer, sc_bytes = bytes\<rparr>"
    "co_locally_accepted out = (art_status (co_revision out) = Accepted)"
proof -
  have "studio_capture_revision (ev_seen ev 0) (ev_seen ev 1) (rq_session_id rq) (rq_transfer_id rq) = None"
    using find_capture_grows [OF assms(2), of "rq_session_id rq" "rq_transfer_id rq"] assms(3)
    by (cases "find_capture (ev_seen ev 0) (rq_session_id rq) (rq_transfer_id rq)")
      (auto simp: studio_capture_revision_def)
  with assms(1) that show thesis
    by (auto simp: commit_capture_def result_simps split: sum.splits)
qed

text \<open>The base of an accepted capture is the head its transaction finds.\<close>

abbreviation workspace_head ::
  "('u \<Rightarrow> string) \<Rightarrow> 'u studio_orchestrator \<Rightarrow> 'u core_db \<Rightarrow> 'u art_revision option" where
  "workspace_head id_text w db \<equiv> accepted_art_head id_text db db db (lo_project_id w) (lo_channel w)"

lemma prepared_on_head:
  assumes "prepare_capture blake3 lib id_text w ev rq = Inr (transfer, expected, revision)"
    and "\<And>k. ledger_grows (ev_seen ev k) db"
    and "head_id id_text db db (lo_project_id w) (lo_channel w) = expected"
  shows "parents revision = (case workspace_head id_text w db of None \<Rightarrow> [] | Some r \<Rightarrow> [art_revision_id r])"
    and "cells revision = captured_state rq (sx_content_hash transfer) (workspace_head id_text w db)"
proof -
  let ?parents = "\<lambda>base. case base of None \<Rightarrow> [] | Some r \<Rightarrow> [art_revision_id r]"
  have "\<exists>base. (rq_base_revision rq = None \<longrightarrow> expected = None \<and> base = None)
    \<and> (\<forall>i. rq_base_revision rq = Some i
        \<longrightarrow> expected = Some i \<and> base = art_revision_of (ev_seen ev 6) i \<and> base \<noteq> None)
    \<and> parents revision = ?parents base \<and> cells revision = captured_state rq (sx_content_hash transfer) base"
    by (rule prepare_capture_ok [OF assms(1)]) (intro exI conjI; assumption)
  then obtain base where none: "rq_base_revision rq = None \<longrightarrow> expected = None \<and> base = None"
    and some: "\<forall>i. rq_base_revision rq = Some i
      \<longrightarrow> expected = Some i \<and> base = art_revision_of (ev_seen ev 6) i \<and> base \<noteq> None"
    and rev: "parents revision = ?parents base" "cells revision = captured_state rq (sx_content_hash transfer) base"
    by (elim exE conjE) (rule that)
  have "base = workspace_head id_text w db"
  proof (cases "rq_base_revision rq")
    case None
    with none have "base = None" "expected = None" by auto
    with assms(3) show ?thesis by (simp add: accepted_art_head_def)
  next
    case (Some i)
    then obtain r where base: "expected = Some i" "base = Some r" "art_revision_of (ev_seen ev 6) i = Some r"
      using some by auto
    then have "art_revision_of db i = Some r" using art_revision_of_grows [OF assms(2)] by blast
    with base assms(3) show ?thesis by (simp add: accepted_art_head_def)
  qed
  with rev show "parents revision = (case workspace_head id_text w db of None \<Rightarrow> [] | Some r \<Rightarrow> [art_revision_id r])"
    "cells revision = captured_state rq (sx_content_hash transfer) (workspace_head id_text w db)"
    by simp_all
qed

lemma studio_capture_revision_grows:
  "studio_capture_revision a b session transfer = Some r \<Longrightarrow> ledger_grows a a' \<Longrightarrow> ledger_grows b b'
   \<Longrightarrow> studio_capture_revision a' b' session transfer = Some r"
  by (auto simp: studio_capture_revision_def bind_eq_Some_conv dest: find_capture_grows art_revision_of_grows)

text \<open>A fresh id has no receipt, so a capture that succeeds has just been committed or was before.\<close>

lemma commit_capture_receipt:
  assumes "commit_capture blake3 lib id_text w ev rq store db = (Inr out, db')"
    and ok: "ledger_consistent db" and grows: "\<And>k. ledger_grows (ev_seen ev k) db"
    and fresh: "ev_fresh ev \<notin> av_id ` set (cd_revisions db)"
  shows "studio_capture_revision db' db' (rq_session_id rq) (rq_transfer_id rq) = Some (co_revision out)
    \<and> existing_capture blake3 ev rq (co_revision out) store = Inr out"
proof (cases "studio_capture_revision (ev_seen ev 0) (ev_seen ev 1) (rq_session_id rq) (rq_transfer_id rq)")
  case (Some r)
  with assms(1) have "db' = db" and first: "existing_capture blake3 ev rq r store = Inr out"
    by (simp_all add: commit_capture_def)
  then show ?thesis
    using studio_capture_revision_grows [OF Some grows grows]
    by (auto simp: existing_capture_def result_simps)
next
  case None
  show ?thesis
  proof (cases "find_capture db (rq_session_id rq) (rq_transfer_id rq)")
    case none: None
    obtain transfer expected bytes where
      prep: "prepare_capture blake3 lib id_text w ev rq = Inr (transfer, expected, co_revision out)"
      and commit: "commit_studio_capture blake3 lib id_text (co_revision out) (rq_session_id rq) (rq_transfer_id rq)
         (rq_mutation_epoch rq) expected db = Inr db'"
      and get: "cas_get blake3 (ev_readable ev) store (sx_content_hash transfer) = Inr bytes"
      and cell: "co_changed_cell out = \<lparr>sc_cell_id = rq_cell_id rq, sc_slot_path = rq_slot_path rq,
         sc_content_hash = sx_content_hash transfer, sc_bytes = bytes\<rparr>"
      and acc: "co_locally_accepted out = (art_status (co_revision out) = Accepted)"
      by (rule commit_capture_fresh [OF assms(1) grows none])
    obtain base where "cells (co_revision out) = captured_state rq (sx_content_hash transfer) base"
      by (rule prepare_capture_ok [OF prep])
    then have "existing_capture blake3 ev rq (co_revision out) store = Inr out"
      using get cell acc by (simp add: existing_capture_def captured_state_def)
    with committed_capture(1) [OF commit none] show ?thesis by simp
  next
    case (Some i)
    have "i \<in> av_id ` set (cd_revisions db)"
      using ok Some unfolding ledger_consistent_def captures_consistent_def find_capture_def
      by (auto dest: find_SomeD)
    then have "i \<noteq> ev_fresh ev" using fresh by metis
    moreover obtain transfer expected revision where
      prep: "prepare_capture blake3 lib id_text w ev rq = Inr (transfer, expected, revision)"
      and "commit_studio_capture blake3 lib id_text revision (rq_session_id rq) (rq_transfer_id rq)
         (rq_mutation_epoch rq) expected db = Inr db'"
      using assms(1) None by (auto simp: commit_capture_def split: sum.splits)
    moreover have "art_revision_id revision = ev_fresh ev" by (rule prepare_capture_ok [OF prep])
    ultimately show ?thesis using Some by (auto simp: commit_studio_capture_def result_simps)
  qed
qed

text \<open>Imported cells: checked, stored and put into the state.\<close>

definition imported_state :: "'u accepted_cell \<Rightarrow> 'u art_cell_state" where
  "imported_state c =
     \<lparr>cell_id = sc_cell_id c, snapshot_hash = sc_content_hash c, slot_path = sc_slot_path c\<rparr>"

definition stored_intact :: "hash_fun \<Rightarrow> object_store \<Rightarrow> content_hash \<Rightarrow> bool" where
  "stored_intact blake3 store h \<longleftrightarrow> (\<exists>bytes. store h = Some bytes \<and> blake3 bytes = h)"

lemma cas_put_stored: "cas_put blake3 io bytes store = (Inr h, store') \<Longrightarrow> stored_intact blake3 store' h"
  using cas_put_ok [of blake3 io bytes store h store'] by (auto simp: stored_intact_def)

lemma import_cells_ok:
  "import_cells blake3 w io k seen state cs store = (Inr state', store')
   \<Longrightarrow> sc_cell_id ` set cs \<inter> seen = {}
     \<and> (\<forall>i. i \<notin> sc_cell_id ` set cs \<longrightarrow> map_of state' i = map_of state i)
     \<and> (\<forall>h. store h \<noteq> None \<longrightarrow> store' h = store h)
     \<and> (\<forall>c \<in> set cs. map_of state' (sc_cell_id c) = Some (imported_state c)
          \<and> validate_studio_slot w (sc_slot_path c) = Inr () \<and> stored_intact blake3 store' (sc_content_hash c))"
proof (induction blake3 w io k seen state cs store rule: import_cells.induct)
  case (2 blake3 w io k seen state c cs store)
  let ?state = "btree_put (sc_cell_id c) (imported_state c) state"
  from "2.prems" obtain store1 where
    new: "sc_cell_id c \<notin> seen" and slot: "validate_studio_slot w (sc_slot_path c) = Inr ()"
    and hash: "blake3 (sc_bytes c) = sc_content_hash c"
    and put: "cas_put blake3 (io k) (sc_bytes c) store = (Inr (sc_content_hash c), store1)"
    and rest: "import_cells blake3 w io (k + 1) (insert (sc_cell_id c) seen) ?state cs store1 = (Inr state', store')"
    by (auto simp: imported_state_def split: if_splits sum.splits prod.splits)
  from "2.IH" [OF new slot _ put [symmetric] refl] hash rest
  have ih: "sc_cell_id ` set cs \<inter> insert (sc_cell_id c) seen = {}"
    "\<forall>i. i \<notin> sc_cell_id ` set cs \<longrightarrow> map_of state' i = map_of ?state i"
    "\<forall>h. store1 h \<noteq> None \<longrightarrow> store' h = store1 h"
    "\<forall>c \<in> set cs. map_of state' (sc_cell_id c) = Some (imported_state c)
        \<and> validate_studio_slot w (sc_slot_path c) = Inr () \<and> stored_intact blake3 store' (sc_content_hash c)"
    by (simp_all add: imported_state_def)
  have "stored_intact blake3 store' (sc_content_hash c)"
    using cas_put_stored [OF put] ih(3) by (auto simp: stored_intact_def)
  moreover have "store' h = store h" if "store h \<noteq> None" for h
    using cas_put_frame [OF put] that ih(3) by metis
  ultimately show ?case using ih(1,2,4) new slot by auto
qed simp

lemma art_revision_of_known:
  assumes "revisions_consistent db" "i \<in> av_id ` set (cd_revisions db)"
  shows "\<exists>r. art_revision_of db i = Some r \<and> art_revision_id r = i"
proof -
  obtain row where row: "find_revision db i = Some row"
    using assms(2) by (cases "find_revision db i") (auto simp: find_revision_def find_eq_None_iff)
  then have "row \<in> set (cd_revisions db)" "av_id row = i"
    by (auto simp: find_revision_def dest: find_SomeD)
  with assms(1) have "art_revision_id (av_revision row) = i"
    unfolding revisions_consistent_def by (metis row_of_revision_simps(1))
  with row show ?thesis by (simp add: art_revision_of_def)
qed

text \<open>What a fresh import commits becomes the head and reads back.\<close>

lemma revision_of_id:
  assumes "ledger_consistent db" "art_revision_of db i = Some x"
  shows "art_revision_id x = i"
proof -
  from assms(2) obtain row where "find_revision db i = Some row" by (auto simp: art_revision_of_def)
  then have "i \<in> av_id ` set (cd_revisions db)" by (auto simp: find_revision_def dest: find_SomeD)
  with art_revision_of_known [of db i] assms show ?thesis by (auto simp: ledger_consistent_def)
qed

lemma recorded_transfer:
  assumes "put_studio_transfer t seen db = Inr db'" and "ledger_grows seen db"
  shows "map_option (\<lambda>x. (sx_content_hash x, sx_size_bytes x)) (studio_transfer db' (sx_session_id t) (sx_transfer_id t))
    = Some (sx_content_hash t, sx_size_bytes t)"
proof (cases "find_transfer seen (sx_session_id t) (sx_transfer_id t)")
  case None
  with assms(1) have "find_transfer db (sx_session_id t) (sx_transfer_id t) = None"
    "db' = db\<lparr>cd_transfers := cd_transfers db @ [transfer_row_of t]\<rparr>"
    by (auto simp: put_studio_transfer_def split: if_splits)
  then show ?thesis
    by (simp add: studio_transfer_def find_transfer_def find_append_case is_transfer_def transfer_row_of_def
        studio_transfer_record.defs transfer_row.defs)
next
  case (Some existing)
  with assms(1) have same: "db' = db" "sx_content_hash existing = sx_content_hash t" "sx_size_bytes existing = sx_size_bytes t"
    by (auto simp: put_studio_transfer_def split: if_splits)
  from Some have "studio_transfer seen (sx_session_id t) (sx_transfer_id t) = Some (studio_transfer_record.truncate existing)"
    by (simp add: studio_transfer_def)
  from studio_transfer_grows [OF assms(2) this] same show ?thesis
    by (simp add: studio_transfer_record.defs)
qed

lemma committed_import:
  assumes "commit_hub_revision blake3 lib r authority remote event expected db = Inr (i, db')"
    and "ledger_consistent db" "art_revision_id r \<notin> av_id ` set (cd_revisions db)"
    and "ledger_grows db' db2" "art_revision_of db2 i = Some committed"
    and "art_revision_id committed = art_revision_id r"
  shows "committed = r \<and> accepted_art_head id_text db' db' db' (project_id r) (channel_id r) = Some r
    \<and> map_option hd_revision_id (find_head db (project_id r) (channel_id r)) = expected"
  using commit_hub_revision_ok [OF assms(1)]
proof (elim disjE conjE exE)
  assume "hub_revision_local_id db authority remote = Some i" "db' = db"
  then have "i \<in> av_id ` set (cd_revisions db)"
    using assms(2) unfolding ledger_consistent_def imports_consistent_def hub_revision_local_id_def
    by (auto dest: find_SomeD)
  with art_revision_of_known [of db i] obtain x where x: "art_revision_of db i = Some x" "art_revision_id x = i"
    using assms(2) by (auto simp: ledger_consistent_def)
  have "committed = x" using art_revision_of_grows [OF assms(4)] x(1) assms(5) \<open>db' = db\<close> by fastforce
  then show ?thesis using x(2) assms(3,6) \<open>i \<in> _\<close> by metis
next
  fix db1
  let ?row = "\<lparr>hr_authority_id = authority, hr_remote_revision_id = remote, hr_event_id = event,
      hr_local_revision_id = art_revision_id r, hr_created_at = created_at r\<rparr>"
  assume i: "i = art_revision_id r"
    and head: "map_option hd_revision_id (find_head db (project_id r) (channel_id r)) = expected"
    and ins: "insert_revision_row (row_of_revision r) db = Inr db1"
    and db': "db' = (set_head r db1)\<lparr>cd_hub_receipts := cd_hub_receipts db @ [?row]\<rparr>"
  have found: "art_revision_of db' i = Some r"
    unfolding i by (rule find_revision_append [OF assms(3)]) (use ins in \<open>auto simp: insert_revision_row_ok db'\<close>)
  have "find_head db' (project_id r) (channel_id r) = find_head (set_head r db1) (project_id r) (channel_id r)"
    by (rule find_head_tables) (simp add: db')
  with found have "accepted_art_head id_text db' db' db' (project_id r) (channel_id r) = Some r"
    by (simp add: accepted_art_head_def head_id_def find_head_set_head i)
  moreover have "committed = r" using art_revision_of_grows [OF assms(4) found] assms(5) by simp
  ultimately show ?thesis using head by simp
qed

section \<open>A concrete workspace\<close>

definition wit_ids :: "nat uuid_lib" where
  "wit_ids = \<lparr>parse_str = (\<lambda>_. None), hyphenated = decimal, get_version = (\<lambda>_. Some 7)\<rparr>"

definition wit_workspace :: "nat studio_orchestrator" where
  "wit_workspace = \<lparr>lo_manifest = wit_project [(''staging'', wit_target ''3'')], lo_project_id = 7,
     lo_channel = ''art''\<rparr>"

definition wit_ws_db :: "nat core_db" where
  "wit_ws_db = empty_core_db\<lparr>cd_revisions := [row_of_revision (wit_revision 5 Accepted)],
     cd_transfers := [transfer_row_of \<lparr>sx_session_id = ''ses_abcd'', sx_transfer_id = ''op_abcd'',
        sx_content_hash = [1], sx_size_bytes = 1, sx_created_at = ''2026''\<rparr>]\<rparr>"

definition wit_env :: "nat core_db \<Rightarrow> nat call_env" where
  "wit_env db = \<lparr>ev_seen = (\<lambda>_. db), ev_fresh = 6, ev_now = Some ''2027'', ev_readable = True,
     ev_io = (\<lambda>_. \<lparr>ci_directory = True, ci_written = True, ci_rename = Renamed, ci_readable = True\<rparr>)\<rparr>"

definition wit_capture_request :: "nat capture_request" where
  "wit_capture_request = \<lparr>rq_session_id = ''ses_abcd'', rq_transfer_id = ''op_abcd'', rq_cell_id = 9,
     rq_slot_path = ''/Workspace/Art/Tree'', rq_base_revision = Some 5, rq_mutation_epoch = 1,
     rq_author = ''ann'', rq_message = ''m''\<rparr>"

definition wit_import_request :: "nat hub_import_request" where
  "wit_import_request = \<lparr>hq_authority_id = ''hub:a'', hq_event_id = ''evt_1'', hq_revision_id = ''rev_1'',
     hq_base_state_root = None, hq_state_root = [1], hq_replace_state = True, hq_author = ''ann'',
     hq_message = ''m'', hq_changed_cells = [\<lparr>sc_cell_id = 9, sc_slot_path = ''/Workspace/Art/Tree'',
        sc_content_hash = [1], sc_bytes = [42]\<rparr>]\<rparr>"

definition wit_store :: object_store where
  "wit_store = (\<lambda>h. if h = [1] then Some [42] else None)"

abbreviation "wit_capture \<equiv> commit_capture (\<lambda>_. [1]) wit_ids (\<lambda>_. ''a'') wit_workspace (wit_env wit_ws_db)
  wit_capture_request wit_store wit_ws_db"

abbreviation "wit_import db \<equiv> import_hub_accepted_revision (\<lambda>_. [1]) wit_ids (\<lambda>_. ''a'') wit_workspace
  (wit_env db) wit_import_request (\<lambda>d. d) (\<lambda>_. None) db"

lemma wit_env_simps [simp]:
  "ev_seen (wit_env db) = (\<lambda>_. db)" "ev_fresh (wit_env db) = 6" "ev_readable (wit_env db)"
  "ev_now (wit_env db) = Some ''2027''" "lo_project_id wit_workspace = 7" "lo_channel wit_workspace = ''art''"
  by (simp_all add: wit_env_def wit_workspace_def)

lemma wit_request_simps [simp]:
  "rq_session_id wit_capture_request = ''ses_abcd''" "rq_transfer_id wit_capture_request = ''op_abcd''"
  "rq_cell_id wit_capture_request = 9" "rq_slot_path wit_capture_request = ''/Workspace/Art/Tree''"
  "rq_base_revision wit_capture_request = Some 5" "rq_mutation_epoch wit_capture_request = 1"
  "hq_authority_id wit_import_request = ''hub:a''" "hq_event_id wit_import_request = ''evt_1''"
  "hq_revision_id wit_import_request = ''rev_1''" "hq_replace_state wit_import_request"
  "hq_state_root wit_import_request = [1]"
  by (simp_all add: wit_capture_request_def wit_import_request_def)

lemma wit_ws_db_facts:
  "find_capture wit_ws_db (rq_session_id wit_capture_request) (rq_transfer_id wit_capture_request) = None"
  "workspace_head (\<lambda>_. ''a'') wit_workspace wit_ws_db = Some (wit_revision 5 Accepted)"
  "find_head wit_ws_db (lo_project_id wit_workspace) (lo_channel wit_workspace) = None"
  "hub_revision_local_id wit_ws_db (hq_authority_id wit_import_request) (hq_revision_id wit_import_request) = None"
  "ledger_consistent wit_ws_db"
  by (simp_all add: wit_ws_db_def empty_core_db_def find_capture_def wit_workspace_def find_head_def
      hub_revision_local_id_def accepted_art_head_def head_id_def newest_accepted_def newest_first_def
      art_revision_of_def find_revision_def wit_revision_def ledger_consistent_def revisions_consistent_def
      heads_consistent_def captures_consistent_def imports_consistent_def)

lemma wit_ws_revision: "art_revision_of wit_ws_db 5 = Some (wit_revision 5 Accepted)"
  by (simp add: wit_ws_db_def art_revision_of_def find_revision_def wit_revision_def)

lemma wit_ws_db_tables:
  "cd_revisions wit_ws_db = [row_of_revision (wit_revision 5 Accepted)]" "cd_captures wit_ws_db = []"
  "cd_transfers wit_ws_db = [transfer_row_of \<lparr>sx_session_id = ''ses_abcd'', sx_transfer_id = ''op_abcd'',
        sx_content_hash = [1], sx_size_bytes = 1, sx_created_at = ''2026''\<rparr>]"
  "find_capture wit_ws_db a b = None" "head_id (\<lambda>_. ''a'') wit_ws_db wit_ws_db 7 ''art'' = Some 5"
  by (simp_all add: wit_ws_db_def empty_core_db_def find_capture_def head_id_def find_head_def
      newest_accepted_def newest_first_def wit_revision_def)

lemma wit_empty_facts:
  "accepted_art_head f empty_core_db empty_core_db empty_core_db pid ch = None"
  "hub_revision_local_id empty_core_db a r = None" "find_head empty_core_db pid ch = None"
  "find_revision empty_core_db i = None" "cd_revisions empty_core_db = []" "cd_hub_receipts empty_core_db = []"
  "cd_heads empty_core_db = []"
  by (simp_all add: empty_core_db_def accepted_art_head_def head_id_def find_head_def newest_accepted_def
      newest_first_def hub_revision_local_id_def find_revision_def)

lemma wit_checks:
  "capture_text_checks wit_workspace wit_capture_request = Inr ()"
  "validate_studio_slot wit_workspace ''/Workspace/Art/Tree'' = Inr ()"
  "import_text_checks wit_import_request = Inr ()"
  by code_simp+

lemma orchestrator_texts: "encode_base32 [1] = ''ae''" "decimal 9 = ''9''"
  by code_simp+

lemma orchestrator_state_root:
  "compute_state_root (\<lambda>_. [1]) wit_ids [(9, \<lparr>cell_id = 9, snapshot_hash = [1], slot_path = p\<rparr>)] = Inr [1]"
  by (simp add: compute_state_root_def art_leaf_def wit_ids_def cell_id_display_def content_hash_display_def
      orchestrator_texts Let_def merkle_levels.simps)

lemma wit_channel:
  "\<exists>channel. active_channel wit_workspace = Inr channel \<and> locally_accepts (lo_manifest wit_workspace) channel"
  by (simp add: active_channel_def wit_workspace_def wit_project_def locally_accepts_def)

lemma wit_import_cells:
  "import_cells (\<lambda>_. [1]) wit_workspace (ev_io (wit_env empty_core_db)) 0 {} []
     (hq_changed_cells wit_import_request) (\<lambda>_. None)
   = (Inr [(9, \<lparr>cell_id = 9, snapshot_hash = [1], slot_path = ''/Workspace/Art/Tree''\<rparr>)], (\<lambda>_. None)([1] \<mapsto> [42]))"
  by (simp add: wit_import_request_def wit_checks cas_put_def wit_env_def cas_verify_def cas_get_def Let_def)

lemma wit_import_runs:
  "\<exists>out store' db'. wit_import empty_core_db = (Inr out, store', db') \<and> \<not> ho_duplicate out"
proof -
  let ?state = "[(9 :: nat, \<lparr>cell_id = 9 :: nat, snapshot_hash = [1 :: u8], slot_path = ''/Workspace/Art/Tree''\<rparr>)]"
  obtain r where r: "import_revision (\<lambda>_. [1]) wit_ids wit_workspace (wit_env empty_core_db) wit_import_request None ?state = Inr r"
    "art_revision_id r = 6" "cells r = ?state" "state_root_hash r = [1]" "parents r = []" "channel_id r = ''art''"
    "art_status r = Accepted"
    by (simp add: import_revision_def orchestrator_state_root)
  have "art_validate (\<lambda>_. [1]) wit_ids r = Inr ()" using r by (simp add: art_validate_def orchestrator_state_root)
  then obtain db' where c: "commit_hub_revision (\<lambda>_. [1]) wit_ids r ''hub:a'' ''rev_1'' ''evt_1'' None empty_core_db = Inr (6, db')"
      "cd_revisions db' = [row_of_revision r]"
    using r by (simp add: commit_hub_revision_def wit_empty_facts insert_revision_row_def insert_hub_receipt_def
        hub_revision_local_id_def)
  have "art_revision_of db' 6 = Some r" using c(2) r(2) by (simp add: art_revision_of_def find_revision_def)
  then show ?thesis
    unfolding import_hub_accepted_revision_def
    using r c by (simp add: wit_checks wit_import_cells wit_empty_facts Let_def)
qed

lemma wit_capture_runs:
  "\<exists>out db'. wit_capture = (Inr out, db') \<and> co_locally_accepted out
     \<and> sc_content_hash (co_changed_cell out) = [1] \<and> sc_bytes (co_changed_cell out) = [42]"
proof -
  obtain t where t: "studio_transfer wit_ws_db ''ses_abcd'' ''op_abcd'' = Some t" "sx_content_hash t = [1]"
    by (simp add: studio_transfer_def wit_ws_db_def find_transfer_def is_transfer_def studio_transfer_record.defs)
  obtain channel where channel: "active_channel wit_workspace = Inr channel" "locally_accepts (lo_manifest wit_workspace) channel"
    using wit_channel by blast
  let ?state = "[(9 :: nat, \<lparr>cell_id = 9 :: nat, snapshot_hash = [1 :: u8], slot_path = ''/Workspace/Art/Tree''\<rparr>)]"
  obtain r where r: "prepare_capture (\<lambda>_. [1]) wit_ids (\<lambda>_. ''a'') wit_workspace (wit_env wit_ws_db) wit_capture_request
      = Inr (t, Some 5, r)" "art_revision_id r = 6" "cells r = ?state" "state_root_hash r = [1]" "parents r = [5]"
      "channel_id r = ''art''" "art_status r = Accepted" "project_id r = 7"
    using wit_ws_db_facts(2) channel t
    by (simp add: prepare_capture_def wit_checks requested_base_def wit_ws_revision capture_base_checks_def
        captured_state_def orchestrator_state_root captured_revision_def Let_def wit_revision_def)
  have "art_validate (\<lambda>_. [1]) wit_ids r = Inr ()" using r by (simp add: art_validate_def orchestrator_state_root)
  then obtain db' where "commit_studio_capture (\<lambda>_. [1]) wit_ids (\<lambda>_. ''a'') r ''ses_abcd'' ''op_abcd'' 1 (Some 5) wit_ws_db = Inr db'"
    using r by (simp add: commit_studio_capture_def wit_ws_db_tables insert_revision_row_def
        insert_capture_receipt_def find_capture_def consumable_def is_transfer_def wit_revision_def)
  then show ?thesis unfolding commit_capture_def using r t
    by (simp add: studio_capture_revision_def wit_store_def cas_get_def wit_ws_db_tables)
qed

section \<open>Properties\<close>

text \<open>C20: A capture that is accepted locally, whatever other processes write between its reads,
  becomes the head of the channel; its only parent is the head its transaction found, its cells are
  that head's with the captured cell put in, and the cell's content is that of the session's
  transfer, with bytes of that hash.\<close>

theorem capture_advances_head:
  assumes "commit_capture blake3 lib id_text w ev rq store db = (Inr out, db')"
    and "\<And>k. ledger_grows (ev_seen ev k) db"
    and "find_capture db (rq_session_id rq) (rq_transfer_id rq) = None" "co_locally_accepted out"
  shows "workspace_head id_text w db' = Some (co_revision out)
    \<and> parents (co_revision out) = (case workspace_head id_text w db of None \<Rightarrow> [] | Some r \<Rightarrow> [art_revision_id r])
    \<and> map_of (cells (co_revision out))
      = (case workspace_head id_text w db of None \<Rightarrow> Map.empty | Some r \<Rightarrow> map_of (cells r))
          (rq_cell_id rq \<mapsto> \<lparr>cell_id = rq_cell_id rq, snapshot_hash = sc_content_hash (co_changed_cell out),
             slot_path = rq_slot_path rq\<rparr>)
    \<and> map_option sx_content_hash (studio_transfer db (rq_session_id rq) (rq_transfer_id rq))
      = Some (sc_content_hash (co_changed_cell out))
    \<and> blake3 (sc_bytes (co_changed_cell out)) = sc_content_hash (co_changed_cell out)"
proof -
  obtain transfer expected bytes where
    prep: "prepare_capture blake3 lib id_text w ev rq = Inr (transfer, expected, co_revision out)"
    and commit: "commit_studio_capture blake3 lib id_text (co_revision out) (rq_session_id rq) (rq_transfer_id rq)
       (rq_mutation_epoch rq) expected db = Inr db'"
    and bytes: "cas_get blake3 (ev_readable ev) store (sx_content_hash transfer) = Inr bytes"
    and cell: "co_changed_cell out = \<lparr>sc_cell_id = rq_cell_id rq, sc_slot_path = rq_slot_path rq,
       sc_content_hash = sx_content_hash transfer, sc_bytes = bytes\<rparr>"
    and acc: "art_status (co_revision out) = Accepted"
    by (rule commit_capture_fresh [OF assms(1) assms(2) assms(3)]) (use assms(4) in blast)
  have ctx: "project_id (co_revision out) = lo_project_id w" "channel_id (co_revision out) = lo_channel w"
    and transfer: "studio_transfer (ev_seen ev 2) (rq_session_id rq) (rq_transfer_id rq) = Some transfer"
    by (rule prepare_capture_ok [OF prep]; assumption)+
  have head: "head_id id_text db db (lo_project_id w) (lo_channel w) = expected"
    "workspace_head id_text w db' = Some (co_revision out)"
    using committed_capture [OF commit assms(3)] acc ctx by simp_all
  show ?thesis
    using prepared_on_head [OF prep assms(2) head(1)] head(2) studio_transfer_grows [OF assms(2) transfer]
      bytes cell
    by (simp add: captured_state_def cas_get_ok split: option.split)
qed

lemma capture_advances_head_witness:
  "\<exists>out db'. wit_capture = (Inr out, db') \<and> workspace_head (\<lambda>_. ''a'') wit_workspace db' = Some (co_revision out)
     \<and> parents (co_revision out) = [5] \<and> sc_bytes (co_changed_cell out) = [42]"
proof -
  obtain out db' where run: "wit_capture = (Inr out, db')" "co_locally_accepted out"
    "sc_bytes (co_changed_cell out) = [42]"
    using wit_capture_runs by blast
  have "\<And>k. ledger_grows (ev_seen (wit_env wit_ws_db) k) wit_ws_db" by simp
  from capture_advances_head [OF run(1) this wit_ws_db_facts(1) run(2)] run(1,3)
  show ?thesis using wit_ws_db_facts(2) by (auto simp: wit_revision_def)
qed

text \<open>C22: A capture is idempotent: when the same request is sent again, at any later time and
  whatever happened to the ledger since, it gives the same outcome as the first time and changes
  nothing, as long as the captured object can be read.\<close>

theorem capture_retry_idempotent:
  assumes "commit_capture blake3 lib id_text w ev rq store db = (Inr out, db')"
    and "ledger_consistent db" "\<And>k. ledger_grows (ev_seen ev k) db"
    and "ev_fresh ev \<notin> av_id ` set (cd_revisions db)"
    and "\<And>k. ledger_grows db' (ev_seen ev2 k)" "ev_readable ev2"
    and "store2 (sc_content_hash (co_changed_cell out)) = Some (sc_bytes (co_changed_cell out))"
  shows "commit_capture blake3 lib id_text w ev2 rq store2 db2 = (Inr out, db2)"
proof -
  from commit_capture_receipt [OF assms(1-4)]
  have receipt: "studio_capture_revision db' db' (rq_session_id rq) (rq_transfer_id rq) = Some (co_revision out)"
    and first: "existing_capture blake3 ev rq (co_revision out) store = Inr out" by simp_all
  have "existing_capture blake3 ev2 rq (co_revision out) store2 = Inr out"
    using first assms(6,7) by (cases out) (auto simp: existing_capture_def result_simps cas_get_ok)
  then show ?thesis
    using studio_capture_revision_grows [OF receipt assms(5) assms(5)] by (simp add: commit_capture_def)
qed

lemma capture_retry_idempotent_witness:
  "\<exists>out db'. wit_capture = (Inr out, db') \<and> commit_capture (\<lambda>_. [1]) wit_ids (\<lambda>_. ''a'') wit_workspace
     (wit_env db') wit_capture_request wit_store db' = (Inr out, db')"
proof -
  obtain out db' where run: "wit_capture = (Inr out, db')" "sc_content_hash (co_changed_cell out) = [1]"
    "sc_bytes (co_changed_cell out) = [42]"
    using wit_capture_runs by blast
  have "commit_capture (\<lambda>_. [1]) wit_ids (\<lambda>_. ''a'') wit_workspace (wit_env db') wit_capture_request wit_store db'
      = (Inr out, db')"
    by (rule capture_retry_idempotent [OF run(1) wit_ws_db_facts(5)])
      (simp_all add: wit_store_def run wit_ws_db_def empty_core_db_def wit_revision_def)
  with run(1) show ?thesis by blast
qed

text \<open>C21: An import of a Hub revision that is not a duplicate becomes the head of the local channel
  with exactly the state root the Hub announced, which is the root of its cells; its parent is the
  head its transaction found. Every changed cell is in it and stored intact under its hash; every
  other cell is the parent's, or absent when the Hub sent the whole state, and no object the store
  had is altered.\<close>

theorem hub_import_verified:
  assumes "import_hub_accepted_revision blake3 lib id_text w ev rq after store db = (Inr out, store', db')"
    and "ledger_consistent db" "ev_fresh ev \<notin> av_id ` set (cd_revisions db)"
    and "\<And>d. ledger_grows d (after d)" "\<And>k. ledger_grows (ev_seen ev k) db" "\<not> ho_duplicate out"
  shows "workspace_head id_text w db' = Some (ho_revision out)
    \<and> state_root_hash (ho_revision out) = hq_state_root rq
    \<and> compute_state_root blake3 lib (cells (ho_revision out)) = Inr (hq_state_root rq)
    \<and> parents (ho_revision out)
      = (case find_head db (lo_project_id w) (lo_channel w) of None \<Rightarrow> [] | Some h \<Rightarrow> [hd_revision_id h])
    \<and> (\<forall>c \<in> set (hq_changed_cells rq). map_of (cells (ho_revision out)) (sc_cell_id c) = Some (imported_state c)
        \<and> stored_intact blake3 store' (sc_content_hash c))
    \<and> (\<forall>i. i \<notin> sc_cell_id ` set (hq_changed_cells rq) \<longrightarrow> map_of (cells (ho_revision out)) i
        = (if hq_replace_state rq then None
           else case find_head db (lo_project_id w) (lo_channel w) of
             None \<Rightarrow> None | Some h \<Rightarrow> Option.bind (art_revision_of db (hd_revision_id h)) (\<lambda>r. map_of (cells r) i)))
    \<and> (\<forall>h. store h \<noteq> None \<longrightarrow> store' h = store h)"
proof -
  let ?current = "accepted_art_head id_text (ev_seen ev 2) (ev_seen ev 3) (ev_seen ev 4) (lo_project_id w) (lo_channel w)"
  let ?base = "if hq_replace_state rq then [] else (case ?current of None \<Rightarrow> [] | Some r \<Rightarrow> cells r)"
  let ?head = "find_head db (lo_project_id w) (lo_channel w)"
  from assms(1,6) obtain state r i where
    put: "import_cells blake3 w (ev_io ev) 0 {} ?base (hq_changed_cells rq) store = (Inr state, store')"
    and rev: "import_revision blake3 lib w ev rq ?current state = Inr r"
    and commit: "commit_hub_revision blake3 lib r (hq_authority_id rq) (hq_revision_id rq)
        (hq_event_id rq) (map_option art_revision_id ?current) db = Inr (i, db')"
    and read: "art_revision_of (after db') i = Some (ho_revision out)"
    and same: "art_revision_id (ho_revision out) = art_revision_id r"
    unfolding import_hub_accepted_revision_def Let_def
    by (auto simp: result_simps replayed_import_def split: sum.splits option.splits if_splits prod.splits)
  have r: "art_revision_id r = ev_fresh ev" "project_id r = lo_project_id w" "channel_id r = lo_channel w"
      "cells r = state" "state_root_hash r = hq_state_root rq"
      "compute_state_root blake3 lib state = Inr (hq_state_root rq)"
      "parents r = (case map_option art_revision_id ?current of None \<Rightarrow> [] | Some j \<Rightarrow> [j])"
    using rev by (auto simp: import_revision_def result_simps split: option.split)
  have committed: "ho_revision out = r" "workspace_head id_text w db' = Some r"
      "map_option hd_revision_id ?head = map_option art_revision_id ?current"
    using committed_import [OF commit assms(2) _ assms(4) read same, of id_text] assms(3) r(1-3) by auto
  have current: "art_revision_of db (art_revision_id x) = Some x" if "?current = Some x" for x
  proof -
    from that obtain j where "art_revision_of (ev_seen ev 4) j = Some x"
      by (auto simp: accepted_art_head_def bind_eq_Some_conv)
    then have j: "art_revision_of db j = Some x" by (rule art_revision_of_grows [OF assms(5)])
    with revision_of_id [OF assms(2) j] show ?thesis by simp
  qed
  have parent: "parents r = (case ?head of None \<Rightarrow> [] | Some h \<Rightarrow> [hd_revision_id h])"
    using r(7) committed(3) by (auto split: option.splits)
  have base: "map_of ?base i = (if hq_replace_state rq then None
      else case ?head of None \<Rightarrow> None | Some h \<Rightarrow> Option.bind (art_revision_of db (hd_revision_id h)) (\<lambda>r. map_of (cells r) i))"
    for i
    using committed(3) current by (cases ?current; cases ?head) auto
  from import_cells_ok [OF put] have imported:
    "\<forall>i. i \<notin> sc_cell_id ` set (hq_changed_cells rq) \<longrightarrow> map_of state i = map_of ?base i"
    "\<forall>h. store h \<noteq> None \<longrightarrow> store' h = store h"
    "\<forall>c \<in> set (hq_changed_cells rq). map_of state (sc_cell_id c) = Some (imported_state c)
        \<and> stored_intact blake3 store' (sc_content_hash c)" by blast+
  show ?thesis
    unfolding committed(1) r(4)
    using committed(2) r(5,6) parent imported base by (intro conjI) simp_all
qed

lemma hub_import_verified_witness:
  "\<exists>out store' db'. wit_import empty_core_db = (Inr out, store', db')
     \<and> state_root_hash (ho_revision out) = [1] \<and> workspace_head (\<lambda>_. ''a'') wit_workspace db' = Some (ho_revision out)
     \<and> map_of (cells (ho_revision out)) 9 = Some \<lparr>cell_id = 9, snapshot_hash = [1], slot_path = ''/Workspace/Art/Tree''\<rparr>"
proof -
  obtain out store' db' where run: "wit_import empty_core_db = (Inr out, store', db')" "\<not> ho_duplicate out"
    using wit_import_runs by blast
  have fresh: "ev_fresh (wit_env empty_core_db) \<notin> av_id ` set (cd_revisions empty_core_db)"
    by (simp add: empty_core_db_def)
  have seen: "\<And>k. ledger_grows (ev_seen (wit_env empty_core_db) k) empty_core_db" by simp
  from hub_import_verified [OF run(1) empty_core_db_consistent fresh ledger_grows_refl seen run(2)]
  have "state_root_hash (ho_revision out) = [1] \<and> workspace_head (\<lambda>_. ''a'') wit_workspace db' = Some (ho_revision out)
     \<and> map_of (cells (ho_revision out)) 9 = Some \<lparr>cell_id = 9, snapshot_hash = [1], slot_path = ''/Workspace/Art/Tree''\<rparr>"
    by (simp add: wit_import_request_def imported_state_def)
  with run(1) show ?thesis by blast
qed

text \<open>C39: A verified upload leaves quarantine only once it is safe: when ingesting it removes the quarantined
  file, the call returns a record, the bytes it read there have the declared hash and length as far
  as the file system reported it, the store holds an object with that hash, and the ledger records the
  transfer with the declared hash and size; in every other outcome the file stays as it was.\<close>

theorem ingest_removes_durable_only:
  assumes "ingest_verified_transfer blake3 ev session transfer declared_hash declared_size metadata content
      removable file store db = (r, file', store', db')"
    and "file' \<noteq> file" and "ledger_grows (ev_seen ev 1) db"
  shows "file' = None \<and> (\<exists>entry bytes. r = Inr entry \<and> content = Some bytes \<and> blake3 bytes = declared_hash
    \<and> metadata = Some declared_size \<and> stored_intact blake3 store' declared_hash
    \<and> map_option (\<lambda>x. (sx_content_hash x, sx_size_bytes x)) (studio_transfer db' session transfer)
      = Some (declared_hash, declared_size))"
proof -
  from assms(1,2) obtain entry bytes now where
    out: "file' = None" "r = Inr entry" "content = Some bytes" "blake3 bytes = declared_hash" "metadata = Some declared_size"
    and put: "cas_put blake3 (ev_io ev 0) bytes store = (Inr declared_hash, store')"
    and entry: "entry = \<lparr>sx_session_id = session, sx_transfer_id = transfer, sx_content_hash = declared_hash,
        sx_size_bytes = declared_size, sx_created_at = now\<rparr>"
    and db': "put_studio_transfer entry (ev_seen ev 1) db = Inr db'"
    unfolding ingest_verified_transfer_def
    by (auto simp: Let_def split: option.splits sum.splits if_splits prod.splits)
  have "map_option (\<lambda>x. (sx_content_hash x, sx_size_bytes x)) (studio_transfer db' session transfer)
      = Some (declared_hash, declared_size)"
    using recorded_transfer [OF db' assms(3)] by (simp add: entry)
  with out cas_put_stored [OF put] show ?thesis by blast
qed

lemma ingest_removes_durable_only_witness:
  "\<exists>entry store' db'. ingest_verified_transfer (\<lambda>_. [1]) (wit_env empty_core_db) ''ses_abcd'' ''op_abcd'' [1] 1
      (Some 1) (Some [42]) True (Some [42]) (\<lambda>_. None) empty_core_db = (Inr entry, None, store', db')
    \<and> stored_intact (\<lambda>_. [1]) store' [1]"
proof -
  obtain entry store' db' where run: "ingest_verified_transfer (\<lambda>_. [1]) (wit_env empty_core_db) ''ses_abcd'' ''op_abcd''
      [1] 1 (Some 1) (Some [42]) True (Some [42]) (\<lambda>_. None) empty_core_db = (Inr entry, None, store', db')"
    by (simp add: ingest_verified_transfer_def wit_env_def empty_core_db_def studio_transfer_def find_transfer_def
        cas_put_def cas_verify_def cas_get_def Let_def put_studio_transfer_def)
  from ingest_removes_durable_only [OF run] run show ?thesis by simp
qed

text \<open>C31: While a channel's accepted head has no row in the head table, as after an accepted
  capture by the import tool, no Hub revision can be imported: the import expects the head it read,
  and the transaction looks at the table only.\<close>

theorem hub_import_needs_head_row:
  assumes "find_head db (lo_project_id w) (lo_channel w) = None"
    and "workspace_head id_text w db = Some head" "ev_seen ev = (\<lambda>_. db)"
    and "hub_revision_local_id db (hq_authority_id rq) (hq_revision_id rq) = None"
  shows "\<exists>e store'. import_hub_accepted_revision blake3 lib id_text w ev rq after store db = (Inl e, store', db)"
proof -
  have conflict: "\<exists>e. commit_hub_revision blake3 lib r (hq_authority_id rq) (hq_revision_id rq)
      (hq_event_id rq) (Some j) db = Inl e"
    if "import_revision blake3 lib w ev rq (Some head) state = Inr r" for r j state
  proof -
    from that have "project_id r = lo_project_id w" "channel_id r = lo_channel w"
      by (auto simp: import_revision_def result_simps)
    then show ?thesis
      using assms(1,4) by (cases "art_validate blake3 lib r") (auto simp: commit_hub_revision_def)
  qed
  let ?base = "if hq_replace_state rq then [] else cells head"
  obtain m store' where put: "import_cells blake3 w (ev_io ev) 0 {} ?base (hq_changed_cells rq) store = (m, store')"
    by (cases "import_cells blake3 w (ev_io ev) 0 {} ?base (hq_changed_cells rq) store")
  note import = import_hub_accepted_revision_def Let_def assms
  show ?thesis
  proof (cases "import_text_checks rq")
    case checked: (Inr u)
    consider (stale) "\<not> hq_replace_state rq \<and> Some (state_root_hash head) \<noteq> hq_base_state_root rq"
      | (cell) e where "hq_replace_state rq \<or> Some (state_root_hash head) = hq_base_state_root rq" "m = Inl e"
      | (root) state e where "hq_replace_state rq \<or> Some (state_root_hash head) = hq_base_state_root rq" "m = Inr state"
          "import_revision blake3 lib w ev rq (Some head) state = Inl e"
      | (commit) state r where "hq_replace_state rq \<or> Some (state_root_hash head) = hq_base_state_root rq"
          "m = Inr state" "import_revision blake3 lib w ev rq (Some head) state = Inr r"
      by (metis sum.exhaust)
    then show ?thesis
    proof cases
      case commit
      obtain e where "commit_hub_revision blake3 lib r (hq_authority_id rq) (hq_revision_id rq)
          (hq_event_id rq) (Some (art_revision_id head)) db = Inl e"
        using conflict [OF commit(3)] by blast
      then show ?thesis using commit put checked by (cases "hq_replace_state rq") (simp_all add: import)
    qed (use put checked in \<open>cases "hq_replace_state rq"; simp add: import\<close>)+
  qed (simp add: import)
qed

lemma hub_import_needs_head_row_witness:
  "\<exists>e store'. wit_import wit_ws_db = (Inl e, store', wit_ws_db)"
  by (rule hub_import_needs_head_row [OF wit_ws_db_facts(3,2) wit_env_simps(1) wit_ws_db_facts(4)])

text \<open>A slot inside a Git-owned root is open to captures when that root lies below a Studio-art
  root of the channel: the check asks only for some root of the channel above the slot, not for the
  nearest owner.\<close>

theorem nested_code_root_capturable:
  assumes "map_of (pm_art_channels (lo_manifest w)) (lo_channel w) = Some channel"
    and "map_of (pm_places (lo_manifest w)) (cc_authoring_place channel) = Some place"
    and "art \<in> set (pl_ownership place)" "ow_owner art = ''studio-art''" "map_of (ow_options art) ''channel'' = None"
    and "code \<in> set (pl_ownership place)" "ow_owner code = ''git-code''"
    and "starts_with (ow_path art @ ''/'') (ow_path code)"
    and "normalize_data_model_path (ow_path art) \<noteq> None" "normalize_data_model_path (ow_path code) \<noteq> None"
  shows "validate_studio_slot w (ow_path code) = Inr ()"
proof -
  have paths: "normalize_data_model_path (ow_path art) = Some (ow_path art)"
    "normalize_data_model_path (ow_path code) = Some (ow_path code)"
    using assms(9,10) by (auto simp: normalize_data_model_path_def split: if_splits)
  obtain rest where rest: "ow_path code = ow_path art @ ''/'' @ rest"
    using assms(8) by (auto simp: starts_with_iff)
  have "root_allows_slot (lo_channel w) (ow_path code) art"
    using assms(4,5) paths by (simp add: root_allows_slot_def rest)
  then show ?thesis
    using assms(1,2,3) paths by (auto simp: validate_studio_slot_def active_channel_def list_ex_iff guardE_def)
qed

lemma wit_paths:
  "normalize_data_model_path ''/Workspace/Art'' \<noteq> None"
  "normalize_data_model_path ''/Workspace/Art/Scripts'' \<noteq> None"
  by code_simp+

lemma nested_code_root_capturable_witness:
  "validate_studio_slot wit_workspace ''/Workspace/Art/Scripts'' = Inr ()
   \<and> vr_valid (validate_manifest (\<lambda>_. None) (\<lambda>_. None) (lo_manifest wit_workspace))"
proof -
  let ?art = "wit_root ''art'' ''/Workspace/Art'' ''studio-art'' True"
  let ?code = "wit_root ''scripts'' ''/Workspace/Art/Scripts'' ''git-code'' False"
  have "validate_studio_slot wit_workspace (ow_path ?code) = Inr ()"
    by (rule nested_code_root_capturable [of wit_workspace
          "snd (hd (pm_art_channels (lo_manifest wit_workspace)))" "wit_place [(''staging'', wit_target ''3'')]" ?art])
      (simp_all add: wit_workspace_def wit_project_def wit_place_def wit_root_def wit_paths)
  with wit_project_valid show ?thesis by (simp add: wit_root_def wit_workspace_def)
qed

end
