(* ===== verification/GitText.thy ===== *)
theory GitText
  imports RustText ReleaseLifecycle
begin

text \<open>
  The text side of \<open>git_rojo.rs\<close>: the redaction every captured output goes through, and the
  checks of names, paths, remotes, configuration keys and attribute files.
\<close>

section \<open>Errors and limits\<close>

text \<open>An error is its stable code with the process evidence, if a command ran.\<close>

record command_diagnostics =
  dg_operation :: string
  dg_exit_code :: "int option"
  dg_stdout :: string
  dg_stderr :: string
  dg_stdout_truncated :: bool
  dg_stderr_truncated :: bool
  dg_timed_out :: bool

record integration_error =
  ie_code :: string
  ie_diagnostics :: "command_diagnostics option"

section \<open>Redaction\<close>

text \<open>\<open>str::find\<close> with a text.\<close>

fun find_text :: "string \<Rightarrow> string \<Rightarrow> nat option" where
  "find_text sub s =
     (if starts_with sub s then Some 0
      else case s of [] \<Rightarrow> None | c # t \<Rightarrow> map_option Suc (find_text sub t))"

declare find_text.simps [simp del]

text \<open>The authority ends at the first white space or slash.\<close>

fun authority_length :: "string \<Rightarrow> nat" where
  "authority_length [] = 0"
| "authority_length (c # s) = (if c = CHR ''/'' \<or> white_start (c # s) then 0 else Suc (authority_length s))"

definition redact_authority :: "string \<Rightarrow> string" where
  "redact_authority authority =
     (if CHR ''@'' \<in> set authority
      then ''[redacted]@'' @ rev (takeWhile (\<lambda>c. c \<noteq> CHR ''@'') (rev authority))
      else authority)"

lemma find_text_bound: "find_text sub s = Some n \<Longrightarrow> n + length sub \<le> length s"
proof (induction s arbitrary: n)
  case Nil
  then show ?case by (simp add: find_text.simps [of sub "[]"] starts_with_iff split: if_splits)
next
  case (Cons c s)
  show ?case
  proof (cases "starts_with sub (c # s)")
    case True
    with Cons.prems have "n = 0" by (simp add: find_text.simps [of sub "c # s"])
    with True show ?thesis by (auto simp: starts_with_iff) (metis length_Cons length_append le_add1)
  next
    case False
    with Cons.prems obtain m where "find_text sub s = Some m" "n = Suc m"
      by (auto simp: find_text.simps [of sub "c # s"])
    with Cons.IH show ?thesis by simp
  qed
qed

function redact_urls :: "string \<Rightarrow> string" where
  "redact_urls rest =
     (case find_text ''://'' rest of
        None \<Rightarrow> rest
      | Some scheme \<Rightarrow>
          let after_prefix = drop (scheme + 3) rest; boundary = authority_length after_prefix
          in take (scheme + 3) rest @ redact_authority (take boundary after_prefix)
             @ redact_urls (drop boundary after_prefix))"
  by pat_completeness auto

termination
  by (relation "measure length") (auto dest: find_text_bound)

declare redact_urls.simps [simp del]

definition redact_line :: "string \<Rightarrow> string" where
  "redact_line line =
     (let lower = to_ascii_lowercase line
      in if starts_with ''authorization:'' lower \<or> contains_text ''authorization: bearer '' lower
         then ''[redacted authorization header]'' else redact_urls line)"

definition redact_diagnostics :: "string \<Rightarrow> string" where
  "redact_diagnostics input =
     (let result = concat (map (\<lambda>line. redact_line line @ [CHR 0x0A]) (text_lines input))
      in if input \<noteq> [] \<and> last input = CHR 0x0A then result else butlast result)"

definition error_new :: "string \<Rightarrow> integration_error" where
  "error_new code = \<lparr>ie_code = code, ie_diagnostics = None\<rparr>"

section \<open>Names and paths\<close>

definition simple_name_byte :: "char \<Rightarrow> bool" where
  "simple_name_byte c \<longleftrightarrow> is_alphanumeric c \<or> c \<in> {CHR ''.'', CHR ''_'', CHR ''/'', CHR ''-''}"

definition validate_simple_name :: "string \<Rightarrow> integration_error + unit" where
  "validate_simple_name val =
     guardE (\<not> (val = [] \<or> 200 < length val \<or> starts_with ''-'' val \<or> contains_text ''..'' val
        \<or> \<not> list_all simple_name_byte val)) (error_new ''GIT_INPUT_INVALID'')"

text \<open>\<open>Path::components\<close> on Unix: empty and inner \<open>.\<close> segments vanish, a leading \<open>.\<close> stays.\<close>

datatype path_component = RootDir | CurDir | ParentDir | NormalComponent string

definition path_components :: "string \<Rightarrow> path_component list" where
  "path_components p =
     (let segments = split_on (CHR ''/'') p;
          inner = map (\<lambda>s. if s = ''..'' then ParentDir else NormalComponent s)
                    (filter (\<lambda>s. s \<noteq> [] \<and> s \<noteq> ''.'') segments)
      in (if starts_with ''/'' p then [RootDir] else if hd segments = ''.'' then [CurDir] else []) @ inner)"

definition validate_relative_path :: "string \<Rightarrow> integration_error + unit" where
  "validate_relative_path p =
     guardE (\<not> (p = [] \<or> starts_with ''/'' p
        \<or> list_ex (\<lambda>c. case c of NormalComponent s \<Rightarrow> False | _ \<Rightarrow> True) (path_components p)))
       (error_new ''PATH_UNSAFE'')"

text \<open>\<open>Path::starts_with\<close> and \<open>Path::parent\<close> compare components.\<close>

definition path_starts_with :: "string \<Rightarrow> string \<Rightarrow> bool" where
  "path_starts_with p root \<longleftrightarrow>
     take (length (path_components root)) (path_components p) = path_components root"

definition parent_is :: "string \<Rightarrow> string \<Rightarrow> bool" where
  "parent_is p root \<longleftrightarrow>
     (case rev (path_components p) of
        [] \<Rightarrow> False
      | c # cs \<Rightarrow> c \<noteq> RootDir \<and> rev cs = path_components root)"

definition path_join :: "string \<Rightarrow> string \<Rightarrow> string" where
  "path_join a b =
     (if starts_with ''/'' b then b
      else if a = [] \<or> last a = CHR ''/'' then a @ b else a @ ''/'' @ b)"

text \<open>\<open>Path::file_name\<close> is the last component, if it is a name; the extension follows its last dot,
  unless that dot is its first byte.\<close>

definition file_name_of :: "string \<Rightarrow> string option" where
  "file_name_of p =
     (case rev (path_components p) of NormalComponent s # _ \<Rightarrow> Some s | _ \<Rightarrow> None)"

definition file_extension :: "string \<Rightarrow> string option" where
  "file_extension p =
     (case file_name_of p of
        None \<Rightarrow> None
      | Some n \<Rightarrow> if CHR ''.'' \<in> set (tl n) then Some (rev (takeWhile (\<lambda>c. c \<noteq> CHR ''.'') (rev n))) else None)"

definition canonical_inside ::
  "(string \<Rightarrow> string option) \<Rightarrow> string \<Rightarrow> string \<Rightarrow> integration_error + string" where
  "canonical_inside canonical root path =
     bindE (ok_or (canonical root) (error_new ''PATH_UNAVAILABLE'')) (\<lambda>r.
     bindE (ok_or (canonical path) (error_new ''PATH_UNAVAILABLE'')) (\<lambda>p.
     bindE (guardE (path_starts_with p r) (error_new ''PATH_UNSAFE'')) (\<lambda>_. Inr p)))"

section \<open>Object ids\<close>

definition git_format_parse :: "string \<Rightarrow> integration_error + git_object_format" where
  "git_format_parse val =
     (if str_trim val = ''sha1'' then Inr Sha1
      else if str_trim val = ''sha256'' then Inr Sha256
      else Inl (error_new ''GIT_OBJECT_FORMAT_UNSUPPORTED''))"

definition git_format_len :: "git_object_format \<Rightarrow> nat" where
  "git_format_len f = (case f of Sha1 \<Rightarrow> 40 | Sha256 \<Rightarrow> 64)"

definition exact_commit_parse :: "string \<Rightarrow> git_object_format \<Rightarrow> integration_error + string" where
  "exact_commit_parse val f =
     (if length val \<noteq> git_format_len f \<or> \<not> list_all lower_hex val
      then Inl (error_new ''GIT_OID_INVALID'') else Inr val)"

definition exact_commit_deserialize :: "string \<Rightarrow> string option" where
  "exact_commit_deserialize val =
     (if length val \<notin> {40, 64} \<or> \<not> list_all lower_hex val then None else Some val)"

section \<open>Untrusted configuration\<close>

definition ends_with :: "string \<Rightarrow> string \<Rightarrow> bool" where
  "ends_with suf s \<longleftrightarrow> starts_with (rev suf) (rev s)"

definition dangerous_local_git_key :: "string \<Rightarrow> bool" where
  "dangerous_local_git_key raw_key \<longleftrightarrow>
     (let key = to_ascii_lowercase raw_key
      in key \<in> {''core.sshcommand'', ''core.gitproxy'', ''core.askpass'', ''core.attributesfile'',
            ''core.hookspath'', ''core.fsmonitor'', ''credential.helper''}
         \<or> list_ex (\<lambda>p. starts_with p key)
             [''credential.'', ''filter.'', ''http.'', ''https.'', ''protocol.'', ''url.'', ''include.'',
              ''includeif.'']
         \<or> starts_with ''remote.'' key
           \<and> list_ex (\<lambda>s. ends_with s key) [''.uploadpack'', ''.receivepack'', ''.vcs'', ''.proxy''])"

text \<open>What the \<open>url\<close> crate parses; \<open>username\<close> and \<open>path\<close> are its percent-encoded texts.\<close>

record git_url =
  gu_scheme :: string
  gu_host :: "string option"
  gu_username :: string
  gu_password :: "string option"
  gu_query :: "string option"
  gu_fragment :: "string option"
  gu_path :: string

definition authority_byte :: "char \<Rightarrow> bool" where
  "authority_byte c \<longleftrightarrow> is_alphanumeric c \<or> c \<in> {CHR ''.'', CHR ''_'', CHR ''-''}"

definition url_allowed :: "git_url \<Rightarrow> bool" where
  "url_allowed u \<longleftrightarrow>
     (if gu_scheme u = ''https'' then
        gu_host u \<noteq> None \<and> gu_username u = [] \<and> gu_password u = None \<and> gu_query u = None \<and> gu_fragment u = None
      else if gu_scheme u = ''ssh'' then
        gu_host u \<noteq> None \<and> gu_password u = None \<and> gu_query u = None \<and> gu_fragment u = None
        \<and> list_all authority_byte (gu_username u) \<and> \<not> starts_with ''-'' (gu_username u) \<and> 1 < length (gu_path u)
      else if gu_scheme u = ''file'' then
        gu_host u \<in> {None, Some ''localhost''} \<and> gu_password u = None \<and> gu_username u = []
        \<and> gu_query u = None \<and> gu_fragment u = None \<and> gu_path u \<noteq> []
      else False)"

definition safe_component :: "string \<Rightarrow> bool" where
  "safe_component part \<longleftrightarrow> part \<noteq> [] \<and> \<not> starts_with ''-'' part \<and> list_all authority_byte part"

definition safe_scp_path :: "string \<Rightarrow> bool" where
  "safe_scp_path p \<longleftrightarrow> p \<noteq> [] \<and> \<not> starts_with ''-'' p
     \<and> list_all (\<lambda>c. is_alphanumeric c \<or> c \<in> {CHR ''/'', CHR ''.'', CHR ''_'', CHR ''~'', CHR ''-''}) p"

definition scp_remote_ok :: "string \<Rightarrow> string \<Rightarrow> bool" where
  "scp_remote_ok authority p \<longleftrightarrow>
     (let (user, host) = (case split_once (CHR ''@'') authority of
             None \<Rightarrow> (None, authority) | Some (u, h) \<Rightarrow> (Some u, h))
      in safe_component host \<and> (case user of None \<Rightarrow> True | Some u \<Rightarrow> safe_component u) \<and> safe_scp_path p)"

definition validate_remote_url :: "(string \<Rightarrow> git_url option) \<Rightarrow> string \<Rightarrow> integration_error + unit" where
  "validate_remote_url parse val =
     (if val = [] \<or> 4096 < length val \<or> starts_with ''-'' val \<or> has_control val \<or> contains_text ''::'' val
         \<or> starts_with [CHR 0x5C, CHR 0x5C] val
      then Inl (error_new ''GIT_REPOSITORY_UNTRUSTED'')
      else if starts_with ''/'' val \<and> \<not> starts_with ''//'' val then Inr ()
      else case parse val of
          Some u \<Rightarrow> guardE (url_allowed u) (error_new ''GIT_REPOSITORY_UNTRUSTED'')
        | None \<Rightarrow>
            (case split_once (CHR '':'') val of
               Some (authority, p) \<Rightarrow> guardE (scp_remote_ok authority p) (error_new ''GIT_REPOSITORY_UNTRUSTED'')
             | None \<Rightarrow> Inr ()))"

definition attribute_filters :: "string \<Rightarrow> bool" where
  "attribute_filters word \<longleftrightarrow>
     (let attribute = dropWhile (\<lambda>c. c = CHR ''-'' \<or> c = CHR ''!'') word
      in attribute = ''filter'' \<or> starts_with ''filter='' attribute)"

definition attributes_enable_filter :: "string \<Rightarrow> bool" where
  "attributes_enable_filter contents \<longleftrightarrow>
     list_ex (\<lambda>raw_line. let line = str_trim raw_line
        in line \<noteq> [] \<and> \<not> starts_with ''#'' line \<and> list_ex attribute_filters (tl (split_whitespace line)))
       (text_lines contents)"

end
