(* ===== verification/GitClient.thy ===== *)
theory GitClient
  imports GitText
begin

text \<open>
  The system-Git client of \<open>git_rojo.rs\<close>: bounded captures, inspection of a workspace, the
  checks of untrusted configuration, fetch and fast-forward update.

  The operating system is a parameter on a world of any type: a command is its arguments, its
  answer the exit code and the raw output, and it may change the world. The client's state is the
  world with the log of the commands run.
\<close>

section \<open>Commands\<close>

text \<open>
  A finished process: its exit code (\<open>None\<close> when a signal ended it), the chunks the readers got
  from its pipes, and whether the deadline passed. \<open>ExitStatus::success\<close> is exit code 0.
\<close>

datatype process_failure = StartFailed | PipeFailed | WaitFailed

record process_answer =
  pa_code :: "int option"
  pa_stdout :: "string list"
  pa_stderr :: "string list"
  pa_timed_out :: bool

record captured_command =
  cp_code :: "int option"
  cp_diagnostics :: command_diagnostics

text \<open>
  The client's fields and its operating system: \<open>gc_run\<close> runs a program in a directory,
  \<open>gc_lossy\<close> is \<open>String::from_utf8_lossy\<close>, \<open>gc_canonical\<close> is \<open>fs::canonicalize\<close>.
\<close>

record 'r git_client =
  gc_executable :: string
  gc_root :: string
  gc_max_output :: nat
  gc_run :: "string \<Rightarrow> string \<Rightarrow> string list \<Rightarrow> 'r \<Rightarrow> (process_failure + process_answer) \<times> 'r"
  gc_lossy :: "string \<Rightarrow> string"
  gc_exists :: "string \<Rightarrow> 'r \<Rightarrow> bool"
  gc_read :: "string \<Rightarrow> 'r \<Rightarrow> string option"
  gc_canonical :: "string \<Rightarrow> 'r \<Rightarrow> string option"
  gc_list :: "string \<Rightarrow> 'r \<Rightarrow> string list option"
  gc_mkdirs :: "string \<Rightarrow> 'r \<Rightarrow> bool \<times> 'r"
  gc_write :: "string \<Rightarrow> string \<Rightarrow> 'r \<Rightarrow> bool \<times> 'r"
  gc_rename :: "string \<Rightarrow> string \<Rightarrow> 'r \<Rightarrow> bool \<times> 'r"
  gc_now :: "'r \<Rightarrow> nat"

type_synonym 'r git_state = "'r \<times> string list list"
type_synonym ('r, 'a) git_action = "'r git_state \<Rightarrow> (integration_error + 'a) \<times> 'r git_state"

definition returnS :: "'a \<Rightarrow> 's \<Rightarrow> ('e + 'a) \<times> 's" where
  "returnS x s = (Inr x, s)"

definition liftS :: "'e + 'a \<Rightarrow> 's \<Rightarrow> ('e + 'a) \<times> 's" where
  "liftS m s = (m, s)"

definition bindS :: "('s \<Rightarrow> ('e + 'a) \<times> 's) \<Rightarrow> ('a \<Rightarrow> 's \<Rightarrow> ('e + 'b) \<times> 's) \<Rightarrow> 's \<Rightarrow> ('e + 'b) \<times> 's" where
  "bindS m f s = (case m s of (Inl e, s') \<Rightarrow> (Inl e, s') | (Inr x, s') \<Rightarrow> f x s')"

text \<open>One round of \<open>drain_bounded\<close> (and of \<open>drain_live\<close>): keep what fits, drop the rest.\<close>

definition drain_chunk :: "nat \<Rightarrow> string \<Rightarrow> string \<times> bool \<Rightarrow> string \<times> bool" where
  "drain_chunk limit chunk log =
     (let (bytes, truncated) = log; keep = min (limit - length bytes) (length chunk)
      in (bytes @ take keep chunk, truncated \<or> keep \<noteq> length chunk))"

definition drain_bounded :: "nat \<Rightarrow> string list \<Rightarrow> string \<times> bool" where
  "drain_bounded limit chunks = fold (drain_chunk limit) chunks ([], False)"

definition diagnostics_of :: "'r git_client \<Rightarrow> string \<Rightarrow> process_answer \<Rightarrow> command_diagnostics" where
  "diagnostics_of g operation a =
     (let (out, out_truncated) = drain_bounded (gc_max_output g) (pa_stdout a);
          (err, err_truncated) = drain_bounded (gc_max_output g) (pa_stderr a)
      in \<lparr>dg_operation = operation, dg_exit_code = pa_code a,
           dg_stdout = redact_diagnostics (gc_lossy g out), dg_stderr = redact_diagnostics (gc_lossy g err),
           dg_stdout_truncated = out_truncated, dg_stderr_truncated = err_truncated,
           dg_timed_out = pa_timed_out a\<rparr>)"

definition command_error :: "string \<Rightarrow> command_diagnostics \<Rightarrow> integration_error" where
  "command_error code d = \<lparr>ie_code = code, ie_diagnostics = Some d\<rparr>"

definition failure_code :: "process_failure \<Rightarrow> string" where
  "failure_code f =
     (case f of StartFailed \<Rightarrow> ''PROCESS_START_FAILED'' | PipeFailed \<Rightarrow> ''PROCESS_PIPE_FAILED''
      | WaitFailed \<Rightarrow> ''PROCESS_WAIT_FAILED'')"

definition run_bounded ::
  "'r git_client \<Rightarrow> string \<Rightarrow> process_failure + process_answer \<Rightarrow> integration_error + captured_command" where
  "run_bounded g operation answer =
     (case answer of
        Inl f \<Rightarrow> Inl (error_new (failure_code f))
      | Inr a \<Rightarrow>
          if pa_timed_out a then Inl (command_error ''PROCESS_TIMEOUT'' (diagnostics_of g operation a))
          else Inr \<lparr>cp_code = pa_code a, cp_diagnostics = diagnostics_of g operation a\<rparr>)"

definition cp_success :: "captured_command \<Rightarrow> bool" where
  "cp_success out \<longleftrightarrow> cp_code out = Some 0"

definition ensure_success :: "captured_command \<Rightarrow> string \<Rightarrow> integration_error + captured_command" where
  "ensure_success out code =
     (if cp_success out then Inr out else Inl (command_error code (cp_diagnostics out)))"

text \<open>Every Git command carries these overrides of the repository's configuration.\<close>

definition git_overrides :: "string list" where
  "git_overrides =
     [''-c'', ''core.hooksPath=/dev/null'', ''-c'', ''core.fsmonitor=false'', ''-c'', ''protocol.ext.allow=never'',
      ''-c'', ''fetch.recurseSubmodules=false'', ''-c'', ''submodule.recurse=false'']"

definition git_command :: "string list \<Rightarrow> string list" where
  "git_command args = git_overrides @ args"

definition git_run :: "'r git_client \<Rightarrow> string list \<Rightarrow> string \<Rightarrow> ('r, captured_command) git_action" where
  "git_run g args operation s =
     (let (answer, r') = gc_run g (gc_executable g) (gc_root g) (git_command args) (fst s)
      in (run_bounded g operation answer, (r', snd s @ [git_command args])))"

definition git_success ::
  "'r git_client \<Rightarrow> string list \<Rightarrow> string \<Rightarrow> string \<Rightarrow> ('r, captured_command) git_action" where
  "git_success g args operation code =
     bindS (git_run g args operation) (\<lambda>out. liftS (ensure_success out code))"

definition output_text :: "captured_command \<Rightarrow> string" where
  "output_text out = dg_stdout (cp_diagnostics out)"

text \<open>A file system operation, with the code of its failure.\<close>

definition fs_change :: "('r \<Rightarrow> bool \<times> 'r) \<Rightarrow> string \<Rightarrow> ('r, unit) git_action" where
  "fs_change f code s =
     (let (ok, r') = f (fst s) in (guardE ok (error_new code), (r', snd s)))"

definition fs_query :: "('r \<Rightarrow> 'a option) \<Rightarrow> string \<Rightarrow> ('r, 'a) git_action" where
  "fs_query f code s = (ok_or (f (fst s)) (error_new code), s)"

definition open_with_executable ::
  "'r git_client \<Rightarrow> string \<Rightarrow> string \<Rightarrow> ('r, 'r git_client) git_action" where
  "open_with_executable g root executable =
     bindS (fs_query (gc_canonical g root) ''GIT_REPOSITORY_UNAVAILABLE'') (\<lambda>top.
     let client = g\<lparr>gc_executable := executable, gc_root := top, gc_max_output := 256 * 1024\<rparr>
     in bindS (git_success client [''rev-parse'', ''--show-toplevel''] ''git repository discovery'' ''GIT_REPOSITORY_UNTRUSTED'') (\<lambda>out.
     bindS (fs_query (gc_canonical g (str_trim (output_text out))) ''GIT_REPOSITORY_UNAVAILABLE'') (\<lambda>actual.
     bindS (liftS (guardE (path_components actual = path_components top) (error_new ''GIT_REPOSITORY_UNTRUSTED''))) (\<lambda>_.
     returnS client))))"

section \<open>Inspection\<close>

datatype git_operation = Merge | Rebase | CherryPick | Revert | Bisect

record workspace_inspection =
  wi_head :: string
  wi_object_format :: git_object_format
  wi_branch :: "string option"
  wi_upstream :: "string option"
  wi_ahead :: nat
  wi_behind :: nat
  wi_staged :: nat
  wi_unstaged :: nat
  wi_untracked :: nat
  wi_conflicted :: nat
  wi_operation :: "git_operation option"
  wi_sparse_checkout :: bool
  wi_partial_clone :: bool

definition is_clean :: "workspace_inspection \<Rightarrow> bool" where
  "is_clean i \<longleftrightarrow> wi_staged i = 0 \<and> wi_unstaged i = 0 \<and> wi_untracked i = 0 \<and> wi_conflicted i = 0"

definition require_safe_update :: "workspace_inspection \<Rightarrow> integration_error + unit" where
  "require_safe_update i =
     (if wi_operation i \<noteq> None then Inl (error_new ''GIT_OPERATION_IN_PROGRESS'')
      else if wi_conflicted i \<noteq> 0 then Inl (error_new ''GIT_CONFLICT'')
      else if \<not> is_clean i then Inl (error_new ''GIT_WORKTREE_DIRTY'')
      else if wi_branch i = None then Inl (error_new ''GIT_DETACHED_HEAD'')
      else Inr ())"

record status_counts =
  st_head :: "string option"
  st_branch :: "string option"
  st_upstream :: "string option"
  st_ahead :: nat
  st_behind :: nat
  st_staged :: nat
  st_unstaged :: nat
  st_untracked :: nat
  st_conflicted :: nat

definition no_status :: status_counts where
  "no_status = \<lparr>st_head = None, st_branch = None, st_upstream = None, st_ahead = 0, st_behind = 0,
     st_staged = 0, st_unstaged = 0, st_untracked = 0, st_conflicted = 0\<rparr>"

definition or_zero :: "nat option \<Rightarrow> nat" where
  "or_zero n = (case n of None \<Rightarrow> 0 | Some k \<Rightarrow> k)"

definition ahead_behind :: "string \<Rightarrow> status_counts \<Rightarrow> status_counts" where
  "ahead_behind part st =
     (let st1 = (case strip_prefix ''+'' part of None \<Rightarrow> st | Some v \<Rightarrow> st\<lparr>st_ahead := or_zero (parse_u64 v)\<rparr>)
      in case strip_prefix ''-'' part of None \<Rightarrow> st1 | Some v \<Rightarrow> st1\<lparr>st_behind := or_zero (parse_u64 v)\<rparr>)"

text \<open>\<open>get(2..4)\<close> is empty when the field is shorter than four bytes.\<close>

definition changed_entry :: "string \<Rightarrow> status_counts \<Rightarrow> status_counts" where
  "changed_entry field st =
     (if length field < 4 then st
      else st\<lparr>st_staged := st_staged st + (if field ! 2 \<noteq> CHR ''.'' then 1 else 0),
              st_unstaged := st_unstaged st + (if field ! 3 \<noteq> CHR ''.'' then 1 else 0)\<rparr>)"

definition status_field ::
  "git_object_format \<Rightarrow> string \<Rightarrow> status_counts \<Rightarrow> integration_error + status_counts" where
  "status_field f field st =
     (case strip_prefix ''# branch.oid '' field of
        Some v \<Rightarrow> bindE (exact_commit_parse (str_trim v) f) (\<lambda>h. Inr (st\<lparr>st_head := Some h\<rparr>))
      | None \<Rightarrow>
      case strip_prefix ''# branch.head '' field of
        Some v \<Rightarrow> Inr (if v = ''(detached)'' then st else st\<lparr>st_branch := Some v\<rparr>)
      | None \<Rightarrow>
      case strip_prefix ''# branch.upstream '' field of
        Some v \<Rightarrow> Inr (st\<lparr>st_upstream := Some v\<rparr>)
      | None \<Rightarrow>
      case strip_prefix ''# branch.ab '' field of
        Some v \<Rightarrow> Inr (fold ahead_behind (split_whitespace v) st)
      | None \<Rightarrow> Inr (
          if starts_with ''? '' field then st\<lparr>st_untracked := st_untracked st + 1\<rparr>
          else if starts_with ''u '' field then st\<lparr>st_conflicted := st_conflicted st + 1\<rparr>
          else if starts_with ''1 '' field \<or> starts_with ''2 '' field then changed_entry field st
          else st))"

primrec status_fields ::
  "git_object_format \<Rightarrow> string list \<Rightarrow> status_counts \<Rightarrow> integration_error + status_counts" where
  "status_fields f [] st = Inr st"
| "status_fields f (field # fs) st = bindE (status_field f field st) (status_fields f fs)"

definition parse_status :: "git_object_format \<Rightarrow> string \<Rightarrow> integration_error + status_counts" where
  "parse_status f out = status_fields f (filter (\<lambda>e. e \<noteq> []) (split_on (CHR 0x00) out)) no_status"

definition object_format :: "'r git_client \<Rightarrow> ('r, git_object_format) git_action" where
  "object_format g =
     bindS (git_success g [''rev-parse'', ''--show-object-format''] ''git object format'' ''GIT_VERSION_UNSUPPORTED'')
       (\<lambda>out. liftS (git_format_parse (output_text out)))"

text \<open>A path Git prints, relative to the root unless it is absolute.\<close>

definition under_root :: "'r git_client \<Rightarrow> string \<Rightarrow> string" where
  "under_root g p = path_join (gc_root g) p"

definition operation_checks :: "(string \<times> git_operation) list" where
  "operation_checks =
     [(''MERGE_HEAD'', Merge), (''rebase-merge'', Rebase), (''rebase-apply'', Rebase),
      (''CHERRY_PICK_HEAD'', CherryPick), (''REVERT_HEAD'', Revert), (''BISECT_LOG'', Bisect)]"

fun operation_among :: "'r git_client \<Rightarrow> (string \<times> git_operation) list \<Rightarrow> ('r, git_operation option) git_action" where
  "operation_among g [] = returnS None"
| "operation_among g ((name, operation) # rest) =
     bindS (git_success g [''rev-parse'', ''--git-path'', name] ''git operation probe'' ''GIT_STATUS_FAILED'')
       (\<lambda>out s. if gc_exists g (under_root g (str_trim (output_text out))) (fst s)
                then (Inr (Some operation), s) else operation_among g rest s)"

definition operation_state :: "'r git_client \<Rightarrow> ('r, git_operation option) git_action" where
  "operation_state g = operation_among g operation_checks"

text \<open>\<open>.ok().is_some_and(...)\<close>: a failed command counts as no.\<close>

definition git_flag ::
  "'r git_client \<Rightarrow> string list \<Rightarrow> string \<Rightarrow> (string \<Rightarrow> bool) \<Rightarrow> ('r, bool) git_action" where
  "git_flag g args operation test s =
     (let (m, s') = git_run g args operation s
      in (Inr (case m of Inl _ \<Rightarrow> False | Inr out \<Rightarrow> cp_success out \<and> test (str_trim (output_text out))), s'))"

definition inspect :: "'r git_client \<Rightarrow> ('r, workspace_inspection) git_action" where
  "inspect g =
     bindS (object_format g) (\<lambda>f.
     bindS (git_success g [''status'', ''--porcelain=v2'', ''--branch'', ''--untracked-files=all'', ''-z'']
              ''git status'' ''GIT_STATUS_FAILED'') (\<lambda>out.
     bindS (liftS (parse_status f (output_text out))) (\<lambda>st.
     bindS (liftS (ok_or (st_head st) (error_new ''GIT_HEAD_UNBORN''))) (\<lambda>head.
     bindS (operation_state g) (\<lambda>operation.
     bindS (git_flag g [''config'', ''--bool'', ''core.sparseCheckout''] ''git sparse checkout probe''
              (\<lambda>t. t = ''true'')) (\<lambda>sparse.
     bindS (git_flag g [''config'', ''--get'', ''extensions.partialClone''] ''git partial clone probe''
              (\<lambda>t. t \<noteq> [])) (\<lambda>partial.
     returnS \<lparr>wi_head = head, wi_object_format = f, wi_branch = st_branch st, wi_upstream = st_upstream st,
       wi_ahead = st_ahead st, wi_behind = st_behind st, wi_staged = st_staged st, wi_unstaged = st_unstaged st,
       wi_untracked = st_untracked st, wi_conflicted = st_conflicted st, wi_operation = operation,
       wi_sparse_checkout = sparse, wi_partial_clone = partial\<rparr>)))))))"

record git_probe =
  gp_version :: string
  gp_object_format :: git_object_format
  gp_repository_root :: string
  gp_lfs_version :: "string option"

definition probe :: "'r git_client \<Rightarrow> ('r, git_probe) git_action" where
  "probe g =
     bindS (git_success g [''--version''] ''git version probe'' ''GIT_VERSION_UNSUPPORTED'') (\<lambda>out.
     let version = str_trim (output_text out)
     in bindS (liftS (guardE (starts_with ''git version '' version) (error_new ''GIT_VERSION_UNSUPPORTED''))) (\<lambda>_.
     bindS (object_format g) (\<lambda>f.
     bindS (git_success g [''worktree'', ''list'', ''--porcelain''] ''git worktree probe'' ''GIT_VERSION_UNSUPPORTED'') (\<lambda>_ s.
     let (m, s') = git_run g [''lfs'', ''version''] ''git lfs probe'' s
     in (Inr \<lparr>gp_version = version, gp_object_format = f, gp_repository_root = gc_root g,
           gp_lfs_version = (case m of Inl _ \<Rightarrow> None
             | Inr o1 \<Rightarrow> if cp_success o1 then Some (str_trim (output_text o1)) else None)\<rparr>, s')))))"

definition validate_exact_commit :: "'r git_client \<Rightarrow> string \<Rightarrow> ('r, string) git_action" where
  "validate_exact_commit g oid =
     bindS (object_format g) (\<lambda>f.
     bindS (liftS (exact_commit_parse oid f)) (\<lambda>exact.
     bindS (git_success g [''rev-parse'', ''--verify'', exact @ ''^{commit}''] ''git commit validation'' ''GIT_OID_INVALID'') (\<lambda>out.
     bindS (liftS (guardE (str_trim (output_text out) = exact) (error_new ''GIT_OID_INVALID''))) (\<lambda>_.
     returnS exact))))"

definition resolve_commit :: "'r git_client \<Rightarrow> string \<Rightarrow> ('r, string) git_action" where
  "resolve_commit g reference =
     bindS (liftS (validate_simple_name reference)) (\<lambda>_.
     bindS (git_success g [''rev-parse'', ''--verify'', reference @ ''^{commit}'']
              ''git commit reference resolution'' ''GIT_OID_INVALID'') (\<lambda>out.
     bindS (object_format g) (\<lambda>f.
     liftS (exact_commit_parse (str_trim (output_text out)) f))))"

section \<open>Untrusted repositories\<close>

definition reject_dangerous_local_config :: "'r git_client \<Rightarrow> ('r, unit) git_action" where
  "reject_dangerous_local_config g =
     bindS (git_run g [''config'', ''--local'', ''--includes'', ''--name-only'', ''--get-regexp'', ''.*'']
              ''git local security configuration inspection'') (\<lambda>out. liftS (
     if \<not> cp_success out then
       (if cp_code out = Some 1 then Inr ()
        else Inl (command_error ''GIT_REPOSITORY_UNTRUSTED'' (cp_diagnostics out)))
     else if dg_stdout_truncated (cp_diagnostics out) then Inl (error_new ''GIT_REPOSITORY_UNTRUSTED'')
     else guardE (\<not> list_ex (\<lambda>line. dangerous_local_git_key (str_trim line)) (text_lines (output_text out)))
            (error_new ''GIT_REPOSITORY_UNTRUSTED'')))"

definition configured_remote ::
  "'r git_client \<Rightarrow> (string \<Rightarrow> git_url option) \<Rightarrow> string \<Rightarrow> ('r, string list) git_action" where
  "configured_remote g parse remote =
     bindS (liftS (validate_simple_name remote)) (\<lambda>_.
     bindS (reject_dangerous_local_config g) (\<lambda>_.
     bindS (git_success g [''remote'', ''get-url'', ''--all'', remote] ''git remote validation'' ''GIT_REMOTE_INVALID'') (\<lambda>out.
     let urls = filter (\<lambda>l. l \<noteq> []) (map str_trim (text_lines (output_text out)))
     in bindS (liftS (guardE (urls \<noteq> []) (error_new ''GIT_REMOTE_INVALID''))) (\<lambda>_.
     bindS (liftS (traverseE (validate_remote_url parse) urls)) (\<lambda>_. returnS urls)))))"

definition ref_line :: "string \<Rightarrow> (string \<times> string) option" where
  "ref_line line = split_once (CHR '' '') line"

definition remote_refs :: "'r git_client \<Rightarrow> string \<Rightarrow> ('r, string \<rightharpoonup> string) git_action" where
  "remote_refs g remote =
     bindS (git_success g [''for-each-ref'', ''--format=%(refname) %(objectname)'', ''refs/remotes/'' @ remote @ ''/'']
              ''git remote ref inspection'' ''GIT_STATUS_FAILED'')
       (\<lambda>out. returnS (map_of (rev (List.map_filter ref_line (text_lines (output_text out))))))"

fun attribute_files_ok :: "'r git_client \<Rightarrow> string \<Rightarrow> string list \<Rightarrow> ('r, unit) git_action" where
  "attribute_files_ok g commit [] = returnS ()"
| "attribute_files_ok g commit (path # paths) =
     bindS (git_success g [''show'', commit @ '':'' @ path] ''git attribute content inspection'' ''GIT_REPOSITORY_UNTRUSTED'') (\<lambda>out.
     bindS (liftS (guardE (\<not> (dg_stdout_truncated (cp_diagnostics out) \<or> attributes_enable_filter (output_text out)))
              (error_new ''GIT_REPOSITORY_UNTRUSTED''))) (\<lambda>_.
     attribute_files_ok g commit paths))"

text \<open>An attribute file on disk, if it exists.\<close>

definition disk_attributes_ok :: "'r git_client \<Rightarrow> string \<Rightarrow> ('r, unit) git_action" where
  "disk_attributes_ok g path s =
     (if gc_exists g path (fst s)
      then (bindE (ok_or (gc_read g path (fst s)) (error_new ''GIT_REPOSITORY_UNTRUSTED'')) (\<lambda>bytes.
              guardE (\<not> (gc_max_output g < length bytes \<or> attributes_enable_filter (gc_lossy g bytes)))
                (error_new ''GIT_REPOSITORY_UNTRUSTED'')), s)
      else (Inr (), s))"

definition require_filter_free_checkout :: "'r git_client \<Rightarrow> string \<Rightarrow> ('r, unit) git_action" where
  "require_filter_free_checkout g commit =
     bindS (git_success g [''ls-tree'', ''-r'', ''--name-only'', commit] ''git attribute file inspection'' ''GIT_REPOSITORY_UNTRUSTED'') (\<lambda>listing.
     bindS (liftS (guardE (\<not> dg_stdout_truncated (cp_diagnostics listing)) (error_new ''GIT_REPOSITORY_UNTRUSTED''))) (\<lambda>_.
     bindS (attribute_files_ok g commit
              (filter (\<lambda>p. file_name_of p = Some ''.gitattributes'') (text_lines (output_text listing)))) (\<lambda>_.
     bindS (git_success g [''rev-parse'', ''--git-path'', ''info/attributes''] ''git local attribute path inspection'' ''GIT_REPOSITORY_UNTRUSTED'') (\<lambda>info.
     bindS (disk_attributes_ok g (under_root g (str_trim (output_text info)))) (\<lambda>_.
     bindS (git_run g [''config'', ''--path'', ''--get'', ''core.attributesFile''] ''git global attribute path inspection'') (\<lambda>global.
     if cp_success global then disk_attributes_ok g (str_trim (output_text global)) else returnS ()))))))"

section \<open>Fetch and update\<close>

datatype tag_policy = TagsAuto | TagsAll | TagsNone

record fetch_options =
  fo_prune :: bool
  fo_tags :: tag_policy

record fetch_receipt =
  fr_remote :: string
  fr_started_from :: "string \<rightharpoonup> string"
  fr_changed_refs :: "string \<rightharpoonup> string option \<times> string option"
  fr_diagnostics :: command_diagnostics

definition changed_refs :: "(string \<rightharpoonup> string) \<Rightarrow> (string \<rightharpoonup> string) \<Rightarrow> string \<rightharpoonup> string option \<times> string option" where
  "changed_refs before after =
     (\<lambda>key. if before key \<noteq> after key then Some (before key, after key) else None)"

definition fetch_args :: "string \<Rightarrow> fetch_options \<Rightarrow> string list" where
  "fetch_args remote options =
     [''fetch'', ''--no-recurse-submodules''] @ (if fo_prune options then [''--prune''] else [])
     @ (case fo_tags options of TagsAuto \<Rightarrow> [] | TagsAll \<Rightarrow> [''--tags''] | TagsNone \<Rightarrow> [''--no-tags''])
     @ [''--'', remote]"

definition git_fetch ::
  "'r git_client \<Rightarrow> (string \<Rightarrow> git_url option) \<Rightarrow> string \<Rightarrow> fetch_options \<Rightarrow> ('r, fetch_receipt) git_action" where
  "git_fetch g parse remote options =
     bindS (configured_remote g parse remote) (\<lambda>_.
     bindS (remote_refs g remote) (\<lambda>before.
     bindS (git_run g (fetch_args remote options) ''git fetch'') (\<lambda>out.
     bindS (liftS (ensure_success out ''GIT_FETCH_FAILED'')) (\<lambda>_.
     bindS (remote_refs g remote) (\<lambda>after.
     returnS \<lparr>fr_remote = remote, fr_started_from = before, fr_changed_refs = changed_refs before after,
       fr_diagnostics = cp_diagnostics out\<rparr>)))))"

record update_receipt =
  ur_before :: string
  ur_after :: string
  ur_branch :: string
  ur_upstream :: string
  ur_diagnostics :: command_diagnostics

definition merge_args :: "string \<Rightarrow> string list" where
  "merge_args upstream = [''merge'', ''--ff-only'', ''--no-edit'', ''--'', upstream]"

definition update_preconditions :: "'r git_client \<Rightarrow> string \<Rightarrow> ('r, string) git_action" where
  "update_preconditions g upstream =
     bindS (liftS (validate_simple_name upstream)) (\<lambda>_.
     bindS (reject_dangerous_local_config g) (\<lambda>_.
     bindS (inspect g) (\<lambda>state.
     bindS (liftS (require_safe_update state)) (\<lambda>_.
     bindS (resolve_commit g upstream) (\<lambda>target.
     bindS (require_filter_free_checkout g target) (\<lambda>_.
     returnS (wi_head state)))))))"

definition update_finish :: "'r git_client \<Rightarrow> string \<Rightarrow> string \<Rightarrow> captured_command \<Rightarrow> ('r, update_receipt) git_action" where
  "update_finish g upstream before out =
     (if \<not> cp_success out then
       bindS (inspect g) (\<lambda>state. liftS (Inl (command_error
         (if wi_conflicted state \<noteq> 0 then ''GIT_CONFLICT'' else ''GIT_UPDATE_NOT_FAST_FORWARD'') (cp_diagnostics out))))
     else
       bindS (inspect g) (\<lambda>state.
       bindS (liftS (guardE (\<not> (wi_operation state \<noteq> None \<or> wi_conflicted state \<noteq> 0))
                (error_new ''GIT_OPERATION_IN_PROGRESS''))) (\<lambda>_.
       bindS (liftS (ok_or (wi_branch state) (error_new ''GIT_DETACHED_HEAD''))) (\<lambda>branch.
       returnS \<lparr>ur_before = before, ur_after = wi_head state, ur_branch = branch, ur_upstream = upstream,
         ur_diagnostics = cp_diagnostics out\<rparr>))))"

definition update_fast_forward :: "'r git_client \<Rightarrow> string \<Rightarrow> ('r, update_receipt) git_action" where
  "update_fast_forward g upstream =
     bindS (update_preconditions g upstream) (\<lambda>before.
     bindS (git_run g (merge_args upstream) ''git fast-forward update'') (update_finish g upstream before))"

end
