(* ===== verification/GitWorktree.thy ===== *)
theory GitWorktree
  imports GitClient
begin

text \<open>
  The isolated build worktrees of \<open>git_rojo.rs\<close>: creation at an exact commit, cleanup of an owned
  worktree after the artifact is durable, and the read-only reconciliation of a cache directory.
  \<open>to_json\<close> and \<open>from_json\<close> stand for \<open>serde_json\<close> on the receipts.
\<close>

section \<open>Receipts\<close>

text \<open>The only receipt state is \<open>Active\<close>, so the record leaves it out.\<close>

record build_worktree_receipt =
  bw_repository_root :: string
  bw_cache_root :: string
  bw_path :: string
  bw_commit :: string
  bw_created_at :: nat

record worktree_cleanup_receipt =
  wc_path :: string
  wc_commit :: string
  wc_artifact_persisted :: bool
  wc_removed :: bool
  wc_completed_at :: nat
  wc_diagnostics :: command_diagnostics

record worktree_reconciliation =
  wr_receipt :: build_worktree_receipt
  wr_exists :: bool
  wr_registered :: bool
  wr_requires_operator_review :: bool

record receipt_format =
  to_json :: "build_worktree_receipt \<Rightarrow> string option"
  from_json :: "string \<Rightarrow> build_worktree_receipt option"
  cleanup_json :: "worktree_cleanup_receipt \<Rightarrow> string option"

definition receipt_file :: "build_worktree_receipt \<Rightarrow> string \<Rightarrow> integration_error + string" where
  "receipt_file receipt ending =
     bindE (ok_or (file_name_of (bw_path receipt)) (error_new ''GIT_WORKTREE_RECEIPT_INVALID'')) (\<lambda>name.
     Inr (path_join (bw_cache_root receipt) (name @ ending)))"

definition receipt_path :: "build_worktree_receipt \<Rightarrow> integration_error + string" where
  "receipt_path receipt = receipt_file receipt ''.neuman-worktree.json''"

text \<open>\<open>with_extension\<close> of a path that ends in \<open>.json\<close>.\<close>

definition temporary_path :: "string \<Rightarrow> nat \<Rightarrow> string" where
  "temporary_path path millis = take (length path - 4) path @ ''tmp-'' @ decimal millis"

definition write_json_atomic :: "'r git_client \<Rightarrow> string \<Rightarrow> string option \<Rightarrow> ('r, unit) git_action" where
  "write_json_atomic g path json =
     bindS (liftS (ok_or json (error_new ''RECEIPT_SERIALIZE_FAILED''))) (\<lambda>bytes s.
     let temporary = temporary_path path (gc_now g (fst s))
     in bindS (fs_change (gc_write g temporary bytes) ''RECEIPT_WRITE_FAILED'')
          (\<lambda>_. fs_change (gc_rename g temporary path) ''RECEIPT_WRITE_FAILED'') s)"

definition write_worktree_receipt ::
  "'r git_client \<Rightarrow> receipt_format \<Rightarrow> build_worktree_receipt \<Rightarrow> ('r, unit) git_action" where
  "write_worktree_receipt g fmt receipt =
     bindS (liftS (receipt_path receipt)) (\<lambda>path. write_json_atomic g path (to_json fmt receipt))"

definition read_worktree_receipt ::
  "'r git_client \<Rightarrow> receipt_format \<Rightarrow> build_worktree_receipt \<Rightarrow> ('r, build_worktree_receipt) git_action" where
  "read_worktree_receipt g fmt receipt =
     bindS (liftS (receipt_path receipt)) (\<lambda>path.
     bindS (fs_query (gc_read g path) ''GIT_WORKTREE_RECEIPT_INVALID'') (\<lambda>bytes.
     liftS (ok_or (from_json fmt bytes) (error_new ''GIT_WORKTREE_RECEIPT_INVALID''))))"

definition write_cleanup_receipt ::
  "'r git_client \<Rightarrow> receipt_format \<Rightarrow> build_worktree_receipt \<Rightarrow> worktree_cleanup_receipt \<Rightarrow> ('r, unit) git_action" where
  "write_cleanup_receipt g fmt receipt cleanup =
     bindS (liftS (receipt_file receipt ''.neuman-cleanup.json''))
       (\<lambda>path. write_json_atomic g path (cleanup_json fmt cleanup))"

section \<open>Creation\<close>

definition worktree_name_ok :: "string \<Rightarrow> integration_error + unit" where
  "worktree_name_ok name =
     bindE (validate_simple_name name) (\<lambda>_.
     guardE (CHR ''/'' \<notin> set name) (error_new ''PATH_UNSAFE''))"

definition paths_disjoint :: "string \<Rightarrow> string \<Rightarrow> bool" where
  "paths_disjoint a b \<longleftrightarrow> \<not> (path_starts_with a b \<or> path_starts_with b a)"

definition add_worktree_args :: "string \<Rightarrow> string \<Rightarrow> string list" where
  "add_worktree_args path commit = [''worktree'', ''add'', ''--detach'', ''--'', path, commit]"

definition exact_clean :: "string \<Rightarrow> workspace_inspection \<Rightarrow> bool" where
  "exact_clean commit st \<longleftrightarrow> wi_head st = commit \<and> is_clean st \<and> wi_operation st = None"

text \<open>The checks before \<open>git worktree add\<close>; the result is the canonical cache root and the new path.\<close>

definition worktree_target ::
  "'r git_client \<Rightarrow> string \<Rightarrow> string \<Rightarrow> string \<Rightarrow> ('r, string \<times> string) git_action" where
  "worktree_target g commit cache_dir name =
     bindS (liftS (worktree_name_ok name)) (\<lambda>_.
     bindS (validate_exact_commit g commit) (\<lambda>_.
     bindS (require_filter_free_checkout g commit) (\<lambda>_.
     bindS (fs_change (gc_mkdirs g cache_dir) ''GIT_WORKTREE_CREATE_FAILED'') (\<lambda>_.
     bindS (fs_query (gc_canonical g cache_dir) ''GIT_WORKTREE_CREATE_FAILED'') (\<lambda>cache_root.
     bindS (liftS (guardE (paths_disjoint cache_root (gc_root g)) (error_new ''PATH_UNSAFE''))) (\<lambda>_.
     bindS (\<lambda>s. (guardE (\<not> gc_exists g (path_join cache_root name) (fst s))
                   (error_new ''GIT_WORKTREE_CREATE_FAILED''), s)) (\<lambda>_.
     returnS (cache_root, path_join cache_root name))))))))"

definition create_build_worktree ::
  "'r git_client \<Rightarrow> receipt_format \<Rightarrow> string \<Rightarrow> string \<Rightarrow> string \<Rightarrow> ('r, build_worktree_receipt) git_action" where
  "create_build_worktree g fmt commit cache_dir name =
     bindS (worktree_target g commit cache_dir name) (\<lambda>(cache_root, path).
     bindS (git_success g (add_worktree_args path commit) ''git detached worktree create'' ''GIT_WORKTREE_CREATE_FAILED'') (\<lambda>_.
     bindS (fs_query (gc_canonical g path) ''GIT_WORKTREE_CREATE_FAILED'') (\<lambda>actual.
     bindS (liftS (guardE (parent_is actual cache_root) (error_new ''PATH_UNSAFE''))) (\<lambda>_.
     bindS (\<lambda>s. returnS \<lparr>bw_repository_root = gc_root g, bw_cache_root = cache_root, bw_path = actual,
                  bw_commit = commit, bw_created_at = gc_now g (fst s)\<rparr> s) (\<lambda>receipt.
     bindS (write_worktree_receipt g fmt receipt) (\<lambda>_.
     bindS (inspect (g\<lparr>gc_root := actual\<rparr>)) (\<lambda>st.
     bindS (liftS (guardE (exact_clean commit st) (error_new ''GIT_WORKTREE_CREATE_FAILED''))) (\<lambda>_.
     returnS receipt))))))))"

section \<open>Cleanup\<close>

definition validate_for ::
  "'r git_client \<Rightarrow> receipt_format \<Rightarrow> build_worktree_receipt \<Rightarrow> ('r, unit) git_action" where
  "validate_for g fmt receipt =
     bindS (fs_query (gc_canonical g (bw_repository_root receipt)) ''GIT_WORKTREE_RECEIPT_INVALID'') (\<lambda>repository_root.
     bindS (fs_query (gc_canonical g (bw_cache_root receipt)) ''GIT_WORKTREE_RECEIPT_INVALID'') (\<lambda>cache_root.
     bindS (fs_query (gc_canonical g (bw_path receipt)) ''GIT_WORKTREE_RECEIPT_INVALID'') (\<lambda>path.
     bindS (liftS (guardE (path_components repository_root = path_components (gc_root g) \<and> parent_is path cache_root)
              (error_new ''GIT_WORKTREE_RECEIPT_INVALID''))) (\<lambda>_.
     bindS (read_worktree_receipt g fmt receipt) (\<lambda>persisted.
     bindS (liftS (guardE (path_components (bw_path persisted) = path_components (bw_path receipt)
                \<and> bw_commit persisted = bw_commit receipt
                \<and> path_components (bw_repository_root persisted) = path_components (bw_repository_root receipt))
              (error_new ''GIT_WORKTREE_RECEIPT_INVALID''))) (\<lambda>_.
     bindS (inspect (g\<lparr>gc_root := path\<rparr>)) (\<lambda>st.
     liftS (guardE (exact_clean (bw_commit receipt) st \<and> wi_branch st = None)
              (error_new ''GIT_WORKTREE_RECEIPT_INVALID'')))))))))"

definition remove_worktree_args :: "build_worktree_receipt \<Rightarrow> string list" where
  "remove_worktree_args receipt = [''worktree'', ''remove'', ''--'', bw_path receipt]"

definition cleanup_finish ::
  "'r git_client \<Rightarrow> receipt_format \<Rightarrow> build_worktree_receipt \<Rightarrow> bool \<Rightarrow> captured_command \<Rightarrow> ('r, worktree_cleanup_receipt) git_action" where
  "cleanup_finish g fmt receipt artifact_persisted out =
     bindS (git_success g [''worktree'', ''prune'', ''--expire'', ''now''] ''git worktree metadata prune''
              ''GIT_WORKTREE_CLEANUP_FAILED'') (\<lambda>_.
     bindS (\<lambda>s. returnS \<lparr>wc_path = bw_path receipt, wc_commit = bw_commit receipt,
                  wc_artifact_persisted = artifact_persisted, wc_removed = (\<not> gc_exists g (bw_path receipt) (fst s)),
                  wc_completed_at = gc_now g (fst s), wc_diagnostics = cp_diagnostics out\<rparr> s) (\<lambda>cleanup.
     bindS (write_cleanup_receipt g fmt receipt cleanup) (\<lambda>_. returnS cleanup)))"

definition cleanup_build_worktree ::
  "'r git_client \<Rightarrow> receipt_format \<Rightarrow> build_worktree_receipt \<Rightarrow> bool \<Rightarrow> ('r, worktree_cleanup_receipt) git_action" where
  "cleanup_build_worktree g fmt receipt artifact_persisted =
     bindS (liftS (guardE artifact_persisted (error_new ''GIT_WORKTREE_CLEANUP_BLOCKED''))) (\<lambda>_.
     bindS (validate_for g fmt receipt) (\<lambda>_.
     bindS (git_success g (remove_worktree_args receipt) ''git worktree cleanup'' ''GIT_WORKTREE_CLEANUP_FAILED'')
       (cleanup_finish g fmt receipt artifact_persisted)))"

section \<open>Reconciliation\<close>

definition receipt_entry :: "string \<Rightarrow> bool" where
  "receipt_entry path \<longleftrightarrow>
     file_extension path = Some ''json''
     \<and> (case file_name_of path of None \<Rightarrow> False | Some n \<Rightarrow> ends_with ''.neuman-worktree.json'' n)"

definition reconcile_entry ::
  "'r git_client \<Rightarrow> receipt_format \<Rightarrow> string list \<Rightarrow> 'r \<Rightarrow> string \<Rightarrow> integration_error + worktree_reconciliation" where
  "reconcile_entry g fmt registered r path =
     bindE (ok_or (gc_read g path r) (error_new ''GIT_WORKTREE_RECEIPT_INVALID'')) (\<lambda>bytes.
     bindE (ok_or (from_json fmt bytes) (error_new ''GIT_WORKTREE_RECEIPT_INVALID'')) (\<lambda>receipt.
     let found = gc_exists g (bw_path receipt) r;
         is_registered = (case gc_canonical g (bw_path receipt) r of None \<Rightarrow> False
           | Some p \<Rightarrow> list_ex (\<lambda>q. path_components q = path_components p) registered)
     in Inr \<lparr>wr_receipt = receipt, wr_exists = found, wr_registered = is_registered,
          wr_requires_operator_review = (found \<noteq> is_registered)\<rparr>))"

definition reconcile_build_cache ::
  "'r git_client \<Rightarrow> receipt_format \<Rightarrow> string \<Rightarrow> ('r, worktree_reconciliation list) git_action" where
  "reconcile_build_cache g fmt cache_dir =
     bindS (fs_query (gc_canonical g cache_dir) ''PATH_UNAVAILABLE'') (\<lambda>cache_root.
     bindS (git_success g [''worktree'', ''list'', ''--porcelain''] ''git worktree reconciliation'' ''GIT_STATUS_FAILED'') (\<lambda>out s.
     let registered = List.map_filter (\<lambda>p. gc_canonical g p (fst s))
           (List.map_filter (strip_prefix ''worktree '') (text_lines (output_text out)))
     in bindS (fs_query (gc_list g cache_root) ''PATH_UNAVAILABLE'') (\<lambda>entries.
        liftS (collectE (reconcile_entry g fmt registered (fst s)) (filter receipt_entry entries))) s))"

end
