(* ===== verification/GitGuarantees.thy ===== *)
theory GitGuarantees
  imports GitWorktree
begin

text \<open>
  What the Git client guarantees: which commands a handler can run and under which conditions it
  changes a repository, what an inspection counts, what a capture keeps, and where the redaction
  and the untrusted-repository checks let something through.
\<close>

named_theorems runs_intros \<open>the commands a client action can run\<close>

section \<open>The commands of an action\<close>

definition runs :: "(string list \<Rightarrow> bool) \<Rightarrow> ('r, 'a) git_action \<Rightarrow> bool" where
  "runs P m \<longleftrightarrow> (\<forall>s. \<exists>cs. snd (snd (m s)) = snd s @ cs \<and> list_all P cs)"

definition reading_args :: "string list \<Rightarrow> bool" where
  "reading_args args \<longleftrightarrow>
     (case args of
        [] \<Rightarrow> False
      | sub # rest \<Rightarrow>
          sub \<in> {''rev-parse'', ''status'', ''for-each-ref'', ''ls-tree'', ''show'', ''--version''}
          \<or> sub = ''config'' \<and> rest \<in> {[''--bool'', ''core.sparseCheckout''],
               [''--get'', ''extensions.partialClone''], [''--path'', ''--get'', ''core.attributesFile''],
               [''--local'', ''--includes'', ''--name-only'', ''--get-regexp'', ''.*'']}
          \<or> sub = ''remote'' \<and> starts_with ''get-url'' (hd rest)
          \<or> sub = ''worktree'' \<and> hd rest = ''list'' \<or> sub = ''lfs'' \<and> rest = [''version''])"

definition reading_command :: "string list \<Rightarrow> bool" where
  "reading_command c \<longleftrightarrow> (\<exists>args. c = git_command args \<and> reading_args args)"

lemma bindS_simps [simp]:
  "m s = (Inl e, s') \<Longrightarrow> bindS m f s = (Inl e, s')"
  "m s = (Inr x, s') \<Longrightarrow> bindS m f s = f x s'"
  by (simp_all add: bindS_def)

lemma bindS_eq_Inr:
  "bindS m f s = (Inr y, s'') \<longleftrightarrow> (\<exists>x s'. m s = (Inr x, s') \<and> f x s' = (Inr y, s''))"
  by (auto simp: bindS_def split: prod.splits sum.splits)

lemma liftS_eq_Inr [simp]: "liftS m s = (Inr x, s') \<longleftrightarrow> m = Inr x \<and> s' = s"
  by (auto simp: liftS_def)

lemma returnS_eq [simp]: "returnS x s = (m, s') \<longleftrightarrow> m = Inr x \<and> s' = s"
  by (auto simp: returnS_def)

lemma fs_query_eq_Inr [simp]: "fs_query f code s = (Inr x, s') \<longleftrightarrow> f (fst s) = Some x \<and> s' = s"
  by (auto simp: fs_query_def ok_or_def split: option.splits)

lemma runs_bindS [runs_intros]:
  assumes "runs P m" and "\<And>x. runs P (f x)"
  shows "runs P (bindS m f)"
  unfolding runs_def
proof
  fix s
  obtain r s' where m: "m s = (r, s')" by (cases "m s")
  from assms(1) m obtain cs where cs: "snd s' = snd s @ cs" "list_all P cs"
    unfolding runs_def by (metis snd_conv)
  show "\<exists>cs. snd (snd (bindS m f s)) = snd s @ cs \<and> list_all P cs"
  proof (cases r)
    case (Inl e)
    with m cs show ?thesis by simp
  next
    case (Inr x)
    from assms(2) [of x] obtain ds where "snd (snd (f x s')) = snd s' @ ds" "list_all P ds"
      unfolding runs_def by blast
    with m cs Inr show ?thesis by (intro exI [of _ "cs @ ds"]) simp
  qed
qed

lemma runs_mono: "runs P m \<Longrightarrow> (\<And>c. P c \<Longrightarrow> Q c) \<Longrightarrow> runs Q m"
  unfolding runs_def by (metis list.pred_mono_strong)

lemma runs_silent [runs_intros]:
  "runs P (liftS r)" "runs P (returnS x)" "runs P (fs_query q code)" "runs P (fs_change ch code)"
  by (auto simp: runs_def liftS_def returnS_def fs_query_def fs_change_def Let_def split: prod.splits)

lemma runs_same: "(\<And>s. snd (snd (m s)) = snd s) \<Longrightarrow> runs P m"
  by (simp add: runs_def)

lemma git_run_log: "snd (snd (git_run g args op s)) = snd s @ [git_command args]"
  by (simp add: git_run_def split: prod.split)

lemma runs_git_run [runs_intros]: "P (git_command args) \<Longrightarrow> runs P (git_run g args op)"
  by (simp add: runs_def git_run_log)

lemma runs_git_success [runs_intros]:
  "P (git_command args) \<Longrightarrow> runs P (git_success g args op code)"
  unfolding git_success_def by (intro runs_intros)

lemma runs_git_flag [runs_intros]: "P (git_command args) \<Longrightarrow> runs P (git_flag g args op test)"
  by (simp add: runs_def git_flag_def git_run_log case_prod_beta Let_def)

lemma runs_if [runs_intros]: "(b \<Longrightarrow> runs P m) \<Longrightarrow> (\<not> b \<Longrightarrow> runs P n) \<Longrightarrow> runs P (if b then m else n)"
  by simp

lemma runs_if_state [runs_intros]:
  "runs P m \<Longrightarrow> runs P n \<Longrightarrow> runs P (\<lambda>s. if b s then m s else n s)"
  by (simp add: runs_def)

lemma reading_commandI: "reading_args args \<Longrightarrow> reading_command (git_command args)"
  by (auto simp: reading_command_def)


lemma reading_args_of_inspection:
  "reading_args [''rev-parse'', ''--show-object-format'']"
  "reading_args [''status'', ''--porcelain=v2'', ''--branch'', ''--untracked-files=all'', ''-z'']"
  "reading_args [''rev-parse'', ''--git-path'', name]"
  "reading_args [''config'', ''--bool'', ''core.sparseCheckout'']"
  "reading_args [''config'', ''--get'', ''extensions.partialClone'']"
  "reading_args [''rev-parse'', ''--verify'', name]"
  "reading_args [''config'', ''--local'', ''--includes'', ''--name-only'', ''--get-regexp'', ''.*'']"
  "reading_args [''ls-tree'', ''-r'', ''--name-only'', name]"
  "reading_args [''show'', name]"
  "reading_args [''config'', ''--path'', ''--get'', ''core.attributesFile'']"
  "reading_args [''remote'', ''get-url'', ''--all'', name]"
  "reading_args [''for-each-ref'', ''--format=%(refname) %(objectname)'', name]"
  "reading_args [''worktree'', ''list'', ''--porcelain'']"
  by (simp_all add: reading_args_def)

lemma runs_object_format [runs_intros]: "runs reading_command (object_format g)"
  unfolding object_format_def by (intro runs_intros reading_commandI reading_args_of_inspection)

lemma runs_operation_among: "runs reading_command (operation_among g checks)"
proof (induction checks)
  case (Cons check checks)
  obtain name operation where check: "check = (name, operation)" by (cases check)
  show ?case unfolding check operation_among.simps
    by (intro runs_intros reading_commandI reading_args_of_inspection Cons runs_if_state)
       (rule runs_same, simp)
qed (simp add: runs_intros)

lemma runs_inspect [runs_intros]: "runs reading_command (inspect g)"
  unfolding inspect_def operation_state_def by (intro runs_intros reading_commandI reading_args_of_inspection runs_operation_among)

lemma runs_resolve_commit [runs_intros]: "runs reading_command (resolve_commit g reference)"
  unfolding resolve_commit_def by (intro runs_intros reading_commandI reading_args_of_inspection)

lemma runs_validate_exact_commit [runs_intros]: "runs reading_command (validate_exact_commit g oid)"
  unfolding validate_exact_commit_def by (intro runs_intros reading_commandI reading_args_of_inspection)

lemma runs_reject_dangerous [runs_intros]: "runs reading_command (reject_dangerous_local_config g)"
  unfolding reject_dangerous_local_config_def by (intro runs_intros reading_commandI reading_args_of_inspection)

lemma runs_configured_remote [runs_intros]: "runs reading_command (configured_remote g parse remote)"
  unfolding configured_remote_def Let_def by (intro runs_intros reading_commandI reading_args_of_inspection)

lemma runs_remote_refs [runs_intros]: "runs reading_command (remote_refs g remote)"
  unfolding remote_refs_def by (intro runs_intros reading_commandI reading_args_of_inspection)

lemma runs_attribute_files: "runs reading_command (attribute_files_ok g commit paths)"
  by (induction g commit paths rule: attribute_files_ok.induct)
     (simp_all only: attribute_files_ok.simps; intro runs_intros reading_commandI reading_args_of_inspection; assumption)+

lemma runs_disk_attributes [runs_intros]: "runs P (disk_attributes_ok g path)"
  by (rule runs_same) (simp add: disk_attributes_ok_def)

lemma runs_filter_free [runs_intros]: "runs reading_command (require_filter_free_checkout g commit)"
  unfolding require_filter_free_checkout_def by (intro runs_intros reading_commandI reading_args_of_inspection runs_attribute_files)

lemma runs_preconditions: "runs reading_command (update_preconditions g upstream)"
  unfolding update_preconditions_def by (intro runs_intros reading_commandI reading_args_of_inspection)

section \<open>Updates\<close>

lemma runsD: "runs P m \<Longrightarrow> m s = (r, s') \<Longrightarrow> \<exists>cs. snd s' = snd s @ cs \<and> list_all P cs"
  unfolding runs_def by (metis snd_conv)

lemma require_safe_update_Inr [simp]:
  "require_safe_update st = Inr u \<longleftrightarrow> is_clean st \<and> wi_operation st = None \<and> wi_branch st \<noteq> None"
  by (auto simp: require_safe_update_def is_clean_def)

definition safe_to_update :: "workspace_inspection \<Rightarrow> bool" where
  "safe_to_update st \<longleftrightarrow> is_clean st \<and> wi_operation st = None \<and> wi_branch st \<noteq> None"

lemma preconditions_inspected:
  assumes "update_preconditions g u s = (Inr head, s')"
  shows "\<exists>st s0 s1 target s2 as bs. inspect g s0 = (Inr st, s1) \<and> safe_to_update st \<and> wi_head st = head
    \<and> validate_simple_name u = Inr () \<and> resolve_commit g u s1 = (Inr target, s2)
    \<and> require_filter_free_checkout g target s2 = (Inr (), s')
    \<and> snd s1 = snd s @ as \<and> snd s' = snd s1 @ bs \<and> list_all reading_command (as @ bs)"
proof -
  from assms obtain s0 st s1 target s2 where name: "validate_simple_name u = Inr ()"
    and reject: "reject_dangerous_local_config g s = (Inr (), s0)"
    and inspect: "inspect g s0 = (Inr st, s1)" and safe: "safe_to_update st" "wi_head st = head"
    and target: "resolve_commit g u s1 = (Inr target, s2)"
    and free: "require_filter_free_checkout g target s2 = (Inr (), s')"
    unfolding update_preconditions_def bindS_eq_Inr by (auto simp: safe_to_update_def)
  have "runs reading_command (bindS (reject_dangerous_local_config g) (\<lambda>_. inspect g))"
    by (intro runs_intros)
  moreover have "bindS (reject_dangerous_local_config g) (\<lambda>_. inspect g) s = (Inr st, s1)"
    using reject inspect by simp
  ultimately obtain as where as: "snd s1 = snd s @ as" "list_all reading_command as" by (blast dest: runsD)
  have "runs reading_command (bindS (resolve_commit g u) (\<lambda>t. require_filter_free_checkout g t))"
    by (intro runs_intros)
  moreover have "bindS (resolve_commit g u) (\<lambda>t. require_filter_free_checkout g t) s1 = (Inr (), s')"
    using target free by simp
  ultimately obtain bs where bs: "snd s' = snd s1 @ bs" "list_all reading_command bs" by (blast dest: runsD)
  show ?thesis
    by (intro exI [of _ st] exI [of _ s0] exI [of _ s1] exI [of _ target] exI [of _ s2] exI [of _ as] exI [of _ bs])
       (use name inspect safe target free as bs in simp)
qed

lemma runs_update_finish: "runs reading_command (update_finish g u before out)"
  unfolding update_finish_def by (intro runs_intros)

text \<open>An action that checks, runs one command and goes on.\<close>

lemma guarded_change:
  assumes "runs R pre" and "\<And>x out. runs Q (rest x out)"
    and whole: "bindS pre (\<lambda>x. bindS (git_run g args op) (rest x)) s = (m, s')"
  shows "\<exists>as. list_all R as \<and> ((\<exists>e. m = Inl e) \<and> snd s' = snd s @ as
    \<or> (\<exists>x s1 post. pre s = (Inr x, s1) \<and> snd s1 = snd s @ as
        \<and> snd s' = snd s @ as @ git_command args # post \<and> list_all Q post))"
proof -
  obtain h s2 where pre: "pre s = (h, s2)" by (cases "pre s")
  from runsD [OF assms(1) pre] obtain as where as: "snd s2 = snd s @ as" "list_all R as" by blast
  show ?thesis
  proof (cases h)
    case (Inl e)
    with whole pre as show ?thesis by auto
  next
    case (Inr x)
    obtain r s3 where run: "git_run g args op s2 = (r, s3)" by (cases "git_run g args op s2")
    then have s3: "snd s3 = snd s2 @ [git_command args]" using git_run_log [of g args op s2] by simp
    have "\<exists>post. snd s' = snd s3 @ post \<and> list_all Q post"
    proof (cases r)
      case (Inl e)
      with whole pre Inr run show ?thesis by simp
    next
      case out: (Inr out)
      with whole pre Inr run have "rest x out s3 = (m, s')" by simp
      from runsD [OF assms(2) this] show ?thesis .
    qed
    then obtain post where "snd s' = snd s3 @ post" "list_all Q post" by blast
    with pre Inr as s3 show ?thesis
      by (intro exI [of _ as] conjI disjI2 exI [of _ x] exI [of _ s2] exI [of _ post]) simp_all
  qed
qed

lemma git_success_bind:
  "bindS (git_success g args op code) f
   = bindS (git_run g args op) (\<lambda>out. bindS (liftS (ensure_success out code)) f)"
  by (rule ext) (simp add: git_success_def bindS_def split: prod.splits sum.splits)

text \<open>What a finished update reports: the receipt is that of the inspection after the merge.\<close>

lemma update_finish_Inr:
  assumes "update_finish g u before out s = (Inr r, s')"
  shows "cp_success out \<and> ur_before r = before \<and> ur_upstream r = u
    \<and> (\<exists>st. inspect g s = (Inr st, s') \<and> wi_operation st = None \<and> wi_conflicted st = 0
           \<and> wi_branch st = Some (ur_branch r) \<and> ur_after r = wi_head st)"
proof -
  have "cp_success out" using assms by (rule_tac ccontr) (auto simp: update_finish_def bindS_eq_Inr)
  with assms show ?thesis
    unfolding update_finish_def by (simp add: bindS_eq_Inr) (auto simp: guardE_def ok_or_def split: if_splits option.splits)
qed

lemma simple_name_no_option: "validate_simple_name u = Inr () \<Longrightarrow> u \<noteq> [] \<and> hd u \<noteq> CHR ''-''"
  by (cases u) (auto simp: validate_simple_name_def guardE_def split: if_splits)

lemma reading_command_line:
  "reading_command c \<Longrightarrow> \<exists>args. reading_args args \<and> c =
     [''-c'', ''core.hooksPath=/dev/null'', ''-c'', ''core.fsmonitor=false'', ''-c'', ''protocol.ext.allow=never'',
      ''-c'', ''fetch.recurseSubmodules=false'', ''-c'', ''submodule.recurse=false''] @ args"
  by (auto simp: reading_command_def git_command_def git_overrides_def)

lemma merge_command_line:
  "git_command (merge_args u) =
     [''-c'', ''core.hooksPath=/dev/null'', ''-c'', ''core.fsmonitor=false'', ''-c'', ''protocol.ext.allow=never'',
      ''-c'', ''fetch.recurseSubmodules=false'', ''-c'', ''submodule.recurse=false'',
      ''merge'', ''--ff-only'', ''--no-edit'', ''--'', u]"
  by (simp add: git_command_def git_overrides_def merge_args_def)

lemma update_commands:
  assumes "update_fast_forward g u s = (m, s')"
  shows "\<exists>pre post. list_all reading_command (pre @ post)
    \<and> ((\<exists>e. m = Inl e) \<and> snd s' = snd s @ pre
       \<or> (\<exists>st s0 s1 target s2 s3 k. inspect g s0 = (Inr st, s1) \<and> snd s1 = snd s @ take k pre
            \<and> safe_to_update st \<and> validate_simple_name u = Inr ()
            \<and> resolve_commit g u s1 = (Inr target, s2) \<and> require_filter_free_checkout g target s2 = (Inr (), s3)
            \<and> snd s3 = snd s @ pre \<and> snd s' = snd s @ pre @ git_command (merge_args u) # post
            \<and> ((\<exists>e. m = Inl e) \<or> (\<exists>r st' s4. m = Inr r \<and> ur_before r = wi_head st \<and> inspect g s4 = (Inr st', s')
                 \<and> wi_operation st' = None \<and> wi_conflicted st' = 0 \<and> wi_branch st' = Some (ur_branch r)
                 \<and> ur_after r = wi_head st'))))"
proof -
  from guarded_change [OF runs_preconditions runs_update_finish assms [unfolded update_fast_forward_def]]
  consider (early) pre e where "list_all reading_command pre" "m = Inl e" "snd s' = snd s @ pre"
    | (merge) pre head s3 post where "list_all reading_command pre" "update_preconditions g u s = (Inr head, s3)"
        "snd s3 = snd s @ pre" "snd s' = snd s @ pre @ git_command (merge_args u) # post" "list_all reading_command post"
    by blast
  then show ?thesis
  proof cases
    case early
    then show ?thesis by (intro exI [of _ pre] exI [of _ "[]"]) simp
  next
    case merge
    from preconditions_inspected [OF merge(2)] obtain st s0 s1 target s2 as bs
      where inspected: "inspect g s0 = (Inr st, s1)" "safe_to_update st" "wi_head st = head" "validate_simple_name u = Inr ()"
        and target: "resolve_commit g u s1 = (Inr target, s2)" "require_filter_free_checkout g target s2 = (Inr (), s3)"
        and logs: "snd s1 = snd s @ as" "snd s3 = snd s1 @ bs"
      by blast
    from logs merge(3) have "take (length as) pre = as" by simp
    moreover have "(\<exists>e. m = Inl e) \<or> (\<exists>r st' s4. m = Inr r \<and> ur_before r = wi_head st \<and> inspect g s4 = (Inr st', s')
        \<and> wi_operation st' = None \<and> wi_conflicted st' = 0 \<and> wi_branch st' = Some (ur_branch r) \<and> ur_after r = wi_head st')"
    proof (cases m)
      case (Inr r)
      with assms merge(2) obtain out s4 where "update_finish g u head out s4 = (Inr r, s')"
        unfolding update_fast_forward_def by (auto simp: bindS_eq_Inr)
      from update_finish_Inr [OF this] obtain st' where "inspect g s4 = (Inr st', s')" "ur_before r = head"
        "wi_operation st' = None" "wi_conflicted st' = 0" "wi_branch st' = Some (ur_branch r)" "ur_after r = wi_head st'"
        by blast
      with Inr inspected(3) show ?thesis by (intro disjI2 exI [of _ r] exI [of _ st'] exI [of _ s4]) simp
    qed simp
    ultimately show ?thesis using merge inspected target logs
      by - (rule exI [of _ pre], rule exI [of _ post], rule conjI, simp, rule disjI2,
          rule exI [of _ st], rule exI [of _ s0], rule exI [of _ s1], rule exI [of _ target],
          rule exI [of _ s2], rule exI [of _ s3], rule exI [of _ "length as"], simp)
  qed
qed

text \<open>C33: A fast-forward update only reads the repository until it has inspected an attached workspace
  with nothing staged, unstaged, untracked or conflicted and no operation in progress, and has checked
  that the commit the upstream names enables no checkout filter; then it runs exactly one merge,
  \<open>merge --ff-only --no-edit -- <upstream>\<close>, whose upstream cannot be an option, and only reads again. A
  receipt tells the heads inspected before and after the merge. Every one of these commands carries the
  overrides spelled out below: no hooks directory, no file system monitor, no \<open>ext::\<close> transport (the
  other transports are not switched off) and no recursion into submodules.\<close>

theorem update_runs_guarded_merge:
  "case update_fast_forward g u s of (m, s') \<Rightarrow> \<exists>pre post.
    list_all (\<lambda>c. \<exists>args. reading_args args \<and> c =
        [''-c'', ''core.hooksPath=/dev/null'', ''-c'', ''core.fsmonitor=false'', ''-c'', ''protocol.ext.allow=never'',
         ''-c'', ''fetch.recurseSubmodules=false'', ''-c'', ''submodule.recurse=false''] @ args) (pre @ post)
    \<and> ((\<exists>e. m = Inl e) \<and> snd s' = snd s @ pre
       \<or> (\<exists>st s0 s1 target s2 s3 k. inspect g s0 = (Inr st, s1) \<and> snd s1 = snd s @ take k pre
            \<and> wi_staged st = 0 \<and> wi_unstaged st = 0 \<and> wi_untracked st = 0 \<and> wi_conflicted st = 0
            \<and> wi_operation st = None \<and> wi_branch st \<noteq> None \<and> u \<noteq> [] \<and> hd u \<noteq> CHR ''-''
            \<and> resolve_commit g u s1 = (Inr target, s2) \<and> require_filter_free_checkout g target s2 = (Inr (), s3)
            \<and> snd s3 = snd s @ pre
            \<and> snd s' = snd s @ pre @
                [[''-c'', ''core.hooksPath=/dev/null'', ''-c'', ''core.fsmonitor=false'', ''-c'', ''protocol.ext.allow=never'',
                  ''-c'', ''fetch.recurseSubmodules=false'', ''-c'', ''submodule.recurse=false'',
                  ''merge'', ''--ff-only'', ''--no-edit'', ''--'', u]] @ post
            \<and> ((\<exists>e. m = Inl e) \<or> (\<exists>r st' s4. m = Inr r \<and> ur_before r = wi_head st \<and> inspect g s4 = (Inr st', s')
                 \<and> wi_operation st' = None \<and> wi_conflicted st' = 0 \<and> wi_branch st' = Some (ur_branch r)
                 \<and> ur_after r = wi_head st'))))"
proof -
  obtain m s' where Pair: "update_fast_forward g u s = (m, s')" by (cases "update_fast_forward g u s") blast
  from update_commands [OF Pair] obtain pre post where cs: "list_all reading_command (pre @ post)"
    and or: "(\<exists>e. m = Inl e) \<and> snd s' = snd s @ pre
       \<or> (\<exists>st s0 s1 target s2 s3 k. inspect g s0 = (Inr st, s1) \<and> snd s1 = snd s @ take k pre
            \<and> safe_to_update st \<and> validate_simple_name u = Inr ()
            \<and> resolve_commit g u s1 = (Inr target, s2) \<and> require_filter_free_checkout g target s2 = (Inr (), s3)
            \<and> snd s3 = snd s @ pre \<and> snd s' = snd s @ pre @ git_command (merge_args u) # post
            \<and> ((\<exists>e. m = Inl e) \<or> (\<exists>r st' s4. m = Inr r \<and> ur_before r = wi_head st \<and> inspect g s4 = (Inr st', s')
                 \<and> wi_operation st' = None \<and> wi_conflicted st' = 0 \<and> wi_branch st' = Some (ur_branch r)
                 \<and> ur_after r = wi_head st')))"
    by blast
  from cs have "list_all (\<lambda>c. \<exists>args. reading_args args \<and> c =
        [''-c'', ''core.hooksPath=/dev/null'', ''-c'', ''core.fsmonitor=false'', ''-c'', ''protocol.ext.allow=never'',
         ''-c'', ''fetch.recurseSubmodules=false'', ''-c'', ''submodule.recurse=false''] @ args) (pre @ post)"
    by (rule list.pred_mono_strong) (rule reading_command_line)
  moreover from or simple_name_no_option [of u]
  have "(\<exists>e. m = Inl e) \<and> snd s' = snd s @ pre
       \<or> (\<exists>st s0 s1 target s2 s3 k. inspect g s0 = (Inr st, s1) \<and> snd s1 = snd s @ take k pre
            \<and> wi_staged st = 0 \<and> wi_unstaged st = 0 \<and> wi_untracked st = 0 \<and> wi_conflicted st = 0
            \<and> wi_operation st = None \<and> wi_branch st \<noteq> None \<and> u \<noteq> [] \<and> hd u \<noteq> CHR ''-''
            \<and> resolve_commit g u s1 = (Inr target, s2) \<and> require_filter_free_checkout g target s2 = (Inr (), s3)
            \<and> snd s3 = snd s @ pre \<and> snd s' = snd s @ pre @ [git_command (merge_args u)] @ post
            \<and> ((\<exists>e. m = Inl e) \<or> (\<exists>r st' s4. m = Inr r \<and> ur_before r = wi_head st \<and> inspect g s4 = (Inr st', s')
                 \<and> wi_operation st' = None \<and> wi_conflicted st' = 0 \<and> wi_branch st' = Some (ur_branch r)
                 \<and> ur_after r = wi_head st')))"
    unfolding safe_to_update_def is_clean_def append_Cons append_Nil by blast
  ultimately show ?thesis unfolding Pair prod.case merge_command_line by blast
qed

section \<open>Worktrees\<close>

lemma runs_write_json [runs_intros]: "runs P (write_json_atomic g path json)"
proof -
  have "runs P (\<lambda>s. bindS (fs_change (gc_write g (temporary_path path (gc_now g (fst s))) bytes) ''RECEIPT_WRITE_FAILED'')
          (\<lambda>_. fs_change (gc_rename g (temporary_path path (gc_now g (fst s))) path) ''RECEIPT_WRITE_FAILED'') s)" for bytes
    by (rule runs_same)
       (simp add: bindS_def fs_change_def case_prod_beta Let_def guardE_def split: sum.splits prod.splits)
  then show ?thesis
    unfolding write_json_atomic_def Let_def by (intro runs_intros)
qed

lemma runs_receipts [runs_intros]:
  "runs P (read_worktree_receipt g fmt receipt)"
  "runs P (write_worktree_receipt g fmt receipt)"
  "runs P (write_cleanup_receipt g fmt receipt cleanup)"
  unfolding read_worktree_receipt_def write_worktree_receipt_def write_cleanup_receipt_def
  by (intro runs_intros)+

lemma runs_validate_for: "runs reading_command (validate_for g fmt receipt)"
  unfolding validate_for_def by (intro runs_intros)

lemma validated_worktree:
  assumes "validate_for g fmt receipt s = (Inr u, s')"
  shows "\<exists>path st. gc_canonical g (bw_path receipt) (fst s) = Some path
    \<and> inspect (g\<lparr>gc_root := path\<rparr>) s = (Inr st, s') \<and> exact_clean (bw_commit receipt) st \<and> wi_branch st = None"
  using assms unfolding validate_for_def read_worktree_receipt_def bindS_eq_Inr
  by (auto simp: result_simps)

text \<open>A cleanup runs \<open>worktree prune\<close> besides the reading commands, once the worktree is removed.\<close>

definition pruning_command :: "string list \<Rightarrow> bool" where
  "pruning_command c \<longleftrightarrow> c = git_command [''worktree'', ''prune'', ''--expire'', ''now'']"

lemma runs_cleanup_finish: "runs pruning_command (cleanup_finish g fmt receipt persisted out)"
proof -
  have "runs P (\<lambda>s. returnS (r s) s)" for P :: "string list \<Rightarrow> bool" and r :: "'a git_state \<Rightarrow> worktree_cleanup_receipt"
    by (rule runs_same) (simp add: returnS_def)
  then show ?thesis
    unfolding cleanup_finish_def by (intro runs_intros) (simp_all add: pruning_command_def)
qed

lemma cleanup_commands:
  assumes "cleanup_build_worktree g fmt receipt persisted s = (m, s')"
  shows "\<exists>pre. list_all reading_command pre
    \<and> ((\<exists>e. m = Inl e) \<and> snd s' = snd s @ pre
       \<or> persisted \<and> (\<exists>path st s1 post. gc_canonical g (bw_path receipt) (fst s) = Some path
           \<and> inspect (g\<lparr>gc_root := path\<rparr>) s = (Inr st, s1) \<and> snd s1 = snd s @ pre
           \<and> exact_clean (bw_commit receipt) st \<and> wi_branch st = None
           \<and> snd s' = snd s @ pre @ git_command (remove_worktree_args receipt) # post
           \<and> list_all pruning_command post))"
proof (cases persisted)
  case False
  with assms show ?thesis by (auto simp: cleanup_build_worktree_def liftS_def bindS_def intro!: exI [of _ "[]"])
next
  case True
  then have "bindS (validate_for g fmt receipt) (\<lambda>_.
       bindS (git_run g (remove_worktree_args receipt) ''git worktree cleanup'') (\<lambda>out.
       bindS (liftS (ensure_success out ''GIT_WORKTREE_CLEANUP_FAILED'')) (cleanup_finish g fmt receipt persisted)))
       s = (m, s')"
    using assms by (simp add: cleanup_build_worktree_def git_success_bind liftS_def)
  from guarded_change [OF runs_validate_for _ this, of pruning_command] True show ?thesis
    by (fastforce intro: runs_intros runs_cleanup_finish dest: validated_worktree)
qed

text \<open>C34: A cleanup removes nothing before the artifact is durable: it removes the worktree only after
  the worktree itself was inspected to be detached, clean and at the receipt's commit, and it then only prunes Git's records; every other run just reads and fails.\<close>

theorem cleanup_removes_owned_worktree_only:
  "case cleanup_build_worktree g fmt receipt persisted s of (m, s') \<Rightarrow> \<exists>pre. list_all reading_command pre
    \<and> ((\<exists>e. m = Inl e) \<and> snd s' = snd s @ pre
       \<or> persisted \<and> (\<exists>path st s1 post. gc_canonical g (bw_path receipt) (fst s) = Some path
           \<and> inspect (g\<lparr>gc_root := path\<rparr>) s = (Inr st, s1) \<and> snd s1 = snd s @ pre
           \<and> exact_clean (bw_commit receipt) st \<and> wi_branch st = None
           \<and> snd s' = snd s @ pre @ git_command (remove_worktree_args receipt) # post
           \<and> list_all pruning_command post))"
  using cleanup_commands [of g fmt receipt persisted s]
  by (cases "cleanup_build_worktree g fmt receipt persisted s") simp

end
