(* ===== verification/RojoBuild.thy ===== *)
theory RojoBuild
  imports GitGuarantees ArtState
begin

text \<open>
  Pinned Rojo in \<open>git_rojo.rs\<close>: the verification of the executable against its pin, the plan of an
  immutable build and its execution, and the plan of a loopback server. The digest and its
  hexadecimal text are parameters.
\<close>

section \<open>The host\<close>

text \<open>\<open>is_file\<close> and \<open>is_dir\<close> of \<open>fs::metadata\<close>; the kind and the length of \<open>fs::symlink_metadata\<close>.\<close>

record file_metadata =
  fm_is_file :: bool
  fm_is_dir :: bool

record link_metadata =
  lm_is_file :: bool
  lm_is_symlink :: bool
  lm_len :: nat

record 'r rojo_host =
  rh_client :: "'r git_client"
  rh_metadata :: "string \<Rightarrow> 'r \<Rightarrow> file_metadata option"
  rh_symlink_metadata :: "string \<Rightarrow> 'r \<Rightarrow> link_metadata option"
  rh_sha256 :: "u8 list \<Rightarrow> u8 list"
  rh_hex :: "u8 list \<Rightarrow> string"

definition canonicalize :: "'r rojo_host \<Rightarrow> string \<Rightarrow> string \<Rightarrow> ('r, string) git_action" where
  "canonicalize h code path = fs_query (gc_canonical (rh_client h) path) code"

definition sha256_file :: "'r rojo_host \<Rightarrow> string \<Rightarrow> ('r, string) git_action" where
  "sha256_file h path =
     bindS (fs_query (gc_read (rh_client h) path) ''FILE_READ_FAILED'')
       (\<lambda>bytes. returnS (rh_hex h (rh_sha256 h (as_bytes bytes))))"

definition path_exists :: "'r rojo_host \<Rightarrow> string \<Rightarrow> ('r, bool) git_action" where
  "path_exists h path s = (Inr (gc_exists (rh_client h) path (fst s)), s)"

text \<open>A program that is not Git; the empty directory is the one of the process itself.\<close>

definition program_run ::
  "'r rojo_host \<Rightarrow> string \<Rightarrow> string \<Rightarrow> string list \<Rightarrow> string \<Rightarrow> ('r, captured_command) git_action" where
  "program_run h program cwd args operation s =
     (let (answer, r') = gc_run (rh_client h) program cwd args (fst s)
      in (run_bounded (rh_client h) operation answer, (r', snd s @ [program # args])))"

definition program_success ::
  "'r rojo_host \<Rightarrow> string \<Rightarrow> string \<Rightarrow> string list \<Rightarrow> string \<Rightarrow> string \<Rightarrow> ('r, captured_command) git_action" where
  "program_success h program cwd args operation code =
     bindS (program_run h program cwd args operation) (\<lambda>out. liftS (ensure_success out code))"

section \<open>The pinned executable\<close>

record rojo_pin =
  rp_executable :: string
  rp_version :: string
  rp_sha256 :: string

record verified_rojo =
  vr_executable :: string
  vr_version :: string
  vr_sha256 :: string

definition version_byte :: "char \<Rightarrow> bool" where
  "version_byte c \<longleftrightarrow> is_alphanumeric c \<or> c \<in> {CHR ''.'', CHR ''-'', CHR ''+''}"

definition validate_version :: "string \<Rightarrow> integration_error + unit" where
  "validate_version version =
     guardE (\<not> (version = [] \<or> 64 < length version \<or> \<not> list_all version_byte version))
       (error_new ''GIT_ROJO_VERSION_MISMATCH'')"

text \<open>\<open>unwrap_or_default\<close> on the words of the output.\<close>

definition word_at :: "nat \<Rightarrow> string list \<Rightarrow> string" where
  "word_at n ws = (if n < length ws then ws ! n else [])"

definition parse_rojo_version :: "string \<Rightarrow> integration_error + string" where
  "parse_rojo_version out =
     (let words = split_whitespace out; product = word_at 0 words; version = word_at 1 words
      in if to_ascii_lowercase product \<noteq> ''rojo'' \<or> 2 < length words
         then Inl (error_new ''GIT_ROJO_VERSION_MISMATCH'')
         else bindE (validate_version version) (\<lambda>_. Inr version))"

definition pin_shape_ok :: "rojo_pin \<Rightarrow> integration_error + unit" where
  "pin_shape_ok pin =
     bindE (validate_version (rp_version pin)) (\<lambda>_.
     guardE (\<not> (length (rp_sha256 pin) \<noteq> 64 \<or> \<not> list_all lower_hex (rp_sha256 pin)))
       (error_new ''GIT_ROJO_VERSION_MISMATCH''))"

definition regular_file :: "'r rojo_host \<Rightarrow> string \<Rightarrow> string \<Rightarrow> string \<Rightarrow> ('r, unit) git_action" where
  "regular_file h unavailable wrong path =
     bindS (fs_query (rh_metadata h path) unavailable) (\<lambda>meta.
     liftS (guardE (fm_is_file meta) (error_new wrong)))"

definition pinned_executable :: "'r rojo_host \<Rightarrow> rojo_pin \<Rightarrow> ('r, string) git_action" where
  "pinned_executable h pin =
     bindS (liftS (pin_shape_ok pin)) (\<lambda>_.
     bindS (canonicalize h ''GIT_ROJO_VERSION_MISMATCH'' (rp_executable pin)) (\<lambda>executable.
     bindS (regular_file h ''GIT_ROJO_VERSION_MISMATCH'' ''GIT_ROJO_VERSION_MISMATCH'' executable) (\<lambda>_.
     bindS (sha256_file h executable) (\<lambda>actual_hash.
     bindS (liftS (guardE (actual_hash = rp_sha256 pin) (error_new ''GIT_ROJO_VERSION_MISMATCH''))) (\<lambda>_.
     returnS executable)))))"

definition verify_rojo :: "'r rojo_host \<Rightarrow> rojo_pin \<Rightarrow> ('r, verified_rojo) git_action" where
  "verify_rojo h pin =
     bindS (pinned_executable h pin) (\<lambda>executable.
     bindS (program_success h executable [] [''--version''] ''rojo version verification'' ''GIT_ROJO_VERSION_MISMATCH'') (\<lambda>out.
     bindS (liftS (parse_rojo_version (output_text out))) (\<lambda>actual_version.
     bindS (liftS (guardE (actual_version = rp_version pin)
              (command_error ''GIT_ROJO_VERSION_MISMATCH'' (cp_diagnostics out)))) (\<lambda>_.
     returnS \<lparr>vr_executable = executable, vr_version = rp_version pin, vr_sha256 = rp_sha256 pin\<rparr>))))"

section \<open>Immutable builds\<close>

datatype rojo_build_format = Binary | Xml

definition expected_extension :: "rojo_build_format \<Rightarrow> string" where
  "expected_extension f = (case f of Binary \<Rightarrow> ''rbxl'' | Xml \<Rightarrow> ''rbxlx'')"

record rojo_build_plan =
  bp_rojo :: verified_rojo
  bp_workspace_root :: string
  bp_project_file :: string
  bp_project_sha256 :: string
  bp_output_file :: string
  bp_format :: rojo_build_format

record rojo_build_receipt =
  br_output_file :: string
  br_output_sha256 :: string
  br_output_size :: nat
  br_project_sha256 :: string
  br_rojo_version :: string
  br_rojo_sha256 :: string
  br_completed_at :: nat
  br_diagnostics :: command_diagnostics

definition project_inside :: "'r rojo_host \<Rightarrow> string \<Rightarrow> string \<Rightarrow> ('r, string) git_action" where
  "project_inside h workspace_root project_relative =
     bindS (\<lambda>s. (canonical_inside (\<lambda>p. gc_canonical (rh_client h) p (fst s)) workspace_root
                   (path_join workspace_root project_relative), s)) (\<lambda>project_file.
     bindS (regular_file h ''PATH_UNAVAILABLE'' ''PATH_UNSAFE'' project_file) (\<lambda>_.
     returnS project_file))"

text \<open>\<open>Path::parent\<close>, up to the repeated slashes and dots that name the same directory.\<close>

definition component_text :: "path_component \<Rightarrow> string" where
  "component_text c =
     (case c of RootDir \<Rightarrow> [] | CurDir \<Rightarrow> ''.'' | ParentDir \<Rightarrow> ''..'' | NormalComponent s \<Rightarrow> s)"

definition parent_text :: "string \<Rightarrow> string" where
  "parent_text p =
     (let cs = butlast (path_components p)
      in if cs = [RootDir] then ''/'' else join_texts ''/'' (map component_text cs))"

definition output_inside ::
  "'r rojo_host \<Rightarrow> string \<Rightarrow> string \<Rightarrow> string \<Rightarrow> ('r, string) git_action" where
  "output_inside h workspace_root output_dir output_relative =
     bindS (fs_change (gc_mkdirs (rh_client h) output_dir) ''PATH_UNAVAILABLE'') (\<lambda>_.
     bindS (canonicalize h ''PATH_UNAVAILABLE'' output_dir) (\<lambda>output_root.
     bindS (liftS (guardE (paths_disjoint output_root workspace_root) (error_new ''PATH_UNSAFE''))) (\<lambda>_.
     let output_file = path_join output_root output_relative
     in bindS (path_exists h output_file) (\<lambda>found.
     bindS (liftS (guardE (\<not> found) (error_new ''PATH_UNSAFE''))) (\<lambda>_.
     bindS (fs_change (gc_mkdirs (rh_client h) (parent_text output_file)) ''PATH_UNAVAILABLE'') (\<lambda>_.
     bindS (canonicalize h ''PATH_UNAVAILABLE'' (parent_text output_file)) (\<lambda>parent.
     bindS (liftS (guardE (path_starts_with parent output_root) (error_new ''PATH_UNSAFE''))) (\<lambda>_.
     returnS output_file))))))))"

definition build_plan_create ::
  "'r rojo_host \<Rightarrow> verified_rojo \<Rightarrow> string \<Rightarrow> string \<Rightarrow> string \<Rightarrow> string \<Rightarrow> rojo_build_format
     \<Rightarrow> ('r, rojo_build_plan) git_action" where
  "build_plan_create h rojo workspace project_relative output_dir output_relative format =
     bindS (liftS (validate_relative_path project_relative)) (\<lambda>_.
     bindS (liftS (validate_relative_path output_relative)) (\<lambda>_.
     bindS (canonicalize h ''PATH_UNAVAILABLE'' workspace) (\<lambda>workspace_root.
     bindS (project_inside h workspace_root project_relative) (\<lambda>project_file.
     bindS (output_inside h workspace_root output_dir output_relative) (\<lambda>output_file.
     bindS (liftS (guardE (file_extension output_file = Some (expected_extension format))
              (error_new ''PATH_UNSAFE''))) (\<lambda>_.
     bindS (sha256_file h project_file) (\<lambda>project_sha256.
     returnS \<lparr>bp_rojo = rojo, bp_workspace_root = workspace_root, bp_project_file = project_file,
       bp_project_sha256 = project_sha256, bp_output_file = output_file, bp_format = format\<rparr>)))))))"

definition build_args :: "rojo_build_plan \<Rightarrow> string list" where
  "build_args plan = [''build'', bp_project_file plan, ''--output'', bp_output_file plan]"

definition build_unchanged :: "'r rojo_host \<Rightarrow> rojo_build_plan \<Rightarrow> ('r, unit) git_action" where
  "build_unchanged h plan =
     bindS (sha256_file h (bp_project_file plan)) (\<lambda>actual.
     bindS (liftS (guardE (actual = bp_project_sha256 plan) (error_new ''GIT_SOURCEMAP_STALE''))) (\<lambda>_.
     bindS (path_exists h (bp_output_file plan)) (\<lambda>found.
     liftS (guardE (\<not> found) (error_new ''PATH_UNSAFE'')))))"

definition build_execute :: "'r rojo_host \<Rightarrow> rojo_build_plan \<Rightarrow> ('r, rojo_build_receipt) git_action" where
  "build_execute h plan =
     bindS (build_unchanged h plan) (\<lambda>_.
     bindS (program_success h (vr_executable (bp_rojo plan)) (bp_workspace_root plan) (build_args plan)
              ''rojo immutable build'' ''GIT_ROJO_SERVER_FAILED'') (\<lambda>out.
     bindS (fs_query (rh_symlink_metadata h (bp_output_file plan)) ''GIT_ROJO_SERVER_FAILED'') (\<lambda>meta.
     bindS (liftS (guardE (\<not> (\<not> lm_is_file meta \<or> lm_is_symlink meta \<or> lm_len meta = 0))
              (error_new ''GIT_ROJO_SERVER_FAILED''))) (\<lambda>_.
     bindS (sha256_file h (bp_output_file plan)) (\<lambda>output_sha256 s.
     returnS \<lparr>br_output_file = bp_output_file plan, br_output_sha256 = output_sha256,
       br_output_size = lm_len meta, br_project_sha256 = bp_project_sha256 plan,
       br_rojo_version = vr_version (bp_rojo plan), br_rojo_sha256 = vr_sha256 (bp_rojo plan),
       br_completed_at = gc_now (rh_client h) (fst s), br_diagnostics = cp_diagnostics out\<rparr> s)))))"

section \<open>Loopback servers\<close>

record rojo_serve_plan =
  sp_rojo :: verified_rojo
  sp_workspace_root :: string
  sp_project_file :: string
  sp_project_sha256 :: string
  sp_port :: nat
  sp_max_restarts :: nat
  sp_log_limit :: nat

definition serve_plan_create ::
  "'r rojo_host \<Rightarrow> verified_rojo \<Rightarrow> string \<Rightarrow> string \<Rightarrow> nat \<Rightarrow> nat \<Rightarrow> nat \<Rightarrow> ('r, rojo_serve_plan) git_action" where
  "serve_plan_create h rojo workspace project_relative port max_restarts log_limit =
     bindS (liftS (guardE (port \<noteq> 0) (error_new ''GIT_ROJO_SERVER_FAILED''))) (\<lambda>_.
     bindS (liftS (validate_relative_path project_relative)) (\<lambda>_.
     bindS (canonicalize h ''PATH_UNAVAILABLE'' workspace) (\<lambda>workspace_root.
     bindS (project_inside h workspace_root project_relative) (\<lambda>project_file.
     bindS (sha256_file h project_file) (\<lambda>project_sha256.
     returnS \<lparr>sp_rojo = rojo, sp_workspace_root = workspace_root, sp_project_file = project_file,
       sp_project_sha256 = project_sha256, sp_port = port, sp_max_restarts = max_restarts,
       sp_log_limit = max 4096 (min log_limit (4 * 1024 * 1024))\<rparr>)))))"

end
