(* ===== verification/RojoSessions.thy ===== *)
theory RojoSessions
  imports RojoBuild RustMap "HOL-Library.List_Lexorder" "HOL-Library.Char_ord" "HOL-Library.Product_Lexorder"
begin

text \<open>
  The live Rojo servers of \<open>git_rojo.rs\<close>: the supervisor of one child process with its restart
  budget, and the manager that keeps at most one session per workspace and place on distinct
  loopback ports. A child is known by its process id; every question to the operating system may
  let the world move on.
\<close>

section \<open>The supervisor\<close>

record 'r child_host =
  ch_rojo :: "'r rojo_host"
  ch_spawn :: "rojo_serve_plan \<Rightarrow> 'r \<Rightarrow> nat option \<times> 'r"
  ch_try_wait :: "nat \<Rightarrow> 'r \<Rightarrow> int option option option \<times> 'r"
  ch_kill :: "nat \<Rightarrow> 'r \<Rightarrow> bool \<times> 'r"
  ch_wait :: "nat \<Rightarrow> 'r \<Rightarrow> int option option \<times> 'r"
  ch_connect :: "nat \<Rightarrow> 'r \<Rightarrow> bool \<times> 'r"
  ch_bind :: "nat \<Rightarrow> 'r \<Rightarrow> bool \<times> 'r"
  ch_stdout :: "nat \<Rightarrow> 'r \<Rightarrow> string list option"
  ch_stderr :: "nat \<Rightarrow> 'r \<Rightarrow> string list option"

datatype rojo_server_state = Starting | Healthy | Exited | Stopped

record rojo_server_snapshot =
  sn_state :: rojo_server_state
  sn_pid :: "nat option"
  sn_port :: nat
  sn_restart_attempts :: nat
  sn_exit_code :: "int option"
  sn_stdout :: string
  sn_stderr :: string
  sn_logs_truncated :: bool

text \<open>\<open>sv_log\<close> is the child whose output the two current log buffers collect.\<close>

record rojo_supervisor =
  sv_plan :: rojo_serve_plan
  sv_child :: "nat option"
  sv_log :: "nat option"
  sv_restarts :: nat
  sv_last_exit :: "int option"
  sv_stopped :: bool

text \<open>An operation on a value of type \<open>'v\<close>; the value is kept as it stands when the operation fails.\<close>

type_synonym ('v, 'r, 'a) owned_action =
  "'v \<Rightarrow> 'r git_state \<Rightarrow> (integration_error + 'a) \<times> 'v \<times> 'r git_state"

definition server_failed :: integration_error where
  "server_failed = error_new ''GIT_ROJO_SERVER_FAILED''"

definition ask :: "('r \<Rightarrow> 'a \<times> 'r) \<Rightarrow> 'r git_state \<Rightarrow> 'a \<times> 'r git_state" where
  "ask f s = (let (x, r') = f (fst s) in (x, (r', snd s)))"

definition spawn_child :: "'r child_host \<Rightarrow> (rojo_supervisor, 'r, unit) owned_action" where
  "spawn_child h v s =
     (case sha256_file (ch_rojo h) (sp_project_file (sv_plan v)) s of
        (Inl e, s1) \<Rightarrow> (Inl e, v, s1)
      | (Inr actual, s1) \<Rightarrow>
          if actual \<noteq> sp_project_sha256 (sv_plan v) then (Inl (error_new ''GIT_SOURCEMAP_STALE''), v, s1)
          else if sv_child v \<noteq> None then (Inl server_failed, v, s1)
          else (case ask (ch_spawn h (sv_plan v)) s1 of
                  (None, s2) \<Rightarrow> (Inl server_failed, v, s2)
                | (Some pid, s2) \<Rightarrow>
                    (Inr (), v\<lparr>sv_child := Some pid, sv_log := Some pid, sv_stopped := False\<rparr>, s2)))"

definition supervisor_start :: "'r child_host \<Rightarrow> rojo_serve_plan \<Rightarrow> ('r, rojo_supervisor) git_action" where
  "supervisor_start h plan s =
     (let v = \<lparr>sv_plan = plan, sv_child = None, sv_log = None, sv_restarts = 0, sv_last_exit = None,
                sv_stopped = False\<rparr>;
          (m, v', s') = spawn_child h v s
      in (case m of Inl e \<Rightarrow> (Inl e, s') | Inr _ \<Rightarrow> (Inr v', s')))"

text \<open>A poisoned lock is the answer \<open>None\<close>.\<close>

definition log_snapshot :: "'r child_host \<Rightarrow> nat \<Rightarrow> string list option \<Rightarrow> string \<times> bool" where
  "log_snapshot h limit chunks =
     (case chunks of
        None \<Rightarrow> (''[log lock poisoned]'', True)
      | Some cs \<Rightarrow> let (bytes, truncated) = drain_bounded limit cs
                   in (redact_diagnostics (gc_lossy (rh_client (ch_rojo h)) bytes), truncated))"

definition stream_chunks :: "(nat \<Rightarrow> 'r \<Rightarrow> string list option) \<Rightarrow> nat option \<Rightarrow> 'r \<Rightarrow> string list option" where
  "stream_chunks f log r = (case log of None \<Rightarrow> Some [] | Some pid \<Rightarrow> f pid r)"

text \<open>What polling the child gives: its state with the process id and the exit code to report.\<close>

definition poll_child ::
  "'r child_host \<Rightarrow> (rojo_supervisor, 'r, rojo_server_state \<times> nat option \<times> int option) owned_action" where
  "poll_child h v s =
     (case sv_child v of
        None \<Rightarrow> (Inr (if sv_stopped v then Stopped else Exited, None, sv_last_exit v), v, s)
      | Some pid \<Rightarrow>
          (case ask (ch_try_wait h pid) s of
             (None, s1) \<Rightarrow> (Inl server_failed, v, s1)
           | (Some (Some code), s1) \<Rightarrow>
               (Inr (Exited, Some pid, code), v\<lparr>sv_last_exit := code, sv_child := None\<rparr>, s1)
           | (Some None, s1) \<Rightarrow>
               let (reachable, s2) = ask (ch_connect h (sp_port (sv_plan v))) s1
               in (Inr (if reachable then Healthy else Starting, Some pid, sv_last_exit v), v, s2)))"

definition snapshot_of ::
  "'r child_host \<Rightarrow> rojo_supervisor \<Rightarrow> 'r \<Rightarrow> rojo_server_state \<times> nat option \<times> int option \<Rightarrow> rojo_server_snapshot" where
  "snapshot_of h v r polled =
     (let (state, pid, code) = polled; limit = sp_log_limit (sv_plan v);
          (out, out_truncated) = log_snapshot h limit (stream_chunks (ch_stdout h) (sv_log v) r);
          (err, err_truncated) = log_snapshot h limit (stream_chunks (ch_stderr h) (sv_log v) r)
      in \<lparr>sn_state = state, sn_pid = pid, sn_port = sp_port (sv_plan v), sn_restart_attempts = sv_restarts v,
          sn_exit_code = code, sn_stdout = out, sn_stderr = err,
          sn_logs_truncated = (out_truncated \<or> err_truncated)\<rparr>)"

definition snapshot :: "'r child_host \<Rightarrow> (rojo_supervisor, 'r, rojo_server_snapshot) owned_action" where
  "snapshot h v s =
     (let (m, v', s') = poll_child h v s
      in (case m of Inl e \<Rightarrow> Inl e | Inr polled \<Rightarrow> Inr (snapshot_of h v' (fst s') polled), v', s'))"

definition supervisor_restart :: "'r child_host \<Rightarrow> (rojo_supervisor, 'r, unit) owned_action" where
  "supervisor_restart h v s =
     (if sv_child v \<noteq> None then (Inl server_failed, v, s)
      else if sp_max_restarts (sv_plan v) \<le> sv_restarts v then (Inl server_failed, v, s)
      else spawn_child h (v\<lparr>sv_restarts := sv_restarts v + 1, sv_log := None\<rparr>) s)"

text \<open>\<open>stop\<close> takes the child out first, so a failing step loses it.\<close>

definition end_child :: "'r child_host \<Rightarrow> nat \<Rightarrow> ('r, int option) git_action" where
  "end_child h pid s =
     (case ask (ch_try_wait h pid) s of
        (None, s1) \<Rightarrow> (Inl server_failed, s1)
      | (Some (Some code), s1) \<Rightarrow> (Inr code, s1)
      | (Some None, s1) \<Rightarrow>
          (case ask (ch_kill h pid) s1 of
             (False, s2) \<Rightarrow> (Inl server_failed, s2)
           | (True, s2) \<Rightarrow>
               (case ask (ch_wait h pid) s2 of
                  (None, s3) \<Rightarrow> (Inl server_failed, s3)
                | (Some code, s3) \<Rightarrow> (Inr code, s3))))"

definition supervisor_stop :: "'r child_host \<Rightarrow> (rojo_supervisor, 'r, rojo_server_snapshot) owned_action" where
  "supervisor_stop h v s =
     (case sv_child v of
        None \<Rightarrow> snapshot h (v\<lparr>sv_stopped := True\<rparr>) s
      | Some pid \<Rightarrow>
          (case end_child h pid s of
             (Inl e, s1) \<Rightarrow> (Inl e, v\<lparr>sv_child := None\<rparr>, s1)
           | (Inr code, s1) \<Rightarrow>
               snapshot h (v\<lparr>sv_child := None, sv_last_exit := code, sv_stopped := True\<rparr>) s1))"

section \<open>Sessions\<close>

text \<open>The canonical workspace root and the place key; outside Windows the identity of a workspace is
  its path.\<close>

type_synonym rojo_session_key = "string \<times> string"

definition session_key_create ::
  "'r rojo_host \<Rightarrow> string \<Rightarrow> string \<Rightarrow> ('r, rojo_session_key) git_action" where
  "session_key_create h workspace place_key =
     bindS (liftS (validate_simple_name place_key)) (\<lambda>_.
     bindS (liftS (guardE (CHR ''/'' \<notin> set place_key) (error_new ''GIT_ROJO_SESSION_INVALID''))) (\<lambda>_.
     bindS (canonicalize h ''PATH_UNAVAILABLE'' workspace) (\<lambda>workspace_root.
     bindS (fs_query (rh_metadata h workspace_root) ''PATH_UNAVAILABLE'') (\<lambda>meta.
     bindS (liftS (guardE (fm_is_dir meta) (error_new ''GIT_ROJO_SESSION_INVALID''))) (\<lambda>_.
     returnS (workspace_root, place_key))))))"

record rojo_port_range =
  pr_start :: nat
  pr_end :: nat

definition port_range_create :: "nat \<Rightarrow> nat \<Rightarrow> integration_error + rojo_port_range" where
  "port_range_create first last_port =
     (if first < 1024 \<or> last_port < first \<or> 16383 < last_port - first
      then Inl (error_new ''GIT_ROJO_SESSION_INVALID'')
      else Inr \<lparr>pr_start = first, pr_end = last_port\<rparr>)"

definition port_range_len :: "rojo_port_range \<Rightarrow> nat" where
  "port_range_len rng = pr_end rng - pr_start rng + 1"

definition default_port_range :: rojo_port_range where
  "default_port_range = \<lparr>pr_start = 34872, pr_end = 34971\<rparr>"

record rojo_session_start_request =
  rr_pin :: rojo_pin
  rr_workspace_root :: string
  rr_project_relative :: string
  rr_place_key :: string
  rr_max_restarts :: nat
  rr_log_limit_bytes :: nat

datatype rojo_child_exit_kind = Unexpected | RequestedStop | RequestedRestart

record rojo_child_exit_report =
  er_kind :: rojo_child_exit_kind
  er_exit_code :: "int option"
  er_observed_at :: nat

record managed_rojo_session =
  ms_key :: rojo_session_key
  ms_session_id :: string
  ms_context_id :: string
  ms_project_sha256 :: string
  ms_rojo_version :: string
  ms_rojo_sha256 :: string
  ms_started_at :: nat
  ms_last_state :: rojo_server_state
  ms_last_exit :: "rojo_child_exit_report option"
  ms_supervisor :: rojo_supervisor

record rojo_session_status =
  ss_key :: rojo_session_key
  ss_session_id :: string
  ss_context_id :: string
  ss_state :: rojo_server_state
  ss_pid :: "nat option"
  ss_port :: nat
  ss_restart_attempts :: nat
  ss_project_sha256 :: string
  ss_rojo_version :: string
  ss_rojo_sha256 :: string
  ss_started_at :: nat
  ss_observed_at :: nat
  ss_last_exit :: "rojo_child_exit_report option"
  ss_stdout :: string
  ss_stderr :: string
  ss_logs_truncated :: bool

record rojo_session_start_outcome =
  so_created :: bool
  so_status :: rojo_session_status

record rojo_session_manager =
  mg_sessions :: "(rojo_session_key \<times> managed_rojo_session) list"
  mg_port_range :: rojo_port_range

definition manager_new :: "rojo_port_range \<Rightarrow> rojo_session_manager" where
  "manager_new rng = \<lparr>mg_sessions = [], mg_port_range = rng\<rparr>"

text \<open>The digests prefix every field with its length as a big-endian \<open>u64\<close>.\<close>

definition session_field :: "string \<Rightarrow> u8 list" where
  "session_field v = to_be_bytes (length v div 2 ^ 32) @ to_be_bytes (length v) @ as_bytes v"

definition session_digest :: "'r rojo_host \<Rightarrow> string list \<Rightarrow> u8 list" where
  "session_digest h vs = rh_sha256 h (concat (map session_field vs))"

definition session_id :: "'r rojo_host \<Rightarrow> rojo_session_key \<Rightarrow> string" where
  "session_id h key =
     ''rojo-session:'' @ take 32 (rh_hex h (session_digest h [''neuman-rojo-session-v1'', fst key, snd key]))"

definition session_context_id :: "'r rojo_host \<Rightarrow> rojo_session_key \<Rightarrow> rojo_serve_plan \<Rightarrow> string" where
  "session_context_id h key plan =
     ''sha256:'' @ rh_hex h (session_digest h [''neuman-rojo-context-v1'', fst key, snd key, sp_project_file plan,
        sp_project_sha256 plan, vr_version (sp_rojo plan), vr_sha256 (sp_rojo plan)])"

text \<open>The seed is the first four bytes of the digest; \<open>wrapping_add\<close> is the sum modulo \<open>2 ^ 32\<close>.\<close>

definition be_u32 :: "u8 list \<Rightarrow> nat" where
  "be_u32 bs = foldl (\<lambda>n b. 256 * n + unat b) 0 (take 4 bs)"

definition port_seed :: "'r rojo_host \<Rightarrow> rojo_session_key \<Rightarrow> nat" where
  "port_seed h key = be_u32 (session_digest h [''neuman-rojo-port-v1'', fst key, snd key])"

definition port_offset :: "nat \<Rightarrow> nat \<Rightarrow> nat \<Rightarrow> nat" where
  "port_offset seed len step = (seed + step) mod 2 ^ 32 mod len"

definition reserved_ports :: "rojo_session_manager \<Rightarrow> nat list" where
  "reserved_ports m = map (\<lambda>e. sp_port (sv_plan (ms_supervisor (snd e)))) (mg_sessions m)"

fun try_ports :: "'r child_host \<Rightarrow> nat list \<Rightarrow> nat list \<Rightarrow> ('r, nat) git_action" where
  "try_ports h reserved [] s = (Inl (error_new ''GIT_ROJO_PORT_UNAVAILABLE''), s)"
| "try_ports h reserved (port # ports) s =
     (if port \<in> set reserved then try_ports h reserved ports s
      else (case ask (ch_bind h port) s of
              (True, s') \<Rightarrow> (Inr port, s')
            | (False, s') \<Rightarrow> try_ports h reserved ports s'))"

definition candidate_ports :: "rojo_port_range \<Rightarrow> nat \<Rightarrow> nat list" where
  "candidate_ports rng seed =
     map (\<lambda>step. pr_start rng + port_offset seed (port_range_len rng) step) [0..<port_range_len rng]"

definition select_port ::
  "'r child_host \<Rightarrow> rojo_session_manager \<Rightarrow> rojo_session_key \<Rightarrow> ('r, nat) git_action" where
  "select_port h m key =
     try_ports h (reserved_ports m) (candidate_ports (mg_port_range m) (port_seed (ch_rojo h) key))"

section \<open>The manager\<close>

definition bindO ::
  "('v, 'r, 'a) owned_action \<Rightarrow> ('a \<Rightarrow> ('v, 'r, 'b) owned_action) \<Rightarrow> ('v, 'r, 'b) owned_action" where
  "bindO m f v s =
     (case m v s of (Inl e, v', s') \<Rightarrow> (Inl e, v', s') | (Inr x, v', s') \<Rightarrow> f x v' s')"

definition liftO :: "('r, 'a) git_action \<Rightarrow> ('v, 'r, 'a) owned_action" where
  "liftO a v s = (let (r, s') = a s in (r, v, s'))"

definition supervise :: "(rojo_supervisor, 'r, 'a) owned_action \<Rightarrow> (managed_rojo_session, 'r, 'a) owned_action" where
  "supervise f ms s = (let (r, v, s') = f (ms_supervisor ms) s in (r, ms\<lparr>ms_supervisor := v\<rparr>, s'))"

definition host_now :: "'r child_host \<Rightarrow> 'r git_state \<Rightarrow> nat" where
  "host_now h s = gc_now (rh_client (ch_rojo h)) (fst s)"

definition exit_report :: "rojo_child_exit_kind \<Rightarrow> int option \<Rightarrow> nat \<Rightarrow> rojo_child_exit_report" where
  "exit_report kind code now = \<lparr>er_kind = kind, er_exit_code = code, er_observed_at = now\<rparr>"

definition managed_status ::
  "managed_rojo_session \<Rightarrow> rojo_server_snapshot \<Rightarrow> nat \<Rightarrow> integration_error + rojo_session_status" where
  "managed_status ms sn now =
     (if sn_port sn \<noteq> sp_port (sv_plan (ms_supervisor ms))
      then Inl (error_new ''GIT_ROJO_SESSION_INVALID'')
      else Inr \<lparr>ss_key = ms_key ms, ss_session_id = ms_session_id ms, ss_context_id = ms_context_id ms,
        ss_state = sn_state sn, ss_pid = sn_pid sn, ss_port = sn_port sn,
        ss_restart_attempts = sn_restart_attempts sn, ss_project_sha256 = ms_project_sha256 ms,
        ss_rojo_version = ms_rojo_version ms, ss_rojo_sha256 = ms_rojo_sha256 ms,
        ss_started_at = ms_started_at ms, ss_observed_at = now, ss_last_exit = ms_last_exit ms,
        ss_stdout = sn_stdout sn, ss_stderr = sn_stderr sn, ss_logs_truncated = sn_logs_truncated sn\<rparr>)"

definition observed :: "managed_rojo_session \<Rightarrow> rojo_server_snapshot \<Rightarrow> nat \<Rightarrow> managed_rojo_session" where
  "observed ms sn now =
     (if sn_state sn = Exited \<and> ms_last_state ms \<notin> {Exited, Stopped}
      then ms\<lparr>ms_last_exit := Some (exit_report Unexpected (sn_exit_code sn) now), ms_last_state := Exited\<rparr>
      else ms\<lparr>ms_last_state := sn_state sn\<rparr>)"

definition refresh_managed_session :: "'r child_host \<Rightarrow> (managed_rojo_session, 'r, rojo_session_status) owned_action" where
  "refresh_managed_session h =
     bindO (supervise (snapshot h)) (\<lambda>sn ms s.
       let ms' = observed ms sn (host_now h s) in (managed_status ms' sn (host_now h s), ms', s))"

definition stopped_session ::
  "managed_rojo_session \<Rightarrow> bool \<Rightarrow> rojo_session_status \<Rightarrow> rojo_server_snapshot \<Rightarrow> nat \<Rightarrow> managed_rojo_session" where
  "stopped_session ms had_live_child before sn now =
     (if had_live_child then ms\<lparr>ms_last_exit := Some (exit_report RequestedStop (sn_exit_code sn) now)\<rparr>
      else if ss_state before \<noteq> Exited then ms\<lparr>ms_last_exit := ss_last_exit before\<rparr>
      else ms)\<lparr>ms_last_state := Stopped\<rparr>"

definition stop_session :: "'r child_host \<Rightarrow> (managed_rojo_session, 'r, rojo_session_status) owned_action" where
  "stop_session h =
     bindO (refresh_managed_session h) (\<lambda>before ms0.
     bindO (supervise (supervisor_stop h)) (\<lambda>sn ms s.
       let ms' = stopped_session ms (sv_child (ms_supervisor ms0) \<noteq> None) before sn (host_now h s)
       in (managed_status ms' sn (host_now h s), ms', s)) ms0)"

text \<open>The first half of a restart: a live child is stopped before the budget is looked at.\<close>

definition end_before_restart ::
  "'r child_host \<Rightarrow> rojo_session_status \<Rightarrow> (managed_rojo_session, 'r, unit) owned_action" where
  "end_before_restart h before ms s =
     (if sv_child (ms_supervisor ms) \<noteq> None
      then bindO (supervise (supervisor_stop h)) (\<lambda>sn ms1 s1.
             (Inr (), ms1\<lparr>ms_last_exit := Some (exit_report RequestedRestart (sn_exit_code sn) (host_now h s1))\<rparr>, s1)) ms s
      else if ss_state before = Exited \<and> ms_last_exit ms = None
      then (Inr (), ms\<lparr>ms_last_exit := Some (exit_report Unexpected
              (case ss_last_exit before of None \<Rightarrow> None | Some r \<Rightarrow> er_exit_code r) (host_now h s))\<rparr>, s)
      else (Inr (), ms, s))"

definition restart_session :: "'r child_host \<Rightarrow> (managed_rojo_session, 'r, rojo_session_status) owned_action" where
  "restart_session h =
     bindO (refresh_managed_session h) (\<lambda>before.
     bindO (end_before_restart h before) (\<lambda>_.
     bindO (supervise (supervisor_restart h)) (\<lambda>_.
     bindO (\<lambda>ms s. (Inr (), ms\<lparr>ms_started_at := host_now h s, ms_last_state := Starting\<rparr>, s)) (\<lambda>_.
     refresh_managed_session h))))"

definition on_session ::
  "(managed_rojo_session, 'r, 'a) owned_action \<Rightarrow> rojo_session_key \<Rightarrow> (rojo_session_manager, 'r, 'a) owned_action" where
  "on_session f key m s =
     (case map_of (mg_sessions m) key of
        None \<Rightarrow> (Inl (error_new ''GIT_ROJO_SESSION_NOT_FOUND''), m, s)
      | Some ms \<Rightarrow> let (r, ms', s') = f ms s
                   in (r, m\<lparr>mg_sessions := btree_put key ms' (mg_sessions m)\<rparr>, s'))"

definition status_by_key ::
  "'r child_host \<Rightarrow> rojo_session_key \<Rightarrow> (rojo_session_manager, 'r, rojo_session_status) owned_action" where
  "status_by_key h key = on_session (refresh_managed_session h) key"

definition manager_status ::
  "'r child_host \<Rightarrow> string \<Rightarrow> string \<Rightarrow> (rojo_session_manager, 'r, rojo_session_status) owned_action" where
  "manager_status h workspace place_key =
     bindO (liftO (session_key_create (ch_rojo h) workspace place_key)) (status_by_key h)"

definition manager_stop ::
  "'r child_host \<Rightarrow> rojo_session_key \<Rightarrow> (rojo_session_manager, 'r, rojo_session_status) owned_action" where
  "manager_stop h key = on_session (stop_session h) key"

definition manager_restart ::
  "'r child_host \<Rightarrow> rojo_session_key \<Rightarrow> (rojo_session_manager, 'r, rojo_session_status) owned_action" where
  "manager_restart h key = on_session (restart_session h) key"

text \<open>\<open>collect\<close> into a \<open>Result\<close> stops refreshing at the first error.\<close>

primrec manager_list ::
  "'r child_host \<Rightarrow> rojo_session_key list \<Rightarrow> (rojo_session_manager, 'r, rojo_session_status list) owned_action" where
  "manager_list h [] m s = (Inr [], m, s)"
| "manager_list h (key # keys) m s =
     bindO (status_by_key h key) (\<lambda>st. bindO (manager_list h keys) (\<lambda>sts m' s'. (Inr (st # sts), m', s'))) m s"

definition list_sessions :: "'r child_host \<Rightarrow> (rojo_session_manager, 'r, rojo_session_status list) owned_action" where
  "list_sessions h m s = manager_list h (map fst (mg_sessions m)) m s"

primrec stop_each ::
  "'r child_host \<Rightarrow> rojo_session_key list \<Rightarrow> rojo_session_status list \<Rightarrow> integration_error option
     \<Rightarrow> (rojo_session_manager, 'r, rojo_session_status list) owned_action" where
  "stop_each h [] statuses first_error m s =
     (case first_error of Some e \<Rightarrow> Inl e | None \<Rightarrow> Inr (rev statuses), m, s)"
| "stop_each h (key # keys) statuses first_error m s =
     (case manager_stop h key m s of
        (Inr st, m', s') \<Rightarrow> stop_each h keys (st # statuses) first_error m' s'
      | (Inl e, m', s') \<Rightarrow>
          stop_each h keys statuses (case first_error of None \<Rightarrow> Some e | Some e0 \<Rightarrow> Some e0) m' s')"

definition stop_all :: "'r child_host \<Rightarrow> (rojo_session_manager, 'r, rojo_session_status list) owned_action" where
  "stop_all h m s = stop_each h (map fst (mg_sessions m)) [] None m s"

definition remove_inactive ::
  "'r child_host \<Rightarrow> rojo_session_key \<Rightarrow> (rojo_session_manager, 'r, bool) owned_action" where
  "remove_inactive h key m s =
     (case map_of (mg_sessions m) key of
        None \<Rightarrow> (Inr False, m, s)
      | Some _ \<Rightarrow>
          (case on_session (\<lambda>ms s. bindO (refresh_managed_session h) (\<lambda>st ms' s'.
                  (guardE (\<not> (sv_child (ms_supervisor ms') \<noteq> None \<or> ss_state st \<notin> {Exited, Stopped}))
                     (error_new ''GIT_ROJO_SESSION_ACTIVE''), ms', s')) ms s) key m s of
             (Inl e, m', s') \<Rightarrow> (Inl e, m', s')
           | (Inr _, m', s') \<Rightarrow> (Inr True, m'\<lparr>mg_sessions := btree_remove key (mg_sessions m')\<rparr>, s')))"

definition new_session ::
  "'r child_host \<Rightarrow> rojo_session_key \<Rightarrow> string \<Rightarrow> rojo_supervisor \<Rightarrow> nat \<Rightarrow> managed_rojo_session" where
  "new_session h key context_id v now =
     \<lparr>ms_key = key, ms_session_id = session_id (ch_rojo h) key, ms_context_id = context_id,
      ms_project_sha256 = sp_project_sha256 (sv_plan v), ms_rojo_version = vr_version (sp_rojo (sv_plan v)),
      ms_rojo_sha256 = vr_sha256 (sp_rojo (sv_plan v)), ms_started_at = now, ms_last_state = Starting,
      ms_last_exit = None, ms_supervisor = v\<rparr>"

definition start_existing ::
  "'r child_host \<Rightarrow> string \<Rightarrow> (managed_rojo_session, 'r, rojo_session_start_outcome) owned_action" where
  "start_existing h context_id =
     bindO (refresh_managed_session h) (\<lambda>st ms s.
       (if ms_context_id ms \<noteq> context_id then Inl (error_new ''GIT_ROJO_SESSION_CONFLICT'')
        else Inr \<lparr>so_created = False, so_status = st\<rparr>, ms, s))"

definition start_created ::
  "'r child_host \<Rightarrow> rojo_session_key \<Rightarrow> string \<Rightarrow> rojo_serve_plan
     \<Rightarrow> (rojo_session_manager, 'r, rojo_session_start_outcome) owned_action" where
  "start_created h key context_id plan m =
     bindO (liftO (select_port h m key)) (\<lambda>port.
     bindO (liftO (supervisor_start h (plan\<lparr>sp_port := port\<rparr>))) (\<lambda>v.
     bindO (\<lambda>m s. (Inr (), m\<lparr>mg_sessions := btree_put key (new_session h key context_id v (host_now h s)) (mg_sessions m)\<rparr>, s)) (\<lambda>_.
     bindO (status_by_key h key) (\<lambda>st m s. (Inr \<lparr>so_created = True, so_status = st\<rparr>, m, s))))) m"

definition manager_start ::
  "'r child_host \<Rightarrow> rojo_session_start_request
     \<Rightarrow> (rojo_session_manager, 'r, rojo_session_start_outcome) owned_action" where
  "manager_start h rq =
     bindO (liftO (session_key_create (ch_rojo h) (rr_workspace_root rq) (rr_place_key rq))) (\<lambda>key.
     bindO (liftO (verify_rojo (ch_rojo h) (rr_pin rq))) (\<lambda>rojo m s.
     let provisional_port = (case map_of (mg_sessions m) key of
           None \<Rightarrow> pr_start (mg_port_range m) | Some ms \<Rightarrow> sp_port (sv_plan (ms_supervisor ms)))
     in bindO (liftO (serve_plan_create (ch_rojo h) rojo (fst key) (rr_project_relative rq) provisional_port
                (rr_max_restarts rq) (rr_log_limit_bytes rq))) (\<lambda>plan m s.
          let context_id = session_context_id (ch_rojo h) key plan
          in if map_of (mg_sessions m) key \<noteq> None then on_session (start_existing h context_id) key m s
             else start_created h key context_id plan m s) m s))"

end
