(* ===== verification/RojoGuarantees.thy ===== *)
theory RojoGuarantees
  imports RojoSessions GitTrust
begin

text \<open>
  What the Rojo sessions guarantee: one session per workspace and place, on distinct ports of the
  configured range and within its restart budget, an executable that runs only when its digest is
  the pinned one; and the cases in which a server is lost or a free port is not found.
\<close>

named_theorems keeps_intros \<open>relations an owned operation keeps\<close>

section \<open>What an operation keeps of the value it owns\<close>

definition keeps :: "('v \<Rightarrow> 'v \<Rightarrow> bool) \<Rightarrow> ('v, 'r, 'a) owned_action \<Rightarrow> bool" where
  "keeps R f \<longleftrightarrow> (\<forall>v s. R v (fst (snd (f v s))))"

lemma keepsD: "keeps R f \<Longrightarrow> f v s = (r, v', s') \<Longrightarrow> R v v'"
  unfolding keeps_def by (metis fst_conv snd_conv)

lemma keepsI: "(\<And>v s r v' s'. f v s = (r, v', s') \<Longrightarrow> R v v') \<Longrightarrow> keeps R f"
  unfolding keeps_def by (metis prod.collapse)

lemma bindO_cases:
  assumes "bindO m f v s = (r, v', s')"
  shows "(\<exists>e. m v s = (Inl e, v', s') \<and> r = Inl e)
    \<or> (\<exists>x v1 s1. m v s = (Inr x, v1, s1) \<and> f x v1 s1 = (r, v', s'))"
  using assms by (auto simp: bindO_def split: prod.splits sum.splits)

lemma bindO_simps [simp]:
  "m v s = (Inl e, v', s') \<Longrightarrow> bindO m f v s = (Inl e, v', s')"
  "m v s = (Inr x, v', s') \<Longrightarrow> bindO m f v s = f x v' s'"
  by (simp_all add: bindO_def)

lemma keeps_bindO_at:
  assumes "transp R" and "\<And>w. keeps R (m w)" and "\<And>w x. keeps R (f w x)"
  shows "keeps R (\<lambda>w. bindO (m w) (f w) w)"
proof (rule keepsI)
  fix v s r v' s'
  assume "bindO (m v) (f v) v s = (r, v', s')"
  from bindO_cases [OF this] show "R v v'"
    using assms(2,3) [THEN keepsD] transpD [OF assms(1)] by blast
qed

lemma keeps_bindO: "transp R \<Longrightarrow> keeps R m \<Longrightarrow> (\<And>x. keeps R (f x)) \<Longrightarrow> keeps R (bindO m f)"
  using keeps_bindO_at [of R "\<lambda>_. m" "\<lambda>_. f"] by simp

lemma keeps_liftO: "reflp R \<Longrightarrow> keeps R (liftO a)"
  by (auto simp: keeps_def liftO_def reflp_def split: prod.split)

section \<open>Supervisors and sessions\<close>

definition same_plan :: "rojo_supervisor \<Rightarrow> rojo_supervisor \<Rightarrow> bool" where
  "same_plan v v' \<longleftrightarrow> sv_plan v' = sv_plan v
     \<and> (sv_restarts v' \<noteq> sv_restarts v \<longrightarrow> sv_restarts v' \<le> sp_max_restarts (sv_plan v))"

definition same_session :: "managed_rojo_session \<Rightarrow> managed_rojo_session \<Rightarrow> bool" where
  "same_session ms ms' \<longleftrightarrow> ms_key ms' = ms_key ms \<and> ms_context_id ms' = ms_context_id ms
     \<and> same_plan (ms_supervisor ms) (ms_supervisor ms')"

lemma same_plan_order: "reflp same_plan" "transp same_plan"
  by (auto simp: reflp_def transp_def same_plan_def)

lemma same_session_order: "reflp same_session" "transp same_session"
  using same_plan_order by (auto simp: reflp_def transp_def same_session_def)

lemma spawn_child_keeps: "spawn_child h v s = (r, v', s') \<Longrightarrow> sv_plan v' = sv_plan v \<and> sv_restarts v' = sv_restarts v"
  by (auto simp: spawn_child_def split: prod.splits sum.splits option.splits if_splits)

lemma poll_child_keeps: "poll_child h v s = (r, v', s') \<Longrightarrow> sv_plan v' = sv_plan v \<and> sv_restarts v' = sv_restarts v"
  by (auto simp: poll_child_def split: prod.splits option.splits)

lemma snapshot_keeps: "snapshot h v s = (r, v', s') \<Longrightarrow> sv_plan v' = sv_plan v \<and> sv_restarts v' = sv_restarts v"
  by (auto simp: snapshot_def split: prod.splits dest: poll_child_keeps)

lemma supervisor_keeps:
  "keeps same_plan (snapshot h)" "keeps same_plan (supervisor_restart h)" "keeps same_plan (supervisor_stop h)"
proof -
  show "keeps same_plan (snapshot h)"
    by (rule keepsI) (auto simp: same_plan_def dest: snapshot_keeps)
  show "keeps same_plan (supervisor_restart h)"
    by (rule keepsI) (auto simp: same_plan_def supervisor_restart_def split: if_splits dest: spawn_child_keeps)
  show "keeps same_plan (supervisor_stop h)"
    by (rule keepsI)
       (auto simp: same_plan_def supervisor_stop_def split: option.splits prod.splits sum.splits dest: snapshot_keeps)
qed

lemma supervise_keeps [keeps_intros]: "keeps same_plan f \<Longrightarrow> keeps same_session (supervise f)"
  unfolding supervise_def by (auto simp: keeps_def same_session_def split: prod.split) (metis fst_conv snd_conv)

lemma refresh_keeps [keeps_intros]: "keeps same_session (refresh_managed_session h)"
  unfolding refresh_managed_session_def
proof (intro keeps_bindO same_session_order keeps_intros supervisor_keeps)
  have "same_session ms (observed ms sn now)" for ms sn now
    using same_plan_order(1) by (simp add: same_session_def observed_def reflp_def)
  then show "keeps same_session (\<lambda>ms s. let ms' = observed ms sn (host_now h s)
      in (managed_status ms' sn (host_now h s), ms', s))" for sn
    by (simp add: keeps_def Let_def)
qed

lemma stop_session_keeps [keeps_intros]: "keeps same_session (stop_session h)"
  unfolding stop_session_def
proof (intro keeps_bindO keeps_bindO_at same_session_order keeps_intros supervisor_keeps)
  have "same_session ms (stopped_session ms had before sn now)" for ms had before sn now
    using same_plan_order(1) by (simp add: same_session_def stopped_session_def reflp_def)
  then show "keeps same_session (\<lambda>ms s. let ms' = stopped_session ms (sv_child (ms_supervisor ms0) \<noteq> None) before sn (host_now h s)
      in (managed_status ms' sn (host_now h s), ms', s))" for ms0 before sn
    by (simp add: keeps_def Let_def)
qed

lemma end_before_restart_keeps [keeps_intros]: "keeps same_session (end_before_restart h before)"
proof -
  have "keeps same_session (bindO (supervise (supervisor_stop h)) (\<lambda>sn ms1 s1.
     (Inr (), ms1\<lparr>ms_last_exit := Some (exit_report RequestedRestart (sn_exit_code sn) (host_now h s1))\<rparr>, s1)))"
    by (intro keeps_bindO same_session_order keeps_intros supervisor_keeps)
       (use same_plan_order(1) in \<open>simp add: keeps_def same_session_def reflp_def\<close>)
  then show ?thesis
    using same_plan_order(1) unfolding keeps_def end_before_restart_def
    by (simp add: same_session_def reflp_def)
qed

lemma restart_session_keeps [keeps_intros]: "keeps same_session (restart_session h)"
  unfolding restart_session_def
  by (intro keeps_bindO same_session_order keeps_intros supervisor_keeps)
     (use same_plan_order(1) in \<open>simp add: keeps_def same_session_def reflp_def\<close>)

lemma start_existing_keeps [keeps_intros]: "keeps same_session (start_existing h context_id)"
  unfolding start_existing_def
  by (intro keeps_bindO same_session_order keeps_intros)
     (use same_session_order(1) in \<open>simp add: keeps_def reflp_def\<close>)

section \<open>Ports\<close>

lemma try_ports_Inr:
  "try_ports h reserved ports s = (Inr port, s') \<Longrightarrow> port \<in> set ports \<and> port \<notin> set reserved
    \<and> (\<exists>r r'. ch_bind h port r = (True, r'))"
  by (induction h reserved ports s rule: try_ports.induct)
     (auto simp: ask_def split: if_splits prod.splits bool.splits)

lemma try_ports_none:
  assumes "\<And>port r. port \<in> set ports \<Longrightarrow> port \<notin> set reserved \<Longrightarrow> \<not> fst (ch_bind h port r)"
  shows "fst (try_ports h reserved ports s) = Inl (error_new ''GIT_ROJO_PORT_UNAVAILABLE'')"
  using assms
proof (induction ports arbitrary: s)
  case (Cons port ports)
  show ?case
  proof (cases "port \<in> set reserved")
    case False
    obtain b r' where b: "ch_bind h port (fst s) = (b, r')" by (cases "ch_bind h port (fst s)")
    with Cons.prems [of port "fst s"] False have "\<not> b" by simp
    with Cons b False show ?thesis by (simp add: ask_def)
  qed (use Cons in simp)
qed simp

lemma try_ports_found:
  assumes "port \<in> set ports" and "port \<notin> set reserved" and "\<And>r. fst (ch_bind h port r)"
  shows "\<exists>found. fst (try_ports h reserved ports s) = Inr found"
  using assms(1)
proof (induction ports arbitrary: s)
  case (Cons p ports)
  show ?case
  proof (cases "p = port")
    case True
    obtain b r' where b: "ch_bind h port (fst s) = (b, r')" by (cases "ch_bind h port (fst s)")
    with assms(3) [of "fst s"] have b by simp
    with True b assms(2) show ?thesis by (simp add: ask_def)
  next
    case False
    with Cons.prems have "port \<in> set ports" by simp
    from Cons.IH [OF this] have ih: "\<exists>found. fst (try_ports h reserved ports s') = Inr found" for s' .
    obtain b r' where b: "ch_bind h p (fst s) = (b, r')" by (cases "ch_bind h p (fst s)")
    with ih show ?thesis by (cases b) (simp_all add: ask_def)
  qed
qed simp

definition range_ok :: "rojo_port_range \<Rightarrow> bool" where
  "range_ok rng \<longleftrightarrow> 1024 \<le> pr_start rng \<and> pr_start rng \<le> pr_end rng \<and> pr_end rng < 2 ^ 16"

lemma candidate_in_range:
  assumes "range_ok rng" and "port \<in> set (candidate_ports rng seed)"
  shows "pr_start rng \<le> port \<and> port \<le> pr_end rng"
proof -
  from assms(2) obtain step where port: "port = pr_start rng + port_offset seed (port_range_len rng) step"
    by (auto simp: candidate_ports_def)
  have "port_offset seed (port_range_len rng) step < port_range_len rng"
    unfolding port_offset_def by (rule mod_less_divisor) (simp add: port_range_len_def)
  with assms(1) port show ?thesis unfolding range_ok_def port_range_len_def by linarith
qed

text \<open>Without the wrap the steps run through all offsets.\<close>

lemma all_ports_tried:
  assumes "range_ok rng" and "seed + port_range_len rng \<le> 2 ^ 32"
    and "pr_start rng \<le> port" "port \<le> pr_end rng"
  shows "port \<in> set (candidate_ports rng seed)"
proof -
  let ?n = "port_range_len rng" and ?o = "port - pr_start rng"
  have n: "0 < ?n" and o1: "?o < ?n" using assms(1,3,4) by (auto simp: port_range_len_def)
  define step where "step = (?n + ?o - seed mod ?n) mod ?n"
  have step: "step < ?n" using n by (simp add: step_def)
  have "(seed + step) mod ?n = (seed mod ?n + (?n + ?o - seed mod ?n)) mod ?n"
    unfolding step_def by presburger
  also have "seed mod ?n + (?n + ?o - seed mod ?n) = ?n + ?o"
    using n mod_less_divisor [of ?n seed] by linarith
  finally have "(seed + step) mod ?n = ?o" using o1 by simp
  moreover have "(seed + step) mod 2 ^ 32 = seed + step" using step assms(2) by simp
  ultimately have "pr_start rng + port_offset seed ?n step = port"
    using assms(3) by (simp add: port_offset_def)
  with step show ?thesis by (force simp: candidate_ports_def)
qed

section \<open>The manager's invariant\<close>

definition session_entry_ok :: "rojo_port_range \<Rightarrow> rojo_session_key \<times> managed_rojo_session \<Rightarrow> bool" where
  "session_entry_ok rng e \<longleftrightarrow>
     ms_key (snd e) = fst e
     \<and> pr_start rng \<le> sp_port (sv_plan (ms_supervisor (snd e))) \<and> sp_port (sv_plan (ms_supervisor (snd e))) \<le> pr_end rng
     \<and> sv_restarts (ms_supervisor (snd e)) \<le> sp_max_restarts (sv_plan (ms_supervisor (snd e)))"

definition manager_ok :: "rojo_session_manager \<Rightarrow> bool" where
  "manager_ok m \<longleftrightarrow> range_ok (mg_port_range m) \<and> btree_ordered (mg_sessions m)
     \<and> distinct (reserved_ports m) \<and> list_all (session_entry_ok (mg_port_range m)) (mg_sessions m)"

lemma same_session_entry:
  "same_session ms ms' \<Longrightarrow> session_entry_ok rng (k, ms) \<Longrightarrow> session_entry_ok rng (k, ms')"
  by (auto simp: same_session_def same_plan_def session_entry_ok_def)

lemma btree_put_present:
  assumes "btree_ordered es" and "map_of es k = Some v"
  shows "btree_put k v' es = map (\<lambda>e. if fst e = k then (k, v') else e) es"
  using assms
proof (induction es)
  case (Cons e es)
  obtain a x where e: "e = (a, x)" by (cases e)
  show ?case
  proof (cases "k = a")
    case True
    with Cons.prems(1) have "\<forall>y \<in> set es. fst y \<noteq> k" by (auto simp: e)
    then have "map (\<lambda>e. if fst e = k then (k, v') else e) es = es" by (intro map_idI) auto
    with True show ?thesis by (simp add: e)
  next
    case False
    with Cons.prems(2) have "(k, v) \<in> set es" by (simp add: e map_of_SomeD)
    with Cons.prems(1) have "a < k" by (auto simp: e)
    with False Cons show ?thesis by (simp add: e)
  qed
qed simp

lemma on_session_ok:
  assumes "keeps same_session f" and "manager_ok m" and "on_session f key m s = (r, m', s')"
  shows "manager_ok m'"
proof (cases "map_of (mg_sessions m) key")
  case None
  with assms(2,3) show ?thesis by (simp add: on_session_def)
next
  case (Some ms)
  with assms(3) obtain ms' where f: "f ms s = (r, ms', s')"
    and m': "m' = m\<lparr>mg_sessions := btree_put key ms' (mg_sessions m)\<rparr>"
    by (auto simp: on_session_def split: prod.splits)
  from keepsD [OF assms(1) f] have same: "same_session ms ms'" .
  from assms(2) have ordered: "btree_ordered (mg_sessions m)" by (simp add: manager_ok_def)
  have only: "x = ms" if "(key, x) \<in> set (mg_sessions m)" for x
    using that Some btree_ordered_distinct [OF ordered] by (metis map_of_is_SomeI option.inject)
  have put: "btree_put key ms' (mg_sessions m) = map (\<lambda>e. if fst e = key then (key, ms') else e) (mg_sessions m)"
    by (rule btree_put_present [OF ordered Some])
  have "reserved_ports m' = reserved_ports m"
    using only same by (auto simp: reserved_ports_def m' put same_session_def same_plan_def)
  moreover have "session_entry_ok (mg_port_range m) (key, ms)"
    using assms(2) map_of_SomeD [OF Some] by (simp add: manager_ok_def list_all_iff)
  ultimately show ?thesis
    using assms(2) btree_put_sorted [OF ordered] same_session_entry [OF same]
    by (auto simp: manager_ok_def m' list_all_iff btree_put_entries [OF ordered])
qed

lemma btree_put_absent:
  "k \<notin> set (map fst es) \<Longrightarrow> \<exists>as bs. es = as @ bs \<and> btree_put k v es = as @ (k, v) # bs"
proof (induction es)
  case (Cons e es)
  obtain a x where e: "e = (a, x)" by (cases e)
  show ?case
  proof (cases "k < a")
    case True
    then show ?thesis by (intro exI [of _ "[]"] exI [of _ "e # es"]) (simp add: e)
  next
    case False
    from Cons obtain as bs where "es = as @ bs" "btree_put k v es = as @ (k, v) # bs" by auto
    with False Cons.prems show ?thesis by (intro exI [of _ "e # as"] exI [of _ bs]) (auto simp: e)
  qed
qed simp

lemma manager_insert_ok:
  assumes ok: "manager_ok m" and "map_of (mg_sessions m) key = None"
    and entry: "session_entry_ok (mg_port_range m) (key, ms)"
    and port: "sp_port (sv_plan (ms_supervisor ms)) \<notin> set (reserved_ports m)"
  shows "manager_ok (m\<lparr>mg_sessions := btree_put key ms (mg_sessions m)\<rparr>)"
proof -
  from assms(2) have "key \<notin> set (map fst (mg_sessions m))" by (simp add: map_of_eq_None_iff)
  from btree_put_absent [OF this, of ms] obtain as bs
    where es: "mg_sessions m = as @ bs" "btree_put key ms (mg_sessions m) = as @ (key, ms) # bs" by blast
  have "btree_ordered (btree_put key ms (mg_sessions m))"
    using ok by (intro btree_put_sorted) (simp add: manager_ok_def)
  with es ok entry port show ?thesis
    by (auto simp: manager_ok_def reserved_ports_def)
qed

lemma supervisor_start_Inr:
  "supervisor_start h plan s = (Inr v, s') \<Longrightarrow> sv_plan v = plan \<and> sv_restarts v = 0"
  by (auto simp: supervisor_start_def Let_def split: prod.splits sum.splits dest: spawn_child_keeps)

definition ok_kept :: "rojo_session_manager \<Rightarrow> rojo_session_manager \<Rightarrow> bool" where
  "ok_kept m m' \<longleftrightarrow> mg_port_range m' = mg_port_range m \<and> (manager_ok m \<longrightarrow> manager_ok m')"

lemma ok_kept_order: "reflp ok_kept" "transp ok_kept"
  by (auto simp: reflp_def transp_def ok_kept_def)

lemma on_session_keeps [keeps_intros]: "keeps same_session f \<Longrightarrow> keeps ok_kept (on_session f key)"
proof (rule keepsI)
  fix m s r m' s'
  assume f: "keeps same_session f" and run: "on_session f key m s = (r, m', s')"
  then have "mg_port_range m' = mg_port_range m"
    by (auto simp: on_session_def split: option.splits prod.splits)
  with on_session_ok [OF f _ run] show "ok_kept m m'" by (simp add: ok_kept_def)
qed

lemma status_by_key_keeps [keeps_intros]: "keeps ok_kept (status_by_key h key)"
  unfolding status_by_key_def by (intro keeps_intros)

lemma manager_ops_keep [keeps_intros]:
  "keeps ok_kept (manager_status h workspace place_key)"
  "keeps ok_kept (manager_stop h key)"
  "keeps ok_kept (manager_restart h key)"
  unfolding manager_status_def manager_stop_def manager_restart_def
  by (intro keeps_intros keeps_bindO ok_kept_order keeps_liftO)+

lemma liftO_eq: "liftO a m s = (r, m', s') \<longleftrightarrow> m' = m \<and> a s = (r, s')"
  by (auto simp: liftO_def split: prod.split)

lemma select_port_Inr:
  assumes "select_port h m key s = (Inr port, s')" and "range_ok (mg_port_range m)"
  shows "pr_start (mg_port_range m) \<le> port \<and> port \<le> pr_end (mg_port_range m)
    \<and> port \<notin> set (reserved_ports m) \<and> (\<exists>r r'. ch_bind h port r = (True, r'))"
  using try_ports_Inr [OF assms(1) [unfolded select_port_def]] candidate_in_range [OF assms(2)] by blast

lemma start_created_ok:
  assumes ok: "manager_ok m" and new: "map_of (mg_sessions m) key = None"
    and start: "start_created h key context_id plan m s = (r, m', s')"
  shows "ok_kept m m'"
proof -
  have range: "range_ok (mg_port_range m)" using ok by (simp add: manager_ok_def)
  show ?thesis
    using bindO_cases [OF start [unfolded start_created_def]]
  proof (elim disjE exE conjE)
    fix port m1 s1
    assume "liftO (select_port h m key) m s = (Inr port, m1, s1)"
      and rest: "bindO (liftO (supervisor_start h (plan\<lparr>sp_port := port\<rparr>))) (\<lambda>v.
         bindO (\<lambda>m s. (Inr (), m\<lparr>mg_sessions := btree_put key (new_session h key context_id v (host_now h s)) (mg_sessions m)\<rparr>, s)) (\<lambda>_.
         bindO (status_by_key h key) (\<lambda>st m s. (Inr \<lparr>so_created = True, so_status = st\<rparr>, m, s)))) m1 s1 = (r, m', s')"
    then have m1: "m1 = m" and port: "select_port h m key s = (Inr port, s1)" by (simp_all add: liftO_eq)
    note port = select_port_Inr [OF port range]
    from bindO_cases [OF rest] show ?thesis
    proof (elim disjE exE conjE)
      fix v m2 s2
      assume "liftO (supervisor_start h (plan\<lparr>sp_port := port\<rparr>)) m1 s1 = (Inr v, m2, s2)"
        and finish: "bindO (\<lambda>m s. (Inr (), m\<lparr>mg_sessions := btree_put key (new_session h key context_id v (host_now h s)) (mg_sessions m)\<rparr>, s)) (\<lambda>_.
         bindO (status_by_key h key) (\<lambda>st m s. (Inr \<lparr>so_created = True, so_status = st\<rparr>, m, s))) m2 s2 = (r, m', s')"
      then have m2: "m2 = m" and v: "sv_plan v = plan\<lparr>sp_port := port\<rparr>" "sv_restarts v = 0"
        by (auto simp: liftO_eq m1 dest: supervisor_start_Inr)
      let ?ms = "new_session h key context_id v (host_now h s2)"
      let ?m = "m\<lparr>mg_sessions := btree_put key ?ms (mg_sessions m)\<rparr>"
      have "manager_ok ?m"
        using port v by (intro manager_insert_ok ok new) (simp_all add: session_entry_ok_def new_session_def)
      moreover have "keeps ok_kept (bindO (status_by_key h key) (\<lambda>st m s. (Inr \<lparr>so_created = True, so_status = st\<rparr>, m, s)))"
        by (intro keeps_bindO keeps_intros ok_kept_order) (simp add: keeps_def ok_kept_def)
      ultimately show ?thesis
        using finish keepsD [of ok_kept _ ?m s2 r m' s'] by (simp add: bindO_def [of "\<lambda>m s. (Inr (), _ m s, s)"] m2 ok_kept_def)
    qed (use m1 ok_kept_order(1) in \<open>simp add: liftO_eq reflp_def\<close>)
  qed (use ok_kept_order(1) in \<open>simp add: liftO_eq reflp_def\<close>)
qed

lemma start_created_range:
  assumes "start_created h key context_id plan m s = (r, m', s')"
  shows "mg_port_range m' = mg_port_range m"
proof -
  have "status_by_key h key m1 s1 = (q, m2, s2) \<Longrightarrow> mg_port_range m2 = mg_port_range m1" for m1 s1 q m2 s2
    by (auto simp: status_by_key_def on_session_def split: option.splits prod.splits)
  with assms show ?thesis
    by (auto simp: start_created_def bindO_def liftO_def split: prod.splits sum.splits)
qed

lemma manager_start_keeps [keeps_intros]: "keeps ok_kept (manager_start h rq)"
proof -
  have "keeps ok_kept (\<lambda>m s. let context_id = session_context_id (ch_rojo h) key plan
      in if map_of (mg_sessions m) key \<noteq> None then on_session (start_existing h context_id) key m s
         else start_created h key context_id plan m s)" for key plan
  proof (rule keepsI)
    fix m s r m' s'
    assume run: "(let context_id = session_context_id (ch_rojo h) key plan
      in if map_of (mg_sessions m) key \<noteq> None then on_session (start_existing h context_id) key m s
         else start_created h key context_id plan m s) = (r, m', s')"
    show "ok_kept m m'"
    proof (cases "map_of (mg_sessions m) key = None")
      case True
      with run have start: "start_created h key (session_context_id (ch_rojo h) key plan) plan m s = (r, m', s')"
        by (simp add: Let_def)
      show ?thesis using start_created_ok [OF _ True start] start_created_range [OF start] by (auto simp: ok_kept_def)
    next
      case False
      with run have "on_session (start_existing h (session_context_id (ch_rojo h) key plan)) key m s = (r, m', s')"
        by (simp add: Let_def)
      from keepsD [OF on_session_keeps [OF start_existing_keeps] this] show ?thesis .
    qed
  qed
  then show ?thesis
    unfolding manager_start_def Let_def
    by (intro keeps_bindO keeps_bindO_at keeps_intros ok_kept_order keeps_liftO) (simp_all add: Let_def)
qed

lemma manager_list_keeps: "keeps ok_kept (manager_list h keys)"
proof (induction keys)
  case Nil
  show ?case using ok_kept_order(1) by (simp add: keeps_def reflp_def)
next
  case (Cons key keys)
  have "keeps ok_kept (bindO (status_by_key h key) (\<lambda>st. bindO (manager_list h keys) (\<lambda>sts m' s'. (Inr (st # sts), m', s'))))"
    by (intro keeps_bindO keeps_intros ok_kept_order Cons) (use ok_kept_order(1) in \<open>simp add: keeps_def reflp_def\<close>)
  then show ?case by (simp add: keeps_def)
qed

lemma stop_each_keeps: "keeps ok_kept (stop_each h keys statuses first_error)"
proof (induction keys arbitrary: statuses first_error)
  case Nil
  show ?case using ok_kept_order(1) by (simp add: keeps_def reflp_def)
next
  case (Cons key keys)
  show ?case
  proof (rule keepsI)
    fix m s r m' s'
    assume run: "stop_each h (key # keys) statuses first_error m s = (r, m', s')"
    obtain q m1 s1 where stop: "manager_stop h key m s = (q, m1, s1)" by (cases "manager_stop h key m s")
    then have "ok_kept m m1" by (rule keepsD [OF manager_ops_keep(2)])
    moreover have "ok_kept m1 m'"
      using run stop Cons [THEN keepsD] by (cases q) auto
    ultimately show "ok_kept m m'" using ok_kept_order(2) by (auto dest: transpD)
  qed
qed

lemma manager_remove_ok: "manager_ok m \<Longrightarrow> manager_ok (m\<lparr>mg_sessions := btree_remove key (mg_sessions m)\<rparr>)"
  using btree_remove_ordered [of "mg_sessions m" key]
  by (auto simp: manager_ok_def list_all_iff reserved_ports_def btree_remove_def distinct_map inj_on_def)

lemma remove_inactive_keeps: "keeps ok_kept (remove_inactive h key)"
proof (rule keepsI)
  fix m s r m' s'
  assume run: "remove_inactive h key m s = (r, m', s')"
  let ?f = "\<lambda>ms s. bindO (refresh_managed_session h) (\<lambda>st ms' s'.
      (guardE (\<not> (sv_child (ms_supervisor ms') \<noteq> None \<or> ss_state st \<notin> {Exited, Stopped}))
         (error_new ''GIT_ROJO_SESSION_ACTIVE''), ms', s')) ms s"
  obtain q m1 s1 where f: "on_session ?f key m s = (q, m1, s1)" by (cases "on_session ?f key m s")
  have "keeps same_session ?f"
    by (intro keeps_bindO same_session_order keeps_intros) (use same_session_order(1) in \<open>simp add: keeps_def reflp_def\<close>)
  from keepsD [OF on_session_keeps [OF this] f] have m1: "ok_kept m m1" .
  show "ok_kept m m'"
  proof (cases "map_of (mg_sessions m) key")
    case None
    with run ok_kept_order(1) show ?thesis by (simp add: remove_inactive_def reflp_def)
  next
    case (Some ms)
    with run f have "m' = m1 \<or> m' = m1\<lparr>mg_sessions := btree_remove key (mg_sessions m1)\<rparr>"
      by (cases q) (auto simp: remove_inactive_def)
    with m1 manager_remove_ok [of m1 key] show ?thesis by (auto simp: ok_kept_def)
  qed
qed

section \<open>Reachable managers\<close>

datatype rojo_call =
    StartSession rojo_session_start_request
  | SessionStatus string string
  | ListSessions
  | StopSession rojo_session_key
  | RestartSession rojo_session_key
  | StopAll
  | RemoveSession rojo_session_key

definition after_call :: "'r child_host \<Rightarrow> rojo_call \<Rightarrow> rojo_session_manager \<Rightarrow> 'r git_state \<Rightarrow> rojo_session_manager" where
  "after_call h call m s =
     (case call of
        StartSession rq \<Rightarrow> fst (snd (manager_start h rq m s))
      | SessionStatus workspace place_key \<Rightarrow> fst (snd (manager_status h workspace place_key m s))
      | ListSessions \<Rightarrow> fst (snd (list_sessions h m s))
      | StopSession key \<Rightarrow> fst (snd (manager_stop h key m s))
      | RestartSession key \<Rightarrow> fst (snd (manager_restart h key m s))
      | StopAll \<Rightarrow> fst (snd (stop_all h m s))
      | RemoveSession key \<Rightarrow> fst (snd (remove_inactive h key m s)))"

text \<open>Between two calls the world is free to change.\<close>

inductive reachable_manager :: "'r child_host \<Rightarrow> rojo_port_range \<Rightarrow> rojo_session_manager \<Rightarrow> bool"
  for h rng where
  new: "reachable_manager h rng (manager_new rng)"
| call: "reachable_manager h rng m \<Longrightarrow> reachable_manager h rng (after_call h call m s)"

lemma manager_new_ok: "port_range_create first last_port = Inr rng \<Longrightarrow> last_port < 2 ^ 16 \<Longrightarrow> manager_ok (manager_new rng)"
  by (auto simp: manager_ok_def manager_new_def range_ok_def reserved_ports_def port_range_create_def split: if_splits)

lemma keeps_after: "keeps R f \<Longrightarrow> R v (fst (snd (f v s)))"
  unfolding keeps_def by blast

lemma after_call_keeps: "ok_kept m (after_call h call m s)"
proof (cases call)
  case (StartSession rq)
  then show ?thesis using keeps_after [OF manager_start_keeps] by (simp add: after_call_def)
next
  case (SessionStatus workspace place_key)
  then show ?thesis using keeps_after [OF manager_ops_keep(1)] by (simp add: after_call_def)
next
  case ListSessions
  then show ?thesis using keeps_after [OF manager_list_keeps] by (simp add: after_call_def list_sessions_def)
next
  case (StopSession key)
  then show ?thesis using keeps_after [OF manager_ops_keep(2)] by (simp add: after_call_def)
next
  case (RestartSession key)
  then show ?thesis using keeps_after [OF manager_ops_keep(3)] by (simp add: after_call_def)
next
  case StopAll
  then show ?thesis using keeps_after [OF stop_each_keeps] by (simp add: after_call_def stop_all_def)
next
  case (RemoveSession key)
  then show ?thesis using keeps_after [OF remove_inactive_keeps] by (simp add: after_call_def)
qed

lemma reachable_ok:
  assumes "reachable_manager h rng m" and "manager_ok (manager_new rng)"
  shows "manager_ok m \<and> mg_port_range m = rng"
  using assms(1)
proof induction
  case new
  show ?case using assms(2) by (simp add: manager_new_def)
next
  case (call m c s)
  with after_call_keeps [of m h c s] show ?case by (simp add: ok_kept_def)
qed

text \<open>C35: Whatever calls the manager has served, and whatever the operating system answered and did
  in between, it keeps one session per workspace and place, in key order, on ports of the
  validated range that no two sessions share, and no session has used more restarts than its
  plan allows.\<close>

theorem rojo_manager_invariant:
  assumes "port_range_create first last_port = Inr rng" and "last_port < 2 ^ 16"
    and "reachable_manager h rng m"
  shows "btree_ordered (mg_sessions m) \<and> distinct (reserved_ports m)
    \<and> list_all (\<lambda>port. 1024 \<le> port \<and> first \<le> port \<and> port \<le> last_port) (reserved_ports m)
    \<and> list_all (\<lambda>e. ms_key (snd e) = fst e
         \<and> sv_restarts (ms_supervisor (snd e)) \<le> sp_max_restarts (sv_plan (ms_supervisor (snd e)))) (mg_sessions m)"
proof -
  from reachable_ok [OF assms(3) manager_new_ok [OF assms(1,2)]]
  have ok: "manager_ok m" "mg_port_range m = rng" by simp_all
  from assms(1) have "pr_start rng = first" "pr_end rng = last_port" "1024 \<le> first"
    by (auto simp: port_range_create_def split: if_splits)
  with ok show ?thesis by (auto simp: manager_ok_def list_all_iff session_entry_ok_def reserved_ports_def)
qed

section \<open>Free ports\<close>

text \<open>As long as the seed does not come within the range's length of \<open>2 ^ 32\<close>, the selection finds
  a port whenever one of the range is neither reserved nor taken.\<close>

theorem free_port_found:
  assumes "range_ok (mg_port_range m)" and "port_seed (ch_rojo h) key + port_range_len (mg_port_range m) \<le> 2 ^ 32"
    and "pr_start (mg_port_range m) \<le> port" "port \<le> pr_end (mg_port_range m)"
    and "port \<notin> set (reserved_ports m)" and "\<And>r. fst (ch_bind h port r)"
  shows "\<exists>found. fst (select_port h m key s) = Inr found"
  unfolding select_port_def by (rule try_ports_found [OF all_ports_tried [OF assms(1-4)] assms(5,6)])

lemma skipped_offset: "step < 100 \<Longrightarrow> port_offset (2 ^ 32 - 1) 100 step \<noteq> 99"
proof (cases step)
  case 0
  then show ?thesis by (simp add: port_offset_def)
next
  case (Suc k)
  assume "step < 100"
  have "(2 ^ 32 - 1 + step) mod 2 ^ 32 = (2 ^ 32 + k) mod 2 ^ 32" by (simp add: Suc)
  also have "\<dots> = k" using \<open>step < 100\<close> by (simp add: Suc)
  finally show ?thesis using \<open>step < 100\<close> by (simp add: port_offset_def Suc)
qed

text \<open>At the wrap of the seed the steps repeat offsets: with the default range and the seed
  \<open>2 ^ 32 - 1\<close> the last port is never tried, so a session is refused although that port is free.\<close>

theorem wrapped_seed_skips_free_port:
  assumes "mg_port_range m = default_port_range" and "port_seed (ch_rojo h) key = 2 ^ 32 - 1"
    and "\<And>port r. port \<noteq> 34971 \<Longrightarrow> \<not> fst (ch_bind h port r)"
  shows "fst (select_port h m key s) = Inl (error_new ''GIT_ROJO_PORT_UNAVAILABLE'')"
  unfolding select_port_def
proof (rule try_ports_none)
  fix port r
  assume "port \<in> set (candidate_ports (mg_port_range m) (port_seed (ch_rojo h) key))"
  then obtain step where "step < 100" "port = 34872 + port_offset (2 ^ 32 - 1) 100 step"
    by (auto simp: candidate_ports_def assms(1,2) default_port_range_def port_range_len_def)
  with skipped_offset have "port \<noteq> 34971" by simp
  with assms(3) show "\<not> fst (ch_bind h port r)" by simp
qed

section \<open>Losing a server\<close>

text \<open>A child that keeps running until it is killed.\<close>

definition running_child :: "'r child_host \<Rightarrow> nat \<Rightarrow> bool" where
  "running_child h pid \<longleftrightarrow> (\<forall>r. fst (ch_try_wait h pid r) = Some None)"

lemma running_ask: "running_child h pid \<Longrightarrow> \<exists>s'. ask (ch_try_wait h pid) s = (Some None, s')"
  by (cases "ch_try_wait h pid (fst s)") (auto simp: running_child_def ask_def, metis fst_conv)

lemma running_snapshot:
  assumes "running_child h pid" and "sv_child v = Some pid"
  shows "\<exists>sn s'. snapshot h v s = (Inr sn, v, s') \<and> sn_state sn \<in> {Healthy, Starting} \<and> sn_port sn = sp_port (sv_plan v)"
proof -
  from running_ask [OF assms(1)] obtain s1 where s1: "ask (ch_try_wait h pid) s = (Some None, s1)" by blast
  obtain b s2 where s2: "ask (ch_connect h (sp_port (sv_plan v))) s1 = (b, s2)"
    by (cases "ask (ch_connect h (sp_port (sv_plan v))) s1")
  show ?thesis
    using assms(2) s1 s2 by (simp add: snapshot_def poll_child_def snapshot_of_def Let_def split: prod.split)
qed

lemma running_refresh:
  assumes "running_child h pid" and "sv_child (ms_supervisor ms) = Some pid"
  shows "\<exists>st ms' s'. refresh_managed_session h ms s = (Inr st, ms', s') \<and> ms_supervisor ms' = ms_supervisor ms"
proof -
  from running_snapshot [OF assms] obtain sn s'
    where sn: "snapshot h (ms_supervisor ms) s = (Inr sn, ms_supervisor ms, s')"
      and sn_facts: "sn_state sn \<in> {Healthy, Starting}" "sn_port sn = sp_port (sv_plan (ms_supervisor ms))"
    by blast
  have "supervise (snapshot h) ms s = (Inr sn, ms\<lparr>ms_supervisor := ms_supervisor ms\<rparr>, s')"
    by (simp add: supervise_def sn)
  then show ?thesis
    using sn_facts by (auto simp: refresh_managed_session_def observed_def managed_status_def Let_def)
qed

definition kill_works :: "'r child_host \<Rightarrow> nat \<Rightarrow> bool" where
  "kill_works h pid \<longleftrightarrow> (\<forall>r. fst (ch_kill h pid r)) \<and> (\<forall>r. fst (ch_wait h pid r) \<noteq> None)"

lemma end_child_killed:
  assumes "running_child h pid" and "kill_works h pid"
  shows "\<exists>code s'. end_child h pid s = (Inr code, s')"
proof -
  from running_ask [OF assms(1)] obtain s1 where s1: "ask (ch_try_wait h pid) s = (Some None, s1)" by blast
  obtain b s2 where s2: "ask (ch_kill h pid) s1 = (b, s2)" by (cases "ask (ch_kill h pid) s1")
  with assms(2) have b by (auto simp: kill_works_def ask_def split: prod.splits) (metis fst_conv)
  obtain w s3 where s3: "ask (ch_wait h pid) s2 = (w, s3)" by (cases "ask (ch_wait h pid) s2")
  with assms(2) have "w \<noteq> None" by (auto simp: kill_works_def ask_def split: prod.splits) (metis fst_conv)
  then obtain code where "w = Some code" by blast
  with s1 s2 s3 \<open>b\<close> show ?thesis by (simp add: end_child_def)
qed

lemma childless_snapshot:
  assumes "sv_child v = None"
  shows "\<exists>sn. snapshot h v s = (Inr sn, v, s) \<and> sn_port sn = sp_port (sv_plan v)
    \<and> sn_state sn = (if sv_stopped v then Stopped else Exited)"
  using assms by (simp add: snapshot_def poll_child_def snapshot_of_def Let_def split: prod.split)

lemma supervisor_stop_killed:
  assumes "running_child h pid" "kill_works h pid" and "sv_child v = Some pid"
  shows "\<exists>sn v' s'. supervisor_stop h v s = (Inr sn, v', s') \<and> sv_child v' = None
    \<and> sv_plan v' = sv_plan v \<and> sv_restarts v' = sv_restarts v"
proof -
  from end_child_killed [OF assms(1,2)] obtain code s1 where e: "end_child h pid s = (Inr code, s1)" by blast
  let ?v = "v\<lparr>sv_child := None, sv_last_exit := code, sv_stopped := True\<rparr>"
  from childless_snapshot [of ?v h s1] obtain sn where "snapshot h ?v s1 = (Inr sn, ?v, s1)" by auto
  with assms(3) e show ?thesis by (simp add: supervisor_stop_def)
qed

text \<open>Restarting a running server whose restart budget is used up stops the server and then fails:
  the session is left without a child.\<close>

theorem exhausted_restart_stops_server:
  assumes session: "map_of (mg_sessions m) key = Some ms" and child: "sv_child (ms_supervisor ms) = Some pid"
    and os: "running_child h pid" "kill_works h pid"
    and budget: "sp_max_restarts (sv_plan (ms_supervisor ms)) \<le> sv_restarts (ms_supervisor ms)"
  shows "\<exists>m' s' ms'. manager_restart h key m s = (Inl server_failed, m', s')
    \<and> map_of (mg_sessions m') key = Some ms' \<and> sv_child (ms_supervisor ms') = None"
proof -
  from running_refresh [OF os(1) child] obtain st ms1 s1
    where refresh: "refresh_managed_session h ms s = (Inr st, ms1, s1)" and ms1: "ms_supervisor ms1 = ms_supervisor ms"
    by blast
  from supervisor_stop_killed [OF os child] obtain sn v s2
    where stop: "supervisor_stop h (ms_supervisor ms) s1 = (Inr sn, v, s2)"
      and v: "sv_child v = None" "sv_plan v = sv_plan (ms_supervisor ms)" "sv_restarts v = sv_restarts (ms_supervisor ms)"
    by blast
  let ?ms2 = "ms1\<lparr>ms_supervisor := v, ms_last_exit := Some (exit_report RequestedRestart (sn_exit_code sn) (host_now h s2))\<rparr>"
  have ended: "end_before_restart h st ms1 s1 = (Inr (), ?ms2, s2)"
    using child stop by (simp add: end_before_restart_def supervise_def ms1 bindO_def)
  have "supervise (supervisor_restart h) ?ms2 s2 = (Inl server_failed, ?ms2, s2)"
    using v budget by (simp add: supervise_def supervisor_restart_def)
  then have "restart_session h ms s = (Inl server_failed, ?ms2, s2)"
    by (simp add: restart_session_def bindO_def refresh ended)
  with session v show ?thesis by (simp add: manager_restart_def on_session_def)
qed

text \<open>C40: A stop whose kill fails loses the running child: the session forgets the process, so its
  record can be removed, and the workspace started again, while the server still runs.\<close>

theorem failed_kill_orphans_server:
  assumes session: "map_of (mg_sessions m) key = Some ms" and child: "sv_child (ms_supervisor ms) = Some pid"
    and os: "running_child h pid" "\<And>r. \<not> fst (ch_kill h pid r)" and alive: "\<not> sv_stopped (ms_supervisor ms)"
  shows "\<exists>m' s'. manager_stop h key m s = (Inl server_failed, m', s')
    \<and> (\<forall>later. fst (remove_inactive h key m' later) = Inr True)"
proof -
  from running_refresh [OF os(1) child] obtain st ms1 s1
    where refresh: "refresh_managed_session h ms s = (Inr st, ms1, s1)" and ms1: "ms_supervisor ms1 = ms_supervisor ms"
    by blast
  from running_ask [OF os(1)] obtain s2 where s2: "ask (ch_try_wait h pid) s1 = (Some None, s2)" by blast
  obtain b s3 where s3: "ask (ch_kill h pid) s2 = (b, s3)" by (cases "ask (ch_kill h pid) s2")
  with os(2) [of "fst s2"] have "\<not> b" by (auto simp: ask_def split: prod.splits)
  with s2 s3 have "end_child h pid s1 = (Inl server_failed, s3)" by (simp add: end_child_def)
  with child have stop: "supervise (supervisor_stop h) ms1 s1
      = (Inl server_failed, ms1\<lparr>ms_supervisor := (ms_supervisor ms)\<lparr>sv_child := None\<rparr>\<rparr>, s3)" (is "_ = (_, ?ms2, _)")
    by (simp add: supervise_def supervisor_stop_def ms1)
  then have "stop_session h ms s = (Inl server_failed, ?ms2, s3)"
    by (simp add: stop_session_def bindO_def refresh)
  then have stopped: "manager_stop h key m s
      = (Inl server_failed, m\<lparr>mg_sessions := btree_put key ?ms2 (mg_sessions m)\<rparr>, s3)" (is "_ = (_, ?m, _)")
    using session by (simp add: manager_stop_def on_session_def)
  have "\<exists>st' ms3. refresh_managed_session h ?ms2 later = (Inr st', ms3, later)
      \<and> ss_state st' = Exited \<and> sv_child (ms_supervisor ms3) = None" for later
    using childless_snapshot [of "ms_supervisor ?ms2" h later] alive
    by (auto simp: refresh_managed_session_def bindO_def supervise_def observed_def managed_status_def Let_def)
  then have idle: "\<exists>st' ms3. refresh_managed_session h ?ms2 later = (Inr st', ms3, later)
      \<and> ss_state st' = Exited \<and> sv_child (ms_supervisor ms3) = None" for later .
  have "fst (remove_inactive h key ?m later) = Inr True" for later
  proof -
    from idle [of later] obtain st' ms3 where "refresh_managed_session h ?ms2 later = (Inr st', ms3, later)"
      "ss_state st' = Exited" "sv_child (ms_supervisor ms3) = None" by blast
    with session show ?thesis by (simp add: remove_inactive_def on_session_def bindO_def guardE_def)
  qed
  with stopped show ?thesis by blast
qed

section \<open>The pinned executable\<close>

lemma pinned_executable_Inr:
  assumes "pinned_executable h pin s = (Inr exe, s')"
  shows "s' = s \<and> (\<exists>bytes. gc_canonical (rh_client h) (rp_executable pin) (fst s) = Some exe
    \<and> gc_read (rh_client h) exe (fst s) = Some bytes \<and> rh_hex h (rh_sha256 h (as_bytes bytes)) = rp_sha256 pin)"
  using assms unfolding pinned_executable_def canonicalize_def regular_file_def sha256_file_def bindS_eq_Inr
  by (auto simp: result_simps)

lemma pinned_executable_silent: "snd (snd (pinned_executable h pin s)) = snd s"
proof -
  have "runs (\<lambda>_. False) (pinned_executable h pin)"
    unfolding pinned_executable_def canonicalize_def regular_file_def sha256_file_def by (intro runs_intros)
  then obtain cs where "snd (snd (pinned_executable h pin s)) = snd s @ cs" "list_all (\<lambda>_. False) cs"
    unfolding runs_def by blast
  then show ?thesis by (cases cs) simp_all
qed

lemma program_success_log: "snd (snd (program_success h program cwd args op code s)) = snd s @ [program # args]"
  by (simp add: program_success_def program_run_def bindS_def liftS_def Let_def split: prod.splits sum.splits)

text \<open>C36: \<open>VerifiedRojo::verify\<close> runs nothing but \<open>--version\<close> of the canonical executable, and that only
  when the digest of the file's bytes is the pinned one; what it verifies carries the pin's version
  and digest.\<close>

theorem unpinned_rojo_never_runs:
  "case verify_rojo h pin s of (m, s') \<Rightarrow>
     snd s' = snd s \<and> (\<exists>e. m = Inl e)
     \<or> (\<exists>exe bytes. gc_canonical (rh_client h) (rp_executable pin) (fst s) = Some exe
          \<and> gc_read (rh_client h) exe (fst s) = Some bytes
          \<and> rh_hex h (rh_sha256 h (as_bytes bytes)) = rp_sha256 pin
          \<and> snd s' = snd s @ [[exe, ''--version'']]
          \<and> (case m of Inl e \<Rightarrow> True
             | Inr v \<Rightarrow> v = \<lparr>vr_executable = exe, vr_version = rp_version pin, vr_sha256 = rp_sha256 pin\<rparr>))"
proof -
  obtain r s1 where pinned: "pinned_executable h pin s = (r, s1)" by (cases "pinned_executable h pin s")
  then have silent: "snd s1 = snd s" using pinned_executable_silent [of h pin s] by simp
  show ?thesis
  proof (cases r)
    case (Inl e)
    with pinned silent show ?thesis by (simp add: verify_rojo_def)
  next
    case (Inr exe)
    with pinned have "pinned_executable h pin s = (Inr exe, s1)" by simp
    from pinned_executable_Inr [OF this] have facts: "s1 = s"
      "\<exists>bytes. gc_canonical (rh_client h) (rp_executable pin) (fst s) = Some exe
        \<and> gc_read (rh_client h) exe (fst s) = Some bytes \<and> rh_hex h (rh_sha256 h (as_bytes bytes)) = rp_sha256 pin"
      by simp_all
    let ?run = "program_success h exe [] [''--version''] ''rojo version verification'' ''GIT_ROJO_VERSION_MISMATCH''"
    obtain q s2 where run: "?run s = (q, s2)" by (cases "?run s")
    then have log: "snd s2 = snd s @ [[exe, ''--version'']]" using program_success_log [of h exe "[]" "[''--version'']"] by (metis snd_conv)
    have verify: "verify_rojo h pin s = (case q of Inl e \<Rightarrow> (Inl e, s2) | Inr out \<Rightarrow>
        (bindE (parse_rojo_version (output_text out)) (\<lambda>version.
         bindE (guardE (version = rp_version pin) (command_error ''GIT_ROJO_VERSION_MISMATCH'' (cp_diagnostics out))) (\<lambda>_.
         Inr \<lparr>vr_executable = exe, vr_version = rp_version pin, vr_sha256 = rp_sha256 pin\<rparr>)), s2))"
      using pinned Inr facts(1) run
      by (auto simp: verify_rojo_def bindS_def liftS_def returnS_def bindE_def split: sum.splits)
    show ?thesis
      using facts(2) log unfolding verify
      by (cases q) (auto simp: bindE_def guardE_def split: sum.splits)
  qed
qed

section \<open>A running session\<close>

definition sample_host :: "bool \<Rightarrow> unit child_host" where
  "sample_host killable =
     \<lparr>ch_rojo = \<lparr>rh_client = scripted_client [], rh_metadata = (\<lambda>_ _. None), rh_symlink_metadata = (\<lambda>_ _. None),
        rh_sha256 = (\<lambda>_. [255, 255, 255, 255]), rh_hex = (\<lambda>_. [])\<rparr>,
      ch_spawn = (\<lambda>_ w. (None, w)), ch_try_wait = (\<lambda>_ w. (Some None, w)), ch_kill = (\<lambda>_ w. (killable, w)),
      ch_wait = (\<lambda>_ w. (Some None, w)), ch_connect = (\<lambda>_ w. (True, w)), ch_bind = (\<lambda>port w. (port = 34971, w)),
      ch_stdout = (\<lambda>_ _. Some []), ch_stderr = (\<lambda>_ _. Some [])\<rparr>"

definition sample_plan :: rojo_serve_plan where
  "sample_plan =
     \<lparr>sp_rojo = \<lparr>vr_executable = ''/rojo'', vr_version = ''7.7.1'', vr_sha256 = ''d''\<rparr>, sp_workspace_root = ''/w'',
      sp_project_file = ''/w/p'', sp_project_sha256 = ''d'', sp_port = 34872, sp_max_restarts = 0,
      sp_log_limit = 4096\<rparr>"

definition sample_session :: managed_rojo_session where
  "sample_session =
     \<lparr>ms_key = (''/w'', ''p''), ms_session_id = ''s'', ms_context_id = ''c'', ms_project_sha256 = ''d'',
      ms_rojo_version = ''7.7.1'', ms_rojo_sha256 = ''d'', ms_started_at = 0, ms_last_state = Healthy,
      ms_last_exit = None,
      ms_supervisor = \<lparr>sv_plan = sample_plan, sv_child = Some 7, sv_log = Some 7, sv_restarts = 0,
        sv_last_exit = None, sv_stopped = False\<rparr>\<rparr>"

definition sample_manager :: rojo_session_manager where
  "sample_manager = \<lparr>mg_sessions = [((''/w'', ''p''), sample_session)], mg_port_range = default_port_range\<rparr>"

lemma sample_os: "running_child (sample_host k) pid" "kill_works (sample_host True) pid"
  by (simp_all add: running_child_def kill_works_def sample_host_def)

lemma sample_seed: "port_seed (ch_rojo (sample_host k)) key = 2 ^ 32 - 1"
  by (simp add: port_seed_def session_digest_def sample_host_def be_u32_def)

theorem rojo_manager_invariant_witness:
  "btree_ordered (mg_sessions (after_call (sample_host True) ListSessions (manager_new default_port_range) ((), [])))
   \<and> distinct (reserved_ports (after_call (sample_host True) ListSessions (manager_new default_port_range) ((), [])))"
proof -
  have "port_range_create 34872 34971 = Inr default_port_range" by (simp add: port_range_create_def default_port_range_def)
  from rojo_manager_invariant [OF this _ reachable_manager.call [OF reachable_manager.new], of "sample_host True" ListSessions "((), [])"]
  show ?thesis by simp
qed

theorem free_port_found_witness:
  "\<exists>found. fst (select_port ((sample_host True)\<lparr>ch_rojo := (ch_rojo (sample_host True))\<lparr>rh_sha256 := (\<lambda>_. [0, 0, 0, 0])\<rparr>\<rparr>)
     sample_manager (''/w'', ''q'') ((), [])) = Inr found"
  by (rule free_port_found [of _ _ _ 34971])
     (simp_all add: sample_manager_def sample_host_def range_ok_def default_port_range_def reserved_ports_def
        sample_session_def sample_plan_def port_seed_def session_digest_def be_u32_def port_range_len_def)

theorem wrapped_seed_skips_free_port_witness:
  "fst (select_port (sample_host True) sample_manager (''/w'', ''q'') ((), []))
     = Inl (error_new ''GIT_ROJO_PORT_UNAVAILABLE'')
   \<and> fst (ch_bind (sample_host True) 34971 ())"
  using wrapped_seed_skips_free_port [of sample_manager "sample_host True" "(''/w'', ''q'')" "((), [])"] sample_seed
  by (simp add: sample_manager_def sample_host_def)

theorem exhausted_restart_stops_server_witness:
  "\<exists>m' s' ms'. manager_restart (sample_host True) (''/w'', ''p'') sample_manager ((), []) = (Inl server_failed, m', s')
    \<and> map_of (mg_sessions m') (''/w'', ''p'') = Some ms' \<and> sv_child (ms_supervisor ms') = None"
  by (rule exhausted_restart_stops_server [OF _ _ sample_os, of _ _ sample_session 7])
     (simp_all add: sample_manager_def sample_session_def sample_plan_def)

theorem failed_kill_orphans_server_witness:
  "\<exists>m' s'. manager_stop (sample_host False) (''/w'', ''p'') sample_manager ((), []) = (Inl server_failed, m', s')
    \<and> (\<forall>later. fst (remove_inactive (sample_host False) (''/w'', ''p'') m' later) = Inr True)"
  by (rule failed_kill_orphans_server [OF _ _ sample_os(1), of _ _ sample_session 7])
     (simp_all add: sample_manager_def sample_session_def sample_host_def)

end
