(* ===== verification/Spec2Isabelle.thy ===== *)
theory Spec2Isabelle
  imports ArtState ReleaseLifecycle BridgePairing BridgeSession HubGuarantees CoreOrchestrator RojoGuarantees
begin

text \<open>
  \<^bold>\<open>NeuMan: what is modelled and what is shown\<close>

  NeuMan synchronizes Roblox art and code between Studio, a developer's machine and a shared
  server. The Rust code has a domain library (\<open>src/domain.rs\<close>), the local ledger and release gates
  (\<open>src/core.rs\<close>), the loopback bridge a Studio plug-in talks to (\<open>src/bridge.rs\<close>) and the Hub, an
  HTTP service over SQLite and a content-addressed store (\<open>src/hub.rs\<close>, \<open>src/schemas/hub.sql\<close>).
  Every theory below models one part in the order of its code; operations are functions of an
  explicit state, errors are values of a sum type, and what is not under \<open>src/\<close> (hash functions,
  hex, UUIDs, JSON text, the file system, clocks, random bytes) is an argument. Documented
  behaviour of such code appears as named hypotheses (\<open>uuid_contract\<close>, \<open>hex_contract\<close>,
  \<open>collision_free_on\<close>, \<open>sha256_collision_free\<close>), each satisfied by a concrete instance in a witness.

  \<^bold>\<open>The domain.\<close>
  \<^item> \<open>NM_Prelude\<close>: fallible computations, byte texts, JSON values, file system faults, and the
    interface locales (\<open>canonical_text\<close>, \<open>invariant_steps\<close>, \<open>monotone_steps\<close>, \<open>budgeted_steps\<close>).
  \<^item> \<open>RustText\<close>: the operations of \<open>str\<close> the parts share (trimming, splitting, lines, folding).
  \<^item> \<open>Base32\<close>: the three encoders and the decoder on 32-bit accumulators, against one
    specification by bits; round trip and agreement.
  \<^item> \<open>Identity\<close>: \<open>Display\<close> and \<open>FromStr\<close> of the durable identifiers, as instances of \<open>canonical_text\<close>.
  \<^item> \<open>ArtState\<close>: the state root of an art revision (\<open>compute_state_root\<close>) as a binary hash tree,
    and that a root determines cells and snapshots unless BLAKE3 collides.
  \<^item> \<open>ReleaseLifecycle\<close>: the release state machine, the preflight gates and the ledger's release
    table, whose transition reads and writes in two separate statements.

  \<^bold>\<open>The workspace\<close> (\<open>core.rs\<close>).
  \<^item> \<open>CoreManifest\<close>: the project manifest, its bounded parser and every cross-field check; what a
    valid manifest guarantees of ownership, targets and credentials.
  \<^item> \<open>CoreLedger\<close>: the local tables for art, captures and Hub imports, and the invariant all
    statements keep, in any order and with stale reads.
  \<^item> \<open>CoreStore\<close>: \<open>ContentStore\<close>, with failing calls and lost races.
  \<^item> \<open>CoreOrchestrator\<close>: \<open>LocalStudioOrchestrator\<close> and the import tool: transfers (whose quarantined
    file is removed once object and ledger entry are durable), captures on the accepted head, Hub
    imports; that an accepted capture extends exactly the head its transaction found, that imports
    carry the announced root and keep the parent's cells, and that retries change nothing.

  \<^bold>\<open>Git and Rojo\<close> (\<open>git_rojo.rs\<close>). The operating system is a record of functions on a world of any
  type; a Git action also logs the commands it runs.
  \<^item> \<open>RustMap\<close>: \<open>BTreeMap\<close> as its entries in key order, shared with \<open>CoreOrchestrator\<close>.
  \<^item> \<open>GitText\<close>: redaction and the checks of names, paths, object ids, remotes and configuration.
  \<^item> \<open>GitClient\<close>, \<open>GitWorktree\<close>: \<open>GitClient\<close> with its captures, inspection, fetch, update, and the
    build worktrees with their receipts. The hooks override is the one of Unix builds.
  \<^item> \<open>GitGuarantees\<close>, \<open>GitTrust\<close>: which commands an action can run and when it changes a repository,
    by composing \<open>runs\<close> over the code's sequence; what a capture and an inspection keep of the
    texts, and where the checks of untrusted repositories fail. Commands are stated with every
    argument spelled out, overrides included.
  \<^item> \<open>RojoBuild\<close>: the pinned executable, build and serve plans. \<open>RojoSessions\<close>: the supervisor and the
    session manager. \<open>RojoGuarantees\<close>: the manager's invariant over all calls, ports, lost servers.

  \<^bold>\<open>The bridge.\<close>
  \<^item> \<open>BridgeWire\<close>: errors, identifier and hash checks, version negotiation, hello and context.
  \<^item> \<open>BridgeSequence\<close>: \<open>SequenceGuard\<close>, with a window of 1024 accepted messages.
  \<^item> \<open>BridgeTransfer\<close>: \<open>TransferManager\<close> over a file system whose calls may fail or tear.
  \<^item> \<open>BridgePairing\<close>: challenges, approvals, credentials and revocation in any interleaving.
  \<^item> \<open>BridgeFanout\<close>: validation of incoming revisions, fan-out, binding changes, download tickets.
    Between reading the binding, listing the sessions and each send, other tasks may change the
    shared state arbitrarily (\<open>intf\<close>); the loop runs over a snapshot and sends on the live channels.
  \<^item> \<open>BridgeSession\<close>: \<open>process_envelope\<close> with every message and the turns of \<open>session_loop\<close>; other
    tasks interfere at the await points. The orchestrator is handed the content of a verified
    upload's file and leaves another content or none, as the workspace's own removes it.

  \<^bold>\<open>The Hub.\<close>
  \<^item> \<open>HubModel\<close>: \<open>HubError\<close>, roles and permissions, the validators, and the tables as lists of rows;
    the schema's keys and references are checked by the insert of each table.
  \<^item> \<open>HubCore\<close>: authentication, authorization, idempotency records, the audit chain and the outbox.
    The frame every mutation shares (\<open>idempotent_mutation\<close>) has the locale \<open>hub_mutation\<close>, whose laws
    each operation's own part discharges: log tables are only written by the frame, and an answer
    reads back. Replay, growth of the log, audit integrity and tamper evidence follow once.
  \<^item> \<open>HubProjects\<close>, \<open>HubLeases\<close>, \<open>HubObjects\<close>, \<open>HubArt\<close>, \<open>HubReleases\<close>: the operations of
    \<open>SqliteRepository\<close> on projects and members, leases, objects, art and builds and releases, with
    the refinement of the membership table by a map of roles, lease exclusion, the integrity of
    the content store, the linear history of a channel and the approval of a release.
  \<^item> \<open>HubEvents\<close>: signed cursors, event and audit pages, the broadcast, maintenance and presence.
    A page is compared with the history of all events, of which maintenance keeps a final part.
  \<^item> \<open>HubRun\<close>: every operation of the repository as a step on database and file system, and runs of
    such steps and of maintenance from the empty schema. Each operation is its own change of the
    tables (\<open>domain_step\<close>) with new log tables (\<open>relogged\<close>), so an invariant is checked once per change.
  \<^item> \<open>HubGuarantees\<close>: what holds in every run, and a concrete run through leases, a release and an
    upload that instantiates it.
  \<^bold>\<open>Bounds and fuel.\<close> The only fuel is that of \<open>drop_white\<close> (\<open>str::trim\<close>), the length of the text:
  every round but the last removes a character. Loops over lists are structural, the others have
  a measure. The Hub's \<open>i64\<close> columns are integers: sizes are bounded by the quotas and times by the
  clock, far below \<open>2 ^ 63\<close>; a cursor's number is parsed with its range.

  \<^bold>\<open>Atomic steps.\<close> \<open>request_apply\<close> and \<open>notify_incoming_revision\<close> are single steps on the sessions they
  look up, although the code waits within them; the Hub's mutations are SQLite transactions.

  \<^bold>\<open>Not modelled.\<close> Socket handling, HTTP routing and parsing, the WebSocket upgrade and the user
  interfaces (\<open>neuman_desktop.rs\<close>, \<open>hub_desktop.rs\<close>, \<open>neuman_cli.rs\<close>, \<open>rojo_desktop_config.rs\<close>) are
  glue over the modelled parts. \<open>roblox_oauth.rs\<close>, \<open>github_app.rs\<close> and \<open>roblox_resources.rs\<close> are clients of
  HTTP services whose answers they mostly pass on. In \<open>core.rs\<close> the build and bundle rows, PKCE and
  the publisher are left out; the build and bundle identity of \<open>domain.rs\<close> is a hash of text a
  third-party serializer writes. Error messages, the environment of child processes and Windows
  paths are left out of \<open>git_rojo.rs\<close>.
\<close>

end
